(* ===== verification/Plv_Prelude.thy ===== *)
theory Plv_Prelude
  imports Main "HOL-Library.Word"
begin

text \<open>
  Shared vocabulary of the development: the machine types of the C++ sources, the exceptions and
  assertion failures the code can raise, the state-and-exception monad in which the stateful
  operations are written, and the generic lemmas the component theories use.

  An operation that changes objects is a function from a state to a result and a new state.  The
  result is \<open>Inr\<close> of the returned value, or \<open>Inl\<close> of the exception that left the function; the state
  changes made before the exception stay, as they do in the program.  A failing \<open>assert\<close> (the code
  keeps them in debug builds) is the result \<open>Inl AssertFailed\<close>.
\<close>

section \<open>Machine types\<close>

type_synonym u32 = "32 word"

text \<open>The serial numbers of frames are \<open>unsigned int\<close>, 32 bits wide on the supported platforms.\<close>

type_synonym serial = u32

text \<open>Object identities: the address of a pipeline element, a pin or a connection.\<close>

type_synonym ref = nat

section \<open>Exceptions\<close>

text \<open>
  \<open>PlvExceptions.h\<close> and the exception classes nested in \<open>PinConnection\<close>.  \<open>StdRuntimeError\<close> is
  \<open>std::runtime_error\<close>, \<open>UnknownException\<close> anything only \<open>catch(...)\<close> sees.  \<open>AssertFailed\<close>
  and \<open>NullPointer\<close> are not C++ exceptions: no handler catches them.
\<close>

datatype plv_exn =
    AssertFailed
  | NullPointer
  | PlvException string
  | RuntimeError string
  | IllegalArgumentException string
  | IllegalConnectionException string
  | IncompatibleTypeException string
  | DuplicateConnectionException string
  | StdRuntimeError string
  | UnknownException

section \<open>State and exceptions\<close>

type_synonym ('s, 'a) plvM = "'s \<Rightarrow> (plv_exn + 'a) \<times> 's"

definition returnM :: "'a \<Rightarrow> ('s, 'a) plvM" where
  "returnM x s = (Inr x, s)"

definition throwM :: "plv_exn \<Rightarrow> ('s, 'a) plvM" where
  "throwM e s = (Inl e, s)"

definition bindM :: "('s, 'a) plvM \<Rightarrow> ('a \<Rightarrow> ('s, 'b) plvM) \<Rightarrow> ('s, 'b) plvM" where
  "bindM m f s = (case m s of (Inl e, s') \<Rightarrow> (Inl e, s') | (Inr x, s') \<Rightarrow> f x s')"

definition seqM :: "('s, unit) plvM \<Rightarrow> ('s, 'b) plvM \<Rightarrow> ('s, 'b) plvM" where
  "seqM m n = bindM m (\<lambda>_. n)"

definition getM :: "('s \<Rightarrow> 'a) \<Rightarrow> ('s, 'a) plvM" where
  "getM f s = (Inr (f s), s)"

definition modifyM :: "('s \<Rightarrow> 's) \<Rightarrow> ('s, unit) plvM" where
  "modifyM f s = (Inr (), f s)"

definition assertM :: "bool \<Rightarrow> ('s, unit) plvM" where
  "assertM b s = (if b then Inr () else Inl AssertFailed, s)"

fun forM :: "('a \<Rightarrow> ('s, unit) plvM) \<Rightarrow> 'a list \<Rightarrow> ('s, unit) plvM" where
  "forM f [] s = (Inr (), s)"
| "forM f (x # xs) s = (case f x s of (Inl e, s') \<Rightarrow> (Inl e, s') | (Inr u, s') \<Rightarrow> forM f xs s')"

named_theorems monad_defs "one-step unfolding of the state and exception monad"

lemmas [monad_defs] =
  returnM_def throwM_def bindM_def seqM_def getM_def modifyM_def assertM_def

text \<open>Inversion of a successful run.\<close>

lemma bindM_Inr_iff:
  "bindM m f s = (Inr y, s'') \<longleftrightarrow> (\<exists>x s'. m s = (Inr x, s') \<and> f x s' = (Inr y, s''))"
  by (auto simp: bindM_def split: prod.splits sum.splits)

lemma seqM_Inr_iff:
  "seqM m n s = (Inr y, s'') \<longleftrightarrow> (\<exists>s'. m s = (Inr (), s') \<and> n s' = (Inr y, s''))"
  by (auto simp: seqM_def bindM_Inr_iff)

lemma returnM_Inr_iff: "returnM x s = (Inr y, s') \<longleftrightarrow> y = x \<and> s' = s"
  by (auto simp: returnM_def)

lemma throwM_Inr_iff: "throwM e s = (Inr y, s') \<longleftrightarrow> False"
  by (simp add: throwM_def)

lemma getM_Inr_iff: "getM f s = (Inr y, s') \<longleftrightarrow> y = f s \<and> s' = s"
  by (auto simp: getM_def)

lemma modifyM_Inr_iff: "modifyM f s = (Inr y, s') \<longleftrightarrow> s' = f s"
  by (auto simp: modifyM_def)

lemma assertM_Inr_iff: "assertM b s = (Inr y, s') \<longleftrightarrow> b \<and> s' = s"
  by (auto simp: assertM_def)

lemmas run_simps =
  bindM_Inr_iff seqM_Inr_iff returnM_Inr_iff throwM_Inr_iff getM_Inr_iff modifyM_Inr_iff
  assertM_Inr_iff

lemma forM_append:
  "forM f (xs @ ys) s = (case forM f xs s of (Inl e, s') \<Rightarrow> (Inl e, s') | (Inr u, s') \<Rightarrow> forM f ys s')"
  by (induction xs arbitrary: s) (auto split: prod.splits sum.splits)

text \<open>An invariant of every iteration is an invariant of the loop, whether or not it is left by an
  exception.\<close>

lemma forM_invariant:
  assumes "I s"
    and "\<And>x t. x \<in> set xs \<Longrightarrow> I t \<Longrightarrow> I (snd (f x t))"
  shows "I (snd (forM f xs s))"
  using assms
proof (induction xs arbitrary: s)
  case Nil
  then show ?case by simp
next
  case (Cons x xs)
  from Cons.prems have step: "I (snd (f x s))" by simp
  show ?case
  proof (cases "f x s")
    case (Pair r t)
    show ?thesis
    proof (cases r)
      case (Inl e)
      with Pair step show ?thesis by simp
    next
      case (Inr u)
      have "I (snd (forM f xs t))"
        using Cons.prems(2) step Pair by (intro Cons.IH) auto
      with Pair Inr show ?thesis by simp
    qed
  qed
qed

text \<open>A loop whose iterations all succeed under an invariant succeeds.\<close>

lemma forM_total:
  assumes "I s"
    and "\<And>x t. x \<in> set xs \<Longrightarrow> I t \<Longrightarrow> \<exists>t'. f x t = (Inr (), t') \<and> I t'"
  shows "\<exists>s'. forM f xs s = (Inr (), s') \<and> I s'"
  using assms
proof (induction xs arbitrary: s)
  case Nil
  then show ?case by simp
next
  case (Cons x xs)
  from Cons.prems obtain t where t: "f x s = (Inr (), t)" "I t" by force
  then obtain s' where "forM f xs t = (Inr (), s') \<and> I s'"
    using Cons.prems(2) by (metis Cons.IH list.set_intros(2))
  with t show ?case by auto
qed

section \<open>Generic lemmas\<close>

lemma last_index_split:
  assumes "x \<in> set xs"
  obtains ys zs where "xs = ys @ x # zs" and "x \<notin> set zs"
  using assms by (metis split_list_last)

lemma filter_neq_remove1: "distinct xs \<Longrightarrow> filter (\<lambda>y. y \<noteq> x) xs = remove1 x xs"
  by (induction xs) (auto simp: filter_id_conv)

lemma find_SomeD: "find P xs = Some x \<Longrightarrow> x \<in> set xs \<and> P x"
  by (auto simp: find_Some_iff)

end
