(* ===== verification/Qt_Containers.thy ===== *)
theory Qt_Containers
  imports Plv_Prelude
begin

text \<open>
  The associative containers the sources keep their objects in.  A \<open>QMap\<close> is an association list
  in strictly ascending key order, so that a loop over the list visits the entries in the order in
  which a \<open>QMapIterator\<close> does.  A \<open>QHash\<close> is an association list with distinct keys; Qt does not
  specify the order in which it is iterated, and no theorem of the development depends on the order
  of the list.  The contract a client relies on is the locale \<open>dict\<close>, which both provide.

  The second half holds the two loops with which the program looks for an unused id: the scan of
  a \<open>QMap\<close> in key order (\<open>Pipeline::getNewPipelineElementId\<close>, \<open>Pipeline::getNewPinConnectionId\<close>)
  and the probing of a \<open>QHash\<close> (\<open>DataConsumer::getNextInputPinId\<close>,
  \<open>DataProducer::getNextOutputPinId\<close>).  Both satisfy the contract \<open>id_source\<close>: what they return is
  not a key of the container, so storing a new object under it replaces nothing.
\<close>

section \<open>The contract of a dictionary\<close>

locale dict =
  fixes empty :: "'m"
    and ins :: "'k \<Rightarrow> 'v \<Rightarrow> 'm \<Rightarrow> 'm"
    and del :: "'k \<Rightarrow> 'm \<Rightarrow> 'm"
    and val :: "'m \<Rightarrow> 'k \<Rightarrow> 'v option"
    and invar :: "'m \<Rightarrow> bool"
  assumes val_empty: "val empty k = None"
    and val_ins: "invar m \<Longrightarrow> val (ins k v m) = (val m)(k := Some v)"
    and val_del: "invar m \<Longrightarrow> val (del k m) = (val m)(k := None)"
    and invar_empty: "invar empty"
    and invar_ins: "invar m \<Longrightarrow> invar (ins k v m)"
    and invar_del: "invar m \<Longrightarrow> invar (del k m)"
begin

lemma val_ins_same: "invar m \<Longrightarrow> val (ins k v m) k = Some v"
  by (simp add: val_ins)

lemma val_ins_other: "invar m \<Longrightarrow> k' \<noteq> k \<Longrightarrow> val (ins k v m) k' = val m k'"
  by (simp add: val_ins)

lemma dom_ins: "invar m \<Longrightarrow> dom (val (ins k v m)) = insert k (dom (val m))"
  by (simp add: val_ins)

lemma dom_del: "invar m \<Longrightarrow> dom (val (del k m)) = dom (val m) - {k}"
  by (auto simp: val_del)

lemma del_ins_fresh:
  "invar m \<Longrightarrow> val m k = None \<Longrightarrow> val (del k (ins k v m)) = val m"
  by (simp add: val_del val_ins invar_ins fun_upd_idem)

end

text \<open>A dictionary together with a way to get a key that is not in use.\<close>

locale id_source = dict empty ins del val invar
  for empty :: "'m" and ins :: "'k \<Rightarrow> 'v \<Rightarrow> 'm \<Rightarrow> 'm" and del :: "'k \<Rightarrow> 'm \<Rightarrow> 'm"
    and val :: "'m \<Rightarrow> 'k \<Rightarrow> 'v option" and invar :: "'m \<Rightarrow> bool" +
  fixes newid :: "'m \<Rightarrow> 'k"
  assumes newid_fresh: "invar m \<Longrightarrow> val m (newid m) = None"
begin

lemma newid_keeps:
  assumes "invar m" and "val m k = Some w"
  shows "val (ins (newid m) v m) k = Some w"
proof -
  from assms newid_fresh have "k \<noteq> newid m" by force
  with assms show ?thesis by (simp add: val_ins_other)
qed

lemma newid_extends: "invar m \<Longrightarrow> val m \<subseteq>\<^sub>m val (ins (newid m) v m)"
  by (auto simp: map_le_def val_ins newid_fresh)

lemma newid_undo: "invar m \<Longrightarrow> val (del (newid m) (ins (newid m) v m)) = val m"
  by (simp add: del_ins_fresh newid_fresh)

end

section \<open>QMap\<close>

type_synonym ('k, 'v) qmap = "('k \<times> 'v) list"

fun qm_insert :: "'k::linorder \<Rightarrow> 'v \<Rightarrow> ('k, 'v) qmap \<Rightarrow> ('k, 'v) qmap" where
  "qm_insert k v [] = [(k, v)]"
| "qm_insert k v ((k', v') # m) =
     (if k < k' then (k, v) # (k', v') # m
      else if k = k' then (k, v) # m
      else (k', v') # qm_insert k v m)"

definition qm_remove :: "'k \<Rightarrow> ('k \<times> 'v) list \<Rightarrow> ('k \<times> 'v) list" where
  "qm_remove k m = filter (\<lambda>p. fst p \<noteq> k) m"

definition qm_contains :: "'k \<Rightarrow> ('k \<times> 'v) list \<Rightarrow> bool" where
  "qm_contains k m = (k \<in> set (map fst m))"

definition qm_inv :: "('k::linorder, 'v) qmap \<Rightarrow> bool" where
  "qm_inv m = sorted_wrt (<) (map fst m)"

lemma qm_inv_simps [simp]:
  "qm_inv []"
  "qm_inv ((k, v) # m) \<longleftrightarrow> (\<forall>k' \<in> fst ` set m. k < k') \<and> qm_inv m"
  by (auto simp: qm_inv_def)

lemma qm_inv_distinct: "qm_inv m \<Longrightarrow> distinct (map fst m)"
  unfolding qm_inv_def by (metis strict_sorted_iff)

lemma fst_set_qm_insert: "fst ` set (qm_insert k v m) = insert k (fst ` set m)"
  by (induction k v m rule: qm_insert.induct) auto

lemma qm_inv_insert: "qm_inv m \<Longrightarrow> qm_inv (qm_insert k v m)"
  by (induction k v m rule: qm_insert.induct) (auto simp: fst_set_qm_insert)

lemma qm_inv_remove: "qm_inv m \<Longrightarrow> qm_inv (qm_remove k m)"
  by (induction m) (auto simp: qm_remove_def)

lemma map_of_above_None: "\<forall>k' \<in> fst ` set m. (k::'k::linorder) < k' \<Longrightarrow> map_of m k = None"
  by (induction m) auto

lemma map_of_qm_insert: "qm_inv m \<Longrightarrow> map_of (qm_insert k v m) = (map_of m)(k \<mapsto> v)"
  by (induction k v m rule: qm_insert.induct) (auto simp: map_of_above_None fun_upd_twist)

lemma map_of_qm_remove: "map_of (qm_remove k m) = (map_of m)(k := None)"
  by (induction m) (auto simp: qm_remove_def)

lemma qm_contains_iff: "qm_contains k m \<longleftrightarrow> map_of m k \<noteq> None"
  by (auto simp: qm_contains_def map_of_eq_None_iff)

interpretation qm: dict "[] :: (int \<times> 'v) list" qm_insert qm_remove map_of qm_inv
  by unfold_locales
    (simp_all add: map_of_qm_insert map_of_qm_remove qm_inv_insert qm_inv_remove)

section \<open>QHash\<close>

text \<open>An existing key keeps its place, a new one goes to the end of the list.\<close>

fun qh_insert :: "'k \<Rightarrow> 'v \<Rightarrow> ('k \<times> 'v) list \<Rightarrow> ('k \<times> 'v) list" where
  "qh_insert k v [] = [(k, v)]"
| "qh_insert k v ((k', v') # m) = (if k = k' then (k, v) # m else (k', v') # qh_insert k v m)"

definition qh_inv :: "('k \<times> 'v) list \<Rightarrow> bool" where
  "qh_inv m = distinct (map fst m)"

lemma map_of_qh_insert: "map_of (qh_insert k v m) = (map_of m)(k \<mapsto> v)"
  by (induction k v m rule: qh_insert.induct) (auto simp: fun_upd_twist)

lemma fst_set_qh_insert: "fst ` set (qh_insert k v m) = insert k (fst ` set m)"
  by (induction k v m rule: qh_insert.induct) auto

lemma qh_inv_insert: "qh_inv m \<Longrightarrow> qh_inv (qh_insert k v m)"
  by (induction k v m rule: qh_insert.induct) (auto simp: qh_inv_def fst_set_qh_insert)

lemma qh_inv_remove: "qh_inv m \<Longrightarrow> qh_inv (qm_remove k m)"
  by (induction m) (auto simp: qh_inv_def qm_remove_def)

lemma qh_inv_Nil: "qh_inv []"
  by (simp add: qh_inv_def)

lemma qh_insert_fresh: "map_of m k = None \<Longrightarrow> qh_insert k v m = m @ [(k, v)]"
  by (induction k v m rule: qh_insert.induct) (auto split: if_splits)

interpretation qh: dict "[] :: ('k \<times> 'v) list" qh_insert qm_remove map_of qh_inv
  by unfold_locales
    (simp_all add: map_of_qh_insert map_of_qm_remove qh_inv_insert qh_inv_remove qh_inv_Nil)

section \<open>Searching for an unused id\<close>

text \<open>
  The scan of a \<open>QMap\<close>: \<open>i\<close> counts the entries passed, and the loop stops at the first key that is
  larger.
\<close>

fun newIdScan :: "int \<Rightarrow> (int \<times> 'v) list \<Rightarrow> int" where
  "newIdScan i [] = i"
| "newIdScan i ((k, v) # m) = (if k > i then i else newIdScan (i + 1) m)"

text \<open>The probing of a \<open>QHash\<close>: \<open>i\<close> is increased while it is a key.\<close>

function nextIdProbe :: "int \<Rightarrow> (int \<times> 'v) list \<Rightarrow> int" where
  "nextIdProbe i m = (if qm_contains i m then nextIdProbe (i + 1) m else i)"
  by pat_completeness auto
termination
proof (relation "measure (\<lambda>(i, m). card {k \<in> fst ` set m. i \<le> k})")
  show "wf (measure (\<lambda>(i, m). card {k \<in> fst ` set m. i \<le> k}))" by simp
next
  fix i :: int and m :: "(int \<times> 'v) list"
  assume "qm_contains i m"
  then have "i \<in> {k \<in> fst ` set m. i \<le> k} - {k \<in> fst ` set m. i + 1 \<le> k}"
    by (simp add: qm_contains_def)
  moreover have "{k \<in> fst ` set m. i + 1 \<le> k} \<subseteq> {k \<in> fst ` set m. i \<le> k}" by auto
  ultimately have "{k \<in> fst ` set m. i + 1 \<le> k} \<subset> {k \<in> fst ` set m. i \<le> k}" by blast
  then show "((i + 1, m), (i, m)) \<in> measure (\<lambda>(i, m). card {k \<in> fst ` set m. i \<le> k})"
    by (simp add: psubset_card_mono)
qed

declare nextIdProbe.simps [simp del]

lemma newIdScan_ge: "i \<le> newIdScan i m"
  by (induction i m rule: newIdScan.induct) (auto intro: order_trans)

text \<open>The scan never returns a key, whatever keys the map holds.\<close>

lemma newIdScan_fresh:
  "qm_inv m \<Longrightarrow> newIdScan i m \<notin> fst ` set m"
proof (induction i m rule: newIdScan.induct)
  case (1 i)
  then show ?case by simp
next
  case (2 i k v m)
  show ?case
  proof (cases "k > i")
    case True
    with "2.prems" show ?thesis by force
  next
    case False
    have "i + 1 \<le> newIdScan (i + 1) m" by (rule newIdScan_ge)
    with False have "newIdScan (i + 1) m \<noteq> k" by linarith
    with False "2.IH" "2.prems" show ?thesis by simp
  qed
qed

text \<open>On keys that are all at least the start value it returns the least id that is free.\<close>

lemma newIdScan_below:
  "qm_inv m \<Longrightarrow> \<forall>k \<in> fst ` set m. i \<le> k \<Longrightarrow> i \<le> j \<Longrightarrow> j < newIdScan i m \<Longrightarrow> j \<in> fst ` set m"
proof (induction i m rule: newIdScan.induct)
  case (1 i)
  then show ?case by simp
next
  case (2 i k v m)
  show ?case
  proof (cases "k > i")
    case True
    with "2.prems" show ?thesis by simp
  next
    case False
    with "2.prems"(2) have k: "k = i" by simp
    with "2.prems"(1) have "\<forall>k \<in> fst ` set m. i + 1 \<le> k" by auto
    with False "2.IH" "2.prems" k show ?thesis by (cases "j = i") auto
  qed
qed

lemma nextIdProbe_fresh: "nextIdProbe i m \<notin> fst ` set m"
proof (induction i m rule: nextIdProbe.induct)
  case (1 i m)
  then show ?case
    by (cases "qm_contains i m") (auto simp: nextIdProbe.simps [of i m] qm_contains_def)
qed

lemma nextIdProbe_below:
  "i \<le> j \<Longrightarrow> j < nextIdProbe i m \<Longrightarrow> j \<in> fst ` set m"
proof (induction i m rule: nextIdProbe.induct)
  case (1 i m)
  then show ?case
    by (cases "qm_contains i m"; cases "j = i")
      (auto simp: nextIdProbe.simps [of i m] qm_contains_def)
qed

lemma nextIdProbe_ge: "i \<le> nextIdProbe i m"
proof (induction i m rule: nextIdProbe.induct)
  case (1 i m)
  then show ?case
    by (cases "qm_contains i m") (auto simp: nextIdProbe.simps [of i m])
qed

interpretation scan_ids: id_source "[] :: (int \<times> 'v) list" qm_insert qm_remove map_of qm_inv "newIdScan 0"
  by unfold_locales (simp add: map_of_eq_None_iff newIdScan_fresh)

interpretation probe_ids: id_source "[] :: (int \<times> 'v) list" qh_insert qm_remove map_of qh_inv "nextIdProbe 0"
  by unfold_locales (simp add: map_of_eq_None_iff nextIdProbe_fresh)

end
