(* ===== verification/Qt_Strings.thy ===== *)
theory Qt_Strings
  imports Main
begin

text \<open>
  Decimal numbers in strings: \<open>QString::number\<close> (also \<open>arg(int)\<close> and \<open>setAttribute(int)\<close>) and
  \<open>QString::toInt\<close> as the pipeline loader and the error messages use them.  \<open>toInt\<close> gives 0 for a
  string that is not a decimal number; the loader uses that value and no conversion flag.
\<close>

definition digit_char :: "nat \<Rightarrow> char" where
  "digit_char d = char_of (48 + d)"

fun qs_nat :: "nat \<Rightarrow> string" where
  "qs_nat n = (if n < 10 then [digit_char n] else qs_nat (n div 10) @ [digit_char (n mod 10)])"

declare qs_nat.simps [simp del]

definition qs_number :: "int \<Rightarrow> string" where
  "qs_number i = (if i < 0 then CHR ''-'' # qs_nat (nat (- i)) else qs_nat (nat i))"

definition is_digit :: "char \<Rightarrow> bool" where
  "is_digit c \<longleftrightarrow> 48 \<le> (of_char c :: nat) \<and> (of_char c :: nat) \<le> 57"

definition digit_val :: "char \<Rightarrow> nat" where
  "digit_val c = of_char c - 48"

definition digits_val :: "string \<Rightarrow> nat" where
  "digits_val cs = foldl (\<lambda>n c. 10 * n + digit_val c) 0 cs"

definition qs_toInt :: "string \<Rightarrow> int" where
  "qs_toInt s =
     (case s of
        [] \<Rightarrow> 0
      | c # cs \<Rightarrow>
          (if c = CHR ''-'' then
             (if cs \<noteq> [] \<and> list_all is_digit cs then - int (digits_val cs) else 0)
           else if list_all is_digit s then int (digits_val s) else 0))"

lemma of_char_digit: "d < 10 \<Longrightarrow> (of_char (digit_char d) :: nat) = 48 + d"
  by (simp add: digit_char_def)

lemma is_digit_char: "d < 10 \<Longrightarrow> is_digit (digit_char d)"
  by (simp add: is_digit_def of_char_digit)

lemma digit_val_char: "d < 10 \<Longrightarrow> digit_val (digit_char d) = d"
  by (simp add: digit_val_def of_char_digit)

lemma digits_val_snoc: "digits_val (cs @ [c]) = 10 * digits_val cs + digit_val c"
  by (simp add: digits_val_def)

lemma qs_nat_digits: "list_all is_digit (qs_nat n) \<and> digits_val (qs_nat n) = n \<and> qs_nat n \<noteq> []"
proof (induction n rule: qs_nat.induct)
  case (1 n)
  show ?case
  proof (cases "n < 10")
    case True
    then show ?thesis
      by (subst (1 2 3) qs_nat.simps) (simp add: is_digit_char digits_val_def digit_val_char)
  next
    case False
    with "1.IH" show ?thesis
      by (simp add: qs_nat.simps [of n] is_digit_char digits_val_snoc digit_val_char)
  qed
qed

lemma minus_not_digit: "\<not> is_digit (CHR ''-'')"
  by (simp add: is_digit_def)

text \<open>Printing and reading back is the identity.\<close>

lemma qs_toInt_number: "qs_toInt (qs_number i) = i"
proof (cases "i < 0")
  case True
  then show ?thesis
    using qs_nat_digits [of "nat (- i)"] by (simp add: qs_number_def qs_toInt_def)
next
  case False
  with qs_nat_digits [of "nat i"] obtain c cs where
    "qs_nat (nat i) = c # cs" "list_all is_digit (c # cs)" "digits_val (c # cs) = nat i"
    by (metis list.exhaust)
  with False minus_not_digit show ?thesis
    by (auto simp: qs_number_def qs_toInt_def)
qed

lemma qs_number_inject: "qs_number i = qs_number j \<longleftrightarrow> i = j"
  by (metis qs_toInt_number)

end
