(* ===== verification/Plv_Enum.thy ===== *)
theory Plv_Enum
  imports Qt_Containers Qt_Strings
begin

text \<open>
  \<open>plv::Enum\<close> (\<open>include/plvcore/Enum.h\<close>, \<open>src/plvcore/Enum.cpp\<close>): the type of the selectable
  properties of processors.  The items are kept in a \<open>QMap\<close> from an index to a name and a value; the
  pipeline loader saves the name of the selected item and restores the selection from that name.
\<close>

section \<open>Model\<close>

record EnumPair =
  m_name :: string
  m_value :: int

record Enum =
  m_selectedIndex :: int
  m_items :: "(int, EnumPair) qmap"

definition enum_new :: "int \<Rightarrow> Enum" where
  "enum_new selected = \<lparr>m_selectedIndex = selected, m_items = []\<rparr>"

definition setSelectedIndex :: "int \<Rightarrow> (Enum, unit) plvM" where
  "setSelectedIndex i =
     bindM (getM m_items) (\<lambda>items.
     seqM (assertM (qm_contains i items))
       (modifyM (\<lambda>e. e\<lparr>m_selectedIndex := i\<rparr>)))"

text \<open>The loop of \<open>setSelected\<close>: the position of the first item with the name, if there is one.\<close>

fun findName :: "string \<Rightarrow> int \<Rightarrow> EnumPair list \<Rightarrow> int option" where
  "findName n i [] = None"
| "findName n i (p # ps) = (if m_name p = n then Some i else findName n (i + 1) ps)"

definition setSelected :: "string \<Rightarrow> Enum \<Rightarrow> Enum" where
  "setSelected selected e =
     (case findName selected 0 (map snd (m_items e)) of
        None \<Rightarrow> e
      | Some i \<Rightarrow> e\<lparr>m_selectedIndex := i\<rparr>)"

definition enum_add :: "string \<Rightarrow> int \<Rightarrow> Enum \<Rightarrow> Enum" where
  "enum_add str v e =
     e\<lparr>m_items := qm_insert (int (length (m_items e))) \<lparr>m_name = str, m_value = v\<rparr> (m_items e)\<rparr>"

definition enum_add_index :: "string \<Rightarrow> Enum \<Rightarrow> Enum" where
  "enum_add_index str e =
     e\<lparr>m_items := qm_insert (int (length (m_items e)))
        \<lparr>m_name = str, m_value = int (length (m_items e))\<rparr> (m_items e)\<rparr>"

definition getItemName :: "int \<Rightarrow> Enum \<Rightarrow> plv_exn + string" where
  "getItemName i e =
     (case map_of (m_items e) i of
        Some p \<Rightarrow> Inr (m_name p)
      | None \<Rightarrow> Inl (RuntimeError ''Invalid index''))"

definition getItemValue :: "int \<Rightarrow> Enum \<Rightarrow> plv_exn + int" where
  "getItemValue i e =
     (case map_of (m_items e) i of
        Some p \<Rightarrow> Inr (m_value p)
      | None \<Rightarrow> Inl (RuntimeError (''Invalid index '' @ qs_number i @ '' in Enum::getItemValue()'')))"

definition getSelectedItemName :: "Enum \<Rightarrow> plv_exn + string" where
  "getSelectedItemName e = getItemName (m_selectedIndex e) e"

definition getSelectedValue :: "Enum \<Rightarrow> plv_exn + int" where
  "getSelectedValue e = getItemValue (m_selectedIndex e) e"

text \<open>\<open>QMap::value\<close> gives a default constructed pair (empty name, value -1) for a missing key.\<close>

definition getItemNames :: "Enum \<Rightarrow> string list" where
  "getItemNames e =
     map (\<lambda>i. case map_of (m_items e) (int i) of Some p \<Rightarrow> m_name p | None \<Rightarrow> '''')
       [0..<length (m_items e)]"

section \<open>Invariant\<close>

text \<open>The indices are the positions: items are only added, each at the end.\<close>

definition enum_inv :: "Enum \<Rightarrow> bool" where
  "enum_inv e \<longleftrightarrow> map fst (m_items e) = map int [0..<length (m_items e)]"

lemma enum_inv_new: "enum_inv (enum_new i)"
  by (simp add: enum_inv_def enum_new_def)

lemma qm_insert_above:
  "\<forall>k' \<in> fst ` set m. k' < k \<Longrightarrow> qm_insert k v m = m @ [(k, v)]"
  by (induction k v m rule: qm_insert.induct) auto

lemma enum_inv_keys: "enum_inv e \<Longrightarrow> fst ` set (m_items e) = int ` {0..<length (m_items e)}"
  unfolding enum_inv_def by (metis atLeastLessThan_upt list.set_map)

lemma enum_inv_insert:
  "enum_inv e \<Longrightarrow> qm_insert (int (length (m_items e))) p (m_items e) =
     m_items e @ [(int (length (m_items e)), p)]"
  by (rule qm_insert_above) (auto simp: enum_inv_keys)

lemma enum_add_items:
  "enum_inv e \<Longrightarrow> m_items (enum_add s v e) =
     m_items e @ [(int (length (m_items e)), \<lparr>m_name = s, m_value = v\<rparr>)]"
  by (simp add: enum_add_def enum_inv_insert)

lemma enum_add_index_eq: "enum_add_index s e = enum_add s (int (length (m_items e))) e"
  by (simp add: enum_add_index_def enum_add_def)

lemma enum_add_inv: "enum_inv e \<Longrightarrow> enum_inv (enum_add s v e)"
  by (simp add: enum_add_items enum_inv_def)

text \<open>Looking an index up is reading the item at that position.\<close>

lemma map_of_positions:
  "map fst m = map int [a..<a + length m] \<Longrightarrow>
     map_of m i = (if int a \<le> i \<and> i < int (a + length m) then Some (snd (m ! (nat i - a))) else None)"
proof (induction m arbitrary: a)
  case Nil
  then show ?case by simp
next
  case (Cons p m)
  have split: "[a..<a + length (p # m)] = a # [Suc a..<Suc a + length m]"
    using upt_conv_Cons [of a "a + length (p # m)"] by simp
  from Cons.prems have "fst p # map fst m = int a # map int [Suc a..<Suc a + length m]"
    by (simp only: split list.map)
  then have p: "fst p = int a" and m: "map fst m = map int [Suc a..<Suc a + length m]"
    by simp_all
  show ?case
  proof (cases "i = int a")
    case True
    with p show ?thesis by (cases p) simp
  next
    case False
    show ?thesis
    proof (cases "int a \<le> i")
      case True
      with False have "nat i - a = Suc (nat i - Suc a)" by linarith
      with False True p Cons.IH [OF m] show ?thesis by (cases p) auto
    next
      case False
      with p Cons.IH [OF m] show ?thesis by (cases p) auto
    qed
  qed
qed

lemma map_of_items:
  assumes "enum_inv e"
  shows "map_of (m_items e) i =
    (if 0 \<le> i \<and> i < int (length (m_items e)) then Some (snd (m_items e ! nat i)) else None)"
proof -
  from assms have "map fst (m_items e) = map int [0..<0 + length (m_items e)]"
    by (simp add: enum_inv_def)
  from map_of_positions [OF this] show ?thesis by simp
qed

section \<open>Selecting by name\<close>

lemma findName_nth:
  "distinct (map m_name ps) \<Longrightarrow> j < length ps \<Longrightarrow> findName (m_name (ps ! j)) i ps = Some (i + int j)"
proof (induction ps arbitrary: i j)
  case Nil
  then show ?case by simp
next
  case (Cons p ps)
  show ?case
  proof (cases j)
    case 0
    then show ?thesis by simp
  next
    case (Suc j')
    with Cons.prems have "j' < length ps" by simp
    then have "m_name p \<noteq> m_name (ps ! j')"
      using Cons.prems(1) nth_mem [of j' ps] by force
    with Cons Suc show ?thesis by simp
  qed
qed

lemma findName_Some:
  "findName n i ps = Some k \<Longrightarrow> i \<le> k \<and> k < i + int (length ps) \<and> m_name (ps ! nat (k - i)) = n"
proof (induction ps arbitrary: i)
  case Nil
  then show ?case by simp
next
  case (Cons p ps)
  show ?case
  proof (cases "m_name p = n")
    case True
    with Cons.prems show ?thesis by simp
  next
    case False
    with Cons have IH: "i + 1 \<le> k \<and> k < i + 1 + int (length ps) \<and> m_name (ps ! nat (k - (i + 1))) = n"
      by simp
    then have "nat (k - i) = Suc (nat (k - (i + 1)))" by linarith
    with IH show ?thesis by simp
  qed
qed

lemma findName_None: "findName n i ps = None \<longleftrightarrow> n \<notin> m_name ` set ps"
  by (induction n i ps rule: findName.induct) auto

lemma setSelected_items [simp]: "m_items (setSelected n e) = m_items e"
  by (simp add: setSelected_def split: option.split)

end
