(* ===== verification/Graph_Order.thy ===== *)
theory Graph_Order
  imports Plv_Prelude
begin

text \<open>
  The depth first search with which a pipeline orders its elements and looks for cycles, on an
  arbitrary graph given by the list of predecessors of each node.  The theory of the pipeline graph
  shows that \<open>DataConsumer::visit\<close> and \<open>DataProducer::visit\<close> run this search on the elements of a
  pipeline; here the search itself is proved correct, in the locale \<open>pred_graph\<close> of finite graphs.

  The state of the search is the pair of the ordering built so far and the nodes on the current path.
  The recursion of the program ends because every call extends the path; in HOL it is bounded by an
  argument \<open>n\<close>, and \<open>dfs_total\<close> says that any \<open>n\<close> above the number of nodes is enough.
\<close>

section \<open>The search\<close>

fun dfs :: "('a \<Rightarrow> 'a list) \<Rightarrow> nat \<Rightarrow> 'a \<Rightarrow> 'a list \<times> 'a list \<Rightarrow> (bool \<times> 'a list \<times> 'a list) option"
  and dfs_all :: "('a \<Rightarrow> 'a list) \<Rightarrow> nat \<Rightarrow> 'a list \<Rightarrow> 'a list \<times> 'a list \<Rightarrow> (bool \<times> 'a list \<times> 'a list) option"
where
  "dfs g 0 x st = None"
| "dfs g (Suc n) x (ord, path) =
     (if x \<in> set ord then Some (True, ord, path)
      else if x \<in> set path then Some (False, ord @ [x], path)
      else case dfs_all g n (g x) (ord, x # path) of
             None \<Rightarrow> None
           | Some (False, st) \<Rightarrow> Some (False, st)
           | Some (True, ord', path') \<Rightarrow> Some (True, ord' @ [x], removeAll x path'))"
| "dfs_all g n [] st = Some (True, st)"
| "dfs_all g n (y # ys) st =
     (case dfs g n y st of
        None \<Rightarrow> None
      | Some (False, st') \<Rightarrow> Some (False, st')
      | Some (True, st') \<Rightarrow> dfs_all g n ys st')"

section \<open>Specification\<close>

text \<open>A list orders a graph topologically when the predecessors of every member come before it.\<close>

definition topo :: "('a \<Rightarrow> 'a list) \<Rightarrow> 'a list \<Rightarrow> bool" where
  "topo g xs \<longleftrightarrow> distinct xs \<and> (\<forall>ys x zs. xs = ys @ x # zs \<longrightarrow> set (g x) \<subseteq> set ys)"

definition pred_rel :: "('a \<Rightarrow> 'a list) \<Rightarrow> ('a \<times> 'a) set" where
  "pred_rel g = {(x, y). y \<in> set (g x)}"

lemma topo_Nil [simp]: "topo g []"
  by (simp add: topo_def)

lemma topo_snoc:
  "topo g (xs @ [x]) \<longleftrightarrow> topo g xs \<and> x \<notin> set xs \<and> set (g x) \<subseteq> set xs"
proof
  assume t: "topo g (xs @ [x])"
  have "set (g y) \<subseteq> set ys" if "xs = ys @ y # zs" for ys y zs
    using t that unfolding topo_def by (metis append_Cons append_assoc)
  with t show "topo g xs \<and> x \<notin> set xs \<and> set (g x) \<subseteq> set xs" by (auto simp: topo_def)
next
  assume r: "topo g xs \<and> x \<notin> set xs \<and> set (g x) \<subseteq> set xs"
  have "set (g y) \<subseteq> set ys" if "xs @ [x] = ys @ y # zs" for ys y zs
  proof (cases zs rule: rev_cases)
    case Nil
    with that r show ?thesis by auto
  next
    case (snoc zs' z)
    with that have "xs = ys @ y # zs'" by simp
    with r show ?thesis by (auto simp: topo_def)
  qed
  with r show "topo g (xs @ [x])" by (auto simp: topo_def)
qed

text \<open>The members of a topological order are closed under predecessors, and none lies on a cycle.\<close>

lemma topo_closed: "topo g xs \<Longrightarrow> x \<in> set xs \<Longrightarrow> set (g x) \<subseteq> set xs"
  by (induction xs rule: rev_induct) (auto simp: topo_snoc)

lemma topo_trancl_closed:
  "(x, y) \<in> (pred_rel g)\<^sup>+ \<Longrightarrow> topo g xs \<Longrightarrow> x \<in> set xs \<Longrightarrow> y \<in> set xs"
  by (induction rule: trancl_induct) (auto simp: pred_rel_def dest: topo_closed)

lemma topo_no_cycle:
  "topo g xs \<Longrightarrow> x \<in> set xs \<Longrightarrow> (x, x) \<notin> (pred_rel g)\<^sup>+"
proof (induction xs rule: rev_induct)
  case Nil
  then show ?case by simp
next
  case (snoc z xs)
  then have t: "topo g xs" "z \<notin> set xs" "set (g z) \<subseteq> set xs" by (auto simp: topo_snoc)
  have "(z, z) \<notin> (pred_rel g)\<^sup>+"
  proof
    assume "(z, z) \<in> (pred_rel g)\<^sup>+"
    then obtain y where y: "(z, y) \<in> pred_rel g" "y = z \<or> (y, z) \<in> (pred_rel g)\<^sup>+"
      by (meson tranclD2 tranclD rtranclD)
    with t have "y \<in> set xs" by (auto simp: pred_rel_def)
    with y t show False by (auto dest: topo_trancl_closed)
  qed
  with snoc t show ?case by auto
qed

section \<open>Correctness on a finite graph\<close>

locale pred_graph =
  fixes g :: "'a \<Rightarrow> 'a list" and V :: "'a set"
  assumes finite_V: "finite V"
    and closed: "x \<in> V \<Longrightarrow> set (g x) \<subseteq> V"
begin

lemma path_grows:
  assumes "x \<in> V" and "x \<notin> set path"
  shows "card (V - set (x # path)) < card (V - set path)"
  using assms finite_V by (intro psubset_card_mono) auto

text \<open>Enough fuel: the path can only grow to the number of nodes.\<close>

lemma dfs_total_path:
  "h = g \<Longrightarrow> x \<in> V \<Longrightarrow> card (V - set (snd st)) < n \<Longrightarrow>
     \<exists>b st'. dfs h n x st = Some (b, st') \<and> (b \<longrightarrow> snd st' = snd st)"
  "h = g \<Longrightarrow> set ys \<subseteq> V \<Longrightarrow> card (V - set (snd st)) < n \<Longrightarrow>
     \<exists>b st'. dfs_all h n ys st = Some (b, st') \<and> (b \<longrightarrow> snd st' = snd st)"
proof (induction h n x st and h n ys st rule: dfs_dfs_all.induct)
  case (2 h n x ord path)
  show ?case
  proof (cases "x \<in> set ord \<or> x \<in> set path")
    case True
    then show ?thesis by auto
  next
    case False
    with "2.prems" path_grows [of x path] have "card (V - set (x # path)) < n" by simp
    moreover have "set (g x) \<subseteq> V" using "2.prems" closed by simp
    ultimately obtain b st' where r: "dfs_all g n (g x) (ord, x # path) = Some (b, st')"
      "b \<longrightarrow> snd st' = x # path"
      using "2.IH" "2.prems"(1) False by fastforce
    then show ?thesis using False "2.prems"(1) by (cases b; cases st') auto
  qed
next
  case (4 h n y ys st)
  from "4.IH"(1) "4.prems" obtain b st' where y: "dfs h n y st = Some (b, st')" "b \<longrightarrow> snd st' = snd st"
    by auto
  show ?case
  proof (cases b)
    case False
    with y show ?thesis by auto
  next
    case True
    with y have "\<exists>b'' st''. dfs_all h n ys st' = Some (b'', st'') \<and> (b'' \<longrightarrow> snd st'' = snd st')"
      by (intro "4.IH"(2) [OF y(1)]) (use "4.prems" in auto)
    with True y show ?thesis by auto
  qed
qed auto

lemma dfs_total:
  assumes "x \<in> V" and "card V < n"
  shows "\<exists>b st'. dfs g n x (ord, path) = Some (b, st')"
proof -
  have "card (V - set path) \<le> card V" by (rule card_mono) (auto simp: finite_V)
  with assms dfs_total_path(1) [of g x "(ord, path)" n] show ?thesis by auto
qed

text \<open>A successful search extends a topological order to one that contains the node.\<close>

definition extends :: "'a list \<Rightarrow> 'a list \<Rightarrow> 'a list \<Rightarrow> bool" where
  "extends path ord ord' \<longleftrightarrow>
     topo g ord' \<and> set ord \<subseteq> set ord' \<and> set ord' \<inter> set path = {} \<and> set ord' \<subseteq> V"

lemma extends_trans: "extends path a b \<Longrightarrow> extends path b c \<Longrightarrow> extends path a c"
  by (auto simp: extends_def)

lemma dfs_sound:
  "h = g \<Longrightarrow> dfs h n x st = Some (True, st') \<Longrightarrow> extends (snd st) (fst st) (fst st) \<Longrightarrow> x \<in> V \<Longrightarrow>
     extends (snd st) (fst st) (fst st') \<and> x \<in> set (fst st') \<and> snd st' = snd st"
  "h = g \<Longrightarrow> dfs_all h n ys st = Some (True, st') \<Longrightarrow> extends (snd st) (fst st) (fst st) \<Longrightarrow> set ys \<subseteq> V \<Longrightarrow>
     extends (snd st) (fst st) (fst st') \<and> set ys \<subseteq> set (fst st') \<and> snd st' = snd st"
proof (induction h n x st and h n ys st arbitrary: st' and st' rule: dfs_dfs_all.induct)
  case (2 h n x ord path)
  show ?case
  proof (cases "x \<in> set ord")
    case True
    with "2.prems" show ?thesis by auto
  next
    case False
    with "2.prems" have xp: "x \<notin> set path" by (auto split: if_splits)
    with False "2.prems" obtain ord1 path1 where
      all: "dfs_all h n (h x) (ord, x # path) = Some (True, ord1, path1)"
      and st': "st' = (ord1 @ [x], removeAll x path1)"
      by (auto split: option.splits bool.splits)
    have "extends (x # path) ord ord1 \<and> set (h x) \<subseteq> set ord1 \<and> path1 = x # path"
      using "2.IH" [OF False xp "2.prems"(1) all] "2.prems" closed False by (auto simp: extends_def)
    with xp st' "2.prems" show ?thesis by (auto simp: extends_def topo_snoc)
  qed
next
  case (4 h n y ys st)
  from "4.prems" obtain st1 where y: "dfs h n y st = Some (True, st1)"
    and rest: "dfs_all h n ys st1 = Some (True, st')"
    by (auto split: option.splits bool.splits)
  from "4.IH"(1) [OF "4.prems"(1) y] "4.prems"
  have one: "extends (snd st) (fst st) (fst st1)" "y \<in> set (fst st1)" "snd st1 = snd st" by auto
  have "extends (snd st1) (fst st1) (fst st') \<and> set ys \<subseteq> set (fst st') \<and> snd st' = snd st1"
    using "4.IH"(2) [OF y _ _ "4.prems"(1) rest] one "4.prems" by (auto simp: extends_def)
  with one show ?case by (auto simp: extends_def)
qed auto

text \<open>A search that fails has met a node of its own path: there is a cycle.\<close>

lemma dfs_cycle:
  "h = g \<Longrightarrow> dfs h n x st = Some (False, st') \<Longrightarrow> x \<in> V \<Longrightarrow>
     \<forall>v \<in> set (snd st). (v, x) \<in> (pred_rel g)\<^sup>+ \<Longrightarrow> extends (snd st) (fst st) (fst st) \<Longrightarrow>
     \<exists>z \<in> V. (z, z) \<in> (pred_rel g)\<^sup>+"
  "h = g \<Longrightarrow> dfs_all h n ys st = Some (False, st') \<Longrightarrow> set ys \<subseteq> V \<Longrightarrow>
     \<forall>v \<in> set (snd st). \<forall>y \<in> set ys. (v, y) \<in> (pred_rel g)\<^sup>+ \<Longrightarrow> extends (snd st) (fst st) (fst st) \<Longrightarrow>
     \<exists>z \<in> V. (z, z) \<in> (pred_rel g)\<^sup>+"
proof (induction h n x st and h n ys st arbitrary: st' and st' rule: dfs_dfs_all.induct)
  case (2 h n x ord path)
  show ?case
  proof (cases "x \<in> set path")
    case True
    with "2.prems" show ?thesis by auto
  next
    case False
    with "2.prems" have xo: "x \<notin> set ord" by (auto split: if_splits)
    with False "2.prems" obtain st1 where
      all: "dfs_all h n (h x) (ord, x # path) = Some (False, st1)"
      by (auto split: option.splits bool.splits)
    have "\<forall>v \<in> set (x # path). \<forall>y \<in> set (h x). (v, y) \<in> (pred_rel g)\<^sup>+"
      using "2.prems" by (auto simp: pred_rel_def intro: trancl_into_trancl)
    with "2.IH" [OF xo False "2.prems"(1) all] "2.prems" closed xo show ?thesis
      by (auto simp: extends_def)
  qed
next
  case (4 h n y ys st)
  obtain b st1 where y: "dfs h n y st = Some (b, st1)"
    using "4.prems"(2) by (auto split: option.splits)
  show ?case
  proof (cases b)
    case False
    with "4.IH"(1) [OF "4.prems"(1)] y "4.prems" show ?thesis by auto
  next
    case True
    with y "4.prems" have rest: "dfs_all h n ys st1 = Some (False, st')" by simp
    from dfs_sound(1) [OF "4.prems"(1), of n y st st1] y True "4.prems"
    have one: "extends (snd st) (fst st) (fst st1)" "snd st1 = snd st" by auto
    with "4.IH"(2) [of "(True, st1)" True st1] rest y True "4.prems" show ?thesis
      by (auto simp: extends_def)
  qed
qed auto

text \<open>The search of all nodes of a list, from an empty state.\<close>

lemma dfs_all_total:
  assumes "set ys \<subseteq> V" and "card V < n"
  shows "\<exists>b st'. dfs_all g n ys ([], []) = Some (b, st')"
  using dfs_total_path(2) [of g ys "([], [])" n] assms by auto

lemma dfs_all_topo:
  assumes "dfs_all g n ys ([], []) = Some (True, ord, path)" and "set ys \<subseteq> V"
  shows "topo g ord" and "set ys \<subseteq> set ord" and "set ord \<subseteq> V"
  using dfs_sound(2) [of g n ys "([], [])" "(ord, path)"] assms by (auto simp: extends_def)

lemma dfs_all_cycle:
  assumes "dfs_all g n ys ([], []) = Some (False, st)" and "set ys \<subseteq> V"
  shows "\<exists>z \<in> V. (z, z) \<in> (pred_rel g)\<^sup>+"
  using dfs_cycle(2) [of g n ys "([], [])" st] assms by (auto simp: extends_def)

end

end
