(* ===== verification/Score_Board.thy ===== *)
theory Score_Board
  imports Qt_Containers
begin

text \<open>
  The class \<open>ScoreBoard\<close> of \<open>include/plvcore/DataConsumer.h\<close>.  A consumer with synchronous pins
  reports every data item that arrives on one of them to its scoreboard, which counts the items of
  each serial number and tells the consumer when the last of its synchronous pins has its item: then
  the row of that serial is complete and the element is ready to process it.

  The specification is a counter per serial number (\<open>count_spec\<close>); \<open>add_run\<close> is a sequence of
  calls, and the refinement lemma relates the hash table to the counters.
\<close>

section \<open>Model\<close>

record ScoreBoard =
  m_pincount :: int
  m_lookup :: "(serial \<times> int) list"

definition sb_new :: ScoreBoard where
  "sb_new = \<lparr>m_pincount = 0, m_lookup = []\<rparr>"

definition setPinCount :: "int \<Rightarrow> ScoreBoard \<Rightarrow> ScoreBoard" where
  "setPinCount count sb = sb\<lparr>m_pincount := count\<rparr>"

definition sb_value :: "serial \<Rightarrow> ScoreBoard \<Rightarrow> int" where
  "sb_value s sb = (case map_of (m_lookup sb) s of None \<Rightarrow> 0 | Some c \<Rightarrow> c)"

definition sb_add :: "serial \<Rightarrow> ScoreBoard \<Rightarrow> bool \<times> ScoreBoard" where
  "sb_add s sb =
     (let count = sb_value s sb + 1 in
      if count = m_pincount sb
      then (True, sb\<lparr>m_lookup := qm_remove s (m_lookup sb)\<rparr>)
      else (False, sb\<lparr>m_lookup := qh_insert s count (m_lookup sb)\<rparr>))"

text \<open>A sequence of calls, with the answers in order.\<close>

fun add_run :: "serial list \<Rightarrow> ScoreBoard \<Rightarrow> bool list \<times> ScoreBoard" where
  "add_run [] sb = ([], sb)"
| "add_run (s # ss) sb =
     (case sb_add s sb of (b, sb') \<Rightarrow> case add_run ss sb' of (bs, sb'') \<Rightarrow> (b # bs, sb''))"

section \<open>Specification\<close>

text \<open>What a row counter for \<open>n\<close> pins promises: the item that makes the count reach \<open>n\<close> completes the
  row, and the count of that serial starts again.\<close>

definition count_spec :: "int \<Rightarrow> serial \<Rightarrow> (serial \<Rightarrow> int) \<Rightarrow> bool \<times> (serial \<Rightarrow> int)" where
  "count_spec n s f = (f s + 1 = n, f(s := if f s + 1 = n then 0 else f s + 1))"

definition sb_abs :: "ScoreBoard \<Rightarrow> serial \<Rightarrow> int" where
  "sb_abs sb s = sb_value s sb"

lemma sb_add_pincount [simp]: "m_pincount (snd (sb_add s sb)) = m_pincount sb"
  by (simp add: sb_add_def Let_def)

lemma sb_add_refines:
  "(fst (sb_add s sb), sb_abs (snd (sb_add s sb))) = count_spec (m_pincount sb) s (sb_abs sb)"
  by (auto simp: sb_add_def Let_def count_spec_def sb_abs_def sb_value_def fun_eq_iff
      map_of_qm_remove map_of_qh_insert)

lemma sb_add_fst: "fst (sb_add s sb) \<longleftrightarrow> sb_abs sb s + 1 = m_pincount sb"
  using sb_add_refines [of s sb] by (simp add: count_spec_def)

lemma sb_add_abs:
  "sb_abs (snd (sb_add s sb)) =
     (sb_abs sb)(s := if sb_abs sb s + 1 = m_pincount sb then 0 else sb_abs sb s + 1)"
  using sb_add_refines [of s sb] by (simp add: count_spec_def)

section \<open>Sequences of calls\<close>

lemma add_run_append:
  "add_run (xs @ ys) sb =
     (case add_run xs sb of (bs, sb') \<Rightarrow> case add_run ys sb' of (cs, sb'') \<Rightarrow> (bs @ cs, sb''))"
  by (induction xs arbitrary: sb) (auto split: prod.splits)

lemma add_run_pincount [simp]: "m_pincount (snd (add_run ss sb)) = m_pincount sb"
proof (induction ss arbitrary: sb)
  case Nil
  then show ?case by simp
next
  case (Cons s ss)
  then show ?case
    by (metis (mono_tags, lifting) add_run.simps(2) case_prod_beta sb_add_pincount snd_conv)
qed

lemma length_add_run [simp]: "length (fst (add_run ss sb)) = length ss"
  by (induction ss arbitrary: sb) (auto split: prod.splits simp: case_prod_beta)

text \<open>The counters hold the number of items of a serial modulo the number of pins.\<close>

lemma mod_add_one_int:
  "0 < n \<Longrightarrow> 0 \<le> a \<Longrightarrow> ((a + 1) mod n :: int) = (if a mod n + 1 = n then 0 else a mod n + 1)"
  by (smt (verit, best) mod_add_left_eq mod_pos_pos_trivial mod_self pos_mod_bound pos_mod_sign)

lemma add_run_snoc_snd: "snd (add_run (xs @ [s]) sb) = snd (sb_add s (snd (add_run xs sb)))"
  by (simp add: add_run_append case_prod_beta)

lemma add_run_count:
  assumes "0 < m_pincount sb" and "\<And>s. sb_abs sb s = 0"
  shows "sb_abs (snd (add_run ss sb)) s = int (count_list ss s) mod m_pincount sb"
proof (induction ss rule: rev_induct)
  case Nil
  then show ?case by (simp add: assms)
next
  case (snoc x xs)
  show ?case
  proof (cases "x = s")
    case True
    have "int (count_list (xs @ [x]) s) = int (count_list xs s) + 1" using True by simp
    with True snoc show ?thesis
      by (simp only: mod_add_one_int [OF assms(1)]) (simp add: add_run_snoc_snd sb_add_abs)
  next
    case False
    with snoc show ?thesis by (simp add: add_run_snoc_snd sb_add_abs)
  qed
qed

end
