(* ===== verification/Plv_Objects.thy ===== *)
theory Plv_Objects
  imports Qt_Containers Qt_Strings Score_Board
begin

text \<open>
  The objects of \<open>plvcore\<close> and the state of a pipeline.  Elements, pins and connections refer to
  each other by pointers, so the state holds one store per class, from the address of an object to
  its members; an update of one object leaves all the others as they are.  The reference counts of
  \<open>RefPtr\<close> keep every object alive that another one points to, which is why the stores are total.

  Timing members (\<open>m_timer\<close>, \<open>m_avgProcessingTime\<close>, the frame rate) and mutexes have no counterpart:
  every operation of the model is atomic with respect to the others, which is what the mutex it
  holds gives it in the program.
\<close>

section \<open>Enumerations\<close>

datatype PlvErrorType =
    PlvNoError
  | PlvNonFatalError
  | PlvPipelineInitError
  | PlvPipelineRuntimeError
  | PlvFatalError

datatype State =
    PLE_UNDEFINED
  | PLE_INITIALIZED
  | PLE_STARTED
  | PLE_DISPATCHED
  | PLE_RUNNING
  | PLE_DONE
  | PLE_ERROR

text \<open>The code compares states with \<open><\<close> and \<open>>=\<close>: the order of the declaration.\<close>

fun state_rank :: "State \<Rightarrow> nat" where
  "state_rank PLE_UNDEFINED = 0"
| "state_rank PLE_INITIALIZED = 1"
| "state_rank PLE_STARTED = 2"
| "state_rank PLE_DISPATCHED = 3"
| "state_rank PLE_RUNNING = 4"
| "state_rank PLE_DONE = 5"
| "state_rank PLE_ERROR = 6"

lemma state_rank_inject: "state_rank a = state_rank b \<longleftrightarrow> a = b"
  by (cases a; cases b) simp_all

instantiation State :: linorder
begin

definition less_eq_State :: "State \<Rightarrow> State \<Rightarrow> bool" where
  "a \<le> b \<longleftrightarrow> state_rank a \<le> state_rank b"

definition less_State :: "State \<Rightarrow> State \<Rightarrow> bool" where
  "a < b \<longleftrightarrow> state_rank a < state_rank b"

instance
  by standard (auto simp: less_eq_State_def less_State_def state_rank_inject)

end

lemmas state_order = less_eq_State_def less_State_def

datatype Required = CONNECTION_OPTIONAL | CONNECTION_REQUIRED

datatype Synchronized = CONNECTION_SYNCHRONOUS | CONNECTION_ASYNCHRONOUS

datatype DataGuarantee = CONNECTION_GUARANTEES_DATA | CONNECTION_DATA_MAY_BE_NULL

text \<open>The classes that implement a pin: \<open>InputPin<T>\<close>, \<open>DynamicInputPin\<close>, \<open>CvMatDataInputPin\<close>, and
  \<open>OutputPin<T>\<close>, \<open>CvMatDataOutputPin\<close>.\<close>

datatype ipin_class = TypedInputPin | DynamicInputPin | CvMatDataInputPin

datatype opin_class = TypedOutputPin | CvMatDataOutputPin

text \<open>Every element is a \<open>PipelineProducer\<close> or a \<open>PipelineProcessor\<close>.\<close>

datatype ple_class = PipelineProducer | PipelineProcessor

section \<open>Objects\<close>

text \<open>\<open>Data\<close>: the payload is the \<open>QVariant\<close>, \<open>None\<close> an invalid one.\<close>

record 'v Data =
  d_serial :: serial
  d_payload :: "'v option"
  d_null :: bool

definition Data_null :: "serial \<Rightarrow> 'v Data" where
  "Data_null s = \<lparr>d_serial = s, d_payload = None, d_null = True\<rparr>"

definition Data_payload :: "serial \<Rightarrow> 'v \<Rightarrow> 'v Data" where
  "Data_payload s v = \<lparr>d_serial = s, d_payload = Some v, d_null = False\<rparr>"

record 'v PinConnection =
  c_id :: int
  c_producer :: "ref option"
  c_consumer :: "ref option"
  c_queue :: "'v Data list"

record IInputPin =
  ip_id :: int
  ip_name :: string
  ip_owner :: ref
  ip_class :: ipin_class
  ip_typeId :: int
  ip_required :: Required
  ip_synchronous :: Synchronized
  ip_guarantee :: DataGuarantee
  ip_connection :: "ref option"
  ip_called :: bool

record IOutputPin =
  op_id :: int
  op_name :: string
  op_owner :: ref
  op_class :: opin_class
  op_typeId :: int
  op_connections :: "ref list"
  op_called :: bool

record PipelineElement =
  el_id :: int
  el_class :: ple_class
  el_name :: string
  el_state :: State
  el_errorType :: PlvErrorType
  el_errorString :: string
  el_serial :: serial
  el_hasPipeline :: bool
  el_inputPins :: "(int \<times> ref) list"
  el_outputPins :: "(int \<times> ref) list"
  el_hasAsynchronousPin :: bool
  el_hasSynchronousPin :: bool
  el_scoreboard :: ScoreBoard

text \<open>\<open>ri_result\<close> is the value of the \<open>QFuture\<close>: \<open>None\<close> until the run has finished.\<close>

record RunItem =
  ri_element :: ref
  ri_serial :: serial
  ri_dispatched :: bool
  ri_result :: "bool option"

definition runItem :: "ref \<Rightarrow> serial \<Rightarrow> RunItem" where
  "runItem e s = \<lparr>ri_element = e, ri_serial = s, ri_dispatched = False, ri_result = None\<rparr>"

text \<open>The signals the pipeline emits, in the order of their emission.\<close>

datatype plv_signal =
    elementAdded int
  | elementRemoved int
  | connectionAdded int
  | connectionRemoved int
  | pipelineMessage string
  | pipelineStarted
  | pipelineStopped
  | pipelineFinished
  | stepTaken serial
  | viewerData ref serial
  | pipelineSaved string
  | pipelineLoaded string

section \<open>The pipeline\<close>

text \<open>
  The stores and the members of class \<open>Pipeline\<close>.  \<open>nextConn\<close> is the address the next \<open>new
  PinConnection\<close> returns.  \<open>pl_heartbeat\<close> says whether the heartbeat timer is active, \<open>pl_slots\<close> how many
  connections of its signal \<open>timeout()\<close> to the slot \<open>schedule()\<close> there are.
\<close>

record 'v plv =
  elems :: "ref \<Rightarrow> PipelineElement"
  ipins :: "ref \<Rightarrow> IInputPin"
  opins :: "ref \<Rightarrow> IOutputPin"
  conns :: "ref \<Rightarrow> 'v PinConnection"
  nextConn :: ref
  children :: "(int, ref) qmap"
  connections :: "(int, ref) qmap"
  producers :: "(int, ref) qmap"
  processors :: "(int, ref) qmap"
  readyQueue :: "(int \<times> RunItem list) list"
  runQueue :: "(int \<times> RunItem) list"
  pl_serial :: serial
  pl_running :: bool
  pl_changed :: bool
  pl_testCount :: int
  pl_heartbeat :: bool
  pl_slots :: nat
  pl_filename :: string
  pl_ordering :: "ref list"
  signals :: "plv_signal list"

definition upd_elem :: "ref \<Rightarrow> (PipelineElement \<Rightarrow> PipelineElement) \<Rightarrow> 'v plv \<Rightarrow> 'v plv" where
  "upd_elem r f w = w\<lparr>elems := (elems w)(r := f (elems w r))\<rparr>"

definition upd_ipin :: "ref \<Rightarrow> (IInputPin \<Rightarrow> IInputPin) \<Rightarrow> 'v plv \<Rightarrow> 'v plv" where
  "upd_ipin r f w = w\<lparr>ipins := (ipins w)(r := f (ipins w r))\<rparr>"

definition upd_opin :: "ref \<Rightarrow> (IOutputPin \<Rightarrow> IOutputPin) \<Rightarrow> 'v plv \<Rightarrow> 'v plv" where
  "upd_opin r f w = w\<lparr>opins := (opins w)(r := f (opins w r))\<rparr>"

definition upd_conn :: "ref \<Rightarrow> ('v PinConnection \<Rightarrow> 'v PinConnection) \<Rightarrow> 'v plv \<Rightarrow> 'v plv" where
  "upd_conn r f w = w\<lparr>conns := (conns w)(r := f (conns w r))\<rparr>"

definition emit :: "plv_signal \<Rightarrow> 'v plv \<Rightarrow> 'v plv" where
  "emit sg w = w\<lparr>signals := signals w @ [sg]\<rparr>"

text \<open>Reading after writing: each update changes one store, at one address.\<close>

lemma upd_elem_simps [simp]:
  "elems (upd_elem r f w) = (elems w)(r := f (elems w r))"
  "ipins (upd_elem r f w) = ipins w"
  "opins (upd_elem r f w) = opins w"
  "conns (upd_elem r f w) = conns w"
  "nextConn (upd_elem r f w) = nextConn w"
  "children (upd_elem r f w) = children w"
  "connections (upd_elem r f w) = connections w"
  "producers (upd_elem r f w) = producers w"
  "processors (upd_elem r f w) = processors w"
  "readyQueue (upd_elem r f w) = readyQueue w"
  "runQueue (upd_elem r f w) = runQueue w"
  "pl_serial (upd_elem r f w) = pl_serial w"
  "pl_running (upd_elem r f w) = pl_running w"
  "pl_changed (upd_elem r f w) = pl_changed w"
  "pl_testCount (upd_elem r f w) = pl_testCount w"
  "pl_heartbeat (upd_elem r f w) = pl_heartbeat w"
  "pl_ordering (upd_elem r f w) = pl_ordering w"
  "pl_slots (upd_elem r f w) = pl_slots w"
  "pl_filename (upd_elem r f w) = pl_filename w"
  by (simp_all add: upd_elem_def)

lemma upd_ipin_simps [simp]:
  "ipins (upd_ipin r g w) = (ipins w)(r := g (ipins w r))"
  "elems (upd_ipin r g w) = elems w"
  "opins (upd_ipin r g w) = opins w"
  "conns (upd_ipin r g w) = conns w"
  "nextConn (upd_ipin r g w) = nextConn w"
  "children (upd_ipin r g w) = children w"
  "connections (upd_ipin r g w) = connections w"
  "producers (upd_ipin r g w) = producers w"
  "processors (upd_ipin r g w) = processors w"
  "readyQueue (upd_ipin r g w) = readyQueue w"
  "runQueue (upd_ipin r g w) = runQueue w"
  "pl_serial (upd_ipin r g w) = pl_serial w"
  "pl_running (upd_ipin r g w) = pl_running w"
  "pl_changed (upd_ipin r g w) = pl_changed w"
  "pl_testCount (upd_ipin r g w) = pl_testCount w"
  "pl_heartbeat (upd_ipin r g w) = pl_heartbeat w"
  "pl_ordering (upd_ipin r g w) = pl_ordering w"
  "pl_slots (upd_ipin r g w) = pl_slots w"
  "pl_filename (upd_ipin r g w) = pl_filename w"
  by (simp_all add: upd_ipin_def)

lemma upd_opin_simps [simp]:
  "opins (upd_opin r h w) = (opins w)(r := h (opins w r))"
  "elems (upd_opin r h w) = elems w"
  "ipins (upd_opin r h w) = ipins w"
  "conns (upd_opin r h w) = conns w"
  "nextConn (upd_opin r h w) = nextConn w"
  "children (upd_opin r h w) = children w"
  "connections (upd_opin r h w) = connections w"
  "producers (upd_opin r h w) = producers w"
  "processors (upd_opin r h w) = processors w"
  "readyQueue (upd_opin r h w) = readyQueue w"
  "runQueue (upd_opin r h w) = runQueue w"
  "pl_serial (upd_opin r h w) = pl_serial w"
  "pl_running (upd_opin r h w) = pl_running w"
  "pl_changed (upd_opin r h w) = pl_changed w"
  "pl_testCount (upd_opin r h w) = pl_testCount w"
  "pl_heartbeat (upd_opin r h w) = pl_heartbeat w"
  "pl_ordering (upd_opin r h w) = pl_ordering w"
  "pl_slots (upd_opin r h w) = pl_slots w"
  "pl_filename (upd_opin r h w) = pl_filename w"
  by (simp_all add: upd_opin_def)

lemma upd_conn_simps [simp]:
  "conns (upd_conn r k w) = (conns w)(r := k (conns w r))"
  "elems (upd_conn r k w) = elems w"
  "ipins (upd_conn r k w) = ipins w"
  "opins (upd_conn r k w) = opins w"
  "nextConn (upd_conn r k w) = nextConn w"
  "children (upd_conn r k w) = children w"
  "connections (upd_conn r k w) = connections w"
  "producers (upd_conn r k w) = producers w"
  "processors (upd_conn r k w) = processors w"
  "readyQueue (upd_conn r k w) = readyQueue w"
  "runQueue (upd_conn r k w) = runQueue w"
  "pl_serial (upd_conn r k w) = pl_serial w"
  "pl_running (upd_conn r k w) = pl_running w"
  "pl_changed (upd_conn r k w) = pl_changed w"
  "pl_testCount (upd_conn r k w) = pl_testCount w"
  "pl_heartbeat (upd_conn r k w) = pl_heartbeat w"
  "pl_ordering (upd_conn r k w) = pl_ordering w"
  "pl_slots (upd_conn r k w) = pl_slots w"
  "pl_filename (upd_conn r k w) = pl_filename w"
  by (simp_all add: upd_conn_def)

lemma emit_simps [simp]:
  "elems (emit sg w) = elems w"
  "ipins (emit sg w) = ipins w"
  "opins (emit sg w) = opins w"
  "conns (emit sg w) = conns w"
  "nextConn (emit sg w) = nextConn w"
  "children (emit sg w) = children w"
  "connections (emit sg w) = connections w"
  "producers (emit sg w) = producers w"
  "processors (emit sg w) = processors w"
  "readyQueue (emit sg w) = readyQueue w"
  "runQueue (emit sg w) = runQueue w"
  "pl_serial (emit sg w) = pl_serial w"
  "pl_running (emit sg w) = pl_running w"
  "pl_changed (emit sg w) = pl_changed w"
  "pl_testCount (emit sg w) = pl_testCount w"
  "pl_heartbeat (emit sg w) = pl_heartbeat w"
  "pl_ordering (emit sg w) = pl_ordering w"
  "pl_slots (emit sg w) = pl_slots w"
  "pl_filename (emit sg w) = pl_filename w"
  by (simp_all add: emit_def)

end
