(* ===== verification/Pin_Connection.thy ===== *)
theory Pin_Connection
  imports Plv_Objects
begin

text \<open>
  The queue of a \<open>PinConnection\<close> (\<open>src/plvcore/PinConnection.cpp\<close>) and the notification a data item
  causes when it is put there: \<open>PinConnection::put\<close> pushes the item and calls
  \<open>IInputPin::acceptData\<close> of the consuming pin, which calls \<open>DataConsumer::newData\<close> of the
  consuming element, which, when the row of that serial is complete, calls
  \<open>Pipeline::pipelineDataConsumerReady\<close>.

  The queue operations implement the contract \<open>fifo\<close>: items leave a connection in the order in which
  they were put there.
\<close>

section \<open>The contract of a queue\<close>

locale fifo =
  fixes push :: "'a \<Rightarrow> 'q \<Rightarrow> 'q"
    and pop :: "'q \<Rightarrow> 'q"
    and front :: "'q \<Rightarrow> 'a option"
    and clear :: "'q \<Rightarrow> 'q"
    and items :: "'q \<Rightarrow> 'a list"
  assumes items_push: "items (push x q) = items q @ [x]"
    and items_pop: "items (pop q) = tl (items q)"
    and items_clear: "items (clear q) = []"
    and front_items: "front q = (case items q of [] \<Rightarrow> None | x # _ \<Rightarrow> Some x)"
begin

lemma items_fold_push: "items (fold push xs q) = items q @ xs"
  by (induction xs arbitrary: q) (simp_all add: items_push)

lemma items_pops: "items ((pop ^^ n) q) = drop n (items q)"
  by (induction n) (simp_all add: items_pop drop_Suc tl_drop)

text \<open>First in, first out: after \<open>n\<close> removals the front of a queue that was empty is item \<open>n\<close> of
  what was pushed.\<close>

lemma front_order:
  assumes "n < length xs"
  shows "front ((pop ^^ n) (fold push xs (clear q))) = Some (xs ! n)"
  using assms
  by (simp add: front_items items_pops items_fold_push items_clear Cons_nth_drop_Suc [symmetric])

end

section \<open>The queue of a connection\<close>

definition conn_push :: "'v Data \<Rightarrow> 'v PinConnection \<Rightarrow> 'v PinConnection" where
  "conn_push d cn = cn\<lparr>c_queue := c_queue cn @ [d]\<rparr>"

definition conn_pop :: "'v PinConnection \<Rightarrow> 'v PinConnection" where
  "conn_pop cn = cn\<lparr>c_queue := tl (c_queue cn)\<rparr>"

definition conn_front :: "'v PinConnection \<Rightarrow> 'v Data option" where
  "conn_front cn = (case c_queue cn of [] \<Rightarrow> None | d # _ \<Rightarrow> Some d)"

definition conn_clear :: "'v PinConnection \<Rightarrow> 'v PinConnection" where
  "conn_clear cn = cn\<lparr>c_queue := []\<rparr>"

interpretation pcq: fifo conn_push conn_pop conn_front conn_clear c_queue
  by unfold_locales (simp_all add: conn_push_def conn_pop_def conn_front_def conn_clear_def)

lemma conn_fields [simp]:
  "c_id (conn_push d cn) = c_id cn" "c_id (conn_pop cn) = c_id cn" "c_id (conn_clear cn) = c_id cn"
  "c_producer (conn_push d cn) = c_producer cn" "c_producer (conn_pop cn) = c_producer cn"
  "c_producer (conn_clear cn) = c_producer cn"
  "c_consumer (conn_push d cn) = c_consumer cn" "c_consumer (conn_pop cn) = c_consumer cn"
  "c_consumer (conn_clear cn) = c_consumer cn"
  by (simp_all add: conn_push_def conn_pop_def conn_clear_def)

section \<open>Reading from a connection\<close>

definition conn_hasDataItems :: "ref \<Rightarrow> 'v plv \<Rightarrow> bool" where
  "conn_hasDataItems c w = (c_queue (conns w c) \<noteq> [])"

definition conn_size :: "ref \<Rightarrow> 'v plv \<Rightarrow> int" where
  "conn_size c w = int (length (c_queue (conns w c)))"

text \<open>The exception for an empty queue names both owners; on a disconnected connection building the
  message dereferences a null pointer.\<close>

definition conn_noData :: "string \<Rightarrow> ref \<Rightarrow> 'v plv \<Rightarrow> plv_exn" where
  "conn_noData meth c w =
     (case (c_producer (conns w c), c_consumer (conns w c)) of
        (Some p, Some q) \<Rightarrow>
          RuntimeError (''Illegal: method '' @ meth @ '' called on PinConnection'' @
            ''which has no data available'' @
            '' with producer owner '' @ el_name (elems w (op_owner (opins w p))) @
            '' and consumer owner '' @ el_name (elems w (ip_owner (ipins w q))))
      | _ \<Rightarrow> NullPointer)"

definition conn_get :: "ref \<Rightarrow> ('v plv, 'v Data) plvM" where
  "conn_get c w =
     (case conn_front (conns w c) of
        None \<Rightarrow> (Inl (conn_noData ''get()'' c w), w)
      | Some d \<Rightarrow> (Inr d, upd_conn c conn_pop w))"

definition conn_peek :: "ref \<Rightarrow> 'v plv \<Rightarrow> plv_exn + 'v Data" where
  "conn_peek c w =
     (case conn_front (conns w c) of
        None \<Rightarrow> Inl (conn_noData ''peek()'' c w)
      | Some d \<Rightarrow> Inr d)"

definition conn_peek_serial :: "ref \<Rightarrow> 'v plv \<Rightarrow> plv_exn + (serial \<times> bool)" where
  "conn_peek_serial c w =
     (case conn_front (conns w c) of
        None \<Rightarrow> Inl (conn_noData ''peek()'' c w)
      | Some d \<Rightarrow> Inr (d_serial d, d_null d))"

text \<open>The loop of \<open>fastforward\<close>: drop items until one has the target serial.\<close>

fun ff_loop :: "serial \<Rightarrow> 'v Data list \<Rightarrow> bool \<times> 'v Data list" where
  "ff_loop target [] = (False, [])"
| "ff_loop target (d # ds) = (if d_serial d = target then (True, d # ds) else ff_loop target ds)"

definition conn_fastforward :: "serial \<Rightarrow> ref \<Rightarrow> 'v plv \<Rightarrow> bool \<times> 'v plv" where
  "conn_fastforward target c w =
     (case ff_loop target (c_queue (conns w c)) of
        (success, q) \<Rightarrow> (success, upd_conn c (\<lambda>cn. cn\<lparr>c_queue := q\<rparr>) w))"

definition conn_flush :: "ref \<Rightarrow> 'v plv \<Rightarrow> 'v plv" where
  "conn_flush c w = upd_conn c conn_clear w"

lemma ff_loop_dropWhile:
  "ff_loop target ds = (target \<in> d_serial ` set ds, dropWhile (\<lambda>d. d_serial d \<noteq> target) ds)"
  by (induction target ds rule: ff_loop.induct) auto

section \<open>Notification of the consumer\<close>

text \<open>\<open>m_readyQueue\<close> holds a list per element id; for an id it does not hold the program appends
  through a null pointer.\<close>

definition pipelineDataConsumerReady :: "serial \<Rightarrow> ref \<Rightarrow> ('v plv, unit) plvM" where
  "pipelineDataConsumerReady s e w =
     (let i = el_id (elems w e) in
      case map_of (readyQueue w) i of
        None \<Rightarrow> (Inl NullPointer, w)
      | Some items \<Rightarrow> (Inr (), w\<lparr>readyQueue := qh_insert i (items @ [runItem e s]) (readyQueue w)\<rparr>))"

definition newData :: "ref \<Rightarrow> ref \<Rightarrow> serial \<Rightarrow> ('v plv, unit) plvM" where
  "newData e q s w =
     (let el = elems w e in
      if \<not> el_hasPipeline el then (Inl AssertFailed, w)
      else if el_hasSynchronousPin el then
        (if ip_synchronous (ipins w q) = CONNECTION_ASYNCHRONOUS then (Inr (), w)
         else if \<not> (s > el_serial el \<or> s = 0) then (Inl AssertFailed, w)
         else
           (case sb_add s (el_scoreboard el) of
              (complete, sb) \<Rightarrow>
                (let w' = upd_elem e (\<lambda>el. el\<lparr>el_scoreboard := sb\<rparr>) w in
                 if complete then pipelineDataConsumerReady s e w' else (Inr (), w'))))
      else pipelineDataConsumerReady s e w)"

definition acceptData :: "ref \<Rightarrow> 'v Data \<Rightarrow> ('v plv, unit) plvM" where
  "acceptData q d w = newData (ip_owner (ipins w q)) q (d_serial d) w"

definition conn_put :: "ref \<Rightarrow> 'v Data \<Rightarrow> ('v plv, unit) plvM" where
  "conn_put c d w =
     (let w' = upd_conn c (conn_push d) w in
      case c_consumer (conns w' c) of
        None \<Rightarrow> (Inl NullPointer, w')
      | Some q \<Rightarrow> acceptData q d w')"

definition conn_isSynchronous :: "ref \<Rightarrow> 'v plv \<Rightarrow> plv_exn + bool" where
  "conn_isSynchronous c w =
     (case c_consumer (conns w c) of
        None \<Rightarrow> Inl NullPointer
      | Some q \<Rightarrow> Inr (ip_synchronous (ipins w q) = CONNECTION_SYNCHRONOUS))"

section \<open>What a put changes\<close>

text \<open>A put touches the queue of its connection, the scoreboard of the consumer and the ready queue.\<close>

lemma pipelineDataConsumerReady_frame:
  assumes "pipelineDataConsumerReady s e w = (r, w')"
  shows "conns w' = conns w" "ipins w' = ipins w" "opins w' = opins w" "elems w' = elems w"
    "children w' = children w" "connections w' = connections w" "pl_serial w' = pl_serial w"
  using assms by (auto simp: pipelineDataConsumerReady_def Let_def split: option.splits)

lemma newData_frame:
  assumes "newData e q s w = (r, w')"
  shows "conns w' = conns w" "ipins w' = ipins w" "opins w' = opins w"
    "children w' = children w" "connections w' = connections w" "pl_serial w' = pl_serial w"
  using assms
  by (auto simp: newData_def Let_def pipelineDataConsumerReady_def
      split: if_splits prod.splits option.splits)

lemma newData_elems:
  assumes "newData e q s w = (r, w')"
  shows "\<exists>sb. elems w' = (elems w)(e := (elems w e)\<lparr>el_scoreboard := sb\<rparr>)"
proof (cases "elems w' = elems w")
  case True
  then have "elems w' = (elems w)(e := (elems w e)\<lparr>el_scoreboard := el_scoreboard (elems w e)\<rparr>)"
    by simp
  then show ?thesis by blast
next
  case False
  with assms show ?thesis
    by (auto simp: newData_def Let_def pipelineDataConsumerReady_def
        split: if_splits prod.splits option.splits)
qed

lemma conn_put_frame:
  assumes "conn_put c d w = (r, w')"
  shows "conns w' = (conns w)(c := conn_push d (conns w c))"
    "ipins w' = ipins w" "opins w' = opins w"
    "children w' = children w" "connections w' = connections w" "pl_serial w' = pl_serial w"
  using assms
  by (auto simp: conn_put_def Let_def acceptData_def dest: newData_frame split: option.splits)

text \<open>Members of an element that a put of a data item does not change: all but the scoreboard.\<close>

definition same_but_scoreboard :: "PipelineElement \<Rightarrow> PipelineElement \<Rightarrow> bool" where
  "same_but_scoreboard a b \<longleftrightarrow> a\<lparr>el_scoreboard := sb_new\<rparr> = b\<lparr>el_scoreboard := sb_new\<rparr>"

lemma same_but_scoreboard_fields:
  assumes "same_but_scoreboard a b"
  shows "el_id a = el_id b" "el_class a = el_class b" "el_name a = el_name b"
    "el_state a = el_state b" "el_serial a = el_serial b"
    "el_inputPins a = el_inputPins b" "el_outputPins a = el_outputPins b"
    "el_hasSynchronousPin a = el_hasSynchronousPin b"
    "el_hasPipeline a = el_hasPipeline b"
  using assms by (cases a; cases b; simp add: same_but_scoreboard_def)+

lemma same_but_scoreboard_refl [simp]: "same_but_scoreboard a a"
  by (simp add: same_but_scoreboard_def)

lemma same_but_scoreboard_upd [simp]: "same_but_scoreboard (a\<lparr>el_scoreboard := sb\<rparr>) a"
  by (simp add: same_but_scoreboard_def)

lemma same_but_scoreboard_trans:
  "same_but_scoreboard a b \<Longrightarrow> same_but_scoreboard b c \<Longrightarrow> same_but_scoreboard a c"
  by (simp add: same_but_scoreboard_def)

lemma conn_put_elems:
  assumes "conn_put c d w = (r, w')"
  shows "same_but_scoreboard (elems w' e) (elems w e)"
proof (cases "c_consumer (conns w c)")
  case None
  with assms show ?thesis by (auto simp: conn_put_def)
next
  case (Some q)
  with assms have "newData (ip_owner (ipins w q)) q (d_serial d) (upd_conn c (conn_push d) w) = (r, w')"
    by (simp add: conn_put_def acceptData_def Let_def)
  from newData_elems [OF this] show ?thesis by auto
qed

section \<open>Order of the items\<close>

lemma forM_conn_put:
  "forM (conn_put c) ds w = (Inr (), w') \<Longrightarrow> conns w' c = fold conn_push ds (conns w c)"
proof (induction ds arbitrary: w)
  case (Cons d ds)
  then obtain w1 where "conn_put c d w = (Inr (), w1)" and "forM (conn_put c) ds w1 = (Inr (), w')"
    by (auto simp: monad_defs split: prod.splits sum.splits)
  with Cons.IH [of w1] conn_put_frame(1) [of c d w] show ?case by simp
qed (simp add: monad_defs)

lemma conn_get_conns: "n \<le> length (c_queue (conns w c)) \<Longrightarrow>
    conns (((\<lambda>w. snd (conn_get c w)) ^^ n) w) c = (conn_pop ^^ n) (conns w c) \<and>
    length (c_queue ((conn_pop ^^ n) (conns w c))) = length (c_queue (conns w c)) - n"
  by (induction n) (auto simp: conn_get_def conn_front_def conn_pop_def split: option.splits list.splits)

lemma conn_get_front: "conn_front (conns w c) = Some d \<Longrightarrow> fst (conn_get c w) = Inr d"
  by (simp add: conn_get_def)

end
