(* ===== verification/Pins.thy ===== *)
theory Pins
  imports Pin_Connection
begin

text \<open>
  Input and output pins: \<open>src/plvcore/IInputPin.cpp\<close>, \<open>src/plvcore/IOutputPin.cpp\<close>,
  \<open>include/plvcore/DynamicInputPin.h\<close>, and the half of \<open>src/plvcore/PinConnection.cpp\<close> that
  connects and disconnects two pins.

  \<open>QMetaType\<close> stands for Qt's registry of types: which type ids are registered and the name of each.
  The callbacks \<open>onInputConnectionSet\<close>, \<open>onInputConnectionRemoved\<close>, \<open>onOutputConnectionAdded\<close> and
  \<open>onOutputConnectionRemoved\<close> do nothing in \<open>DataConsumer\<close> and \<open>DataProducer\<close>.
\<close>

record QMetaType =
  isRegistered :: "int \<Rightarrow> bool"
  typeName :: "int \<Rightarrow> string"

section \<open>Input pins\<close>

definition ipin_isConnected :: "ref \<Rightarrow> 'v plv \<Rightarrow> bool" where
  "ipin_isConnected q w = (ip_connection (ipins w q) \<noteq> None)"

definition isSynchronous :: "IInputPin \<Rightarrow> bool" where
  "isSynchronous q = (ip_synchronous q = CONNECTION_SYNCHRONOUS)"

definition isRequired :: "IInputPin \<Rightarrow> bool" where
  "isRequired q = (ip_required q = CONNECTION_REQUIRED)"

definition isDataGuaranteed :: "IInputPin \<Rightarrow> bool" where
  "isDataGuaranteed q = (ip_guarantee q = CONNECTION_GUARANTEES_DATA)"

definition setConnection :: "ref \<Rightarrow> ref \<Rightarrow> ('v plv, unit) plvM" where
  "setConnection q c w =
     (if ipin_isConnected q w then (Inl AssertFailed, w)
      else (Inr (), upd_ipin q (\<lambda>qi. qi\<lparr>ip_connection := Some c\<rparr>) w))"

definition ipin_removeConnection :: "ref \<Rightarrow> ('v plv, unit) plvM" where
  "ipin_removeConnection q w =
     (if ipin_isConnected q w then (Inr (), upd_ipin q (\<lambda>qi. qi\<lparr>ip_connection := None\<rparr>) w)
      else (Inl AssertFailed, w))"

definition ipin_hasDataItems :: "ref \<Rightarrow> 'v plv \<Rightarrow> bool" where
  "ipin_hasDataItems q w =
     (case ip_connection (ipins w q) of None \<Rightarrow> False | Some c \<Rightarrow> conn_hasDataItems c w)"

definition peekNext :: "ref \<Rightarrow> 'v plv \<Rightarrow> plv_exn + (serial \<times> bool)" where
  "peekNext q w =
     (case ip_connection (ipins w q) of
        None \<Rightarrow> Inl AssertFailed
      | Some c \<Rightarrow> conn_peek_serial c w)"

definition ipin_hasData :: "ref \<Rightarrow> 'v plv \<Rightarrow> bool" where
  "ipin_hasData q w =
     (ipin_hasDataItems q w \<and> (case peekNext q w of Inl e \<Rightarrow> False | Inr (s, isNull) \<Rightarrow> \<not> isNull))"

definition ipin_pre :: "ref \<Rightarrow> 'v plv \<Rightarrow> 'v plv" where
  "ipin_pre q w = upd_ipin q (\<lambda>qi. qi\<lparr>ip_called := False\<rparr>) w"

definition ipin_post :: "ref \<Rightarrow> 'v plv \<Rightarrow> plv_exn + unit" where
  "ipin_post q w =
     (if ipin_isConnected q w \<and> isSynchronous (ipins w q) \<and> \<not> ip_called (ipins w q)
      then Inl (RuntimeError (''Processor '' @ el_name (elems w (ip_owner (ipins w q))) @
             '' did not call mandatory get() or clear() on input Pin '' @ ip_name (ipins w q) @ ''.''))
      else Inr ())"

definition removeFirst :: "ref \<Rightarrow> ('v plv, unit) plvM" where
  "removeFirst q w =
     (case ip_connection (ipins w q) of
        None \<Rightarrow> (Inl AssertFailed, w)
      | Some c \<Rightarrow> bindM (conn_get c) (\<lambda>_. returnM ()) w)"

text \<open>The two checks \<open>clear\<close> and \<open>getVariant\<close> share: not twice in one \<open>process()\<close> call, and only with
  data available.  \<open>m_called\<close> is set between them.\<close>

definition pinError :: "string \<Rightarrow> ref \<Rightarrow> 'v plv \<Rightarrow> plv_exn" where
  "pinError what q w =
     RuntimeError (what @ ip_name (ipins w q) @ '' of processor '' @
       el_name (elems w (ip_owner (ipins w q))))"

definition ipin_clear :: "ref \<Rightarrow> ('v plv, unit) plvM" where
  "ipin_clear q w =
     (if ip_called (ipins w q)
      then (Inl (pinError ''Illegal: method clear() or get() called twice during process() on InputPin '' q w), w)
      else
        (let w' = upd_ipin q (\<lambda>qi. qi\<lparr>ip_called := True\<rparr>) w in
         if \<not> ipin_hasDataItems q w'
         then (Inl (pinError ''Illegal: method clear() called on InputPin which has no data available. Pin name is '' q w'), w')
         else removeFirst q w'))"

definition getVariant :: "ref \<Rightarrow> ('v plv, 'v option) plvM" where
  "getVariant q w =
     (if ip_called (ipins w q)
      then (Inl (pinError ''Illegal: method get() called twice during process() on InputPin '' q w), w)
      else
        (let w' = upd_ipin q (\<lambda>qi. qi\<lparr>ip_called := True\<rparr>) w in
         case ip_connection (ipins w' q) of
           None \<Rightarrow> (Inl (pinError ''Illegal: method get() called on InputPin which has no data available. Pin name is '' q w'), w')
         | Some c \<Rightarrow>
             (if \<not> conn_hasDataItems c w'
              then (Inl (pinError ''Illegal: method get() called on InputPin which has no data available. Pin name is '' q w'), w')
              else bindM (conn_get c) (\<lambda>d.
                if d_null d
                then throwM (pinError ''Illegal: method get() called on InputPin which has a NULL data item available. Pin name is '' q w')
                else returnM (d_payload d)) w')))"

section \<open>Output pins\<close>

definition opin_isConnected :: "ref \<Rightarrow> 'v plv \<Rightarrow> bool" where
  "opin_isConnected p w = (op_connections (opins w p) \<noteq> [])"

definition addConnection :: "ref \<Rightarrow> ref \<Rightarrow> 'v plv \<Rightarrow> 'v plv" where
  "addConnection p c w = upd_opin p (\<lambda>po. po\<lparr>op_connections := op_connections po @ [c]\<rparr>) w"

definition opin_removeConnection :: "ref \<Rightarrow> ref \<Rightarrow> ('v plv, unit) plvM" where
  "opin_removeConnection p c w =
     (if c \<in> set (op_connections (opins w p))
      then (Inr (), upd_opin p (\<lambda>po. po\<lparr>op_connections := remove1 c (op_connections po)\<rparr>) w)
      else (Inl AssertFailed, w))"

definition maxDataOnConnection :: "ref \<Rightarrow> 'v plv \<Rightarrow> int" where
  "maxDataOnConnection p w =
     fold (\<lambda>c mx. if conn_size c w > mx then conn_size c w else mx) (op_connections (opins w p)) 0"

definition opin_pre :: "ref \<Rightarrow> 'v plv \<Rightarrow> 'v plv" where
  "opin_pre p w = upd_opin p (\<lambda>po. po\<lparr>op_called := False\<rparr>) w"

text \<open>One iteration of the loop of \<open>post\<close>.\<close>

definition postConn :: "'v Data \<Rightarrow> ref \<Rightarrow> ('v plv, unit) plvM" where
  "postConn d c w =
     (case conn_isSynchronous c w of
        Inl e \<Rightarrow> (Inl e, w)
      | Inr sync \<Rightarrow> if sync then conn_put c d w else (Inr (), w))"

definition opin_post :: "ref \<Rightarrow> ('v plv, unit) plvM" where
  "opin_post p w =
     (if opin_isConnected p w \<and> \<not> op_called (opins w p)
      then forM (postConn (Data_null (el_serial (elems w (op_owner (opins w p))))))
             (op_connections (opins w p)) w
      else (Inr (), w))"

definition dquote :: string where
  "dquote = [CHR 0x22]"

definition putVariant :: "ref \<Rightarrow> serial \<Rightarrow> 'v \<Rightarrow> ('v plv, unit) plvM" where
  "putVariant p s v w =
     (if op_called (opins w p)
      then (Inl (RuntimeError (''Illegal: method put() called twice during process() on OutputPin. Pin name is '' @ dquote @
              op_name (opins w p) @ dquote @ '' of processor '' @ dquote @
              el_name (elems w (op_owner (opins w p))) @ dquote)), w)
      else
        (let w1 = upd_opin p (\<lambda>po. po\<lparr>op_called := True\<rparr>) w;
             w2 = emit (viewerData p s) w1 in
         forM (\<lambda>c. conn_put c (Data_payload s v)) (op_connections (opins w2 p)) w2))"

section \<open>Connecting and disconnecting\<close>

definition setTypeId :: "QMetaType \<Rightarrow> int \<Rightarrow> ref \<Rightarrow> 'v plv \<Rightarrow> bool \<times> 'v plv" where
  "setTypeId qt t q w =
     (if ipin_isConnected q w \<or> \<not> isRegistered qt t then (False, w)
      else (True, upd_ipin q (\<lambda>qi. qi\<lparr>ip_typeId := t\<rparr>) w))"

definition ipin_acceptsConnectionWith :: "IInputPin \<Rightarrow> IOutputPin \<Rightarrow> bool" where
  "ipin_acceptsConnectionWith qi po =
     (case ip_class qi of
        TypedInputPin \<Rightarrow> True
      | DynamicInputPin \<Rightarrow> True
      | CvMatDataInputPin \<Rightarrow> op_typeId po = ip_typeId qi)"

definition opin_acceptsConnectionWith :: "IOutputPin \<Rightarrow> IInputPin \<Rightarrow> bool" where
  "opin_acceptsConnectionWith po qi =
     (case op_class po of
        TypedOutputPin \<Rightarrow> True
      | CvMatDataOutputPin \<Rightarrow> ip_typeId qi = op_typeId po)"

definition incompatibleMsg :: "QMetaType \<Rightarrow> IOutputPin \<Rightarrow> IInputPin \<Rightarrow> string" where
  "incompatibleMsg qt po qi =
     ''Cannot connect pins of incompatible type: producer '' @ op_name po @ '' and consumer '' @
     ip_name qi @ '' with types '' @ typeName qt (op_typeId po) @ '' and '' @ typeName qt (ip_typeId qi)"

text \<open>The block \<open>canConnectPins\<close> and \<open>connect\<close> have in common, after their checks of the owners and of
  the consumer: the types of the two pins are reconciled, which for a dynamic pin changes its type, and
  both pins are asked for their objections.  The result is the objection, if there is one.\<close>

definition typeObjection :: "QMetaType \<Rightarrow> ref \<Rightarrow> ref \<Rightarrow> 'v plv \<Rightarrow> string option \<times> 'v plv" where
  "typeObjection qt p q w =
     (let po = opins w p; qi = ipins w q in
      if ip_class qi = DynamicInputPin then
        (case setTypeId qt (op_typeId po) q w of
           (ok, w1) \<Rightarrow> (if ok then None else Some (''DynamicInputPin '' @ ip_name qi @ '' failed to change type.''), w1))
      else (if op_typeId po \<noteq> ip_typeId qi then Some (incompatibleMsg qt po qi) else None, w))"

definition pinObjection :: "QMetaType \<Rightarrow> ref \<Rightarrow> ref \<Rightarrow> 'v plv \<Rightarrow> string option \<times> 'v plv" where
  "pinObjection qt p q w =
     (case typeObjection qt p q w of
        (Some msg, w1) \<Rightarrow> (Some msg, w1)
      | (None, w1) \<Rightarrow>
          (if \<not> opin_acceptsConnectionWith (opins w1 p) (ipins w1 q)
           then (Some ''Incompatible types between pins'', w1)
           else if \<not> ipin_acceptsConnectionWith (ipins w1 q) (opins w1 p)
           then (Some ''Incompatible types between pins'', w1)
           else (None, w1)))"

definition canConnectPins :: "QMetaType \<Rightarrow> ref \<Rightarrow> ref \<Rightarrow> 'v plv \<Rightarrow> (bool \<times> string) \<times> 'v plv" where
  "canConnectPins qt p q w =
     (let po = opins w p; qi = ipins w q in
      if op_owner po = ip_owner qi
      then ((False, ''Cannot connect '' @ el_name (elems w (op_owner po)) @ '' to itself''), w)
      else if ip_connection qi \<noteq> None
      then ((False, ''Input pin '' @ ip_name qi @ '' is already connected''), w)
      else (case pinObjection qt p q w of
              (Some msg, w1) \<Rightarrow> ((False, msg), w1)
            | (None, w1) \<Rightarrow> ((True, ''''), w1)))"

definition conn_connect :: "QMetaType \<Rightarrow> ref \<Rightarrow> ref \<Rightarrow> ref \<Rightarrow> ('v plv, unit) plvM" where
  "conn_connect qt c p q w =
     (let po = opins w p; qi = ipins w q in
      if ip_owner qi = op_owner po
      then (Inl (IllegalConnectionException (''It is not allowed to connect '' @
              el_name (elems w (ip_owner qi)) @ '' to itself'')), w)
      else if ip_connection qi \<noteq> None
      then (Inl (DuplicateConnectionException (ip_name qi @ '' is already connected'')), w)
      else
        (case pinObjection qt p q w of
           (Some msg, w1) \<Rightarrow> (Inl (IncompatibleTypeException msg), w1)
         | (None, w1) \<Rightarrow>
             seqM (modifyM (addConnection p c))
               (seqM (setConnection q c) (\<lambda>w2. assertM (ipin_isConnected q w2) w2)) w1))"

text \<open>The constructor: a new object at a fresh address, then \<open>connect()\<close>.\<close>

definition new_PinConnection :: "QMetaType \<Rightarrow> int \<Rightarrow> ref \<Rightarrow> ref \<Rightarrow> ('v plv, ref) plvM" where
  "new_PinConnection qt i p q w =
     (let c = nextConn w;
          w1 = w\<lparr>nextConn := Suc c,
                 conns := (conns w)(c := \<lparr>c_id = i, c_producer = Some p, c_consumer = Some q, c_queue = []\<rparr>)\<rparr> in
      seqM (conn_connect qt c p q) (returnM c) w1)"

definition conn_disconnect :: "ref \<Rightarrow> ('v plv, unit) plvM" where
  "conn_disconnect c w =
     (case c_producer (conns w c) of
        None \<Rightarrow> (Inl NullPointer, w)
      | Some p \<Rightarrow>
          seqM (opin_removeConnection p c)
            (\<lambda>w1. case c_consumer (conns w1 c) of
               None \<Rightarrow> (Inl NullPointer, w1)
             | Some q \<Rightarrow>
                 seqM (ipin_removeConnection q)
                   (modifyM (upd_conn c (\<lambda>cn. cn\<lparr>c_producer := None, c_consumer := None, c_queue := []\<rparr>))) w1) w)"

end
