(* ===== verification/Pipeline_Element.thy ===== *)
theory Pipeline_Element
  imports Pins
begin

text \<open>
  The life cycle of a pipeline element (\<open>src/plvcore/PipelineElement.cpp\<close>): the template methods
  \<open>__init\<close>, \<open>__deinit\<close>, \<open>__start\<close> and \<open>__stop\<close>, which check the state of the element, call the
  virtual method of the plug-in and move the element to its next state.

  The virtual methods \<open>init\<close>, \<open>deinit\<close>, \<open>start\<close> and \<open>stop\<close> belong to the plug-ins.  A call of one of
  them is described by its outcome, a \<open>hook\<close>: the error it reports with \<open>setError\<close>, if any, and what
  it returns or throws.  \<open>deinit\<close> is declared \<open>throw()\<close>, so its outcome is a boolean.
\<close>

section \<open>Model\<close>

definition setState :: "ref \<Rightarrow> State \<Rightarrow> 'v plv \<Rightarrow> 'v plv" where
  "setState e st w = upd_elem e (\<lambda>el. el\<lparr>el_state := st\<rparr>) w"

definition getState :: "ref \<Rightarrow> 'v plv \<Rightarrow> State" where
  "getState e w = el_state (elems w e)"

definition setError :: "ref \<Rightarrow> PlvErrorType \<Rightarrow> string \<Rightarrow> 'v plv \<Rightarrow> 'v plv" where
  "setError e t msg w =
     upd_elem e (\<lambda>el. el\<lparr>el_errorString := msg, el_errorType := t\<rparr>) (setState e PLE_ERROR w)"

type_synonym hook = "(PlvErrorType \<times> string) option \<times> (plv_exn + bool)"

type_synonym hook_nothrow = "(PlvErrorType \<times> string) option \<times> bool"

definition reportError :: "ref \<Rightarrow> (PlvErrorType \<times> string) option \<Rightarrow> 'v plv \<Rightarrow> 'v plv" where
  "reportError e err w = (case err of None \<Rightarrow> w | Some (t, msg) \<Rightarrow> setError e t msg w)"

definition callHook :: "ref \<Rightarrow> hook \<Rightarrow> ('v plv, bool) plvM" where
  "callHook e h w = (snd h, reportError e (fst h) w)"

text \<open>What follows the call in all four methods: the next state on success, \<open>PLE_ERROR\<close> on failure.\<close>

definition settle :: "ref \<Rightarrow> State \<Rightarrow> bool \<Rightarrow> ('v plv, bool) plvM" where
  "settle e st ok w = (Inr ok, setState e (if ok then st else PLE_ERROR) w)"

definition ple_init :: "ref \<Rightarrow> hook \<Rightarrow> ('v plv, bool) plvM" where
  "ple_init e h w =
     seqM (assertM (getState e w = PLE_UNDEFINED))
       (bindM (callHook e h) (settle e PLE_INITIALIZED)) w"

definition ple_deinit :: "ref \<Rightarrow> hook_nothrow \<Rightarrow> ('v plv, bool) plvM" where
  "ple_deinit e h w =
     seqM (assertM (getState e w = PLE_ERROR \<or> getState e w = PLE_INITIALIZED))
       (bindM (callHook e (fst h, Inr (snd h)))
         (\<lambda>ok. if \<not> ok then settle e PLE_UNDEFINED False
               else bindM (settle e PLE_UNDEFINED True) (\<lambda>_.
                 seqM (modifyM (upd_elem e (\<lambda>el. el\<lparr>el_serial := 0, el_errorType := PlvNoError,
                                                    el_errorString := ''''\<rparr>)))
                   (returnM True)))) w"

definition ple_start :: "ref \<Rightarrow> hook \<Rightarrow> ('v plv, bool) plvM" where
  "ple_start e h w =
     seqM (assertM (getState e w = PLE_INITIALIZED))
       (bindM (callHook e h) (settle e PLE_STARTED)) w"

definition ple_stop :: "ref \<Rightarrow> hook \<Rightarrow> ('v plv, bool) plvM" where
  "ple_stop e h w =
     seqM (assertM (getState e w \<ge> PLE_STARTED))
       (bindM (callHook e h) (settle e PLE_INITIALIZED)) w"

section \<open>What the methods change\<close>

named_theorems ple_defs "definitions of the life cycle methods"

lemmas [ple_defs] =
  ple_init_def ple_deinit_def ple_start_def ple_stop_def settle_def callHook_def reportError_def
  setError_def setState_def getState_def

lemma getState_setState [simp]:
  "getState e (setState e' st w) = (if e = e' then st else getState e w)"
  by (simp add: getState_def setState_def)

text \<open>The members the methods of one element may change in it.\<close>

definition status_only :: "PipelineElement \<Rightarrow> PipelineElement \<Rightarrow> bool" where
  "status_only a b \<longleftrightarrow>
     a\<lparr>el_state := PLE_UNDEFINED, el_errorType := PlvNoError, el_errorString := [], el_serial := 0\<rparr> =
     b\<lparr>el_state := PLE_UNDEFINED, el_errorType := PlvNoError, el_errorString := [], el_serial := 0\<rparr>"

lemma status_only_updates [simp]:
  "status_only (a\<lparr>el_state := st\<rparr>) b = status_only a b"
  "status_only (a\<lparr>el_errorType := t\<rparr>) b = status_only a b"
  "status_only (a\<lparr>el_errorString := m\<rparr>) b = status_only a b"
  "status_only (a\<lparr>el_serial := s\<rparr>) b = status_only a b"
  by (simp_all add: status_only_def)

lemma status_only_refl [simp]: "status_only a a"
  by (simp add: status_only_def)

lemma status_only_trans: "status_only a b \<Longrightarrow> status_only b c \<Longrightarrow> status_only a c"
  by (simp add: status_only_def)

lemma status_only_fields:
  assumes "status_only a b"
  shows "el_id a = el_id b" "el_class a = el_class b" "el_name a = el_name b"
    "el_inputPins a = el_inputPins b" "el_outputPins a = el_outputPins b"
    "el_hasPipeline a = el_hasPipeline b"
    "el_hasAsynchronousPin a = el_hasAsynchronousPin b"
    "el_hasSynchronousPin a = el_hasSynchronousPin b"
    "el_scoreboard a = el_scoreboard b"
  using assms by (cases a; cases b; simp add: status_only_def)+

text \<open>\<open>only_elem e w w'\<close>: of the whole state, at most the status of element \<open>e\<close> differs.\<close>

definition only_elem :: "ref \<Rightarrow> 'v plv \<Rightarrow> 'v plv \<Rightarrow> bool" where
  "only_elem e w w' \<longleftrightarrow> (\<exists>el. status_only el (elems w e) \<and> w' = w\<lparr>elems := (elems w)(e := el)\<rparr>)"

lemma only_elemI: "status_only (f (elems w e)) (elems w e) \<Longrightarrow> only_elem e w (upd_elem e f w)"
  by (auto simp: only_elem_def upd_elem_def)

lemma only_elem_refl [simp]: "only_elem e w w"
  unfolding only_elem_def by (rule exI [of _ "elems w e"]) simp

lemma only_elem_trans:
  assumes "only_elem e w1 w2" and "only_elem e w2 w3"
  shows "only_elem e w1 w3"
proof -
  from assms obtain a b where "status_only a (elems w1 e)" "w2 = w1\<lparr>elems := (elems w1)(e := a)\<rparr>"
    and "status_only b a" "w3 = w2\<lparr>elems := (elems w2)(e := b)\<rparr>"
    by (auto simp: only_elem_def)
  then have "status_only b (elems w1 e) \<and> w3 = w1\<lparr>elems := (elems w1)(e := b)\<rparr>"
    by (auto dest: status_only_trans)
  then show ?thesis unfolding only_elem_def by blast
qed

lemma only_elem_setState [simp]: "only_elem e w (setState e st w)"
  unfolding setState_def by (rule only_elemI) simp

lemma only_elem_setError [simp]: "only_elem e w (setError e t m w)"
  unfolding setError_def by (rule only_elem_trans [OF only_elem_setState only_elemI]) simp

lemma only_elem_reportError [simp]: "only_elem e w (reportError e err w)"
  by (auto simp: reportError_def split: option.splits)

lemma only_elem_others: "only_elem e w w' \<Longrightarrow> e' \<noteq> e \<Longrightarrow> elems w' e' = elems w e'"
  by (auto simp: only_elem_def)

lemma only_elem_status: "only_elem e w w' \<Longrightarrow> status_only (elems w' e') (elems w e')"
  by (auto simp: only_elem_def)

lemma only_elem_frame:
  assumes "only_elem e w w'"
  shows "ipins w' = ipins w" "opins w' = opins w" "conns w' = conns w" "nextConn w' = nextConn w"
    "children w' = children w" "connections w' = connections w"
    "producers w' = producers w" "processors w' = processors w"
    "readyQueue w' = readyQueue w" "runQueue w' = runQueue w"
    "pl_serial w' = pl_serial w" "pl_running w' = pl_running w" "pl_changed w' = pl_changed w"
    "pl_testCount w' = pl_testCount w" "pl_heartbeat w' = pl_heartbeat w"
    "pl_ordering w' = pl_ordering w" "signals w' = signals w"
    "pl_slots w' = pl_slots w" "pl_filename w' = pl_filename w"
  using assms by (auto simp: only_elem_def)

lemmas setState_frame [simp] = only_elem_frame [OF only_elem_setState]

lemmas setError_frame [simp] = only_elem_frame [OF only_elem_setError]

lemma settle_only: "only_elem e w (snd (settle e st ok w))"
  by (simp add: settle_def)

text \<open>The shape the four methods share, and what follows from it.\<close>

lemma hook_step_only:
  "only_elem e w (snd (seqM (assertM b) (bindM (callHook e h) (settle e st)) w))"
  using only_elem_trans [OF only_elem_reportError settle_only]
  by (auto simp: monad_defs callHook_def split: sum.splits intro: only_elem_reportError)

lemma ple_init_only: "only_elem e w (snd (ple_init e h w))"
  unfolding ple_init_def by (rule hook_step_only)

lemma ple_start_only: "only_elem e w (snd (ple_start e h w))"
  unfolding ple_start_def by (rule hook_step_only)

lemma ple_stop_only: "only_elem e w (snd (ple_stop e h w))"
  unfolding ple_stop_def by (rule hook_step_only)

lemma ple_deinit_only: "only_elem e w (snd (ple_deinit e h w))"
proof -
  have reset: "only_elem e w1 (upd_elem e (\<lambda>el. el\<lparr>el_serial := 0, el_errorType := PlvNoError,
        el_errorString := []\<rparr>) w1)" for w1 :: "'a plv"
    by (rule only_elemI) simp
  show ?thesis
    using only_elem_trans [OF only_elem_reportError only_elem_setState]
      only_elem_trans [OF only_elem_trans [OF only_elem_reportError only_elem_setState] reset]
    by (auto simp: ple_deinit_def monad_defs callHook_def settle_def split: sum.splits)
qed

section \<open>The states after a call\<close>

lemma ple_init_cases:
  "ple_init e (err, res) w =
     (if getState e w \<noteq> PLE_UNDEFINED then (Inl AssertFailed, w)
      else case res of
        Inl x \<Rightarrow> (Inl x, reportError e err w)
      | Inr ok \<Rightarrow> (Inr ok, setState e (if ok then PLE_INITIALIZED else PLE_ERROR) (reportError e err w)))"
  by (auto simp: ple_init_def monad_defs callHook_def settle_def split: sum.splits)

lemma ple_start_cases:
  "ple_start e (err, res) w =
     (if getState e w \<noteq> PLE_INITIALIZED then (Inl AssertFailed, w)
      else case res of
        Inl x \<Rightarrow> (Inl x, reportError e err w)
      | Inr ok \<Rightarrow> (Inr ok, setState e (if ok then PLE_STARTED else PLE_ERROR) (reportError e err w)))"
  by (auto simp: ple_start_def monad_defs callHook_def settle_def split: sum.splits)

lemma ple_stop_cases:
  "ple_stop e (err, res) w =
     (if \<not> getState e w \<ge> PLE_STARTED then (Inl AssertFailed, w)
      else case res of
        Inl x \<Rightarrow> (Inl x, reportError e err w)
      | Inr ok \<Rightarrow> (Inr ok, setState e (if ok then PLE_INITIALIZED else PLE_ERROR) (reportError e err w)))"
  by (auto simp: ple_stop_def monad_defs callHook_def settle_def split: sum.splits)

lemma ple_deinit_result:
  assumes "getState e w \<in> {PLE_ERROR, PLE_INITIALIZED}"
  shows "fst (ple_deinit e (err, ok) w) = Inr ok"
    and "getState e (snd (ple_deinit e (err, ok) w)) = (if ok then PLE_UNDEFINED else PLE_ERROR)"
    and "ok \<Longrightarrow> el_serial (elems (snd (ple_deinit e (err, ok) w)) e) = 0 \<and>
      el_errorType (elems (snd (ple_deinit e (err, ok) w)) e) = PlvNoError \<and>
      el_errorString (elems (snd (ple_deinit e (err, ok) w)) e) = ''''"
  using assms by (auto simp: ple_defs monad_defs)

lemma ple_deinit_assert:
  "getState e w \<notin> {PLE_ERROR, PLE_INITIALIZED} \<Longrightarrow> ple_deinit e h w = (Inl AssertFailed, w)"
  by (auto simp: ple_deinit_def monad_defs)

end
