(* ===== verification/Data_Pins.thy ===== *)
theory Data_Pins
  imports Pipeline_Element
begin

text \<open>
  \<open>DataProducer\<close> and \<open>DataConsumer\<close> (\<open>src/plvcore/DataProducer.cpp\<close>, \<open>src/plvcore/DataConsumer.cpp\<close>):
  the pins of an element, the preparations before and after a \<open>process()\<close> call, and the test whether
  the input pins hold the data of the next frame.

  The pin maps of an element are \<open>QHash\<close>es from pin ids to pins.  Erasing through the iterator of a
  key that is not in the map is undefined behaviour in the program; the model reports it as
  \<open>NullPointer\<close>.
\<close>

section \<open>The pin maps\<close>

definition inputPins :: "ref \<Rightarrow> 'v plv \<Rightarrow> ref list" where
  "inputPins e w = map snd (el_inputPins (elems w e))"

definition outputPins :: "ref \<Rightarrow> 'v plv \<Rightarrow> ref list" where
  "outputPins e w = map snd (el_outputPins (elems w e))"

definition getNextInputPinId :: "ref \<Rightarrow> 'v plv \<Rightarrow> int" where
  "getNextInputPinId e w = nextIdProbe 0 (el_inputPins (elems w e))"

definition getNextOutputPinId :: "ref \<Rightarrow> 'v plv \<Rightarrow> int" where
  "getNextOutputPinId e w = nextIdProbe 0 (el_outputPins (elems w e))"

definition insertInputPin :: "ref \<Rightarrow> int \<Rightarrow> ref \<Rightarrow> 'v plv \<Rightarrow> 'v plv" where
  "insertInputPin e i q w = upd_elem e (\<lambda>el. el\<lparr>el_inputPins := qh_insert i q (el_inputPins el)\<rparr>) w"

definition insertOutputPin :: "ref \<Rightarrow> int \<Rightarrow> ref \<Rightarrow> 'v plv \<Rightarrow> 'v plv" where
  "insertOutputPin e i p w = upd_elem e (\<lambda>el. el\<lparr>el_outputPins := qh_insert i p (el_outputPins el)\<rparr>) w"

definition addInputPin :: "ref \<Rightarrow> ref \<Rightarrow> ('v plv, int) plvM" where
  "addInputPin e q w =
     (if ip_id (ipins w q) = - 1 then
        (let i = getNextInputPinId e w;
             w1 = upd_ipin q (\<lambda>qi. qi\<lparr>ip_id := i\<rparr>) w in
         if qm_contains i (el_inputPins (elems w1 e)) then (Inl AssertFailed, w1)
         else (Inr i, insertInputPin e i q w1))
      else if qm_contains (ip_id (ipins w q)) (el_inputPins (elems w e)) then (Inr (- 1), w)
      else (Inr (ip_id (ipins w q)), insertInputPin e (ip_id (ipins w q)) q w))"

definition addOutputPin :: "ref \<Rightarrow> ref \<Rightarrow> ('v plv, int) plvM" where
  "addOutputPin e p w =
     (if op_id (opins w p) = - 1 then
        (let i = getNextOutputPinId e w in
         if qm_contains i (el_outputPins (elems w e)) then (Inl AssertFailed, w)
         else (Inr i, insertOutputPin e i p (upd_opin p (\<lambda>po. po\<lparr>op_id := i\<rparr>) w)))
      else if qm_contains (op_id (opins w p)) (el_outputPins (elems w e)) then (Inr (- 1), w)
      else (Inr (op_id (opins w p)), insertOutputPin e (op_id (opins w p)) p w))"

text \<open>Both branches of the test for the id go on to erase through the iterator.\<close>

definition removeInputPin :: "ref \<Rightarrow> int \<Rightarrow> ('v plv, unit) plvM" where
  "removeInputPin e i w =
     (if qm_contains i (el_inputPins (elems w e))
      then (Inr (), upd_elem e (\<lambda>el. el\<lparr>el_inputPins := qm_remove i (el_inputPins el)\<rparr>) w)
      else (Inl NullPointer, w))"

definition removeOutputPin :: "ref \<Rightarrow> int \<Rightarrow> ('v plv, unit) plvM" where
  "removeOutputPin e i w =
     (if qm_contains i (el_outputPins (elems w e))
      then (Inr (), upd_elem e (\<lambda>el. el\<lparr>el_outputPins := qm_remove i (el_outputPins el)\<rparr>) w)
      else (Inl NullPointer, w))"

definition getInputPin :: "ref \<Rightarrow> int \<Rightarrow> 'v plv \<Rightarrow> ref option" where
  "getInputPin e i w = map_of (el_inputPins (elems w e)) i"

definition getOutputPin :: "ref \<Rightarrow> int \<Rightarrow> 'v plv \<Rightarrow> ref option" where
  "getOutputPin e i w = map_of (el_outputPins (elems w e)) i"

definition getInputPinNames :: "ref \<Rightarrow> 'v plv \<Rightarrow> string list" where
  "getInputPinNames e w = map (\<lambda>q. ip_name (ipins w q)) (inputPins e w)"

definition getOutputPinNames :: "ref \<Rightarrow> 'v plv \<Rightarrow> string list" where
  "getOutputPinNames e w = map (\<lambda>p. op_name (opins w p)) (outputPins e w)"

section \<open>Connections of an element\<close>

text \<open>The element at the other end; dereferencing a connection without a pin is a null pointer
  access.\<close>

definition fromElement :: "ref \<Rightarrow> 'v plv \<Rightarrow> plv_exn + ref" where
  "fromElement c w =
     (case c_producer (conns w c) of None \<Rightarrow> Inl NullPointer | Some p \<Rightarrow> Inr (op_owner (opins w p)))"

definition toElement :: "ref \<Rightarrow> 'v plv \<Rightarrow> plv_exn + ref" where
  "toElement c w =
     (case c_consumer (conns w c) of None \<Rightarrow> Inl NullPointer | Some q \<Rightarrow> Inr (ip_owner (ipins w q)))"

fun elementsAt :: "('c \<Rightarrow> plv_exn + ref) \<Rightarrow> 'c list \<Rightarrow> plv_exn + ref set" where
  "elementsAt f [] = Inr {}"
| "elementsAt f (c # cs) =
     (case f c of Inl x \<Rightarrow> Inl x
      | Inr e \<Rightarrow> (case elementsAt f cs of Inl x \<Rightarrow> Inl x | Inr es \<Rightarrow> Inr (insert e es)))"

definition inputConnections :: "ref \<Rightarrow> 'v plv \<Rightarrow> ref list" where
  "inputConnections e w = List.map_filter (\<lambda>q. ip_connection (ipins w q)) (inputPins e w)"

definition outputConnections :: "ref \<Rightarrow> 'v plv \<Rightarrow> ref list" where
  "outputConnections e w = concat (map (\<lambda>p. op_connections (opins w p)) (outputPins e w))"

definition getConnectedElementsToInputs :: "ref \<Rightarrow> 'v plv \<Rightarrow> plv_exn + ref set" where
  "getConnectedElementsToInputs e w = elementsAt (\<lambda>c. fromElement c w) (inputConnections e w)"

definition getConnectedElementsToOutputs :: "ref \<Rightarrow> 'v plv \<Rightarrow> plv_exn + ref set" where
  "getConnectedElementsToOutputs e w = elementsAt (\<lambda>c. toElement c w) (outputConnections e w)"

definition inputPinsConnectionCount :: "ref \<Rightarrow> 'v plv \<Rightarrow> int" where
  "inputPinsConnectionCount e w = int (length (filter (\<lambda>q. ipin_isConnected q w) (inputPins e w)))"

definition outputPinsConnectionCount :: "ref \<Rightarrow> 'v plv \<Rightarrow> int" where
  "outputPinsConnectionCount e w =
     sum_list (map (\<lambda>p. int (length (op_connections (opins w p)))) (outputPins e w))"

definition maxInputQueueSize :: "ref \<Rightarrow> 'v plv \<Rightarrow> int" where
  "maxInputQueueSize e w =
     fold (\<lambda>q mx.
        let queueSize = (case ip_connection (ipins w q) of None \<Rightarrow> 0 | Some c \<Rightarrow> conn_size c w)
        in if queueSize > mx then queueSize else mx) (inputPins e w) 0"

definition maxOutputQueueSize :: "ref \<Rightarrow> 'v plv \<Rightarrow> int" where
  "maxOutputQueueSize e w =
     fold (\<lambda>p mx. let queueSize = maxDataOnConnection p w in if queueSize > mx then queueSize else mx)
       (outputPins e w) 0"

text \<open>\<open>DataConsumer::isEndNode\<close> overrides the method of its base class \<open>DataProducer\<close>.\<close>

definition DataProducer_isEndNode :: "ref \<Rightarrow> 'v plv \<Rightarrow> bool" where
  "DataProducer_isEndNode e w = (\<not> list_ex (\<lambda>p. opin_isConnected p w) (outputPins e w))"

definition DataConsumer_isEndNode :: "ref \<Rightarrow> 'v plv \<Rightarrow> bool" where
  "DataConsumer_isEndNode e w = True"

definition isEndNode :: "ref \<Rightarrow> 'v plv \<Rightarrow> bool" where
  "isEndNode e w =
     (case el_class (elems w e) of
        PipelineProducer \<Rightarrow> DataProducer_isEndNode e w
      | PipelineProcessor \<Rightarrow> DataConsumer_isEndNode e w)"

definition requiredInputPinsConnected :: "ref \<Rightarrow> 'v plv \<Rightarrow> bool" where
  "requiredInputPinsConnected e w =
     list_all (\<lambda>q. isRequired (ipins w q) \<longrightarrow> ipin_isConnected q w) (inputPins e w)"

definition requiredPinsConnected :: "ref \<Rightarrow> 'v plv \<Rightarrow> bool" where
  "requiredPinsConnected e w =
     (case el_class (elems w e) of
        PipelineProducer \<Rightarrow> True
      | PipelineProcessor \<Rightarrow> requiredInputPinsConnected e w)"

section \<open>Before and after processing\<close>

definition isSyncConnected :: "'v plv \<Rightarrow> ref \<Rightarrow> bool" where
  "isSyncConnected w q = (ipin_isConnected q w \<and> isSynchronous (ipins w q))"

definition isAsyncConnected :: "'v plv \<Rightarrow> ref \<Rightarrow> bool" where
  "isAsyncConnected w q = (ipin_isConnected q w \<and> \<not> isSynchronous (ipins w q))"

definition initInputPins :: "ref \<Rightarrow> 'v plv \<Rightarrow> 'v plv" where
  "initInputPins e w =
     upd_elem e (\<lambda>el. el\<lparr>
       el_hasAsynchronousPin := list_ex (isAsyncConnected w) (inputPins e w),
       el_hasSynchronousPin := list_ex (isSyncConnected w) (inputPins e w),
       el_scoreboard := setPinCount (int (length (filter (isSyncConnected w) (inputPins e w))))
                          (el_scoreboard el)\<rparr>) w"

text \<open>The serials at the front of the pins.  In the synchronous case an empty pin ends the loop with
  \<open>return false\<close>, which is the result \<open>Inr None\<close>; in the asynchronous case it is passed over.\<close>

fun syncSerials :: "'v plv \<Rightarrow> ref list \<Rightarrow> plv_exn + serial list option" where
  "syncSerials w [] = Inr (Some [])"
| "syncSerials w (q # qs) =
     (if isSyncConnected w q then
        (if ipin_hasDataItems q w then
           (case peekNext q w of
              Inl x \<Rightarrow> Inl x
            | Inr (s, isNull) \<Rightarrow>
                (case syncSerials w qs of
                   Inl x \<Rightarrow> Inl x
                 | Inr None \<Rightarrow> Inr None
                 | Inr (Some ss) \<Rightarrow> Inr (Some (s # ss))))
         else Inr None)
      else syncSerials w qs)"

fun asyncSerials :: "'v plv \<Rightarrow> ref list \<Rightarrow> plv_exn + serial list" where
  "asyncSerials w [] = Inr []"
| "asyncSerials w (q # qs) =
     (if ipin_isConnected q w \<and> ipin_hasDataItems q w then
        (case peekNext q w of
           Inl x \<Rightarrow> Inl x
         | Inr (s, isNull) \<Rightarrow>
             (case asyncSerials w qs of Inl x \<Rightarrow> Inl x | Inr ss \<Rightarrow> Inr (s # ss)))
      else asyncSerials w qs)"

text \<open>The reference parameter \<open>nextSerial\<close> and the boolean result are one option.  Indexing an empty
  vector of serials is undefined behaviour, reported as \<open>NullPointer\<close>.\<close>

definition dataAvailableOnInputPins :: "ref \<Rightarrow> ('v plv, serial option) plvM" where
  "dataAvailableOnInputPins e w =
     (if el_hasSynchronousPin (elems w e) then
        (case syncSerials w (inputPins e w) of
           Inl x \<Rightarrow> (Inl x, w)
         | Inr None \<Rightarrow> (Inr None, w)
         | Inr (Some []) \<Rightarrow> (Inl NullPointer, w)
         | Inr (Some (s # ss)) \<Rightarrow>
             (if list_all (\<lambda>t. s = t) (s # ss) then (Inr (Some s), w)
              else (Inr None, setError e PlvPipelineRuntimeError ''Input corrupted'' w)))
      else if el_hasAsynchronousPin (elems w e) then
        (case asyncSerials w (inputPins e w) of
           Inl x \<Rightarrow> (Inl x, w)
         | Inr [] \<Rightarrow> (Inr None, w)
         | Inr ss \<Rightarrow> (Inr (Some (hd (sort ss))), w))
      else (Inr None, w))"

text \<open>One iteration of the loop of \<open>preInput\<close>; the state of the loop is \<open>nullDetected\<close>.\<close>

fun preInputLoop :: "ref list \<Rightarrow> bool \<Rightarrow> ('v plv, bool) plvM" where
  "preInputLoop [] nullDetected w = (Inr nullDetected, w)"
| "preInputLoop (q # qs) nullDetected w =
     (if isSyncConnected w q \<and> isDataGuaranteed (ipins w q) then
        (case peekNext q w of
           Inl x \<Rightarrow> (Inl x, w)
         | Inr (s, isNull) \<Rightarrow> preInputLoop qs (nullDetected \<or> isNull) (ipin_pre q w))
      else preInputLoop qs nullDetected (ipin_pre q w))"

definition preInput :: "ref \<Rightarrow> ('v plv, bool) plvM" where
  "preInput e w = preInputLoop (inputPins e w) False w"

definition flushFirstOnSynchronousPins :: "ref \<Rightarrow> ('v plv, unit) plvM" where
  "flushFirstOnSynchronousPins e w =
     forM (\<lambda>q w'. if isSyncConnected w' q then removeFirst q w' else (Inr (), w')) (inputPins e w) w"

definition preOutput :: "ref \<Rightarrow> 'v plv \<Rightarrow> 'v plv" where
  "preOutput e w = fold opin_pre (outputPins e w) w"

definition postOutput :: "ref \<Rightarrow> ('v plv, unit) plvM" where
  "postOutput e w = forM opin_post (outputPins e w) w"

end
