(* ===== verification/Element_Run.thy ===== *)
theory Element_Run
  imports Data_Pins
begin

text \<open>
  One run of an element: \<open>PipelineElement::run\<close>, \<open>PipelineProcessor::__process\<close> and
  \<open>PipelineProducer::__process\<close> (\<open>src/plvcore/PipelineElement.cpp\<close>,
  \<open>src/plvcore/PipelineProcessor.cpp\<close>, \<open>src/plvcore/PipelineProducer.cpp\<close>).

  The methods \<open>process()\<close> and \<open>produce()\<close> belong to the plug-ins.  What they can do to the pipeline is
  call the methods of their pins and \<open>setError\<close>; \<open>plugin_code\<close> is the type of all programs over these
  calls.  The code that follows a call depends on what the call returned or threw, so a plug-in may
  choose what to do next by the data it reads, and may catch an exception of a pin.
\<close>

section \<open>Plug-in code\<close>

datatype 'v plugin_code =
    Return bool
  | Throw plv_exn
  | SetError PlvErrorType string "'v plugin_code"
  | IsConnected ref "bool \<Rightarrow> 'v plugin_code"
  | HasData ref "bool \<Rightarrow> 'v plugin_code"
  | HasDataItems ref "bool \<Rightarrow> 'v plugin_code"
  | Get ref "plv_exn + 'v option \<Rightarrow> 'v plugin_code"
  | Clear ref "plv_exn + unit \<Rightarrow> 'v plugin_code"
  | Put ref 'v "plv_exn + unit \<Rightarrow> 'v plugin_code"

text \<open>No handler catches a failed assertion or a null pointer access.\<close>

definition catchable :: "plv_exn \<Rightarrow> bool" where
  "catchable x = (x \<noteq> AssertFailed \<and> x \<noteq> NullPointer)"

definition attempt :: "('s, 'a) plvM \<Rightarrow> (plv_exn + 'a \<Rightarrow> ('s, 'b) plvM) \<Rightarrow> ('s, 'b) plvM" where
  "attempt m k s =
     (case m s of
        (Inl x, s') \<Rightarrow> if catchable x then k (Inl x) s' else (Inl x, s')
      | (Inr a, s') \<Rightarrow> k (Inr a) s')"

text \<open>\<open>OutputPin::put\<close> sends the data under the serial its owner is processing.\<close>

definition opin_put :: "ref \<Rightarrow> 'v \<Rightarrow> ('v plv, unit) plvM" where
  "opin_put p v w = putVariant p (el_serial (elems w (op_owner (opins w p)))) v w"

primrec exec :: "'v plugin_code \<Rightarrow> ref \<Rightarrow> ('v plv, bool) plvM" where
  "exec (Return b) e = returnM b"
| "exec (Throw x) e = throwM x"
| "exec (SetError t msg k) e = seqM (modifyM (setError e t msg)) (exec k e)"
| "exec (IsConnected q k) e = bindM (getM (ipin_isConnected q)) (\<lambda>b. exec (k b) e)"
| "exec (HasData q k) e = bindM (getM (ipin_hasData q)) (\<lambda>b. exec (k b) e)"
| "exec (HasDataItems q k) e = bindM (getM (ipin_hasDataItems q)) (\<lambda>b. exec (k b) e)"
| "exec (Get q k) e = attempt (getVariant q) (\<lambda>r. exec (k r) e)"
| "exec (Clear q k) e = attempt (ipin_clear q) (\<lambda>r. exec (k r) e)"
| "exec (Put p v k) e = attempt (opin_put p v) (\<lambda>r. exec (k r) e)"

text \<open>A plug-in holds pointers to its own pins only.\<close>

primrec own_pins :: "ref set \<Rightarrow> ref set \<Rightarrow> 'v plugin_code \<Rightarrow> bool" where
  "own_pins ins outs (Return b) = True"
| "own_pins ins outs (Throw x) = True"
| "own_pins ins outs (SetError t msg k) = own_pins ins outs k"
| "own_pins ins outs (IsConnected q k) = (q \<in> ins \<and> (\<forall>b. own_pins ins outs (k b)))"
| "own_pins ins outs (HasData q k) = (q \<in> ins \<and> (\<forall>b. own_pins ins outs (k b)))"
| "own_pins ins outs (HasDataItems q k) = (q \<in> ins \<and> (\<forall>b. own_pins ins outs (k b)))"
| "own_pins ins outs (Get q k) = (q \<in> ins \<and> (\<forall>r. own_pins ins outs (k r)))"
| "own_pins ins outs (Clear q k) = (q \<in> ins \<and> (\<forall>r. own_pins ins outs (k r)))"
| "own_pins ins outs (Put p v k) = (p \<in> outs \<and> (\<forall>r. own_pins ins outs (k r)))"

section \<open>Processing\<close>

definition setProcessingSerial :: "ref \<Rightarrow> serial \<Rightarrow> 'v plv \<Rightarrow> 'v plv" where
  "setProcessingSerial e s w = upd_elem e (\<lambda>el. el\<lparr>el_serial := s\<rparr>) w"

definition processor_process :: "ref \<Rightarrow> 'v plugin_code \<Rightarrow> serial \<Rightarrow> ('v plv, bool) plvM" where
  "processor_process e code s w =
     seqM (assertM (requiredPinsConnected e w))
     (seqM (assertM (getState e w = PLE_RUNNING))
     (seqM (modifyM (setProcessingSerial e s))
     (bindM (preInput e) (\<lambda>nullDetected.
        if nullDetected then
          seqM (flushFirstOnSynchronousPins e)
          (seqM (modifyM (preOutput e))
          (seqM (postOutput e) (returnM True)))
        else
          seqM (modifyM (preOutput e))
          (bindM (exec code e) (\<lambda>retval.
             seqM (postOutput e) (returnM retval))))))) w"

definition producer_process :: "ref \<Rightarrow> 'v plugin_code \<Rightarrow> serial \<Rightarrow> ('v plv, bool) plvM" where
  "producer_process e code s w =
     seqM (assertM (s > el_serial (elems w e) \<or> s = 0))
     (seqM (modifyM (setProcessingSerial e s))
     (seqM (modifyM (preOutput e))
     (bindM (exec code e) (\<lambda>retval.
        seqM (postOutput e)
        (seqM (modifyM (\<lambda>w'. if retval then w' else setState e PLE_ERROR w'))
        (returnM retval)))))) w"

definition element_process :: "ref \<Rightarrow> 'v plugin_code \<Rightarrow> serial \<Rightarrow> ('v plv, bool) plvM" where
  "element_process e code s w =
     (case el_class (elems w e) of
        PipelineProducer \<Rightarrow> producer_process e code s w
      | PipelineProcessor \<Rightarrow> processor_process e code s w)"

fun what :: "plv_exn \<Rightarrow> string" where
  "what (PlvException m) = m"
| "what (RuntimeError m) = m"
| "what (IllegalArgumentException m) = m"
| "what (IllegalConnectionException m) = m"
| "what (IncompatibleTypeException m) = m"
| "what (DuplicateConnectionException m) = m"
| "what (StdRuntimeError m) = m"
| "what x = ''Unknown exception caught''"

definition run :: "ref \<Rightarrow> 'v plugin_code \<Rightarrow> serial \<Rightarrow> ('v plv, bool) plvM" where
  "run e code s w =
     seqM (assertM (getState e w = PLE_DISPATCHED))
     (seqM (modifyM (setState e PLE_RUNNING))
     (attempt (element_process e code s) (\<lambda>r.
        case r of
          Inl x \<Rightarrow> seqM (modifyM (setError e PlvPipelineRuntimeError (what x))) (returnM False)
        | Inr retval \<Rightarrow>
            seqM (modifyM (\<lambda>w'. if getState e w' \<noteq> PLE_ERROR then setState e PLE_DONE w' else w'))
              (returnM retval)))) w"

definition processor_ready :: "ref \<Rightarrow> serial \<Rightarrow> ('v plv, bool) plvM" where
  "processor_ready e s w =
     (if getState e w \<ge> PLE_DISPATCHED then (Inr False, w)
      else bindM (dataAvailableOnInputPins e) (\<lambda>next. returnM (next = Some s)) w)"

definition producer_ready :: "bool \<Rightarrow> ref \<Rightarrow> 'v plv \<Rightarrow> bool" where
  "producer_ready readyToProduce e w = (getState e w < PLE_DISPATCHED \<and> readyToProduce)"

end
