(* ===== verification/Delivery.thy ===== *)
theory Delivery
  imports Element_Run
begin

text \<open>
  What one run of an element puts on the connections of its output pins.  The central lemmas say that
  a run that returns has appended exactly one item to every synchronous connection, under the serial of
  the run: the data the plug-in put there, or a null item where it put none.  The scoreboards of the
  consumers count on this.
\<close>

section \<open>The wiring is not touched\<close>

text \<open>\<open>el_fixed\<close> and \<open>pin_frame\<close>: what processing leaves alone.  Of an element only the status and the
  scoreboard may change, of a pin only the flag \<open>m_called\<close>, of a connection only the queue.\<close>

definition el_fixed :: "PipelineElement \<Rightarrow> PipelineElement \<Rightarrow> bool" where
  "el_fixed a b \<longleftrightarrow>
     a\<lparr>el_state := PLE_UNDEFINED, el_errorType := PlvNoError, el_errorString := [],
       el_scoreboard := sb_new\<rparr> =
     b\<lparr>el_state := PLE_UNDEFINED, el_errorType := PlvNoError, el_errorString := [],
       el_scoreboard := sb_new\<rparr>"

lemma el_fixed_simps [simp]:
  "el_fixed a a"
  "el_fixed (a\<lparr>el_state := st\<rparr>) b = el_fixed a b"
  "el_fixed (a\<lparr>el_errorType := t\<rparr>) b = el_fixed a b"
  "el_fixed (a\<lparr>el_errorString := m\<rparr>) b = el_fixed a b"
  "el_fixed (a\<lparr>el_scoreboard := sb\<rparr>) b = el_fixed a b"
  by (simp_all add: el_fixed_def)

lemma el_fixed_trans: "el_fixed a b \<Longrightarrow> el_fixed b c \<Longrightarrow> el_fixed a c"
  by (simp add: el_fixed_def)

lemma el_fixed_fields:
  assumes "el_fixed a b"
  shows "el_id a = el_id b" "el_class a = el_class b" "el_serial a = el_serial b"
    "el_inputPins a = el_inputPins b" "el_outputPins a = el_outputPins b"
    "el_hasPipeline a = el_hasPipeline b"
    "el_hasSynchronousPin a = el_hasSynchronousPin b"
  using assms by (cases a; cases b; simp add: el_fixed_def)+

lemma el_fixed_scoreboard: "same_but_scoreboard a b \<Longrightarrow> el_fixed a b"
  by (cases a; cases b; simp add: same_but_scoreboard_def el_fixed_def)

definition pin_frame :: "'v plv \<Rightarrow> 'v plv \<Rightarrow> bool" where
  "pin_frame w w' \<longleftrightarrow>
     (\<forall>e. el_fixed (elems w' e) (elems w e)) \<and>
     (\<forall>q. (ipins w' q)\<lparr>ip_called := False\<rparr> = (ipins w q)\<lparr>ip_called := False\<rparr>) \<and>
     (\<forall>p. (opins w' p)\<lparr>op_called := False\<rparr> = (opins w p)\<lparr>op_called := False\<rparr>) \<and>
     (\<forall>c. (conns w' c)\<lparr>c_queue := []\<rparr> = (conns w c)\<lparr>c_queue := []\<rparr>)"

lemma pin_frame_refl [simp]: "pin_frame w w"
  by (simp add: pin_frame_def)

lemma pin_frame_trans: "pin_frame w1 w2 \<Longrightarrow> pin_frame w2 w3 \<Longrightarrow> pin_frame w1 w3"
  by (auto simp: pin_frame_def intro: el_fixed_trans)

lemma ipin_called_eqD:
  assumes "(a\<lparr>ip_called := False\<rparr>) = (b\<lparr>ip_called := False\<rparr>)"
  shows "ip_connection a = ip_connection b" "ip_owner a = ip_owner b"
    "ip_synchronous a = ip_synchronous b" "ip_required a = ip_required b" "ip_name a = ip_name b"
    "ip_guarantee a = ip_guarantee b"
  using assms by (cases a; cases b; simp)+

lemma opin_called_eqD:
  assumes "(a\<lparr>op_called := False\<rparr>) = (b\<lparr>op_called := False\<rparr>)"
  shows "op_connections a = op_connections b" "op_owner a = op_owner b"
  using assms by (cases a; cases b; simp)+

lemma conn_queue_eqD:
  assumes "(a\<lparr>c_queue := []\<rparr>) = (b\<lparr>c_queue := []\<rparr>)"
  shows "c_producer a = c_producer b" "c_consumer a = c_consumer b" "c_id a = c_id b"
  using assms by (cases a; cases b; simp)+

lemma pin_frameD:
  assumes "pin_frame w w'"
  shows "op_connections (opins w' p) = op_connections (opins w p)"
    "op_owner (opins w' p) = op_owner (opins w p)"
    "ip_connection (ipins w' q) = ip_connection (ipins w q)"
    "ip_owner (ipins w' q) = ip_owner (ipins w q)"
    "ip_synchronous (ipins w' q) = ip_synchronous (ipins w q)"
    "ip_required (ipins w' q) = ip_required (ipins w q)"
    "ip_guarantee (ipins w' q) = ip_guarantee (ipins w q)"
    "c_producer (conns w' c) = c_producer (conns w c)"
    "c_consumer (conns w' c) = c_consumer (conns w c)"
    "c_id (conns w' c) = c_id (conns w c)"
    "el_serial (elems w' e) = el_serial (elems w e)"
    "el_id (elems w' e) = el_id (elems w e)"
    "el_class (elems w' e) = el_class (elems w e)"
    "el_hasPipeline (elems w' e) = el_hasPipeline (elems w e)"
    "inputPins e w' = inputPins e w"
    "outputPins e w' = outputPins e w"
  using assms el_fixed_fields [of "elems w' e" "elems w e"]
  by (auto simp: pin_frame_def inputPins_def outputPins_def
      dest: spec ipin_called_eqD opin_called_eqD conn_queue_eqD)

lemma pin_frame_lists:
  assumes "pin_frame w w'"
  shows "outputConnections e w' = outputConnections e w"
    and "inputConnections e w' = inputConnections e w"
  using assms by (simp_all add: outputConnections_def inputConnections_def pin_frameD)

lemma pin_frame_sync:
  "pin_frame w w' \<Longrightarrow> conn_isSynchronous c w' = conn_isSynchronous c w"
  by (simp add: conn_isSynchronous_def pin_frameD split: option.splits)

lemma pin_frame_connected:
  "pin_frame w w' \<Longrightarrow> ipin_isConnected q w' = ipin_isConnected q w"
  "pin_frame w w' \<Longrightarrow> isSyncConnected w' q = isSyncConnected w q"
  "pin_frame w w' \<Longrightarrow> opin_isConnected p w' = opin_isConnected p w"
  by (simp_all add: ipin_isConnected_def isSyncConnected_def isSynchronous_def opin_isConnected_def
      pin_frameD)

lemma pin_frame_updates:
  "pin_frame w (upd_ipin q (\<lambda>qi. qi\<lparr>ip_called := b\<rparr>) w)"
  "pin_frame w (upd_opin p (\<lambda>po. po\<lparr>op_called := b\<rparr>) w)"
  "pin_frame w (upd_conn c conn_pop w)"
  "pin_frame w (upd_conn c (conn_push d) w)"
  "pin_frame w (emit sg w)"
  "pin_frame w (setState e st w)"
  "pin_frame w (setError e t msg w)"
  by (simp_all add: pin_frame_def conn_pop_def conn_push_def setState_def setError_def)

lemma pin_frame_conn_put: "conn_put c d w = (r, w') \<Longrightarrow> pin_frame w w'"
  using conn_put_frame [of c d w r w'] conn_put_elems [of c d w r w']
  by (auto simp: pin_frame_def conn_push_def intro: el_fixed_scoreboard)

section \<open>Sending to a list of connections\<close>

lemma conn_put_uncatchable: "conn_put c d w = (Inl x, w') \<Longrightarrow> \<not> catchable x"
  by (auto simp: conn_put_def Let_def acceptData_def newData_def pipelineDataConsumerReady_def
      catchable_def split: if_splits option.splits prod.splits)

lemma sendAll:
  assumes "forM (\<lambda>c. conn_put c d) cs w = (r, w')" and "distinct cs"
  shows "pin_frame w w' \<and> opins w' = opins w \<and> (\<forall>x. r = Inl x \<longrightarrow> \<not> catchable x) \<and>
    (r = Inr () \<longrightarrow> conns w' = (\<lambda>c. if c \<in> set cs then conn_push d (conns w c) else conns w c))"
  using assms
proof (induction cs arbitrary: w)
  case Nil
  then show ?case by auto
next
  case (Cons c cs)
  obtain r1 w1 where put: "conn_put c d w = (r1, w1)" by fastforce
  note fr = pin_frame_conn_put [OF put] conn_put_frame [OF put]
  show ?case
  proof (cases r1)
    case (Inl x)
    with put Cons.prems fr show ?thesis by (auto dest: conn_put_uncatchable)
  next
    case (Inr u)
    with put Cons.prems have "forM (\<lambda>c. conn_put c d) cs w1 = (r, w')" by simp
    from Cons.IH [OF this] Cons.prems(2) fr show ?thesis
      by (auto intro: pin_frame_trans)
  qed
qed

text \<open>\<open>post\<close> sends to the synchronous connections among them.\<close>

lemma postAll:
  assumes "forM (postConn d) cs w = (r, w')" and "distinct cs"
  shows "pin_frame w w' \<and> opins w' = opins w \<and>
    (r = Inr () \<longrightarrow> conns w' = (\<lambda>c. if c \<in> set cs \<and> conn_isSynchronous c w = Inr True
                                     then conn_push d (conns w c) else conns w c))"
  using assms
proof (induction cs arbitrary: w)
  case Nil
  then show ?case by auto
next
  case (Cons c cs)
  obtain r1 w1 where step: "postConn d c w = (r1, w1)" by fastforce
  have fr: "pin_frame w w1 \<and> opins w1 = opins w \<and>
    (r1 = Inr () \<longrightarrow> conns w1 = (if conn_isSynchronous c w = Inr True
                                then (conns w)(c := conn_push d (conns w c)) else conns w))"
    using step by (auto simp: postConn_def split: sum.splits if_splits
        dest: pin_frame_conn_put conn_put_frame)
  show ?case
  proof (cases r1)
    case (Inl x)
    with step Cons.prems fr show ?thesis by auto
  next
    case (Inr u)
    with step Cons.prems have "forM (postConn d) cs w1 = (r, w')" by simp
    from Cons.IH [OF this] Cons.prems(2) fr Inr show ?thesis
      by (auto simp: fun_eq_iff pin_frame_sync intro: pin_frame_trans)
  qed
qed

section \<open>One run of plug-in code\<close>

text \<open>
  \<open>local_wiring e w\<close>: the connections at the output pins of \<open>e\<close> are pairwise different, none of them
  comes back to an input pin of \<open>e\<close>, and the output pins know their owner.
\<close>

definition local_wiring :: "ref \<Rightarrow> 'v plv \<Rightarrow> bool" where
  "local_wiring e w \<longleftrightarrow>
     distinct (outputPins e w) \<and> distinct (outputConnections e w) \<and>
     set (inputConnections e w) \<inter> set (outputConnections e w) = {} \<and>
     list_all (\<lambda>p. op_owner (opins w p) = e) (outputPins e w)"

text \<open>\<open>sent e s w0 w\<close>: since \<open>w0\<close>, each output pin on which \<open>put\<close> was called has sent one item to each of
  its connections, and the others have sent nothing.\<close>

definition sent :: "ref \<Rightarrow> serial \<Rightarrow> 'v plv \<Rightarrow> 'v plv \<Rightarrow> bool" where
  "sent e s w0 w \<longleftrightarrow>
     (\<forall>p \<in> set (outputPins e w0).
        if op_called (opins w p)
        then \<exists>v. \<forall>c \<in> set (op_connections (opins w0 p)).
               c_queue (conns w c) = c_queue (conns w0 c) @ [Data_payload s v]
        else \<forall>c \<in> set (op_connections (opins w0 p)). c_queue (conns w c) = c_queue (conns w0 c))"

definition exec_inv :: "ref \<Rightarrow> serial \<Rightarrow> 'v plv \<Rightarrow> 'v plv \<Rightarrow> bool" where
  "exec_inv e s w0 w \<longleftrightarrow> pin_frame w0 w \<and> sent e s w0 w"

lemma sentD:
  assumes "sent e s w0 w" and "p \<in> set (outputPins e w0)"
  shows "op_called (opins w p) \<Longrightarrow> \<exists>v. \<forall>c \<in> set (op_connections (opins w0 p)).
      c_queue (conns w c) = c_queue (conns w0 c) @ [Data_payload s v]"
    and "\<not> op_called (opins w p) \<Longrightarrow> \<forall>c \<in> set (op_connections (opins w0 p)).
      c_queue (conns w c) = c_queue (conns w0 c)"
  using assms by (simp_all add: sent_def split: if_splits)

lemma outputConnections_mem:
  "p \<in> set (outputPins e w) \<Longrightarrow> c \<in> set (op_connections (opins w p)) \<Longrightarrow> c \<in> set (outputConnections e w)"
  by (auto simp: outputConnections_def)

lemma inputConnections_mem:
  "q \<in> set (inputPins e w) \<Longrightarrow> ip_connection (ipins w q) = Some c \<Longrightarrow> c \<in> set (inputConnections e w)"
  by (force simp: inputConnections_def List.map_filter_def)

lemma distinct_concat_map:
  assumes "distinct (concat (map f xs))" and "distinct xs" and "x \<in> set xs" and "y \<in> set xs" and "x \<noteq> y"
  shows "set (f x) \<inter> set (f y) = {}"
  using assms by (induction xs) auto

lemma distinct_concat_elem: "distinct (concat (map f xs)) \<Longrightarrow> x \<in> set xs \<Longrightarrow> distinct (f x)"
  by (induction xs) auto

lemma local_wiring_pins:
  assumes "local_wiring e w" and "p \<in> set (outputPins e w)"
  shows "distinct (op_connections (opins w p))" and "op_owner (opins w p) = e"
    and "\<And>p'. p' \<in> set (outputPins e w) \<Longrightarrow> p' \<noteq> p \<Longrightarrow>
      set (op_connections (opins w p)) \<inter> set (op_connections (opins w p')) = {}"
  using assms distinct_concat_elem [of "\<lambda>p. op_connections (opins w p)" "outputPins e w" p]
    distinct_concat_map [of "\<lambda>p. op_connections (opins w p)" "outputPins e w" p]
  by (auto simp: local_wiring_def outputConnections_def list_all_iff)

text \<open>A step that changes neither an output pin of \<open>e\<close> nor a queue behind one keeps \<open>exec_inv\<close>.\<close>

lemma exec_inv_step:
  assumes "exec_inv e s w0 w" and "pin_frame w w'" and "opins w' = opins w"
    and "\<And>c. c \<in> set (outputConnections e w0) \<Longrightarrow> c_queue (conns w' c) = c_queue (conns w c)"
  shows "exec_inv e s w0 w'"
proof -
  have "c_queue (conns w' c) = c_queue (conns w c)"
    if "p \<in> set (outputPins e w0)" "c \<in> set (op_connections (opins w0 p))" for p c
    using that by (intro assms(4) outputConnections_mem)
  with assms(1-3) show ?thesis
    by (auto simp: exec_inv_def sent_def intro: pin_frame_trans)
qed

text \<open>Reading from an input pin.\<close>

lemma conn_get_step:
  assumes "conn_get c w = (r, w')"
  shows "pin_frame w w' \<and> opins w' = opins w \<and> (\<forall>c'. c' \<noteq> c \<longrightarrow> conns w' c' = conns w c')"
  using assms by (auto simp: conn_get_def pin_frame_updates split: option.splits)

lemma removeFirst_step:
  assumes "removeFirst q w = (r, w')"
  shows "pin_frame w w' \<and> opins w' = opins w \<and>
    (\<forall>c. ip_connection (ipins w q) \<noteq> Some c \<longrightarrow> conns w' c = conns w c)"
  using assms
  by (auto simp: removeFirst_def bindM_def returnM_def split: option.splits prod.splits sum.splits
      dest: conn_get_step)

lemma getVariant_step:
  assumes "getVariant q w = (r, w')"
  shows "pin_frame w w' \<and> opins w' = opins w \<and>
    (\<forall>c. ip_connection (ipins w q) \<noteq> Some c \<longrightarrow> conns w' c = conns w c)"
proof -
  let ?w1 = "upd_ipin q (\<lambda>qi. qi\<lparr>ip_called := True\<rparr>) w"
  have fr: "pin_frame w ?w1" by (rule pin_frame_updates)
  consider "w' = w" | "w' = ?w1" | c r1 where "ip_connection (ipins w q) = Some c" "conn_get c ?w1 = (r1, w')"
    using assms
    by (auto simp: getVariant_def Let_def bindM_def returnM_def throwM_def
        split: if_splits option.splits prod.splits sum.splits)
  then show ?thesis
  proof cases
    case 3
    from conn_get_step [OF 3(2)] 3(1) fr show ?thesis by (auto intro: pin_frame_trans)
  qed (use fr in auto)
qed

lemma ipin_clear_step:
  assumes "ipin_clear q w = (r, w')"
  shows "pin_frame w w' \<and> opins w' = opins w \<and>
    (\<forall>c. ip_connection (ipins w q) \<noteq> Some c \<longrightarrow> conns w' c = conns w c)"
proof -
  let ?w1 = "upd_ipin q (\<lambda>qi. qi\<lparr>ip_called := True\<rparr>) w"
  have fr: "pin_frame w ?w1" by (rule pin_frame_updates)
  consider "w' = w" | "w' = ?w1" | "removeFirst q ?w1 = (r, w')"
    using assms by (auto simp: ipin_clear_def Let_def split: if_splits)
  then show ?thesis
  proof cases
    case 3
    from removeFirst_step [OF 3] fr show ?thesis by (auto intro: pin_frame_trans)
  qed (use fr in auto)
qed

text \<open>Reading an own input pin keeps \<open>exec_inv\<close>.\<close>

lemma exec_inv_read:
  assumes inv: "exec_inv e s w0 w" and lw: "local_wiring e w0" and q: "q \<in> set (inputPins e w0)"
    and step: "pin_frame w w' \<and> opins w' = opins w \<and>
      (\<forall>c. ip_connection (ipins w q) \<noteq> Some c \<longrightarrow> conns w' c = conns w c)"
  shows "exec_inv e s w0 w'"
proof (rule exec_inv_step [OF inv])
  fix c assume "c \<in> set (outputConnections e w0)"
  with lw have "c \<notin> set (inputConnections e w0)" by (auto simp: local_wiring_def)
  with q have "ip_connection (ipins w0 q) \<noteq> Some c" by (auto dest: inputConnections_mem)
  with inv step show "c_queue (conns w' c) = c_queue (conns w c)"
    by (auto simp: exec_inv_def pin_frameD)
qed (use step in auto)

text \<open>Sending on an own output pin: the second \<open>put\<close> of a run throws and changes nothing.\<close>

lemma exec_inv_put:
  assumes inv: "exec_inv e s w0 w" and lw: "local_wiring e w0" and p: "p \<in> set (outputPins e w0)"
    and s: "el_serial (elems w0 e) = s" and put: "opin_put p v w = (r, w')"
    and r: "\<And>x. r = Inl x \<Longrightarrow> catchable x"
  shows "exec_inv e s w0 w'"
proof (cases "op_called (opins w p)")
  case True
  with put inv show ?thesis by (auto simp: opin_put_def putVariant_def)
next
  case False
  from inv have fr: "pin_frame w0 w" and sent: "sent e s w0 w" by (auto simp: exec_inv_def)
  note own = local_wiring_pins [OF lw p]
  let ?cs = "op_connections (opins w0 p)"
  let ?w1 = "emit (viewerData p s) (upd_opin p (\<lambda>po. po\<lparr>op_called := True\<rparr>) w)"
  have serial: "el_serial (elems w (op_owner (opins w p))) = s"
    using fr own s by (simp add: pin_frameD)
  have "forM (\<lambda>c. conn_put c (Data_payload s v)) ?cs ?w1 = (r, w')"
    using put False serial fr by (simp add: opin_put_def putVariant_def Let_def pin_frameD)
  from sendAll [OF this own(1)] r
  have all: "pin_frame ?w1 w'" "opins w' = opins ?w1" "r = Inr ()"
    "conns w' = (\<lambda>c. if c \<in> set ?cs then conn_push (Data_payload s v) (conns ?w1 c) else conns ?w1 c)"
    by (cases r; auto)+
  have "pin_frame w0 w'"
    by (rule pin_frame_trans [OF fr pin_frame_trans [OF _ all(1)]])
      (rule pin_frame_trans [OF pin_frame_updates(2) pin_frame_updates(5)])
  moreover have "sent e s w0 w'"
    unfolding sent_def
  proof
    fix p' assume p': "p' \<in> set (outputPins e w0)"
    show "if op_called (opins w' p')
      then \<exists>v. \<forall>c \<in> set (op_connections (opins w0 p')).
             c_queue (conns w' c) = c_queue (conns w0 c) @ [Data_payload s v]
      else \<forall>c \<in> set (op_connections (opins w0 p')). c_queue (conns w' c) = c_queue (conns w0 c)"
    proof (cases "p' = p")
      case True
      have "c_queue (conns w c) = c_queue (conns w0 c)" if "c \<in> set ?cs" for c
        using sent p False that by (auto simp: sent_def)
      with True show ?thesis by (auto simp: all(2,4) conn_push_def)
    next
      case neq: False
      have "c_queue (conns w' c) = c_queue (conns w c)" if "c \<in> set (op_connections (opins w0 p'))" for c
        using own(3) [OF p' neq] that by (auto simp: all(4))
      moreover have "op_called (opins w' p') = op_called (opins w p')" using neq by (simp add: all(2))
      ultimately show ?thesis using sent p' by (auto simp: sent_def)
    qed
  qed
  ultimately show ?thesis by (simp add: exec_inv_def)
qed

lemma exec_inv_run:
  assumes "local_wiring e w0" and "el_serial (elems w0 e) = s"
  shows "exec_inv e s w0 w \<Longrightarrow> own_pins (set (inputPins e w0)) (set (outputPins e w0)) code \<Longrightarrow>
    exec code e w = (Inr b, w') \<Longrightarrow> exec_inv e s w0 w'"
proof (induction code arbitrary: w)
  case (SetError t msg k)
  have "exec_inv e s w0 (setError e t msg w)"
    by (rule exec_inv_step [OF SetError.prems(1)])
      (simp_all add: pin_frame_updates)
  from SetError.IH [OF this] SetError.prems show ?case by (auto simp: run_simps)
next
  case (Get q k)
  obtain r w1 where g: "getVariant q w = (r, w1)" by fastforce
  from exec_inv_read [OF Get.prems(1) assms(1) _ getVariant_step [OF g]] Get.prems(2)
  have "exec_inv e s w0 w1" by simp
  with Get g show ?case by (auto simp: attempt_def split: sum.splits if_splits)
next
  case (Clear q k)
  obtain r w1 where g: "ipin_clear q w = (r, w1)" by fastforce
  from exec_inv_read [OF Clear.prems(1) assms(1) _ ipin_clear_step [OF g]] Clear.prems(2)
  have "exec_inv e s w0 w1" by simp
  with Clear g show ?case by (auto simp: attempt_def split: sum.splits if_splits)
next
  case (Put p v k)
  obtain r w1 where g: "opin_put p v w = (r, w1)" by fastforce
  have c: "catchable x" if "r = Inl x" for x
    using Put.prems(3) g that by (auto simp: attempt_def split: if_splits)
  from exec_inv_put [OF Put.prems(1) assms(1) _ assms(2) g c] Put.prems(2)
  have "exec_inv e s w0 w1" by simp
  with Put g show ?case by (auto simp: attempt_def split: sum.splits if_splits)
qed (auto simp: run_simps)

section \<open>One run of an element\<close>

text \<open>What the post-processing of the output pins adds.\<close>

definition delivered :: "serial \<Rightarrow> 'v plv \<Rightarrow> 'v plv \<Rightarrow> ref \<Rightarrow> bool" where
  "delivered s w0 w p \<longleftrightarrow>
     (\<exists>d. d_serial d = s \<and>
        (\<forall>c \<in> set (op_connections (opins w0 p)).
           c_queue (conns w c) = c_queue (conns w0 c) @ [d] \<or>
           conn_isSynchronous c w0 \<noteq> Inr True \<and> c_queue (conns w c) = c_queue (conns w0 c)))"

lemma opin_post_step:
  assumes "opin_post p w = (Inr (), w')" and "distinct (op_connections (opins w p))"
  shows "pin_frame w w' \<and> opins w' = opins w \<and>
    conns w' = (\<lambda>c. if c \<in> set (op_connections (opins w p)) \<and> conn_isSynchronous c w = Inr True \<and>
                       \<not> op_called (opins w p)
                    then conn_push (Data_null (el_serial (elems w (op_owner (opins w p))))) (conns w c)
                    else conns w c)"
proof (cases "opin_isConnected p w \<and> \<not> op_called (opins w p)")
  case True
  with assms(1) have "forM (postConn (Data_null (el_serial (elems w (op_owner (opins w p))))))
      (op_connections (opins w p)) w = (Inr (), w')" by (simp add: opin_post_def)
  from postAll [OF this assms(2)] True show ?thesis by simp
next
  case False
  with assms(1) have "w' = w" by (auto simp: opin_post_def)
  with False show ?thesis by (auto simp: opin_isConnected_def)
qed

lemma postOutput_loop:
  assumes "forM opin_post ps w = (Inr (), w')" and "distinct ps"
    and "distinct (concat (map (\<lambda>p. op_connections (opins w p)) ps))"
    and "\<forall>p \<in> set ps. el_serial (elems w (op_owner (opins w p))) = s"
  shows "pin_frame w w' \<and> opins w' = opins w \<and>
    (\<forall>p \<in> set ps. \<forall>c \<in> set (op_connections (opins w p)).
       conns w' c = (if conn_isSynchronous c w = Inr True \<and> \<not> op_called (opins w p)
                     then conn_push (Data_null s) (conns w c) else conns w c)) \<and>
    (\<forall>c. c \<notin> set (concat (map (\<lambda>p. op_connections (opins w p)) ps)) \<longrightarrow> conns w' c = conns w c)"
  using assms
proof (induction ps arbitrary: w)
  case Nil
  then show ?case by simp
next
  case (Cons p ps)
  from Cons.prems(1) obtain w1 where p: "opin_post p w = (Inr (), w1)"
    and rest: "forM opin_post ps w1 = (Inr (), w')"
    by (auto split: prod.splits sum.splits)
  from Cons.prems(3) have "distinct (op_connections (opins w p))" by simp
  note post = opin_post_step [OF p this]
  then have fr: "pin_frame w w1" and op: "opins w1 = opins w" by auto
  have "\<forall>p \<in> set ps. el_serial (elems w1 (op_owner (opins w1 p))) = s"
    using Cons.prems(4) fr by (simp add: pin_frameD)
  from Cons.IH [OF rest _ _ this] Cons.prems(2,3) op have ih:
    "pin_frame w1 w'" "opins w' = opins w"
    "\<forall>p \<in> set ps. \<forall>c \<in> set (op_connections (opins w p)).
       conns w' c = (if conn_isSynchronous c w1 = Inr True \<and> \<not> op_called (opins w p)
                     then conn_push (Data_null s) (conns w1 c) else conns w1 c)"
    "\<forall>c. c \<notin> set (concat (map (\<lambda>p. op_connections (opins w p)) ps)) \<longrightarrow> conns w' c = conns w1 c"
    by simp_all
  have c1: "conns w1 c = conns w c" if "c \<notin> set (op_connections (opins w p))" for c
    using post that by simp
  have first: "conns w' c = conns w1 c" if "c \<in> set (op_connections (opins w p))" for c
    using ih(4) Cons.prems(3) that by auto
  have "conns w' c = (if conn_isSynchronous c w = Inr True \<and> \<not> op_called (opins w p')
                     then conn_push (Data_null s) (conns w c) else conns w c)"
    if "p' \<in> set (p # ps)" "c \<in> set (op_connections (opins w p'))" for p' c
  proof (cases "c \<in> set (op_connections (opins w p))")
    case True
    with that Cons.prems(3) have "p' = p" by auto
    with True first post Cons.prems(4) show ?thesis by simp
  next
    case False
    with that have "p' \<in> set ps" by auto
    with that False ih(3) c1 show ?thesis by (simp add: pin_frame_sync [OF fr])
  qed
  with fr ih op c1 show ?case by (auto intro: pin_frame_trans)
qed

lemma postOutput_delivers:
  assumes post: "postOutput e w = (Inr (), w')" and lw: "local_wiring e w0"
    and inv: "exec_inv e s w0 w" and s: "el_serial (elems w0 e) = s"
  shows "pin_frame w0 w' \<and> (\<forall>p \<in> set (outputPins e w0). delivered s w0 w' p)"
proof -
  from inv have fr: "pin_frame w0 w" and sent: "sent e s w0 w" by (auto simp: exec_inv_def)
  have own: "\<forall>p \<in> set (outputPins e w). el_serial (elems w (op_owner (opins w p))) = s"
    using fr lw s by (simp add: pin_frameD local_wiring_def list_all_iff)
  from post have loop: "forM opin_post (outputPins e w) w = (Inr (), w')" by (simp add: postOutput_def)
  have d: "distinct (outputPins e w)" "distinct (concat (map (\<lambda>p. op_connections (opins w p)) (outputPins e w)))"
    using lw fr by (simp_all add: local_wiring_def outputConnections_def pin_frameD)
  note post' = postOutput_loop [OF loop d own]
  have "delivered s w0 w' p" if p: "p \<in> set (outputPins e w0)" for p
  proof -
    have cs: "conns w' c = (if conn_isSynchronous c w0 = Inr True \<and> \<not> op_called (opins w p)
                     then conn_push (Data_null s) (conns w c) else conns w c)"
      if "c \<in> set (op_connections (opins w0 p))" for c
      using post' p that fr by (simp add: pin_frameD pin_frame_sync)
    show ?thesis
    proof (cases "op_called (opins w p)")
      case True
      from sentD(1) [OF sent p this] obtain v where "\<forall>c \<in> set (op_connections (opins w0 p)).
          c_queue (conns w c) = c_queue (conns w0 c) @ [Data_payload s v]" by blast
      with cs True show ?thesis
        unfolding delivered_def by (intro exI [of _ "Data_payload s v"]) (simp add: Data_payload_def)
    next
      case False
      with sent p have "\<forall>c \<in> set (op_connections (opins w0 p)). c_queue (conns w c) = c_queue (conns w0 c)"
        by (auto simp: sent_def)
      with cs False show ?thesis
        unfolding delivered_def
        by (intro exI [of _ "Data_null s"]) (simp add: Data_null_def conn_push_def)
    qed
  qed
  with post' fr show ?thesis by (auto intro: pin_frame_trans)
qed

section \<open>The two kinds of element\<close>

text \<open>\<open>quiet e w0 w\<close>: nothing has been sent since \<open>w0\<close>.\<close>

definition quiet :: "ref \<Rightarrow> 'v plv \<Rightarrow> 'v plv \<Rightarrow> bool" where
  "quiet e w0 w \<longleftrightarrow>
     pin_frame w0 w \<and> (\<forall>c \<in> set (outputConnections e w0). c_queue (conns w c) = c_queue (conns w0 c))"

lemma quiet_refl: "quiet e w w"
  by (simp add: quiet_def)

lemma preOutput_loop:
  "pin_frame w (fold opin_pre ps w) \<and> conns (fold opin_pre ps w) = conns w \<and>
   (\<forall>p. op_called (opins (fold opin_pre ps w) p) = (op_called (opins w p) \<and> p \<notin> set ps))"
proof (induction ps arbitrary: w)
  case Nil
  then show ?case by simp
next
  case (Cons p ps)
  have "pin_frame w (opin_pre p w)" unfolding opin_pre_def by (rule pin_frame_updates)
  with Cons [of "opin_pre p w"] show ?case
    by (auto simp: opin_pre_def intro: pin_frame_trans)
qed

lemma preOutput_step:
  "pin_frame w (preOutput e w)" "conns (preOutput e w) = conns w"
  "p \<in> set (outputPins e w) \<Longrightarrow> \<not> op_called (opins (preOutput e w) p)"
  using preOutput_loop [of w "outputPins e w"] by (simp_all add: preOutput_def)

lemma preOutput_exec_inv:
  assumes "quiet e w0 w"
  shows "exec_inv e s w0 (preOutput e w)"
proof -
  from assms have fr: "pin_frame w0 w" and q: "c \<in> set (outputConnections e w0) \<Longrightarrow>
      c_queue (conns w c) = c_queue (conns w0 c)" for c
    by (auto simp: quiet_def)
  have "sent e s w0 (preOutput e w)"
    unfolding sent_def
  proof
    fix p assume p: "p \<in> set (outputPins e w0)"
    then have "\<not> op_called (opins (preOutput e w) p)"
      using preOutput_step(3) [of p e w] fr by (simp add: pin_frameD)
    with p show "if op_called (opins (preOutput e w) p)
      then \<exists>v. \<forall>c \<in> set (op_connections (opins w0 p)).
             c_queue (conns (preOutput e w) c) = c_queue (conns w0 c) @ [Data_payload s v]
      else \<forall>c \<in> set (op_connections (opins w0 p)). c_queue (conns (preOutput e w) c) = c_queue (conns w0 c)"
      by (auto simp: preOutput_step(2) intro: q outputConnections_mem)
  qed
  with fr show ?thesis
    by (auto simp: exec_inv_def intro: pin_frame_trans preOutput_step)
qed

lemma preInputLoop_step:
  "preInputLoop qs b w = (r, w') \<Longrightarrow> pin_frame w w' \<and> opins w' = opins w \<and> conns w' = conns w"
proof (induction qs arbitrary: b w)
  case Nil
  then show ?case by simp
next
  case (Cons q qs)
  have fr: "pin_frame w (ipin_pre q w)" unfolding ipin_pre_def by (rule pin_frame_updates)
  from Cons.prems consider "w' = w" | b' where "preInputLoop qs b' (ipin_pre q w) = (r, w')"
    by (auto split: if_splits sum.splits prod.splits)
  then show ?case
  proof cases
    case 2
    from Cons.IH [OF 2] fr show ?thesis by (auto simp: ipin_pre_def intro: pin_frame_trans)
  qed auto
qed

lemma flushFirst_quiet:
  assumes lw: "local_wiring e w0" and "quiet e w0 w" and "set qs \<subseteq> set (inputPins e w0)"
    and "forM (\<lambda>q w'. if isSyncConnected w' q then removeFirst q w' else (Inr (), w')) qs w = (r, w')"
  shows "quiet e w0 w'"
  using assms(2-)
proof (induction qs arbitrary: w)
  case Nil
  then show ?case by simp
next
  case (Cons q qs)
  obtain r1 w1 where one: "(if isSyncConnected w q then removeFirst q w else (Inr (), w)) = (r1, w1)"
    by fastforce
  have "quiet e w0 w1"
  proof (cases "isSyncConnected w q")
    case True
    with one have "removeFirst q w = (r1, w1)" by simp
    note st = removeFirst_step [OF this]
    from Cons.prems(1) have fr: "pin_frame w0 w" by (simp add: quiet_def)
    have "c \<notin> set (inputConnections e w0)" if "c \<in> set (outputConnections e w0)" for c
      using lw that by (auto simp: local_wiring_def)
    then have "ip_connection (ipins w q) \<noteq> Some c" if "c \<in> set (outputConnections e w0)" for c
      using Cons.prems(2) that fr by (auto simp: pin_frameD dest: inputConnections_mem)
    with st Cons.prems(1) show ?thesis by (auto simp: quiet_def intro: pin_frame_trans)
  next
    case False
    with one Cons.prems(1) show ?thesis by simp
  qed
  with Cons one show ?case by (cases r1) (auto)
qed

lemma conn_isSynchronous_serial:
  "conn_isSynchronous c (setProcessingSerial e s w) = conn_isSynchronous c w"
  by (simp add: setProcessingSerial_def conn_isSynchronous_def split: option.split)

lemma delivered_serial: "delivered s (setProcessingSerial e s' w) w' p = delivered s w w' p"
  by (simp add: delivered_def conn_isSynchronous_serial) (simp add: setProcessingSerial_def)

lemma serial_static:
  "outputPins e' (setProcessingSerial e s w) = outputPins e' w"
  "inputPins e' (setProcessingSerial e s w) = inputPins e' w"
  "local_wiring e' (setProcessingSerial e s w) = local_wiring e' w"
  by (simp_all add: setProcessingSerial_def outputPins_def inputPins_def local_wiring_def
      outputConnections_def inputConnections_def)

lemma processor_delivers:
  assumes lw: "local_wiring e w"
    and own: "own_pins (set (inputPins e w)) (set (outputPins e w)) code"
    and run: "processor_process e code s w = (Inr b, w')"
    and p: "p \<in> set (outputPins e w)"
  shows "delivered s w w' p"
proof -
  let ?w0 = "setProcessingSerial e s w"
  have s: "el_serial (elems ?w0 e) = s" by (simp add: setProcessingSerial_def)
  have lw0: "local_wiring e ?w0" using lw by (simp add: serial_static)
  from run obtain nul w1 where pre: "preInput e ?w0 = (Inr nul, w1)"
    and cont: "nul \<and> (\<exists>w2. flushFirstOnSynchronousPins e w1 = (Inr (), w2) \<and>
          postOutput e (preOutput e w2) = (Inr (), w')) \<or>
        \<not> nul \<and> (\<exists>w3. exec code e (preOutput e w1) = (Inr b, w3) \<and> postOutput e w3 = (Inr (), w'))"
    by (auto simp: processor_process_def run_simps split: if_splits)
  from preInputLoop_step [OF pre [unfolded preInput_def]]
  have q1: "quiet e ?w0 w1" by (simp add: quiet_def)
  have "\<exists>w3. exec_inv e s ?w0 w3 \<and> postOutput e w3 = (Inr (), w')"
  proof (cases nul)
    case True
    with cont obtain w2 where fl: "flushFirstOnSynchronousPins e w1 = (Inr (), w2)"
      and po: "postOutput e (preOutput e w2) = (Inr (), w')" by auto
    have "inputPins e w1 = inputPins e ?w0" using q1 unfolding quiet_def by (blast dest: pin_frameD)
    then have "set (inputPins e w1) \<subseteq> set (inputPins e ?w0)" by simp
    from flushFirst_quiet [OF lw0 q1 this fl [unfolded flushFirstOnSynchronousPins_def]]
    have "quiet e ?w0 w2" .
    from preOutput_exec_inv [OF this] po show ?thesis by blast
  next
    case False
    with cont obtain w3 where ex: "exec code e (preOutput e w1) = (Inr b, w3)"
      and po: "postOutput e w3 = (Inr (), w')" by auto
    from exec_inv_run [OF lw0 s preOutput_exec_inv [OF q1] _ ex] own
    show ?thesis using po by (auto simp: serial_static)
  qed
  then obtain w3 where "exec_inv e s ?w0 w3" "postOutput e w3 = (Inr (), w')" by blast
  from postOutput_delivers [OF this(2) lw0 this(1) s] p show ?thesis
    by (simp add: serial_static delivered_serial)
qed

lemma producer_delivers:
  assumes lw: "local_wiring e w"
    and own: "own_pins (set (inputPins e w)) (set (outputPins e w)) code"
    and run: "producer_process e code s w = (Inr b, w')"
    and p: "p \<in> set (outputPins e w)"
  shows "delivered s w w' p"
proof -
  let ?w0 = "setProcessingSerial e s w"
  have s: "el_serial (elems ?w0 e) = s" by (simp add: setProcessingSerial_def)
  have lw0: "local_wiring e ?w0" using lw by (simp add: serial_static)
  from run obtain w3 w4 where ex: "exec code e (preOutput e ?w0) = (Inr b, w3)"
    and po: "postOutput e w3 = (Inr (), w4)"
    and w': "w' = (if b then w4 else setState e PLE_ERROR w4)"
    by (auto simp: producer_process_def run_simps)
  from exec_inv_run [OF lw0 s preOutput_exec_inv [OF quiet_refl] _ ex] own
  have "exec_inv e s ?w0 w3" by (simp add: serial_static)
  from postOutput_delivers [OF po lw0 this s] p have "delivered s w w4 p"
    by (simp add: serial_static delivered_serial)
  then show ?thesis by (simp add: w' delivered_def)
qed

text \<open>A null item on a guaranteed pin: the plug-in is not called, and null items go out.\<close>

lemma processor_null:
  assumes lw: "local_wiring e w"
    and nul: "fst (preInput e (setProcessingSerial e s w)) = Inr True"
    and run: "processor_process e code s w = (Inr b, w')"
    and p: "p \<in> set (outputPins e w)" and c: "c \<in> set (op_connections (opins w p))"
  shows "b \<and> c_queue (conns w' c) = c_queue (conns w c) @ (if conn_isSynchronous c w = Inr True then [Data_null s] else [])"
proof -
  let ?w0 = "setProcessingSerial e s w"
  have lw0: "local_wiring e ?w0" using lw by (simp add: serial_static)
  from run nul obtain w1 w2 where pre: "preInput e ?w0 = (Inr True, w1)"
    and fl: "flushFirstOnSynchronousPins e w1 = (Inr (), w2)"
    and po: "postOutput e (preOutput e w2) = (Inr (), w')" and b: "b"
    by (auto simp: processor_process_def run_simps)
  from preInputLoop_step [OF pre [unfolded preInput_def]] have q1: "quiet e ?w0 w1" by (simp add: quiet_def)
  have "inputPins e w1 = inputPins e ?w0" using q1 unfolding quiet_def by (blast dest: pin_frameD)
  then have "set (inputPins e w1) \<subseteq> set (inputPins e ?w0)" by simp
  from flushFirst_quiet [OF lw0 q1 this fl [unfolded flushFirstOnSynchronousPins_def]]
  have q2: "quiet e ?w0 w2" .
  let ?w3 = "preOutput e w2"
  have fr: "pin_frame ?w0 ?w3"
    using q2 preOutput_step(1) [of w2 e] by (auto simp: quiet_def intro: pin_frame_trans)
  have c0: "c \<in> set (op_connections (opins ?w0 p))" "p \<in> set (outputPins e ?w0)"
    using p c by (simp_all add: serial_static) (simp add: setProcessingSerial_def)
  then have cq: "c_queue (conns ?w3 c) = c_queue (conns w c)"
    using q2 outputConnections_mem [of p e ?w0 c]
    by (simp add: quiet_def preOutput_step(2)) (simp add: setProcessingSerial_def)
  have own: "\<forall>p \<in> set (outputPins e ?w3). el_serial (elems ?w3 (op_owner (opins ?w3 p))) = s"
    using fr lw0 by (simp add: pin_frameD local_wiring_def list_all_iff) (simp add: setProcessingSerial_def)
  have d: "distinct (outputPins e ?w3)" "distinct (concat (map (\<lambda>p. op_connections (opins ?w3 p)) (outputPins e ?w3)))"
    using lw0 fr by (simp_all add: local_wiring_def outputConnections_def pin_frameD)
  have nc: "\<not> op_called (opins ?w3 p)"
  proof -
    have "outputPins e w2 = outputPins e ?w0" using q2 unfolding quiet_def by (blast dest: pin_frameD)
    with c0(2) show ?thesis by (simp add: preOutput_step(3))
  qed
  have "conns w' c = (if conn_isSynchronous c ?w3 = Inr True \<and> \<not> op_called (opins ?w3 p)
                     then conn_push (Data_null s) (conns ?w3 c) else conns ?w3 c)"
    using postOutput_loop [OF po [unfolded postOutput_def] d own] c0 fr by (simp add: pin_frameD)
  moreover have "conn_isSynchronous c ?w3 = conn_isSynchronous c w"
    using pin_frame_sync [OF fr] by (simp add: conn_isSynchronous_serial)
  ultimately show ?thesis using b nc cq by (simp add: conn_push_def)
qed

text \<open>A plug-in that reads nothing: its run succeeds, and its inputs stay as they are, with their flags
  as \<open>preInput\<close> left them.\<close>

lemma preInputLoop_called:
  "preInputLoop qs b w = (Inr b', w') \<Longrightarrow>
     ip_called (ipins w' q) = (ip_called (ipins w q) \<and> q \<notin> set qs)"
proof (induction qs arbitrary: b w)
  case Nil
  then show ?case by simp
next
  case (Cons x qs)
  then show ?case
    by (force simp: ipin_pre_def split: if_splits sum.splits prod.splits)
qed

lemma opin_post_ipins: "opin_post p w = (Inr (), w') \<Longrightarrow> ipins w' = ipins w"
proof -
  have step: "ipins (snd (postConn d c t)) = ipins t" for d c and t :: "'a plv"
    by (cases "conn_put c d t") (auto simp: postConn_def dest: conn_put_frame split: sum.split)
  have "ipins (snd (forM (postConn d) cs w)) = ipins w" for d cs
    by (rule forM_invariant) (simp_all add: step)
  then show "opin_post p w = (Inr (), w') \<Longrightarrow> ipins w' = ipins w"
    by (auto simp: opin_post_def split: if_splits) (metis snd_conv)
qed

lemma postOutput_ipins: "forM opin_post ps w = (Inr (), w') \<Longrightarrow> ipins w' = ipins w"
  by (induction ps arbitrary: w) (auto split: prod.splits sum.splits dest: opin_post_ipins)

lemma preOutput_ipins: "ipins (preOutput e w) = ipins w"
proof -
  have "ipins (fold opin_pre ps w) = ipins w" for ps
    by (induction ps arbitrary: w) (auto simp: opin_pre_def)
  then show ?thesis by (simp add: preOutput_def)
qed

lemma processor_reads_nothing:
  assumes lw: "local_wiring e w"
    and nul: "fst (preInput e (setProcessingSerial e s w)) = Inr False"
    and run: "processor_process e (Return b) s w = (Inr r, w')"
  shows "r = b \<and> (\<forall>c \<in> set (inputConnections e w). c_queue (conns w' c) = c_queue (conns w c)) \<and>
    (\<forall>q \<in> set (inputPins e w). isSyncConnected w q \<longrightarrow> (\<exists>m. ipin_post q w' = Inl (RuntimeError m)))"
proof -
  let ?w0 = "setProcessingSerial e s w"
  have lw0: "local_wiring e ?w0" using lw by (simp add: serial_static)
  have s: "el_serial (elems ?w0 e) = s" by (simp add: setProcessingSerial_def)
  from run nul obtain w1 where pre: "preInput e ?w0 = (Inr False, w1)"
    and po: "postOutput e (preOutput e w1) = (Inr (), w')" and b: "r = b"
    by (auto simp: processor_process_def run_simps)
  note pl = preInputLoop_step [OF pre [unfolded preInput_def]]
  have inv: "exec_inv e s ?w0 (preOutput e w1)"
    by (rule preOutput_exec_inv) (use pl in \<open>simp add: quiet_def\<close>)
  then have fr: "pin_frame ?w0 (preOutput e w1)" by (simp add: exec_inv_def)
  have fr': "pin_frame ?w0 w'" using postOutput_delivers [OF po lw0 inv s] by blast
  have own: "\<forall>p \<in> set (outputPins e (preOutput e w1)).
      el_serial (elems (preOutput e w1) (op_owner (opins (preOutput e w1) p))) = s"
    using fr lw0 s by (simp add: pin_frameD local_wiring_def list_all_iff)
  have d: "distinct (outputPins e (preOutput e w1))"
    "distinct (concat (map (\<lambda>p. op_connections (opins (preOutput e w1) p)) (outputPins e (preOutput e w1))))"
    using lw0 fr by (simp_all add: local_wiring_def outputConnections_def pin_frameD)
  have "c_queue (conns w' c) = c_queue (conns w c)" if c: "c \<in> set (inputConnections e w)" for c
  proof -
    have "c \<notin> set (outputConnections e ?w0)"
      using c lw0 by (auto simp: local_wiring_def serial_static inputConnections_def setProcessingSerial_def inputPins_def)
    then have "conns w' c = conns (preOutput e w1) c"
      using postOutput_loop [OF po [unfolded postOutput_def] d own] fr
      by (simp add: outputConnections_def pin_frameD)
    then show ?thesis using pl by (simp add: preOutput_step(2) setProcessingSerial_def)
  qed
  moreover have "\<exists>m. ipin_post q w' = Inl (RuntimeError m)"
    if q: "q \<in> set (inputPins e w)" "isSyncConnected w q" for q
  proof -
    have "ipins w' = ipins w1"
      using postOutput_ipins [OF po [unfolded postOutput_def]] by (simp add: preOutput_ipins)
    moreover have "\<not> ip_called (ipins w1 q)"
      using preInputLoop_called [OF pre [unfolded preInput_def]] q by (simp add: serial_static)
    moreover have "isSyncConnected w' q"
      using pin_frame_connected(2) [OF fr'] q(2)
      by (simp add: isSyncConnected_def ipin_isConnected_def isSynchronous_def setProcessingSerial_def)
    ultimately show ?thesis by (auto simp: ipin_post_def isSyncConnected_def)
  qed
  ultimately show ?thesis using b by blast
qed

section \<open>A run that succeeds\<close>

lemma run_delivers:
  assumes lw: "local_wiring e w"
    and own: "own_pins (set (inputPins e w)) (set (outputPins e w)) code"
    and run: "run e code s w = (Inr True, w')" and p: "p \<in> set (outputPins e w)"
  shows "delivered s w w' p"
proof -
  let ?w1 = "setState e PLE_RUNNING w"
  have st: "outputPins x (setState e q v) = outputPins x v" "inputPins x (setState e q v) = inputPins x v"
    "local_wiring x (setState e q v) = local_wiring x v" for x q and v :: "'a plv"
    by (simp_all add: setState_def outputPins_def inputPins_def local_wiring_def
        outputConnections_def inputConnections_def)
  have sync: "conn_isSynchronous c ?w1 = conn_isSynchronous c w" for c
    by (simp add: conn_isSynchronous_def split: option.split)
  from run obtain w2 where ep: "element_process e code s ?w1 = (Inr True, w2)"
    and w': "conns w' = conns w2"
    by (auto simp: run_def monad_defs attempt_def split: sum.splits prod.splits if_splits)
  have "delivered s ?w1 w2 p"
    using ep processor_delivers [of e ?w1 code s True w2 p] producer_delivers [of e ?w1 code s True w2 p] lw own p
    by (simp add: element_process_def st split: ple_class.splits)
  then show ?thesis by (simp add: delivered_def sync w')
qed

end
