(* ===== verification/Pipeline_Edit.thy ===== *)
theory Pipeline_Edit
  imports Delivery
begin

text \<open>
  Editing a pipeline (\<open>src/plvcore/Pipeline.cpp\<close>): adding and removing elements, connecting and
  disconnecting pins, clearing.  The invariant \<open>wired\<close> says that the maps of the pipeline, the pins of
  its elements and the connections agree: every connection is known to both of its pins and to the
  pipeline, and every pin knows only connections of the pipeline.
\<close>

section \<open>Model\<close>

definition canAddElement :: "ref \<Rightarrow> 'v plv \<Rightarrow> bool" where
  "canAddElement e w =
     (el_id (elems w e) \<noteq> - 1 \<longrightarrow> \<not> qm_contains (el_id (elems w e)) (children w))"

definition getNewPipelineElementId :: "'v plv \<Rightarrow> int" where
  "getNewPipelineElementId w = newIdScan 0 (children w)"

definition getNewPinConnectionId :: "'v plv \<Rightarrow> int" where
  "getNewPinConnectionId w = newIdScan 0 (connections w)"

definition getElement :: "int \<Rightarrow> 'v plv \<Rightarrow> ref option" where
  "getElement i w = map_of (children w) i"

definition getConnection :: "int \<Rightarrow> 'v plv \<Rightarrow> ref option" where
  "getConnection i w = map_of (connections w) i"

definition isEmpty :: "'v plv \<Rightarrow> bool" where
  "isEmpty w = (children w = [])"

text \<open>The warning about an id in use does not end the method.\<close>

definition addElement :: "ref \<Rightarrow> 'v plv \<Rightarrow> int \<times> 'v plv" where
  "addElement e w =
     (let w1 = (if canAddElement e w then w
                else emit (pipelineMessage (''Tried to add PipelineElement '' @ el_name (elems w e) @
                       '' to pipeline with an id which is already in use or invalid.'')) w);
          i = (if el_id (elems w1 e) = - 1 then getNewPipelineElementId w1 else el_id (elems w1 e));
          w2 = upd_elem e (\<lambda>el. el\<lparr>el_id := i, el_hasPipeline := True\<rparr>) w1;
          w3 = w2\<lparr>children := qm_insert i e (children w2),
                  producers := (if el_class (elems w2 e) = PipelineProducer
                                then qm_insert i e (producers w2) else producers w2),
                  processors := (if el_class (elems w2 e) = PipelineProcessor
                                 then qm_insert i e (processors w2) else processors w2),
                  pl_changed := True\<rparr>
      in (i, emit (elementAdded i) w3))"

definition connectPins :: "QMetaType \<Rightarrow> ref \<Rightarrow> ref \<Rightarrow> ('v plv, int) plvM" where
  "connectPins qt p q w =
     (let i = getNewPinConnectionId w in
      bindM (new_PinConnection qt i p q) (\<lambda>c.
        seqM (modifyM (\<lambda>w'. w'\<lparr>connections := qm_insert i c (connections w')\<rparr>))
        (seqM (modifyM (emit (connectionAdded i)))
        (returnM i))) w)"

definition threadUnsafeDisconnect :: "int \<Rightarrow> ('v plv, unit) plvM" where
  "threadUnsafeDisconnect i w =
     (case map_of (connections w) i of
        None \<Rightarrow> (Inl AssertFailed, w)
      | Some c \<Rightarrow>
          seqM (conn_disconnect c)
          (seqM (modifyM (\<lambda>w'. w'\<lparr>connections := qm_remove i (connections w')\<rparr>))
          (\<lambda>w'. modifyM (emit (connectionRemoved (c_id (conns w' c)))) w')) w)"

definition pinConnectionDisconnect :: "int \<Rightarrow> ('v plv, unit) plvM" where
  "pinConnectionDisconnect i = threadUnsafeDisconnect i"

text \<open>The loops run over copies of the pin maps and of the connection lists.\<close>

definition disconnectInput :: "ref \<Rightarrow> ('v plv, unit) plvM" where
  "disconnectInput q w =
     (case ip_connection (ipins w q) of
        None \<Rightarrow> (Inr (), w)
      | Some c \<Rightarrow> threadUnsafeDisconnect (c_id (conns w c)) w)"

definition disconnectOutput :: "ref \<Rightarrow> ('v plv, unit) plvM" where
  "disconnectOutput p w =
     forM (\<lambda>c w'. threadUnsafeDisconnect (c_id (conns w' c)) w') (op_connections (opins w p)) w"

definition removeConnectionsForElement :: "ref \<Rightarrow> ('v plv, unit) plvM" where
  "removeConnectionsForElement e w =
     seqM (if el_class (elems w e) = PipelineProcessor then forM disconnectInput (inputPins e w) else returnM ())
       (\<lambda>w'. forM disconnectOutput (outputPins e w') w') w"

definition removeElement :: "int \<Rightarrow> ('v plv, unit) plvM" where
  "removeElement i w =
     (case map_of (children w) i of
        None \<Rightarrow> (Inr (), w)
      | Some e \<Rightarrow>
          seqM (removeConnectionsForElement e)
          (seqM (modifyM (\<lambda>w'. w'\<lparr>
             children := qm_remove i (children w'),
             producers := (if qm_contains i (producers w') then qm_remove i (producers w') else producers w'),
             processors := (if \<not> qm_contains i (producers w') \<and> qm_contains i (processors w')
                            then qm_remove i (processors w') else processors w'),
             pl_changed := True\<rparr>))
          (modifyM (emit (elementRemoved i)))) w)"

definition removeAllConnections :: "('v plv, unit) plvM" where
  "removeAllConnections w =
     seqM (assertM (\<not> pl_running w))
     (seqM (forM (\<lambda>c. seqM (conn_disconnect c)
                       (\<lambda>w'. modifyM (emit (connectionRemoved (c_id (conns w' c)))) w'))
              (map snd (connections w)))
     (modifyM (\<lambda>w'. w'\<lparr>connections := []\<rparr>))) w"

definition removeAllElements :: "('v plv, unit) plvM" where
  "removeAllElements w =
     seqM (forM (\<lambda>e. seqM (removeConnectionsForElement e)
                       (\<lambda>w'. modifyM (emit (elementRemoved (el_id (elems w' e)))) w'))
              (map snd (children w)))
     (modifyM (\<lambda>w'. w'\<lparr>pl_ordering := [], children := [], producers := [], processors := []\<rparr>)) w"

definition pipeline_clear :: "('v plv, unit) plvM" where
  "pipeline_clear w =
     seqM (assertM (\<not> pl_running w))
     (seqM removeAllConnections
     (seqM removeAllElements
     (modifyM (\<lambda>w'. w'\<lparr>pl_changed := True\<rparr>)))) w"

section \<open>The wiring invariant\<close>

definition is_child :: "'v plv \<Rightarrow> ref \<Rightarrow> bool" where
  "is_child w e = (e \<in> snd ` set (children w))"

definition pins_ok :: "'v plv \<Rightarrow> ref \<Rightarrow> bool" where
  "pins_ok w e \<longleftrightarrow>
     qh_inv (el_inputPins (elems w e)) \<and> qh_inv (el_outputPins (elems w e)) \<and>
     (\<forall>(i, q) \<in> set (el_inputPins (elems w e)). ip_id (ipins w q) = i \<and> ip_owner (ipins w q) = e) \<and>
     (\<forall>(i, p) \<in> set (el_outputPins (elems w e)). op_id (opins w p) = i \<and> op_owner (opins w p) = e) \<and>
     (el_class (elems w e) = PipelineProducer \<longrightarrow> el_inputPins (elems w e) = [])"

definition in_linked :: "'v plv \<Rightarrow> ref \<Rightarrow> bool" where
  "in_linked w q \<longleftrightarrow>
     (case ip_connection (ipins w q) of
        None \<Rightarrow> True
      | Some c \<Rightarrow> (c_id (conns w c), c) \<in> set (connections w) \<and> c_consumer (conns w c) = Some q)"

lemma in_linked_iff:
  "in_linked w q \<longleftrightarrow>
     (\<forall>c. ip_connection (ipins w q) = Some c \<longrightarrow>
        (c_id (conns w c), c) \<in> set (connections w) \<and> c_consumer (conns w c) = Some q)"
  by (simp add: in_linked_def split: option.split)

definition out_linked :: "'v plv \<Rightarrow> ref \<Rightarrow> bool" where
  "out_linked w p \<longleftrightarrow>
     distinct (op_connections (opins w p)) \<and>
     (\<forall>c \<in> set (op_connections (opins w p)).
        (c_id (conns w c), c) \<in> set (connections w) \<and> c_producer (conns w c) = Some p)"

definition elem_ok :: "'v plv \<Rightarrow> ref \<Rightarrow> bool" where
  "elem_ok w e \<longleftrightarrow>
     pins_ok w e \<and> (\<forall>q \<in> set (inputPins e w). in_linked w q) \<and> (\<forall>p \<in> set (outputPins e w). out_linked w p)"

definition conn_between :: "'v plv \<Rightarrow> ref \<Rightarrow> ref \<Rightarrow> ref \<Rightarrow> bool" where
  "conn_between w c p q \<longleftrightarrow>
     c_producer (conns w c) = Some p \<and> c_consumer (conns w c) = Some q \<and>
     c \<in> set (op_connections (opins w p)) \<and> ip_connection (ipins w q) = Some c \<and>
     is_child w (op_owner (opins w p)) \<and> p \<in> set (outputPins (op_owner (opins w p)) w) \<and>
     is_child w (ip_owner (ipins w q)) \<and> q \<in> set (inputPins (ip_owner (ipins w q)) w) \<and>
     op_owner (opins w p) \<noteq> ip_owner (ipins w q)"

definition conn_ok :: "'v plv \<Rightarrow> ref \<Rightarrow> bool" where
  "conn_ok w c \<longleftrightarrow>
     c < nextConn w \<and>
     (case (c_producer (conns w c), c_consumer (conns w c)) of
        (Some p, Some q) \<Rightarrow> conn_between w c p q
      | _ \<Rightarrow> False)"

definition classes_ok :: "'v plv \<Rightarrow> bool" where
  "classes_ok w \<longleftrightarrow>
     producers w = filter (\<lambda>(i, e). el_class (elems w e) = PipelineProducer) (children w) \<and>
     processors w = filter (\<lambda>(i, e). el_class (elems w e) = PipelineProcessor) (children w)"

definition wired :: "'v plv \<Rightarrow> bool" where
  "wired w \<longleftrightarrow>
     qm_inv (children w) \<and> qm_inv (connections w) \<and> classes_ok w \<and>
     (\<forall>(i, e) \<in> set (children w). el_id (elems w e) = i \<and> elem_ok w e) \<and>
     (\<forall>(i, c) \<in> set (connections w). c_id (conns w c) = i \<and> conn_ok w c)"

end
