(* ===== verification/Pipeline_Wiring.thy ===== *)
theory Pipeline_Wiring
  imports Pipeline_Edit
begin

text \<open>
  The operations that edit a pipeline keep \<open>wired\<close>, and under it the assertions they contain cannot
  fail.
\<close>

section \<open>Consequences of the invariant\<close>

lemma wiredI:
  assumes "qm_inv (children w)" and "qm_inv (connections w)" and "classes_ok w"
    and "\<And>i e. (i, e) \<in> set (children w) \<Longrightarrow> el_id (elems w e) = i"
    and "\<And>i e. (i, e) \<in> set (children w) \<Longrightarrow> elem_ok w e"
    and "\<And>i c. (i, c) \<in> set (connections w) \<Longrightarrow> c_id (conns w c) = i"
    and "\<And>i c. (i, c) \<in> set (connections w) \<Longrightarrow> conn_ok w c"
  shows "wired w"
  using assms by (auto simp: wired_def)

lemma wired_maps:
  assumes "wired w"
  shows "qm_inv (children w)" "qm_inv (connections w)" "classes_ok w"
    and "(i, e) \<in> set (children w) \<Longrightarrow> el_id (elems w e) = i"
  using assms by (auto simp: wired_def)

lemma wired_child:
  assumes "wired w" and "is_child w e"
  shows "elem_ok w e" and "map_of (children w) (el_id (elems w e)) = Some e"
  using assms qm_inv_distinct [of "children w"]
  by (auto simp: wired_def is_child_def)

lemma conn_ok_iff: "conn_ok w c \<longleftrightarrow> c < nextConn w \<and> (\<exists>p q. conn_between w c p q)"
  by (auto simp: conn_ok_def conn_between_def split: option.splits)

lemma wired_connection:
  assumes "wired w" and "(i, c) \<in> set (connections w)"
  shows "c_id (conns w c) = i" and "c < nextConn w"
    and "\<exists>p q. conn_between w c p q"
    and "map_of (connections w) i = Some c"
  using assms qm_inv_distinct [of "connections w"]
  by (auto simp: wired_def conn_ok_iff)

lemma wired_input:
  assumes "wired w" and "is_child w e" and "q \<in> set (inputPins e w)"
  shows "in_linked w q" and "ip_owner (ipins w q) = e" and "el_class (elems w e) = PipelineProcessor"
proof -
  note ok = wired_child(1) [OF assms(1,2)]
  from ok assms(3) show "in_linked w q" by (simp add: elem_ok_def)
  from ok assms(3) show "ip_owner (ipins w q) = e"
    by (auto simp: elem_ok_def pins_ok_def inputPins_def)
  from ok assms(3) show "el_class (elems w e) = PipelineProcessor"
    by (cases "el_class (elems w e)") (auto simp: elem_ok_def pins_ok_def inputPins_def)
qed

lemma wired_output:
  assumes "wired w" and "is_child w e" and "p \<in> set (outputPins e w)"
  shows "out_linked w p" and "op_owner (opins w p) = e"
proof -
  note ok = wired_child(1) [OF assms(1,2)]
  from ok assms(3) show "out_linked w p" by (simp add: elem_ok_def)
  from ok assms(3) show "op_owner (opins w p) = e"
    by (auto simp: elem_ok_def pins_ok_def outputPins_def)
qed

lemma wired_input_connection:
  assumes "wired w" and "is_child w e" and "q \<in> set (inputPins e w)"
    and "ip_connection (ipins w q) = Some c"
  shows "(c_id (conns w c), c) \<in> set (connections w)" and "c_consumer (conns w c) = Some q"
    and "\<exists>p. conn_between w c p q"
proof -
  from wired_input(1) [OF assms(1-3)] assms(4)
  show c: "(c_id (conns w c), c) \<in> set (connections w)" and q: "c_consumer (conns w c) = Some q"
    by (auto simp: in_linked_iff)
  from wired_connection(3) [OF assms(1) c] q show "\<exists>p. conn_between w c p q"
    by (auto simp: conn_between_def)
qed

lemma wired_output_connection:
  assumes "wired w" and "is_child w e" and "p \<in> set (outputPins e w)"
    and "c \<in> set (op_connections (opins w p))"
  shows "(c_id (conns w c), c) \<in> set (connections w)" and "c_producer (conns w c) = Some p"
    and "\<exists>q. conn_between w c p q"
proof -
  from wired_output(1) [OF assms(1-3)] assms(4)
  show c: "(c_id (conns w c), c) \<in> set (connections w)" and p: "c_producer (conns w c) = Some p"
    by (auto simp: out_linked_def)
  from wired_connection(3) [OF assms(1) c] p show "\<exists>q. conn_between w c p q"
    by (auto simp: conn_between_def)
qed

lemma conn_between_fun:
  "conn_between w c p q \<Longrightarrow> conn_between w c p' q' \<Longrightarrow> p' = p \<and> q' = q"
  by (auto simp: conn_between_def)

lemma conn_between_owners:
  assumes "conn_between w c p q"
  shows "is_child w (op_owner (opins w p))" "p \<in> set (outputPins (op_owner (opins w p)) w)"
    "is_child w (ip_owner (ipins w q))" "q \<in> set (inputPins (ip_owner (ipins w q)) w)"
  using assms by (auto simp: conn_between_def)

text \<open>The wiring around one element, as processing needs it.\<close>

lemma distinct_pin_list:
  assumes "qh_inv xs" and "\<forall>(i, q) \<in> set xs. f q = i"
  shows "distinct (map snd xs)"
proof -
  have "map fst xs = map f (map snd xs)" using assms(2) by (induction xs) auto
  with assms(1) show ?thesis by (metis distinct_map qh_inv_def)
qed

lemma distinct_concatI:
  assumes "distinct xs" and "\<And>x. x \<in> set xs \<Longrightarrow> distinct (f x)"
    and "\<And>x y. x \<in> set xs \<Longrightarrow> y \<in> set xs \<Longrightarrow> x \<noteq> y \<Longrightarrow> set (f x) \<inter> set (f y) = {}"
  shows "distinct (concat (map f xs))"
  using assms
proof (induction xs)
  case Nil
  then show ?case by simp
next
  case (Cons x xs)
  have "distinct (concat (map f xs))" using Cons.prems by (intro Cons.IH) auto
  moreover have "set (f x) \<inter> set (f y) = {}" if "y \<in> set xs" for y
    using Cons.prems(1) that by (intro Cons.prems(3)) auto
  ultimately show ?case using Cons.prems(2) [of x] by (auto simp: disjoint_iff)
qed

lemma wired_distinct_pins:
  assumes "wired w" and "is_child w e"
  shows "distinct (inputPins e w)" and "distinct (outputPins e w)"
  using wired_child(1) [OF assms]
    distinct_pin_list [of "el_inputPins (elems w e)" "\<lambda>q. ip_id (ipins w q)"]
    distinct_pin_list [of "el_outputPins (elems w e)" "\<lambda>p. op_id (opins w p)"]
  by (auto simp: elem_ok_def pins_ok_def inputPins_def outputPins_def)

lemma wired_local:
  assumes w: "wired w" and e: "is_child w e"
  shows "local_wiring e w"
proof -
  have "distinct (outputConnections e w)"
    unfolding outputConnections_def
  proof (rule distinct_concatI)
    show "distinct (outputPins e w)" by (rule wired_distinct_pins [OF w e])
    show "distinct (op_connections (opins w p))" if "p \<in> set (outputPins e w)" for p
      using wired_output(1) [OF w e that] by (simp add: out_linked_def)
    show "set (op_connections (opins w p)) \<inter> set (op_connections (opins w p')) = {}"
      if "p \<in> set (outputPins e w)" "p' \<in> set (outputPins e w)" "p \<noteq> p'" for p p'
      using wired_output(1) [OF w e that(1)] wired_output(1) [OF w e that(2)] that(3)
      by (auto simp: out_linked_def)
  qed
  moreover have "False" if "c \<in> set (inputConnections e w)" "c \<in> set (outputConnections e w)" for c
  proof -
    from that obtain q where q: "q \<in> set (inputPins e w)" "ip_connection (ipins w q) = Some c"
      by (auto simp: inputConnections_def List.map_filter_def)
    from that obtain p where p: "p \<in> set (outputPins e w)" "c \<in> set (op_connections (opins w p))"
      by (auto simp: outputConnections_def)
    from wired_input_connection(3) [OF w e q] obtain p' where b: "conn_between w c p' q" by blast
    with wired_output_connection(2) [OF w e p] have "p' = p" by (simp add: conn_between_def)
    with b wired_input(2) [OF w e q(1)] wired_output(2) [OF w e p(1)]
    show False by (simp add: conn_between_def)
  qed
  ultimately show ?thesis
    using wired_distinct_pins [OF w e] wired_output(2) [OF w e]
    by (auto simp: local_wiring_def list_all_iff)
qed

section \<open>Changes that do not touch the wiring\<close>

definition same_wiring :: "'v plv \<Rightarrow> 'v plv \<Rightarrow> bool" where
  "same_wiring w w' \<longleftrightarrow>
     children w' = children w \<and> connections w' = connections w \<and>
     producers w' = producers w \<and> processors w' = processors w \<and> nextConn w \<le> nextConn w' \<and>
     (\<forall>e. el_id (elems w' e) = el_id (elems w e) \<and> el_class (elems w' e) = el_class (elems w e) \<and>
          el_inputPins (elems w' e) = el_inputPins (elems w e) \<and>
          el_outputPins (elems w' e) = el_outputPins (elems w e)) \<and>
     (\<forall>q. ip_id (ipins w' q) = ip_id (ipins w q) \<and> ip_owner (ipins w' q) = ip_owner (ipins w q) \<and>
          ip_connection (ipins w' q) = ip_connection (ipins w q)) \<and>
     (\<forall>p. op_id (opins w' p) = op_id (opins w p) \<and> op_owner (opins w' p) = op_owner (opins w p) \<and>
          op_connections (opins w' p) = op_connections (opins w p)) \<and>
     (\<forall>c < nextConn w. c_id (conns w' c) = c_id (conns w c) \<and>
          c_producer (conns w' c) = c_producer (conns w c) \<and>
          c_consumer (conns w' c) = c_consumer (conns w c))"

lemma same_wiring_refl [simp]: "same_wiring w w"
  by (simp add: same_wiring_def)

lemma same_wiring_trans: "same_wiring w1 w2 \<Longrightarrow> same_wiring w2 w3 \<Longrightarrow> same_wiring w1 w3"
  by (auto simp: same_wiring_def)

lemma same_wiring_pins:
  assumes "same_wiring w w'"
  shows "inputPins e w' = inputPins e w" "outputPins e w' = outputPins e w" "is_child w' e = is_child w e"
  using assms by (simp_all add: same_wiring_def inputPins_def outputPins_def is_child_def)

lemma wired_same:
  assumes w: "wired w" and s: "same_wiring w w'"
  shows "wired w'"
proof -
  note sp = same_wiring_pins [OF s]
  have old: "c_id (conns w' c) = c_id (conns w c) \<and> c_producer (conns w' c) = c_producer (conns w c) \<and>
      c_consumer (conns w' c) = c_consumer (conns w c)" if "(i, c) \<in> set (connections w)" for i c
    using wired_connection(2) [OF w that] s by (simp add: same_wiring_def)
  have "elem_ok w' e" if "(i, e) \<in> set (children w)" for i e
  proof -
    from that have e: "is_child w e" by (force simp: is_child_def)
    have "in_linked w' q" if q: "q \<in> set (inputPins e w)" for q
      unfolding in_linked_iff
    proof (intro allI impI)
      fix c assume "ip_connection (ipins w' q) = Some c"
      then have "ip_connection (ipins w q) = Some c" using s by (simp add: same_wiring_def)
      note l = wired_input_connection [OF w e q this]
      from l old [OF l(1)] s
      show "(c_id (conns w' c), c) \<in> set (connections w') \<and> c_consumer (conns w' c) = Some q"
        by (simp add: same_wiring_def)
    qed
    moreover have "out_linked w' p" if p: "p \<in> set (outputPins e w)" for p
      unfolding out_linked_def
    proof (intro conjI ballI)
      show "distinct (op_connections (opins w' p))"
        using wired_output(1) [OF w e p] s by (simp add: out_linked_def same_wiring_def)
      fix c assume "c \<in> set (op_connections (opins w' p))"
      then have "c \<in> set (op_connections (opins w p))" using s by (simp add: same_wiring_def)
      note l = wired_output_connection [OF w e p this]
      from l old [OF l(1)] s
      show "(c_id (conns w' c), c) \<in> set (connections w')" "c_producer (conns w' c) = Some p"
        by (simp_all add: same_wiring_def)
    qed
    moreover have "pins_ok w' e"
      using wired_child(1) [OF w e] s by (simp add: elem_ok_def pins_ok_def same_wiring_def)
    ultimately show ?thesis by (simp add: elem_ok_def sp)
  qed
  moreover have "conn_ok w' c" if "(i, c) \<in> set (connections w)" for i c
    using wired_connection [OF w that] old [OF that] s
    by (auto simp: conn_ok_iff conn_between_def same_wiring_def sp)
  ultimately show ?thesis
    using w s old by (auto simp: wired_def classes_ok_def same_wiring_def)
qed

section \<open>Disconnecting\<close>

definition unplugged :: "int \<Rightarrow> ref \<Rightarrow> ref \<Rightarrow> ref \<Rightarrow> 'v plv \<Rightarrow> 'v plv" where
  "unplugged i c p q w =
     emit (connectionRemoved i)
       ((upd_conn c (\<lambda>cn. cn\<lparr>c_producer := None, c_consumer := None, c_queue := []\<rparr>)
         (upd_ipin q (\<lambda>qi. qi\<lparr>ip_connection := None\<rparr>)
         (upd_opin p (\<lambda>po. po\<lparr>op_connections := remove1 c (op_connections po)\<rparr>) w)))
        \<lparr>connections := qm_remove i (connections w)\<rparr>)"

lemma unplugged_simps [simp]:
  "children (unplugged i c p q w) = children w"
  "connections (unplugged i c p q w) = qm_remove i (connections w)"
  "producers (unplugged i c p q w) = producers w"
  "processors (unplugged i c p q w) = processors w"
  "elems (unplugged i c p q w) = elems w"
  "nextConn (unplugged i c p q w) = nextConn w"
  "pl_running (unplugged i c p q w) = pl_running w"
  "ipins (unplugged i c p q w) = (ipins w)(q := (ipins w q)\<lparr>ip_connection := None\<rparr>)"
  "opins (unplugged i c p q w) =
     (opins w)(p := (opins w p)\<lparr>op_connections := remove1 c (op_connections (opins w p))\<rparr>)"
  "conns (unplugged i c p q w) =
     (conns w)(c := (conns w c)\<lparr>c_producer := None, c_consumer := None, c_queue := []\<rparr>)"
  "inputPins e (unplugged i c p q w) = inputPins e w"
  "outputPins e (unplugged i c p q w) = outputPins e w"
  "is_child (unplugged i c p q w) e = is_child w e"
  by (simp_all add: unplugged_def inputPins_def outputPins_def is_child_def)

lemma conn_disconnect_run:
  assumes "conn_between w c p q"
  shows "conn_disconnect c w =
    (Inr (), upd_conn c (\<lambda>cn. cn\<lparr>c_producer := None, c_consumer := None, c_queue := []\<rparr>)
         (upd_ipin q (\<lambda>qi. qi\<lparr>ip_connection := None\<rparr>)
         (upd_opin p (\<lambda>po. po\<lparr>op_connections := remove1 c (op_connections po)\<rparr>) w)))"
  using assms
  by (simp add: conn_disconnect_def conn_between_def monad_defs opin_removeConnection_def
      ipin_removeConnection_def ipin_isConnected_def)

lemma threadUnsafeDisconnect_run:
  assumes "wired w" and "(i, c) \<in> set (connections w)" and "conn_between w c p q"
  shows "threadUnsafeDisconnect i w = (Inr (), unplugged i c p q w)"
  using wired_connection [OF assms(1,2)] conn_disconnect_run [OF assms(3)]
  by (simp add: threadUnsafeDisconnect_def monad_defs unplugged_def)

lemma qm_remove_mem: "(j, x) \<in> set (qm_remove i m) \<longleftrightarrow> (j, x) \<in> set m \<and> j \<noteq> i"
  by (auto simp: qm_remove_def)

text \<open>Another connection of the pipeline has another id and joins other pins.\<close>

lemma wired_other:
  assumes "wired w" and "(i, c) \<in> set (connections w)" and "(j, c') \<in> set (connections w)" and "c' \<noteq> c"
  shows "j \<noteq> i"
  using wired_connection(4) [OF assms(1,2)] wired_connection(4) [OF assms(1,3)] assms(4) by auto

lemma wired_unplugged:
  assumes w: "wired w" and ic: "(i, c) \<in> set (connections w)" and b: "conn_between w c p q"
  shows "wired (unplugged i c p q w)"
proof -
  let ?w = "unplugged i c p q w"
  have keep: "(j, c') \<in> set (connections ?w)" if "(j, c') \<in> set (connections w)" "c' \<noteq> c" for j c'
    using wired_other [OF w ic that] that by (simp add: qm_remove_mem)
  have elems: "elem_ok ?w e" if "(j, e) \<in> set (children w)" for j e
  proof -
    from that have e: "is_child w e" by (force simp: is_child_def)
    have "in_linked ?w q'" if q': "q' \<in> set (inputPins e w)" for q'
    proof (cases "q' = q")
      case False
      have "(c_id (conns w c'), c') \<in> set (connections ?w) \<and> c_consumer (conns w c') = Some q' \<and> c' \<noteq> c"
        if "ip_connection (ipins w q') = Some c'" for c'
      proof -
        note l = wired_input_connection [OF w e q' that]
        from l(2) b False have "c' \<noteq> c" by (auto simp: conn_between_def)
        with l keep [OF l(1)] show ?thesis by simp
      qed
      with False show ?thesis by (auto simp: in_linked_iff)
    qed (simp add: in_linked_iff)
    moreover have "out_linked ?w p'" if p': "p' \<in> set (outputPins e w)" for p'
    proof -
      have d: "distinct (op_connections (opins w p'))"
        using wired_output(1) [OF w e p'] by (simp add: out_linked_def)
      have "c' \<noteq> c" if "c' \<in> set (op_connections (opins ?w p'))" for c'
        using that wired_output_connection(2) [OF w e p'] b d
        by (auto simp: conn_between_def split: if_splits)
      moreover have "c' \<in> set (op_connections (opins w p'))" if "c' \<in> set (op_connections (opins ?w p'))" for c'
        using that set_remove1_subset by (fastforce split: if_splits)
      ultimately have "(c_id (conns ?w c'), c') \<in> set (connections ?w) \<and> c_producer (conns ?w c') = Some p'"
        if "c' \<in> set (op_connections (opins ?w p'))" for c'
        using that wired_output_connection(1,2) [OF w e p'] keep by fastforce
      with d show ?thesis by (auto simp: out_linked_def)
    qed
    moreover have "pins_ok ?w e" using wired_child(1) [OF w e] by (auto simp: elem_ok_def pins_ok_def)
    ultimately show ?thesis by (simp add: elem_ok_def)
  qed
  have others: "conn_ok ?w c'" if c': "(j, c') \<in> set (connections w)" "c' \<noteq> c" for j c'
  proof -
    from wired_connection(3) [OF w c'(1)] obtain p' q' where b': "conn_between w c' p' q'" by blast
    from b b' c'(2) have "q' \<noteq> q" by (auto simp: conn_between_def)
    with b' c'(2) have "conn_between ?w c' p' q'" by (auto simp: conn_between_def)
    with wired_connection(2) [OF w c'(1)] show ?thesis by (auto simp: conn_ok_iff)
  qed
  have rest: "(j, c') \<in> set (connections w) \<and> c' \<noteq> c" if "(j, c') \<in> set (connections ?w)" for j c'
    using that wired_connection(1) [OF w ic] wired_connection(1) [OF w] by (auto simp: qm_remove_mem)
  show ?thesis
  proof (rule wiredI)
    show "classes_ok ?w" using wired_maps(3) [OF w] by (simp add: classes_ok_def)
    show "el_id (elems ?w e) = j" if "(j, e) \<in> set (children ?w)" for j e
      using wired_maps(4) [OF w] that by simp
    show "c_id (conns ?w c') = j" if "(j, c') \<in> set (connections ?w)" for j c'
      using rest [OF that] wired_connection(1) [OF w] by simp
    show "conn_ok ?w c'" if "(j, c') \<in> set (connections ?w)" for j c'
      using rest [OF that] others by blast
  qed (use wired_maps [OF w] elems in \<open>auto simp: qm_inv_remove\<close>)
qed

lemma threadUnsafeDisconnect_wired:
  assumes "wired w" and "(i, c) \<in> set (connections w)"
  obtains p q where "conn_between w c p q"
    and "threadUnsafeDisconnect i w = (Inr (), unplugged i c p q w)"
    and "wired (unplugged i c p q w)"
  using wired_connection(3) [OF assms] threadUnsafeDisconnect_run [OF assms] wired_unplugged [OF assms]
  by blast

section \<open>Removing the connections of an element\<close>

text \<open>\<open>fewer w w'\<close>: nothing but connections was taken away.\<close>

definition fewer :: "'v plv \<Rightarrow> 'v plv \<Rightarrow> bool" where
  "fewer w w' \<longleftrightarrow>
     elems w' = elems w \<and> children w' = children w \<and> producers w' = producers w \<and>
     processors w' = processors w \<and> pl_running w' = pl_running w \<and>
     set (connections w') \<subseteq> set (connections w) \<and>
     (\<forall>q. ip_connection (ipins w' q) \<noteq> None \<longrightarrow> ip_connection (ipins w' q) = ip_connection (ipins w q)) \<and>
     (\<forall>p. set (op_connections (opins w' p)) \<subseteq> set (op_connections (opins w p)))"

lemma fewer_refl [simp]: "fewer w w"
  by (simp add: fewer_def)

lemma fewer_trans: "fewer w1 w2 \<Longrightarrow> fewer w2 w3 \<Longrightarrow> fewer w1 w3"
  unfolding fewer_def by (metis (no_types, lifting) subset_trans)

lemma fewer_unplugged: "fewer w (unplugged i c p q w)"
  using set_remove1_subset by (fastforce simp: fewer_def qm_remove_def)

lemma fewer_pins:
  assumes "fewer w w'"
  shows "inputPins e w' = inputPins e w" "outputPins e w' = outputPins e w" "is_child w' e = is_child w e"
  using assms by (simp_all add: fewer_def inputPins_def outputPins_def is_child_def)

lemma disconnectInput_wired:
  assumes w: "wired w" and e: "is_child w e" and q: "q \<in> set (inputPins e w)"
  shows "\<exists>w'. disconnectInput q w = (Inr (), w') \<and> wired w' \<and> fewer w w' \<and> ip_connection (ipins w' q) = None"
proof (cases "ip_connection (ipins w q)")
  case None
  with w show ?thesis by (simp add: disconnectInput_def)
next
  case (Some c)
  note l = wired_input_connection [OF w e q Some]
  from threadUnsafeDisconnect_wired [OF w l(1)] obtain p' q' where
    b: "conn_between w c p' q'"
    and r: "threadUnsafeDisconnect (c_id (conns w c)) w = (Inr (), unplugged (c_id (conns w c)) c p' q' w)"
    and w': "wired (unplugged (c_id (conns w c)) c p' q' w)" .
  from l(3) b have "q' = q" by (auto dest: conn_between_fun)
  with r w' Some fewer_unplugged show ?thesis
    by (intro exI [of _ "unplugged (c_id (conns w c)) c p' q' w"]) (simp add: disconnectInput_def)
qed

lemma disconnectInputs_wired:
  assumes "wired w" and "is_child w e" and "set qs \<subseteq> set (inputPins e w)"
  shows "\<exists>w'. forM disconnectInput qs w = (Inr (), w') \<and> wired w' \<and> fewer w w' \<and>
    (\<forall>q \<in> set qs. ip_connection (ipins w' q) = None)"
  using assms
proof (induction qs arbitrary: w)
  case Nil
  then show ?case by simp
next
  case (Cons q qs)
  from disconnectInput_wired [OF Cons.prems(1,2), of q] Cons.prems(3) obtain w1 where
    w1: "disconnectInput q w = (Inr (), w1)" "wired w1" "fewer w w1" "ip_connection (ipins w1 q) = None"
    by auto
  from Cons.IH [OF w1(2)] Cons.prems fewer_pins [OF w1(3)] obtain w' where
    w': "forM disconnectInput qs w1 = (Inr (), w')" "wired w'" "fewer w1 w'"
    "\<forall>q \<in> set qs. ip_connection (ipins w' q) = None" by auto
  moreover have "ip_connection (ipins w' q) = None" using w'(3) w1(4) by (auto simp: fewer_def)
  ultimately show ?case using w1 by (auto intro: fewer_trans)
qed

lemma disconnectOutput_loop:
  assumes "wired w" and "is_child w e" and "p \<in> set (outputPins e w)"
    and "set cs = set (op_connections (opins w p))" and "distinct cs"
  shows "\<exists>w'. forM (\<lambda>c w'. threadUnsafeDisconnect (c_id (conns w' c)) w') cs w = (Inr (), w') \<and>
    wired w' \<and> fewer w w' \<and> op_connections (opins w' p) = []"
  using assms
proof (induction cs arbitrary: w)
  case Nil
  then show ?case by simp
next
  case (Cons c cs)
  from Cons.prems(4) have c: "c \<in> set (op_connections (opins w p))" by auto
  note l = wired_output_connection [OF Cons.prems(1-3) c]
  let ?i = "c_id (conns w c)"
  from threadUnsafeDisconnect_wired [OF Cons.prems(1) l(1)] obtain p' q' where
    b: "conn_between w c p' q'"
    and r: "threadUnsafeDisconnect ?i w = (Inr (), unplugged ?i c p' q' w)"
    and w': "wired (unplugged ?i c p' q' w)" .
  from l(3) b have p': "p' = p" by (auto dest: conn_between_fun)
  have "distinct (op_connections (opins w p))"
    using wired_output(1) [OF Cons.prems(1-3)] by (simp add: out_linked_def)
  then have "set cs = set (op_connections (opins (unplugged ?i c p' q' w) p))"
    using Cons.prems(4,5) p' by auto
  with Cons.IH [OF w'] Cons.prems obtain w2 where
    "forM (\<lambda>c w'. threadUnsafeDisconnect (c_id (conns w' c)) w') cs (unplugged ?i c p' q' w) = (Inr (), w2)"
    "wired w2" "fewer (unplugged ?i c p' q' w) w2" "op_connections (opins w2 p) = []" by auto
  with r show ?case by (auto intro: fewer_trans [OF fewer_unplugged])
qed

lemma disconnectOutputs_wired:
  assumes "wired w" and "is_child w e" and "set ps \<subseteq> set (outputPins e w)"
  shows "\<exists>w'. forM disconnectOutput ps w = (Inr (), w') \<and> wired w' \<and> fewer w w' \<and>
    (\<forall>p \<in> set ps. op_connections (opins w' p) = [])"
  using assms
proof (induction ps arbitrary: w)
  case Nil
  then show ?case by simp
next
  case (Cons p ps)
  then have p: "p \<in> set (outputPins e w)" by simp
  have "distinct (op_connections (opins w p))"
    using wired_output(1) [OF Cons.prems(1,2) p] by (simp add: out_linked_def)
  from disconnectOutput_loop [OF Cons.prems(1,2) p refl this] obtain w1 where
    w1: "disconnectOutput p w = (Inr (), w1)" "wired w1" "fewer w w1" "op_connections (opins w1 p) = []"
    by (auto simp: disconnectOutput_def)
  from Cons.IH [OF w1(2)] Cons.prems fewer_pins [OF w1(3)] obtain w' where
    w': "forM disconnectOutput ps w1 = (Inr (), w')" "wired w'" "fewer w1 w'"
    "\<forall>p \<in> set ps. op_connections (opins w' p) = []" by auto
  moreover have "op_connections (opins w' p) = []" using w'(3) w1(4) unfolding fewer_def
    by (metis set_empty subset_empty)
  ultimately show ?case using w1 by (auto intro: fewer_trans)
qed

text \<open>\<open>isolated w e\<close>: no pin of \<open>e\<close> is connected.\<close>

definition isolated :: "'v plv \<Rightarrow> ref \<Rightarrow> bool" where
  "isolated w e \<longleftrightarrow>
     (\<forall>q \<in> set (inputPins e w). ip_connection (ipins w q) = None) \<and>
     (\<forall>p \<in> set (outputPins e w). op_connections (opins w p) = [])"

lemma removeConnectionsForElement_wired:
  assumes w: "wired w" and e: "is_child w e"
  shows "\<exists>w'. removeConnectionsForElement e w = (Inr (), w') \<and> wired w' \<and> fewer w w' \<and> isolated w' e"
proof -
  have "\<exists>w1. (if el_class (elems w e) = PipelineProcessor then forM disconnectInput (inputPins e w)
           else returnM ()) w = (Inr (), w1) \<and> wired w1 \<and> fewer w w1 \<and>
       (\<forall>q \<in> set (inputPins e w). ip_connection (ipins w1 q) = None)"
  proof (cases "el_class (elems w e)")
    case PipelineProducer
    with wired_child(1) [OF w e] have "inputPins e w = []"
      by (simp add: elem_ok_def pins_ok_def inputPins_def)
    with w PipelineProducer show ?thesis by (simp add: returnM_def)
  next
    case PipelineProcessor
    with disconnectInputs_wired [OF w e subset_refl] show ?thesis by simp
  qed
  then obtain w1 where w1: "(if el_class (elems w e) = PipelineProcessor then forM disconnectInput (inputPins e w)
           else returnM ()) w = (Inr (), w1)" "wired w1" "fewer w w1"
       "\<forall>q \<in> set (inputPins e w). ip_connection (ipins w1 q) = None" by blast
  from e fewer_pins(3) [OF w1(3)] have e1: "is_child w1 e" by simp
  from disconnectOutputs_wired [OF w1(2) e1 subset_refl] obtain w2 where
    w2: "forM disconnectOutput (outputPins e w1) w1 = (Inr (), w2)" "wired w2" "fewer w1 w2"
    "\<forall>p \<in> set (outputPins e w1). op_connections (opins w2 p) = []" by blast
  have "isolated w2 e"
    using w1(4) w2(3,4) fewer_pins [OF w1(3)] fewer_pins [OF w2(3)]
    by (auto simp: isolated_def fewer_def)
  with w1 w2 show ?thesis
    by (auto simp: removeConnectionsForElement_def seqM_def bindM_def intro: fewer_trans)
qed

section \<open>Removing elements\<close>

lemma filter_qm_remove: "filter P (qm_remove i m) = qm_remove i (filter P m)"
  by (induction m) (auto simp: qm_remove_def)

lemma qm_remove_absent: "\<not> qm_contains i m \<Longrightarrow> qm_remove i m = m"
  by (induction m) (auto simp: qm_remove_def qm_contains_def)

lemma qm_contains_filter:
  assumes "qm_inv m" and "map_of m i = Some e"
  shows "qm_contains i (filter (\<lambda>(j, x). P x) m) = P e"
proof
  assume "qm_contains i (filter (\<lambda>(j, x). P x) m)"
  then obtain x where "(i, x) \<in> set m" "P x" by (auto simp: qm_contains_def)
  with assms qm_inv_distinct show "P e" by (metis map_of_is_SomeI option.inject)
next
  assume "P e"
  with assms(2) show "qm_contains i (filter (\<lambda>(j, x). P x) m)"
    by (force simp: qm_contains_def dest: map_of_SomeD)
qed

lemma wired_remove_isolated:
  assumes w: "wired w" and i: "map_of (children w) i = Some e" and iso: "isolated w e"
    and w': "w' = w\<lparr>children := qm_remove i (children w), producers := qm_remove i (producers w),
                    processors := qm_remove i (processors w), pl_changed := True\<rparr>"
  shows "wired w'"
proof -
  have st: "elems w' = elems w" "ipins w' = ipins w" "opins w' = opins w" "conns w' = conns w"
    "connections w' = connections w" "nextConn w' = nextConn w" "children w' = qm_remove i (children w)"
    by (simp_all add: w')
  have pins: "inputPins x w' = inputPins x w" "outputPins x w' = outputPins x w" for x
    by (simp_all add: st inputPins_def outputPins_def)
  have child: "is_child w' x" if "is_child w x" "x \<noteq> e" for x
  proof -
    from that obtain j where j: "(j, x) \<in> set (children w)" by (auto simp: is_child_def)
    then have "map_of (children w) j = Some x" using qm_inv_distinct [OF wired_maps(1) [OF w]] by simp
    with i that(2) have "j \<noteq> i" by auto
    with j have "(j, x) \<in> set (children w')" by (simp add: st qm_remove_mem)
    then show ?thesis by (force simp: is_child_def)
  qed
  have between: "conn_between w' c p q" if b: "conn_between w c p q" for c p q
  proof -
    note o = conn_between_owners [OF b]
    have "op_owner (opins w p) \<noteq> e" using b iso o by (auto simp: isolated_def conn_between_def)
    moreover have "ip_owner (ipins w q) \<noteq> e" using b iso o by (auto simp: isolated_def conn_between_def)
    ultimately show ?thesis using b child by (simp add: conn_between_def pins st)
  qed
  show ?thesis
  proof (rule wiredI)
    show "classes_ok w'" using wired_maps(3) [OF w] by (simp add: classes_ok_def w' filter_qm_remove)
    show "qm_inv (children w')" "qm_inv (connections w')"
      using wired_maps [OF w] by (simp_all add: st qm_inv_remove)
    fix j x
    show "el_id (elems w' x) = j" if "(j, x) \<in> set (children w')"
      using wired_maps(4) [OF w] that by (simp add: st qm_remove_mem)
    show "elem_ok w' x" if "(j, x) \<in> set (children w')"
    proof -
      from that have "is_child w x" by (force simp: is_child_def st qm_remove_mem)
      from wired_child(1) [OF w this] show ?thesis
        by (simp add: elem_ok_def pins_ok_def in_linked_iff out_linked_def pins st)
    qed
    show "c_id (conns w' x) = j" if "(j, x) \<in> set (connections w')"
      using wired_connection(1) [OF w] that by (simp add: st)
    show "conn_ok w' x" if "(j, x) \<in> set (connections w')"
    proof -
      from that have "(j, x) \<in> set (connections w)" by (simp add: st)
      from wired_connection(2,3) [OF w this] between show ?thesis unfolding conn_ok_iff st by blast
    qed
  qed
qed

lemma same_wiring_emit [simp]: "same_wiring w (emit sg w)"
  by (simp add: same_wiring_def)

lemma removeElement_wired:
  assumes w: "wired w"
  shows "\<exists>w'. removeElement i w = (Inr (), w') \<and> wired w' \<and> children w' = qm_remove i (children w)"
proof (cases "map_of (children w) i")
  case None
  then have "qm_remove i (children w) = children w" by (simp add: qm_remove_absent qm_contains_iff)
  with None w show ?thesis by (simp add: removeElement_def)
next
  case (Some e)
  then have e: "is_child w e" by (force simp: is_child_def dest: map_of_SomeD)
  from removeConnectionsForElement_wired [OF w e] obtain w1 where
    w1: "removeConnectionsForElement e w = (Inr (), w1)" "wired w1" "fewer w w1" "isolated w1 e" by blast
  from w1(3) Some have i1: "map_of (children w1) i = Some e" by (simp add: fewer_def)
  let ?w2 = "w1\<lparr>children := qm_remove i (children w1), producers := qm_remove i (producers w1),
                processors := qm_remove i (processors w1), pl_changed := True\<rparr>"
  have "qm_contains i (producers w1) \<Longrightarrow> \<not> qm_contains i (processors w1)"
    using wired_maps(3) [OF w1(2)]
      qm_contains_filter [OF wired_maps(1) [OF w1(2)] i1, of "\<lambda>x. el_class (elems w1 x) = PipelineProducer"]
      qm_contains_filter [OF wired_maps(1) [OF w1(2)] i1, of "\<lambda>x. el_class (elems w1 x) = PipelineProcessor"]
    by (simp add: classes_ok_def)
  with Some w1(1) have "removeElement i w = (Inr (), emit (elementRemoved i) ?w2)"
    by (auto simp: removeElement_def monad_defs qm_remove_absent)
  moreover have "wired ?w2" by (rule wired_remove_isolated [OF w1(2) i1 w1(4) refl])
  then have "wired (emit (elementRemoved i) ?w2)" by (rule wired_same) simp
  ultimately show ?thesis using w1(3) by (simp add: fewer_def)
qed

end
