(* ===== verification/Pipeline_Connect.thy ===== *)
theory Pipeline_Connect
  imports Pipeline_Wiring
begin

text \<open>
  The operations that add to a pipeline, \<open>connectPins\<close> and \<open>addElement\<close>, keep the wiring invariant;
  \<open>clear\<close> empties a wired pipeline.  \<open>canConnectPins\<close> answers true exactly when connecting succeeds.
\<close>

section \<open>Connecting two pins\<close>

definition retyped :: "ref \<Rightarrow> int \<Rightarrow> 'v plv \<Rightarrow> 'v plv" where
  "retyped q t w = upd_ipin q (\<lambda>qi. qi\<lparr>ip_typeId := t\<rparr>) w"

definition linked :: "ref \<Rightarrow> ref \<Rightarrow> ref \<Rightarrow> int \<Rightarrow> 'v plv \<Rightarrow> 'v plv" where
  "linked c p q t w =
     upd_ipin q (\<lambda>qi. qi\<lparr>ip_connection := Some c\<rparr>) (addConnection p c (retyped q t w))"

lemma retyped_same: "retyped q (ip_typeId (ipins w q)) w = w"
  by (simp add: retyped_def upd_ipin_def)

lemma pinObjection_retypes: "\<exists>t. snd (pinObjection qt p q w) = retyped q t w"
proof -
  have "\<exists>t. snd (typeObjection qt p q w) = retyped q t w"
    using retyped_same [of q w, symmetric]
    by (auto simp: typeObjection_def setTypeId_def Let_def retyped_def)
  then show ?thesis
    by (auto simp: pinObjection_def split: prod.splits option.splits)
qed

lemma conn_connect_cases:
  assumes "conn_connect qt c p q w = (r, w')"
  obtains (fail) x t where "r = Inl x" and "w' = retyped q t w"
  | (ok) t where "r = Inr ()" and "w' = linked c p q t w"
      and "op_owner (opins w p) \<noteq> ip_owner (ipins w q)" and "ip_connection (ipins w q) = None"
      and "fst (pinObjection qt p q w) = None"
proof -
  from pinObjection_retypes [of qt p q w] obtain t where t: "snd (pinObjection qt p q w) = retyped q t w"
    by blast
  show ?thesis
  proof (cases "ip_owner (ipins w q) = op_owner (opins w p) \<or> ip_connection (ipins w q) \<noteq> None")
    case True
    with assms fail [of _ "ip_typeId (ipins w q)"] show ?thesis
      unfolding retyped_same by (auto simp: conn_connect_def Let_def split: if_splits)
  next
    case False
    with assms t fail [of _ t] ok [of t] show ?thesis
      by (cases "pinObjection qt p q w")
        (auto simp: conn_connect_def Let_def monad_defs setConnection_def ipin_isConnected_def
          linked_def retyped_def addConnection_def split: option.splits)
  qed
qed

lemma conn_connect_iff:
  "fst (conn_connect qt c p q w) = Inr () \<longleftrightarrow> fst (fst (canConnectPins qt p q w))"
proof -
  from pinObjection_retypes [of qt p q w] obtain t where t: "snd (pinObjection qt p q w) = retyped q t w"
    by blast
  show ?thesis
    using t
    by (cases "pinObjection qt p q w")
      (auto simp: conn_connect_def canConnectPins_def Let_def monad_defs setConnection_def
        ipin_isConnected_def retyped_def addConnection_def split: option.splits)
qed

text \<open>The state in which the constructor calls \<open>connect()\<close>: a new object at a fresh address.\<close>

definition allocated :: "int \<Rightarrow> ref \<Rightarrow> ref \<Rightarrow> 'v plv \<Rightarrow> 'v plv" where
  "allocated i p q w =
     w\<lparr>nextConn := Suc (nextConn w),
       conns := (conns w)(nextConn w := \<lparr>c_id = i, c_producer = Some p, c_consumer = Some q, c_queue = []\<rparr>)\<rparr>"

lemma same_wiring_allocated: "same_wiring w (allocated i p q w)"
  by (simp add: same_wiring_def allocated_def)

lemma same_wiring_retyped: "same_wiring w (retyped q t w)"
  by (simp add: same_wiring_def retyped_def)

lemma new_PinConnection_eq:
  "new_PinConnection qt i p q w =
     seqM (conn_connect qt (nextConn w) p q) (returnM (nextConn w)) (allocated i p q w)"
  by (simp add: new_PinConnection_def allocated_def Let_def)

definition plugged :: "int \<Rightarrow> ref \<Rightarrow> ref \<Rightarrow> int \<Rightarrow> 'v plv \<Rightarrow> 'v plv" where
  "plugged i p q t w =
     emit (connectionAdded i)
       ((linked (nextConn w) p q t (allocated i p q w))\<lparr>connections := qm_insert i (nextConn w) (connections w)\<rparr>)"

lemma plugged_simps [simp]:
  "children (plugged i p q t w) = children w"
  "connections (plugged i p q t w) = qm_insert i (nextConn w) (connections w)"
  "producers (plugged i p q t w) = producers w"
  "processors (plugged i p q t w) = processors w"
  "elems (plugged i p q t w) = elems w"
  "nextConn (plugged i p q t w) = Suc (nextConn w)"
  "ipins (plugged i p q t w) =
     (ipins w)(q := (ipins w q)\<lparr>ip_typeId := t, ip_connection := Some (nextConn w)\<rparr>)"
  "opins (plugged i p q t w) =
     (opins w)(p := (opins w p)\<lparr>op_connections := op_connections (opins w p) @ [nextConn w]\<rparr>)"
  "conns (plugged i p q t w) =
     (conns w)(nextConn w := \<lparr>c_id = i, c_producer = Some p, c_consumer = Some q, c_queue = []\<rparr>)"
  "inputPins e (plugged i p q t w) = inputPins e w"
  "outputPins e (plugged i p q t w) = outputPins e w"
  "is_child (plugged i p q t w) e = is_child w e"
  by (simp_all add: plugged_def linked_def retyped_def allocated_def addConnection_def
      inputPins_def outputPins_def is_child_def)

lemma connectPins_cases:
  assumes "connectPins qt p q w = (r, w')"
  obtains (fail) x where "r = Inl x" and "same_wiring w w'"
  | (ok) t where "r = Inr (getNewPinConnectionId w)" and "w' = plugged (getNewPinConnectionId w) p q t w"
      and "op_owner (opins w p) \<noteq> ip_owner (ipins w q)" and "ip_connection (ipins w q) = None"
proof -
  let ?i = "getNewPinConnectionId w"
  obtain r1 w1 where cc: "conn_connect qt (nextConn w) p q (allocated ?i p q w) = (r1, w1)" by fastforce
  from cc show ?thesis
  proof (cases rule: conn_connect_cases)
    case (fail x t)
    with cc assms have "r = Inl x" "w' = retyped q t (allocated ?i p q w)"
      by (auto simp: connectPins_def Let_def new_PinConnection_eq bindM_def seqM_def)
    then show ?thesis
      using that(1) same_wiring_trans [OF same_wiring_allocated same_wiring_retyped] by blast
  next
    case (ok t)
    with cc assms have "r = Inr ?i" "w' = plugged ?i p q t w"
      by (auto simp: connectPins_def Let_def new_PinConnection_eq monad_defs plugged_def
          linked_def retyped_def allocated_def addConnection_def)
    moreover have "op_owner (opins w p) \<noteq> ip_owner (ipins w q)" "ip_connection (ipins w q) = None"
      using ok by (simp_all add: allocated_def)
    ultimately show ?thesis using that(2) by blast
  qed
qed

lemma qm_insert_mem:
  assumes "i \<notin> fst ` set m"
  shows "(j, x) \<in> set (qm_insert i v m) \<longleftrightarrow> (j, x) = (i, v) \<or> (j, x) \<in> set m"
  using assms by (induction i v m rule: qm_insert.induct) auto

lemma wired_plugged:
  assumes w: "wired w" and i: "i \<notin> fst ` set (connections w)"
    and e: "is_child w e" "p \<in> set (outputPins e w)" and e': "is_child w e'" "q \<in> set (inputPins e' w)"
    and ne: "e \<noteq> e'" and free: "ip_connection (ipins w q) = None"
  shows "wired (plugged i p q t w)"
proof -
  let ?w = "plugged i p q t w" and ?c = "nextConn w"
  note own = wired_output(2) [OF w e] wired_input(2) [OF w e']
  have mem: "(j, c) \<in> set (connections ?w) \<longleftrightarrow> (j, c) = (i, ?c) \<or> (j, c) \<in> set (connections w)" for j c
    by (simp add: qm_insert_mem [OF i])
  have old: "c \<noteq> ?c" if "(j, c) \<in> set (connections w)" for j c
    using wired_connection(2) [OF w that] by simp
  have elems: "elem_ok ?w x" if "(j, x) \<in> set (children w)" for j x
  proof -
    from that have x: "is_child w x" by (force simp: is_child_def)
    have "in_linked ?w q'" if q': "q' \<in> set (inputPins x w)" for q'
    proof (cases "q' = q")
      case True
      then show ?thesis by (simp add: in_linked_iff qm_insert_mem [OF i])
    next
      case False
      have "(c_id (conns ?w c), c) \<in> set (connections ?w) \<and> c_consumer (conns ?w c) = Some q'"
        if "ip_connection (ipins w q') = Some c" for c
        using wired_input_connection [OF w x q' that] old by (auto simp: qm_insert_mem [OF i])
      with False show ?thesis by (simp add: in_linked_iff)
    qed
    moreover have "out_linked ?w p'" if p': "p' \<in> set (outputPins x w)" for p'
    proof -
      have c: "(c_id (conns ?w c), c) \<in> set (connections ?w) \<and> c_producer (conns ?w c) = Some p' \<and> c \<noteq> ?c"
        if "c \<in> set (op_connections (opins w p'))" for c
        using wired_output_connection [OF w x p' that] old by (auto simp: qm_insert_mem [OF i])
      moreover have "distinct (op_connections (opins w p'))"
        using wired_output(1) [OF w x p'] by (simp add: out_linked_def)
      ultimately show ?thesis by (fastforce simp: out_linked_def qm_insert_mem [OF i])
    qed
    moreover have "pins_ok ?w x" using wired_child(1) [OF w x] by (auto simp: elem_ok_def pins_ok_def)
    ultimately show ?thesis by (simp add: elem_ok_def)
  qed
  have new: "conn_between ?w ?c p q" using own e e' ne by (auto simp: conn_between_def)
  have others: "conn_between ?w c p' q'" if "(j, c) \<in> set (connections w)" "conn_between w c p' q'" for j c p' q'
  proof -
    have "q' \<noteq> q" using that(2) free by (auto simp: conn_between_def)
    with that old show ?thesis by (auto simp: conn_between_def)
  qed
  show ?thesis
  proof (rule wiredI)
    show "classes_ok ?w" using wired_maps(3) [OF w] by (simp add: classes_ok_def)
    fix j c assume jc: "(j, c) \<in> set (connections ?w)"
    show "c_id (conns ?w c) = j" using jc wired_connection(1) [OF w] old by (auto simp: qm_insert_mem [OF i])
    show "conn_ok ?w c"
    proof (cases "(j, c) \<in> set (connections w)")
      case True
      from wired_connection(2,3) [OF w True] others [OF True] show ?thesis
        unfolding conn_ok_iff by auto
    next
      case False
      with jc new show ?thesis unfolding conn_ok_iff mem by auto
    qed
  qed (use wired_maps [OF w] elems in \<open>auto simp: qm_inv_insert\<close>)
qed

lemma connectPins_wired:
  assumes w: "wired w" and e: "is_child w e" "p \<in> set (outputPins e w)"
    and e': "is_child w e'" "q \<in> set (inputPins e' w)"
  shows "wired (snd (connectPins qt p q w))"
proof -
  obtain r w' where c: "connectPins qt p q w = (r, w')" by fastforce
  from c have "wired w'"
  proof (cases rule: connectPins_cases)
    case fail
    with w show ?thesis by (auto intro: wired_same)
  next
    case (ok t)
    have "getNewPinConnectionId w \<notin> fst ` set (connections w)"
      unfolding getNewPinConnectionId_def by (rule newIdScan_fresh [OF wired_maps(2) [OF w]])
    moreover have "e \<noteq> e'" using ok(3) wired_output(2) [OF w e] wired_input(2) [OF w e'] by auto
    ultimately show ?thesis using wired_plugged [OF w _ e e' _ ok(4)] ok(2) by simp
  qed
  with c show ?thesis by simp
qed

lemma connectPins_fresh:
  assumes "wired w" and "connectPins qt p q w = (Inr i, w')"
  shows "i \<notin> fst ` set (connections w)"
  using newIdScan_fresh [OF wired_maps(2) [OF assms(1)], of 0] assms(2)
  by (cases rule: connectPins_cases [OF assms(2)]) (auto simp: getNewPinConnectionId_def)

lemma connectPins_changed:
  assumes "connectPins qt p q w = (Inr i, w')"
  shows "pl_changed w' = pl_changed w"
  using assms
  by (cases rule: connectPins_cases [OF assms])
    (auto simp: plugged_def linked_def retyped_def allocated_def addConnection_def)

lemma pinObjection_allocated: "fst (pinObjection qt p q (allocated i p' q' w)) = fst (pinObjection qt p q w)"
  by (simp add: pinObjection_def typeObjection_def setTypeId_def allocated_def Let_def ipin_isConnected_def
      split: prod.split option.split)

lemma canConnectPins_allocated:
  "fst (fst (canConnectPins qt p q (allocated i p' q' w))) = fst (fst (canConnectPins qt p q w))"
  using pinObjection_allocated [of qt p q i p' q' w]
  by (cases "pinObjection qt p q (allocated i p' q' w)"; cases "pinObjection qt p q w")
    (auto simp: canConnectPins_def Let_def allocated_def split: option.splits)

lemma connectPins_iff:
  "fst (fst (canConnectPins qt p q w)) \<longleftrightarrow> (\<exists>i w'. connectPins qt p q w = (Inr i, w'))"
proof -
  let ?i = "getNewPinConnectionId w"
  obtain r w1 where c: "conn_connect qt (nextConn w) p q (allocated ?i p q w) = (r, w1)" by fastforce
  then have "(\<exists>i w'. connectPins qt p q w = (Inr i, w')) \<longleftrightarrow> r = Inr ()"
    by (cases r) (simp_all add: connectPins_def Let_def new_PinConnection_eq monad_defs)
  with c conn_connect_iff [of qt "nextConn w" p q "allocated ?i p q w"] show ?thesis
    by (simp add: canConnectPins_allocated)
qed

section \<open>Adding an element\<close>

lemma filter_qm_insert:
  assumes "i \<notin> fst ` set m" and "qm_inv m"
  shows "filter P (qm_insert i v m) = (if P (i, v) then qm_insert i v (filter P m) else filter P m)"
  using assms
proof (induction i v m rule: qm_insert.induct)
  case (2 k v k' v' m)
  have "qm_insert k v (filter P m) = (k, v) # filter P m" if "k < k'" "qm_inv ((k', v') # m)"
  proof (cases "filter P m")
    case (Cons a as)
    then have "a \<in> set (filter P m)" by simp
    then have "a \<in> set m" by simp
    with that have "k < fst a" by fastforce
    with Cons show ?thesis by (cases a) simp
  qed simp
  with 2 show ?case by auto
qed simp

text \<open>\<open>addable w e\<close>: an element that is not part of the pipeline, with unconnected pins of its own and an
  id that is not in use.\<close>

definition addable :: "'v plv \<Rightarrow> ref \<Rightarrow> bool" where
  "addable w e \<longleftrightarrow> \<not> is_child w e \<and> pins_ok w e \<and> isolated w e \<and> canAddElement e w"

definition newElementId :: "ref \<Rightarrow> 'v plv \<Rightarrow> int" where
  "newElementId e w =
     (if el_id (elems w e) = - 1 then getNewPipelineElementId w else el_id (elems w e))"

definition inserted :: "ref \<Rightarrow> 'v plv \<Rightarrow> 'v plv" where
  "inserted e w =
     (upd_elem e (\<lambda>el. el\<lparr>el_id := newElementId e w, el_hasPipeline := True\<rparr>) w)
       \<lparr>children := qm_insert (newElementId e w) e (children w),
        producers := (if el_class (elems w e) = PipelineProducer
                      then qm_insert (newElementId e w) e (producers w) else producers w),
        processors := (if el_class (elems w e) = PipelineProcessor
                       then qm_insert (newElementId e w) e (processors w) else processors w),
        pl_changed := True\<rparr>"

lemma addElement_eq:
  "canAddElement e w \<Longrightarrow> addElement e w = (newElementId e w, emit (elementAdded (newElementId e w)) (inserted e w))"
  by (simp add: addElement_def Let_def newElementId_def inserted_def)

lemma newElementId_fresh:
  assumes "wired w" and "canAddElement e w"
  shows "newElementId e w \<notin> fst ` set (children w)"
  using assms newIdScan_fresh [OF wired_maps(1) [OF assms(1)], of 0]
  by (auto simp: newElementId_def canAddElement_def getNewPipelineElementId_def qm_contains_def)

lemma inserted_simps:
  "children (inserted e w) = qm_insert (newElementId e w) e (children w)"
  "connections (inserted e w) = connections w" "nextConn (inserted e w) = nextConn w"
  "ipins (inserted e w) = ipins w" "opins (inserted e w) = opins w" "conns (inserted e w) = conns w"
  "el_class (elems (inserted e w) x) = el_class (elems w x)"
  "el_inputPins (elems (inserted e w) x) = el_inputPins (elems w x)"
  "el_outputPins (elems (inserted e w) x) = el_outputPins (elems w x)"
  "inputPins x (inserted e w) = inputPins x w" "outputPins x (inserted e w) = outputPins x w"
  by (simp_all add: inserted_def inputPins_def outputPins_def)

lemma wired_inserted:
  assumes w: "wired w" and a: "addable w e"
  shows "wired (inserted e w)"
proof -
  let ?w = "inserted e w" and ?i = "newElementId e w"
  from a have can: "canAddElement e w" and nc: "\<not> is_child w e" by (auto simp: addable_def)
  note fresh = newElementId_fresh [OF w can]
  note mem = qm_insert_mem [OF fresh]
  have child: "is_child ?w x" if "is_child w x" for x
    using that mem by (force simp: is_child_def inserted_simps)
  have ok: "elem_ok ?w x" if "elem_ok w x" for x
    using that by (simp add: elem_ok_def pins_ok_def in_linked_iff out_linked_def inserted_simps)
  have new: "elem_ok w e"
    using a by (auto simp: addable_def elem_ok_def isolated_def in_linked_iff out_linked_def)
  show ?thesis
  proof (rule wiredI)
    show "classes_ok ?w"
      using wired_maps(1,3) [OF w]
      by (simp add: classes_ok_def inserted_simps filter_qm_insert [OF fresh])
        (simp add: inserted_def)
    fix j x assume x: "(j, x) \<in> set (children ?w)"
    show "el_id (elems ?w x) = j"
      using x mem wired_maps(4) [OF w] nc
      by (auto simp: inserted_simps is_child_def) (auto simp: inserted_def rev_image_eqI)
    show "elem_ok ?w x"
      using x mem wired_child(1) [OF w] ok new by (auto simp: inserted_simps is_child_def rev_image_eqI)
  next
    fix j c assume "(j, c) \<in> set (connections ?w)"
    then have jc: "(j, c) \<in> set (connections w)" by (simp add: inserted_simps)
    show "c_id (conns ?w c) = j" using wired_connection(1) [OF w jc] by (simp add: inserted_simps)
    from wired_connection(3) [OF w jc] obtain p q where "conn_between w c p q" by blast
    then have "conn_between ?w c p q" using child by (simp add: conn_between_def inserted_simps)
    then show "conn_ok ?w c"
      using wired_connection(2) [OF w jc] by (auto simp: conn_ok_iff inserted_simps)
  qed (use wired_maps [OF w] in \<open>simp_all add: inserted_simps qm_inv_insert\<close>)
qed

lemma addElement_wired:
  assumes "wired w" and "addable w e"
  shows "wired (snd (addElement e w))"
  using wired_same [OF wired_inserted [OF assms] same_wiring_emit] addElement_eq [of e w] assms(2)
  by (simp add: addable_def)

section \<open>Clearing\<close>

text \<open>The loop of \<open>removeAllConnections\<close> leaves the map of connections alone until its end: the
  invariant holds for the state in which the map has only the connections still to come.\<close>

definition dropConnection :: "ref \<Rightarrow> ('v plv, unit) plvM" where
  "dropConnection c = seqM (conn_disconnect c) (\<lambda>w'. modifyM (emit (connectionRemoved (c_id (conns w' c)))) w')"

lemma dropConnection_run:
  assumes "wired (w\<lparr>connections := (i, c) # m\<rparr>)"
  shows "\<exists>w'. dropConnection c w = (Inr (), w') \<and> wired (w'\<lparr>connections := m\<rparr>) \<and>
    children w' = children w \<and> pl_running w' = pl_running w"
proof -
  let ?v = "w\<lparr>connections := (i, c) # m\<rparr>"
  have ic: "(i, c) \<in> set (connections ?v)" by simp
  from wired_connection(3) [OF assms ic] obtain p q where b: "conn_between ?v c p q" by blast
  have m: "qm_remove i ((i, c) # m) = m"
    using wired_maps(2) [OF assms] by (auto simp: qm_remove_def filter_id_conv)
  have "conn_disconnect c w = (Inr (), upd_conn c (\<lambda>cn. cn\<lparr>c_producer := None, c_consumer := None, c_queue := []\<rparr>)
         (upd_ipin q (\<lambda>qi. qi\<lparr>ip_connection := None\<rparr>)
         (upd_opin p (\<lambda>po. po\<lparr>op_connections := remove1 c (op_connections po)\<rparr>) w)))"
    using b by (intro conn_disconnect_run) (simp add: conn_between_def is_child_def inputPins_def outputPins_def)
  moreover have "c_id (conns w c) = i" using wired_connection(1) [OF assms ic] by simp
  ultimately have r: "dropConnection c w = (Inr (), emit (connectionRemoved i)
      (upd_conn c (\<lambda>cn. cn\<lparr>c_producer := None, c_consumer := None, c_queue := []\<rparr>)
         (upd_ipin q (\<lambda>qi. qi\<lparr>ip_connection := None\<rparr>)
         (upd_opin p (\<lambda>po. po\<lparr>op_connections := remove1 c (op_connections po)\<rparr>) w))))"
    by (simp add: dropConnection_def monad_defs)
  have "wired (unplugged i c p q ?v)" by (rule wired_unplugged [OF assms ic b])
  moreover have "same_wiring (unplugged i c p q ?v) ((snd (dropConnection c w))\<lparr>connections := m\<rparr>)"
    unfolding r by (simp add: same_wiring_def m)
  ultimately have "wired ((snd (dropConnection c w))\<lparr>connections := m\<rparr>)" by (rule wired_same)
  with r show ?thesis by simp
qed

lemma dropConnections_run:
  assumes "wired (w\<lparr>connections := m\<rparr>)"
  shows "\<exists>w'. forM dropConnection (map snd m) w = (Inr (), w') \<and> wired (w'\<lparr>connections := []\<rparr>) \<and>
    children w' = children w \<and> pl_running w' = pl_running w"
  using assms
proof (induction m arbitrary: w)
  case Nil
  then show ?case by simp
next
  case (Cons ic m)
  obtain i c where ic: "ic = (i, c)" by fastforce
  from dropConnection_run [of i c m w] Cons.prems ic obtain w1 where
    w1: "dropConnection c w = (Inr (), w1)" "wired (w1\<lparr>connections := m\<rparr>)"
    "children w1 = children w" "pl_running w1 = pl_running w" by auto
  from Cons.IH [OF w1(2)] w1 ic show ?case by auto
qed

lemma removeAllConnections_run:
  assumes "wired w" and "\<not> pl_running w"
  shows "\<exists>w'. removeAllConnections w = (Inr (), w') \<and> wired w' \<and> connections w' = [] \<and>
    children w' = children w \<and> pl_running w' = pl_running w"
proof -
  have "wired (w\<lparr>connections := connections w\<rparr>)" using assms(1) by simp
  from dropConnections_run [OF this] obtain w1 where
    "forM dropConnection (map snd (connections w)) w = (Inr (), w1)" "wired (w1\<lparr>connections := []\<rparr>)"
    "children w1 = children w" "pl_running w1 = pl_running w" by blast
  with assms(2) show ?thesis
    unfolding removeAllConnections_def dropConnection_def [symmetric] by (simp add: monad_defs)
qed

lemma wired_empty: "children w = [] \<Longrightarrow> connections w = [] \<Longrightarrow> producers w = [] \<Longrightarrow> processors w = [] \<Longrightarrow> wired w"
  by (simp add: wired_def classes_ok_def)

lemma removeAllElements_run:
  assumes w: "wired w" and c: "connections w = []"
  shows "\<exists>w'. removeAllElements w = (Inr (), w') \<and> children w' = [] \<and> producers w' = [] \<and>
    processors w' = [] \<and> connections w' = []"
proof -
  let ?f = "\<lambda>e. seqM (removeConnectionsForElement e)
     (\<lambda>w'. modifyM (emit (elementRemoved (el_id (elems w' e)))) w')"
  have step: "\<exists>t'. ?f e t = (Inr (), t') \<and> (wired t' \<and> children t' = children w \<and> connections t' = [])"
    if e: "e \<in> set (map snd (children w))"
      and t: "wired t \<and> children t = children w \<and> connections t = []" for e t
  proof -
    have "is_child t e" using e t by (auto simp: is_child_def)
    from removeConnectionsForElement_wired [OF _ this] t obtain t1 where
      "removeConnectionsForElement e t = (Inr (), t1)" "wired t1" "fewer t t1" by auto
    then show ?thesis using t wired_same [OF _ same_wiring_emit]
      by (auto simp: seqM_def bindM_def modifyM_def fewer_def)
  qed
  have "\<exists>w1. forM ?f (map snd (children w)) w = (Inr (), w1) \<and>
      (wired w1 \<and> children w1 = children w \<and> connections w1 = [])"
    by (rule forM_total) (use w c step in auto)
  then obtain w1 where "forM ?f (map snd (children w)) w = (Inr (), w1)" "connections w1 = []" by blast
  then show ?thesis by (simp add: removeAllElements_def monad_defs)
qed

lemma pipeline_clear_run:
  assumes "wired w" and "\<not> pl_running w"
  shows "\<exists>w'. pipeline_clear w = (Inr (), w') \<and> wired w' \<and> isEmpty w' \<and> connections w' = [] \<and>
    producers w' = [] \<and> processors w' = []"
proof -
  from removeAllConnections_run [OF assms] obtain w1 where
    w1: "removeAllConnections w = (Inr (), w1)" "wired w1" "connections w1 = []" by blast
  from removeAllElements_run [OF w1(2,3)] obtain w2 where
    w2: "removeAllElements w1 = (Inr (), w2)" "children w2 = []" "producers w2 = []" "processors w2 = []"
    "connections w2 = []" by blast
  have "pipeline_clear w = (Inr (), w2\<lparr>pl_changed := True\<rparr>)"
    using assms(2) w1(1) w2(1) by (simp add: pipeline_clear_def seqM_def bindM_def assertM_def modifyM_def)
  moreover have "wired (w2\<lparr>pl_changed := True\<rparr>)" by (rule wired_empty) (simp_all add: w2)
  ultimately show ?thesis using w2 by (simp add: isEmpty_def)
qed

end
