(* ===== verification/Pipeline_Graph.thy ===== *)
theory Pipeline_Graph
  imports Graph_Order Pipeline_Connect
begin

text \<open>
  The partial ordering of the elements and the search for cycles: \<open>DataConsumer::visit\<close>,
  \<open>DataProducer::visit\<close> and \<open>Pipeline::generateGraphOrdering\<close>.

  The recursion of \<open>visit\<close> is bounded by a fuel argument; \<open>None\<close> is running out of it.
  \<open>generateGraphOrdering\<close> starts with one more than the number of elements, and the refinement of the
  search of theory \<open>Graph_Order\<close> shows that this is enough on every wired pipeline.  The order in
  which \<open>foreach\<close> visits the \<open>QSet\<close> of end nodes is not specified by Qt and is a parameter.
\<close>

section \<open>Model\<close>

type_synonym visit_result = "((plv_exn + bool) \<times> ref list \<times> ref list) option"

fun visit :: "'v plv \<Rightarrow> nat \<Rightarrow> ref \<Rightarrow> ref list \<times> ref list \<Rightarrow> visit_result"
  and visitAllIncomingConnections :: "'v plv \<Rightarrow> nat \<Rightarrow> ref list \<Rightarrow> ref list \<times> ref list \<Rightarrow> visit_result"
where
  "visit w 0 e st = None"
| "visit w (Suc n) e (ordr, visited) =
     (if e \<in> set ordr then Some (Inr True, ordr, visited)
      else if e \<in> set visited then Some (Inr False, ordr @ [e], visited)
      else case el_class (elems w e) of
        PipelineProducer \<Rightarrow> Some (Inr True, ordr @ [e], visited)
      | PipelineProcessor \<Rightarrow>
          (case visitAllIncomingConnections w n (inputPins e w) (ordr, e # visited) of
             None \<Rightarrow> None
           | Some (Inl x, st) \<Rightarrow> Some (Inl x, st)
           | Some (Inr False, st) \<Rightarrow> Some (Inr False, st)
           | Some (Inr True, ordr', visited') \<Rightarrow>
               Some (Inr True, ordr' @ [e], removeAll e visited')))"
| "visitAllIncomingConnections w n [] st = Some (Inr True, st)"
| "visitAllIncomingConnections w n (q # qs) st =
     (case ip_connection (ipins w q) of
        None \<Rightarrow> visitAllIncomingConnections w n qs st
      | Some c \<Rightarrow>
          (case fromElement c w of
             Inl x \<Rightarrow> Some (Inl x, st)
           | Inr node \<Rightarrow>
               (case visit w n node st of
                  None \<Rightarrow> None
                | Some (Inr True, st') \<Rightarrow> visitAllIncomingConnections w n qs st'
                | Some r \<Rightarrow> Some r)))"

fun visitNodes :: "'v plv \<Rightarrow> nat \<Rightarrow> ref list \<Rightarrow> ref list \<times> ref list \<Rightarrow> visit_result" where
  "visitNodes w n [] st = Some (Inr True, st)"
| "visitNodes w n (e # es) st =
     (case visit w n e st of
        None \<Rightarrow> None
      | Some (Inr True, st') \<Rightarrow> visitNodes w n es st'
      | Some r \<Rightarrow> Some r)"

definition endNodes :: "'v plv \<Rightarrow> ref list" where
  "endNodes w = filter (\<lambda>e. isEndNode e w) (map snd (children w))"

definition generateGraphOrdering ::
    "(ref list \<Rightarrow> ref list) \<Rightarrow> 'v plv \<Rightarrow> ((plv_exn + bool) \<times> ref list) option" where
  "generateGraphOrdering qset w =
     (if children w = [] then Some (Inl AssertFailed, [])
      else if endNodes w = [] then Some (Inr False, [])
      else map_option (\<lambda>(r, ordr, visited). (r, ordr))
             (visitNodes w (Suc (length (children w))) (qset (endNodes w)) ([], [])))"

section \<open>The graph of a pipeline\<close>

text \<open>The elements whose output an element reads, pin by pin.\<close>

definition feeds :: "'v plv \<Rightarrow> ref \<Rightarrow> ref option" where
  "feeds w q =
     (case ip_connection (ipins w q) of
        None \<Rightarrow> None
      | Some c \<Rightarrow> (case fromElement c w of Inl x \<Rightarrow> None | Inr e \<Rightarrow> if is_child w e then Some e else None))"

definition sources :: "'v plv \<Rightarrow> ref \<Rightarrow> ref list" where
  "sources w e = List.map_filter (feeds w) (inputPins e w)"

definition nodes :: "'v plv \<Rightarrow> ref set" where
  "nodes w = set (map snd (children w))"

definition acyclic_pipeline :: "'v plv \<Rightarrow> bool" where
  "acyclic_pipeline w \<longleftrightarrow> (\<forall>e \<in> nodes w. (e, e) \<notin> (pred_rel (sources w))\<^sup>+)"

lemma feeds_child: "feeds w q = Some m \<Longrightarrow> is_child w m"
  by (auto simp: feeds_def split: option.splits sum.splits if_splits)

lemma set_map_filter: "m \<in> set (List.map_filter f qs) \<longleftrightarrow> (\<exists>q \<in> set qs. f q = Some m)"
  by (force simp: List.map_filter_def)

lemma nodes_is_child: "e \<in> nodes w \<longleftrightarrow> is_child w e"
  by (auto simp: nodes_def is_child_def)

interpretation pg: pred_graph "sources w" "nodes w" for w :: "'v plv"
proof
  show "finite (nodes w)" by (simp add: nodes_def)
  show "set (sources w x) \<subseteq> nodes w" for x
    by (auto simp: sources_def set_map_filter nodes_is_child dest: feeds_child)
qed

lemma feeds_wired:
  assumes "wired w" and "is_child w e" and "q \<in> set (inputPins e w)"
    and "ip_connection (ipins w q) = Some c"
  shows "\<exists>m. fromElement c w = Inr m \<and> feeds w q = Some m \<and> is_child w m"
proof -
  from wired_input_connection(3) [OF assms] obtain p where "conn_between w c p q" by blast
  with assms(4) show ?thesis by (auto simp: fromElement_def feeds_def conn_between_def)
qed

section \<open>The visits run the search\<close>

definition lift_result :: "(bool \<times> ref list \<times> ref list) option \<Rightarrow> visit_result" where
  "lift_result r = map_option (\<lambda>(b, st). (Inr b, st)) r"

lemma visit_dfs:
  "wired w \<Longrightarrow> is_child w e \<Longrightarrow> visit w n e st = lift_result (dfs (sources w) n e st)"
  "wired w \<Longrightarrow> is_child w e' \<Longrightarrow> set qs \<subseteq> set (inputPins e' w) \<Longrightarrow>
     visitAllIncomingConnections w n qs st =
       lift_result (dfs_all (sources w) n (List.map_filter (feeds w) qs) st)"
proof (induction w n e st and w n qs st arbitrary: and e' rule: visit_visitAllIncomingConnections.induct)
  case (1 w e st)
  then show ?case by (simp add: lift_result_def)
next
  case (2 w n e ordr visited)
  show ?case
  proof (cases "e \<in> set ordr \<or> e \<in> set visited")
    case True
    then show ?thesis by (auto simp: lift_result_def)
  next
    case False
    show ?thesis
    proof (cases "el_class (elems w e)")
      case PipelineProducer
      with wired_child(1) [OF "2.prems"] have "sources w e = []"
        by (simp add: elem_ok_def pins_ok_def inputPins_def sources_def List.map_filter_def)
      with False PipelineProducer show ?thesis by (simp add: lift_result_def)
    next
      case PipelineProcessor
      have "visitAllIncomingConnections w n (inputPins e w) (ordr, e # visited) =
          lift_result (dfs_all (sources w) n (sources w e) (ordr, e # visited))"
        unfolding sources_def [of w e]
        using "2.IH" [OF _ _ PipelineProcessor "2.prems" subset_refl] False by simp
      with False PipelineProcessor show ?thesis
        by (auto simp: lift_result_def split: option.splits bool.splits)
    qed
  qed
next
  case (3 w n st)
  then show ?case by (simp add: lift_result_def List.map_filter_def)
next
  case (4 w n q qs st)
  show ?case
  proof (cases "ip_connection (ipins w q)")
    case None
    then have "feeds w q = None" by (simp add: feeds_def)
    with None 4 show ?thesis by (simp add: List.map_filter_def)
  next
    case (Some c)
    from feeds_wired [OF "4.prems"(1,2) _ Some] "4.prems"(3) obtain m where
      m: "fromElement c w = Inr m" "feeds w q = Some m" "is_child w m" by auto
    have v: "visit w n m st = lift_result (dfs (sources w) n m st)"
      using "4.IH"(2) [OF Some m(1) "4.prems"(1) m(3)] .
    show ?thesis
    proof (cases "dfs (sources w) n m st")
      case None
      with v Some m show ?thesis by (simp add: lift_result_def List.map_filter_def)
    next
      case r: (Some r)
      obtain b st1 where bst: "r = (b, st1)" by (cases r)
      show ?thesis
      proof (cases b)
        case True
        with v r bst have vr: "visit w n m st = Some (Inr True, st1)" by (simp add: lift_result_def)
        have "visitAllIncomingConnections w n qs st1 =
            lift_result (dfs_all (sources w) n (List.map_filter (feeds w) qs) st1)"
          using "4.IH"(3) [OF Some m(1) vr refl refl refl "4.prems"(1,2)] "4.prems"(3) by simp
        with vr True r bst Some m show ?thesis by (simp add: List.map_filter_def)
      next
        case False
        with v r bst Some m show ?thesis by (simp add: lift_result_def List.map_filter_def)
      qed
    qed
  qed
qed

lemma visitNodes_dfs:
  "wired w \<Longrightarrow> set es \<subseteq> nodes w \<Longrightarrow> visitNodes w n es st = lift_result (dfs_all (sources w) n es st)"
proof (induction es arbitrary: st)
  case Nil
  then show ?case by (simp add: lift_result_def)
next
  case (Cons e es)
  then have "visit w n e st = lift_result (dfs (sources w) n e st)"
    by (intro visit_dfs(1)) (auto simp: nodes_is_child)
  with Cons show ?case by (auto simp: lift_result_def split: option.splits bool.splits)
qed

section \<open>The ordering\<close>

lemma endNodes_nodes: "set (endNodes w) \<subseteq> nodes w"
  by (auto simp: endNodes_def nodes_def)

lemma card_nodes: "card (nodes w) < Suc (length (children w))"
  using card_length [of "map snd (children w)"] by (simp add: nodes_def)

text \<open>Every element is an end node or feeds one.\<close>

lemma wired_end_or_feeds:
  assumes w: "wired w" and e: "is_child w e"
  shows "e \<in> set (endNodes w) \<or> (\<exists>e' \<in> set (endNodes w). e \<in> set (sources w e'))"
proof (cases "isEndNode e w")
  case True
  with e show ?thesis by (auto simp: endNodes_def is_child_def)
next
  case False
  then obtain p where "p \<in> set (outputPins e w)" "op_connections (opins w p) \<noteq> []"
    by (cases "el_class (elems w e)")
      (auto simp: isEndNode_def DataProducer_isEndNode_def DataConsumer_isEndNode_def list_ex_iff
        opin_isConnected_def)
  then obtain c where p: "p \<in> set (outputPins e w)" "c \<in> set (op_connections (opins w p))"
    using hd_in_set by blast
  from wired_output_connection(3) [OF w e p] obtain q where b: "conn_between w c p q" by blast
  let ?e' = "ip_owner (ipins w q)"
  note o = conn_between_owners [OF b]
  have "el_class (elems w ?e') = PipelineProcessor" by (rule wired_input(3) [OF w o(3,4)])
  then have "?e' \<in> set (endNodes w)"
    using o(3) by (auto simp: endNodes_def is_child_def isEndNode_def DataConsumer_isEndNode_def)
  moreover have "feeds w q = Some e"
    using b e wired_output(2) [OF w e p(1)] by (simp add: feeds_def conn_between_def fromElement_def)
  then have "e \<in> set (sources w ?e')" using o(4) by (auto simp: sources_def set_map_filter)
  ultimately show ?thesis by blast
qed

lemma wired_endNodes: "wired w \<Longrightarrow> children w \<noteq> [] \<Longrightarrow> endNodes w \<noteq> []"
  using wired_end_or_feeds [of w "snd (hd (children w))"] by (force simp: is_child_def)

text \<open>What the method computes, in terms of the search.\<close>

lemma generateGraphOrdering_run:
  assumes w: "wired w" and ne: "children w \<noteq> []" and q: "set (qset (endNodes w)) = set (endNodes w)"
  obtains b ord path where
    "dfs_all (sources w) (Suc (length (children w))) (qset (endNodes w)) ([], []) = Some (b, ord, path)"
    and "generateGraphOrdering qset w = Some (Inr b, ord)"
proof -
  have sub: "set (qset (endNodes w)) \<subseteq> nodes w" using q endNodes_nodes [of w] by simp
  from pg.dfs_all_total [OF sub card_nodes] obtain b ord path where
    d: "dfs_all (sources w) (Suc (length (children w))) (qset (endNodes w)) ([], []) = Some (b, ord, path)"
    by force
  with wired_endNodes [OF w ne] ne visitNodes_dfs [OF w sub]
  have "generateGraphOrdering qset w = Some (Inr b, ord)"
    by (simp add: generateGraphOrdering_def lift_result_def)
  with d that show ?thesis by blast
qed

lemma generateGraphOrdering_true:
  assumes w: "wired w" and ne: "children w \<noteq> []" and q: "set (qset (endNodes w)) = set (endNodes w)"
    and t: "generateGraphOrdering qset w = Some (Inr True, ord)"
  shows "topo (sources w) ord \<and> set ord = nodes w"
proof -
  obtain b ord' path where
    d': "dfs_all (sources w) (Suc (length (children w))) (qset (endNodes w)) ([], []) = Some (b, ord', path)"
    and g: "generateGraphOrdering qset w = Some (Inr b, ord')"
    by (rule generateGraphOrdering_run [where qset = qset, OF w ne q])
  with t have
    d: "dfs_all (sources w) (Suc (length (children w))) (qset (endNodes w)) ([], []) = Some (True, ord, path)"
    by simp
  have sub: "set (qset (endNodes w)) \<subseteq> nodes w" using q endNodes_nodes [of w] by simp
  note topo = pg.dfs_all_topo [OF d sub]
  have "e \<in> set ord" if "is_child w e" for e
    using wired_end_or_feeds [OF w that] topo(2) q topo_closed [OF topo(1)] by blast
  with topo show ?thesis by (auto simp: nodes_is_child)
qed

lemma generateGraphOrdering_correct:
  assumes w: "wired w" and ne: "children w \<noteq> []" and q: "set (qset (endNodes w)) = set (endNodes w)"
  shows "\<exists>ord. generateGraphOrdering qset w = Some (Inr (acyclic_pipeline w), ord) \<and>
    (acyclic_pipeline w \<longrightarrow> topo (sources w) ord \<and> set ord = nodes w)"
proof -
  have sub: "set (qset (endNodes w)) \<subseteq> nodes w" using q endNodes_nodes [of w] by simp
  obtain b ord path where
    d: "dfs_all (sources w) (Suc (length (children w))) (qset (endNodes w)) ([], []) = Some (b, ord, path)"
    and g: "generateGraphOrdering qset w = Some (Inr b, ord)"
    by (rule generateGraphOrdering_run [where qset = qset, OF w ne q])
  have "b = acyclic_pipeline w"
  proof (cases b)
    case True
    with generateGraphOrdering_true [where qset = qset, OF w ne q] g show ?thesis
      by (auto simp: acyclic_pipeline_def dest: topo_no_cycle)
  next
    case False
    with pg.dfs_all_cycle [OF _ sub] d show ?thesis by (auto simp: acyclic_pipeline_def)
  qed
  with g generateGraphOrdering_true [where qset = qset, OF w ne q] show ?thesis by auto
qed

end
