(* ===== verification/Pipeline_Life.thy ===== *)
theory Pipeline_Life
  imports Pipeline_Graph
begin

text \<open>
  Initialising, starting and stopping a pipeline, and saving it (\<open>src/plvcore/Pipeline.cpp\<close>).

  \<open>plugin_hooks\<close> are the outcomes of the virtual methods of the plug-ins.  The order in which \<open>foreach\<close>
  visits a \<open>QSet\<close> is the parameter \<open>qset\<close>.  While \<open>stop()\<close> waits, the other threads go on working;
  what they do in one round of the waiting loop is the parameter \<open>workers\<close>, and the number of rounds is
  bounded by fuel: \<open>None\<close> means that \<open>stop()\<close> is still waiting.
\<close>

section \<open>Model\<close>

record plugin_hooks =
  hk_init :: "ref \<Rightarrow> hook"
  hk_deinit :: "ref \<Rightarrow> hook_nothrow"
  hk_start :: "ref \<Rightarrow> hook"
  hk_stop :: "ref \<Rightarrow> hook"

text \<open>\<open>PipelineProcessor::__init\<close> overrides the method of its base class.\<close>

definition element_init :: "plugin_hooks \<Rightarrow> ref \<Rightarrow> ('v plv, bool) plvM" where
  "element_init hk e w =
     ple_init e (hk_init hk e)
       (case el_class (elems w e) of PipelineProducer \<Rightarrow> w | PipelineProcessor \<Rightarrow> initInputPins e w)"

definition element_deinit :: "plugin_hooks \<Rightarrow> ref \<Rightarrow> ('v plv, bool) plvM" where
  "element_deinit hk e = ple_deinit e (hk_deinit hk e)"

definition ignoreM :: "('s, 'a) plvM \<Rightarrow> ('s, unit) plvM" where
  "ignoreM m = bindM m (\<lambda>_. returnM ())"

definition handleMessage :: "string \<Rightarrow> 'v plv \<Rightarrow> 'v plv" where
  "handleMessage msg w = emit (pipelineMessage msg) w"

text \<open>The classes derived from \<open>plv::Exception\<close>.\<close>

fun isPlvException :: "plv_exn \<Rightarrow> bool" where
  "isPlvException (PlvException m) = True"
| "isPlvException (RuntimeError m) = True"
| "isPlvException (IllegalArgumentException m) = True"
| "isPlvException (IllegalConnectionException m) = True"
| "isPlvException (IncompatibleTypeException m) = True"
| "isPlvException (DuplicateConnectionException m) = True"
| "isPlvException x = False"

text \<open>What the \<open>try\<close> block of the loop of \<open>init\<close> leaves in \<open>errType\<close> and \<open>msg\<close>.\<close>

definition initError :: "ref \<Rightarrow> plv_exn + bool \<Rightarrow> 'v plv \<Rightarrow> PlvErrorType \<times> string" where
  "initError e r w =
     (case r of
        Inr True \<Rightarrow> (PlvNoError, '''')
      | Inr False \<Rightarrow> (el_errorType (elems w e),
          ''Error in PipelineElement '' @ el_name (elems w e) @ '': '' @ el_errorString (elems w e))
      | Inl x \<Rightarrow> (PlvPipelineRuntimeError,
          if isPlvException x
          then ''Exception caught in PipelineElement '' @ el_name (elems w e) @ '': '' @ what x
          else ''Unknown exception caught in PipelineElement '' @ el_name (elems w e)))"

text \<open>The loop; the result is the list of initialised elements, or \<open>None\<close> for \<open>return false\<close>.\<close>

fun initLoop :: "plugin_hooks \<Rightarrow> (ref list \<Rightarrow> ref list) \<Rightarrow> ref list \<Rightarrow> ref list \<Rightarrow> ('v plv, ref list option) plvM" where
  "initLoop hk qset [] initialized w = (Inr (Some initialized), w)"
| "initLoop hk qset (e # es) initialized w =
     attempt (element_init hk e) (\<lambda>r w1.
       case initError e r w1 of
         (errType, msg) \<Rightarrow>
           if errType \<noteq> PlvNoError then
             seqM (ignoreM (element_deinit hk e))
             (seqM (modifyM (handleMessage msg))
             (seqM (forM (\<lambda>x. ignoreM (element_deinit hk x)) (qset initialized))
             (returnM None))) w1
           else initLoop hk qset es (initialized @ [e]) w1) w"

definition insertReadyQueue :: "ref \<Rightarrow> 'v plv \<Rightarrow> 'v plv" where
  "insertReadyQueue e w = w\<lparr>readyQueue := qh_insert (el_id (elems w e)) [] (readyQueue w)\<rparr>"

definition pipeline_init :: "plugin_hooks \<Rightarrow> (ref list \<Rightarrow> ref list) \<Rightarrow> ('v plv, bool) plvM" where
  "pipeline_init hk qset w =
     bindM (initLoop hk qset (map snd (children w)) []) (\<lambda>r.
       case r of
         None \<Rightarrow> returnM False
       | Some initialized \<Rightarrow>
           seqM (modifyM (fold insertReadyQueue (qset initialized)))
           (seqM (modifyM (\<lambda>w'. w'\<lparr>pl_slots := Suc (pl_slots w')\<rparr>))
           (returnM True))) w"

definition deinitStep :: "plugin_hooks \<Rightarrow> ref \<Rightarrow> ('v plv, unit) plvM" where
  "deinitStep hk e =
     bindM (element_deinit hk e) (\<lambda>ok w.
       if \<not> ok \<and> el_errorType (elems w e) \<noteq> PlvNoError
       then (Inr (), handleMessage (''Error in PipelineElement '' @ el_name (elems w e) @ '': '' @
              el_errorString (elems w e)) w)
       else (Inr (), w))"

text \<open>The loop that should empty \<open>m_readyQueue\<close> tests the iterator of the loop before it, which is at
  its end: its body is never executed.  \<open>disconnect\<close> removes all slot connections of the timer.\<close>

definition pipeline_deinit :: "plugin_hooks \<Rightarrow> ('v plv, unit) plvM" where
  "pipeline_deinit hk w =
     seqM (forM (deinitStep hk) (map snd (children w)))
       (modifyM (\<lambda>w'. w'\<lparr>pl_slots := 0\<rparr>)) w"

text \<open>The loop of \<open>start\<close> over the elements: the started ones, and whether an error ended it.  Only
  \<open>plv::Exception\<close> is caught.\<close>

fun startLoop :: "plugin_hooks \<Rightarrow> ref list \<Rightarrow> ref list \<Rightarrow> ('v plv, bool \<times> ref list) plvM" where
  "startLoop hk [] started w = (Inr (False, started), w)"
| "startLoop hk (e # es) started w =
     (case ple_start e (hk_start hk e) w of
        (Inr True, w1) \<Rightarrow> startLoop hk es (started @ [e]) w1
      | (Inr False, w1) \<Rightarrow>
          seqM (modifyM (handleMessage (''PipelineElement '' @ el_name (elems w1 e) @ '' failed to start.'')))
          (seqM (ignoreM (element_deinit hk e)) (returnM (True, started))) w1
      | (Inl x, w1) \<Rightarrow>
          (if isPlvException x then
             seqM (modifyM (handleMessage (el_name (elems w1 e) @ '': '' @ what x)))
             (seqM (ignoreM (element_deinit hk e)) (returnM (True, started))) w1
           else (Inl x, w1)))"

definition stopElement :: "plugin_hooks \<Rightarrow> ref \<Rightarrow> ('v plv, unit) plvM" where
  "stopElement hk e = seqM (ignoreM (ple_stop e (hk_stop hk e))) (ignoreM (element_deinit hk e))"

definition pipeline_start :: "plugin_hooks \<Rightarrow> (ref list \<Rightarrow> ref list) \<Rightarrow> ('v plv, unit) plvM" where
  "pipeline_start hk qset w =
     (if children w = [] then (Inr (), w)
      else bindM (pipeline_init hk qset) (\<lambda>ok w1.
        if \<not> ok then (Inr (), w1)
        else case find (\<lambda>e. \<not> requiredPinsConnected e w1) (map snd (children w1)) of
          Some e \<Rightarrow>
            seqM (modifyM (handleMessage (''PipelineElement's' '' @ el_name (elems w1 e) @
                    '' required pins are not all connected.'')))
              (pipeline_deinit hk) w1
        | None \<Rightarrow>
            (case generateGraphOrdering qset w1 of
               None \<Rightarrow> (Inl AssertFailed, w1)
             | Some (Inl x, ordr) \<Rightarrow> (Inl x, w1\<lparr>pl_ordering := ordr\<rparr>)
             | Some (Inr False, ordr) \<Rightarrow>
                 (Inr (), handleMessage ''Cycle detected in pipeline graph'' (w1\<lparr>pl_ordering := ordr\<rparr>))
             | Some (Inr True, ordr) \<Rightarrow>
                 bindM (startLoop hk (map snd (children w1)) []) (\<lambda>(error, started).
                   if error then forM (stopElement hk) (qset started)
                   else seqM (modifyM (\<lambda>w'. w'\<lparr>pl_heartbeat := True, pl_running := True\<rparr>))
                          (modifyM (emit pipelineStarted))) (w1\<lparr>pl_ordering := ordr\<rparr>))) w)"

text \<open>One round of the waiting loop of \<open>stop\<close>.\<close>

definition runFinished :: "'v plv \<Rightarrow> int \<times> RunItem \<Rightarrow> bool" where
  "runFinished w ir =
     (getState (ri_element (snd ir)) w = PLE_DONE \<or> getState (ri_element (snd ir)) w = PLE_ERROR)"

fun stopPass :: "(int \<times> RunItem) list \<Rightarrow> 'v plv \<Rightarrow> (int \<times> RunItem) list \<times> 'v plv" where
  "stopPass [] w = ([], w)"
| "stopPass (ir # rq) w =
     (if runFinished w ir
      then stopPass rq (setState (ri_element (snd ir)) PLE_STARTED w)
      else (case stopPass rq w of (rq', w') \<Rightarrow> (ir # rq', w')))"

fun stopWait :: "nat \<Rightarrow> ('v plv \<Rightarrow> 'v plv) \<Rightarrow> 'v plv \<Rightarrow> 'v plv option" where
  "stopWait n workers w =
     (if runQueue w = [] then Some w
      else case n of
        0 \<Rightarrow> None
      | Suc m \<Rightarrow>
          (case stopPass (runQueue (workers w)) (workers w) of
             (rq, w') \<Rightarrow> stopWait m workers (w'\<lparr>runQueue := rq\<rparr>)))"

definition flushConnection :: "ref \<Rightarrow> ('v plv, unit) plvM" where
  "flushConnection c =
     seqM (modifyM (conn_flush c)) (\<lambda>w. assertM (\<not> conn_hasDataItems c w) w)"

definition pipeline_stop ::
    "nat \<Rightarrow> ('v plv \<Rightarrow> 'v plv) \<Rightarrow> plugin_hooks \<Rightarrow> 'v plv \<Rightarrow> ((plv_exn + unit) \<times> 'v plv) option" where
  "pipeline_stop n workers hk w =
     (if \<not> pl_running w then Some (Inl AssertFailed, w)
      else case stopWait n workers (w\<lparr>pl_heartbeat := False\<rparr>) of
        None \<Rightarrow> None
      | Some w1 \<Rightarrow> Some (
          seqM (forM (stopElement hk) (map snd (children w1)))
          (seqM (\<lambda>w2. forM flushConnection (map snd (connections w2)) w2)
          (seqM (modifyM (\<lambda>w2. w2\<lparr>readyQueue := [], pl_testCount := 0, pl_running := False\<rparr>))
          (modifyM (emit pipelineStopped)))) w1))"

definition pipeline_finish ::
    "nat \<Rightarrow> ('v plv \<Rightarrow> 'v plv) \<Rightarrow> plugin_hooks \<Rightarrow> 'v plv \<Rightarrow> ((plv_exn + unit) \<times> 'v plv) option" where
  "pipeline_finish n workers hk w =
     (case (if pl_running w then pipeline_stop n workers hk w else Some (Inr (), w)) of
        None \<Rightarrow> None
      | Some (Inl x, w1) \<Rightarrow> Some (Inl x, w1)
      | Some (Inr u, w1) \<Rightarrow> Some (seqM pipeline_clear (modifyM (emit pipelineFinished)) w1))"

definition pipelineElementError ::
    "nat \<Rightarrow> ('v plv \<Rightarrow> 'v plv) \<Rightarrow> plugin_hooks \<Rightarrow> ref \<Rightarrow> 'v plv \<Rightarrow> ((plv_exn + unit) \<times> 'v plv) option" where
  "pipelineElementError n workers hk e w =
     pipeline_stop n workers hk (handleMessage (el_errorString (elems w e)) w)"

section \<open>Saving and loading\<close>

text \<open>\<open>serialize\<close> and \<open>deserialize\<close> stand for the \<open>PipelineLoader\<close>.  All exceptions of this development but
  \<open>UnknownException\<close> derive from \<open>std::runtime_error\<close>.\<close>

definition isRuntimeError :: "plv_exn \<Rightarrow> bool" where
  "isRuntimeError x = (catchable x \<and> x \<noteq> UnknownException)"

definition save :: "(string \<Rightarrow> 'v plv \<Rightarrow> plv_exn + unit) \<Rightarrow> ('v plv, bool) plvM" where
  "save serialize w =
     (if pl_changed w then
        (case serialize (pl_filename w) w of
           Inl x \<Rightarrow> (if isRuntimeError x
                      then (Inr False, handleMessage (''Failed to save pipeline '' @ what x) w)
                      else (Inl x, w))
         | Inr u \<Rightarrow> (Inr True, emit (pipelineSaved (pl_filename w)) (w\<lparr>pl_changed := False\<rparr>)))
      else (Inr True, w))"

definition saveAs :: "(string \<Rightarrow> 'v plv \<Rightarrow> plv_exn + unit) \<Rightarrow> string \<Rightarrow> ('v plv, bool) plvM" where
  "saveAs serialize filename w =
     save serialize (if pl_filename w \<noteq> filename then w\<lparr>pl_filename := filename\<rparr> else w)"

definition load :: "(string \<Rightarrow> ('v plv, unit) plvM) \<Rightarrow> string \<Rightarrow> ('v plv, bool) plvM" where
  "load deserialize filename w =
     (if \<not> isEmpty w then (Inl AssertFailed, w)
      else case deserialize filename (w\<lparr>pl_filename := filename\<rparr>) of
        (Inr u, w1) \<Rightarrow> (Inr True, emit (pipelineLoaded filename) w1)
      | (Inl x, w1) \<Rightarrow>
          (if isRuntimeError x
           then (Inr False, handleMessage (''Failed to load pipeline '' @ what x) w1)
           else (Inl x, w1)))"

end
