(* ===== verification/Life_Cycle.thy ===== *)
theory Life_Cycle
  imports Pipeline_Life
begin

text \<open>
  The states of the elements across \<open>init\<close>, \<open>start\<close> and \<open>stop\<close> of a pipeline.  The loops change only the
  status of elements; \<open>elems_only\<close> is that frame, and the lemmas on the loops give the state of every
  element after them.
\<close>

section \<open>The frame of the life cycle loops\<close>

definition life_fixed :: "PipelineElement \<Rightarrow> PipelineElement \<Rightarrow> bool" where
  "life_fixed a b \<longleftrightarrow>
     a\<lparr>el_state := PLE_UNDEFINED, el_errorType := PlvNoError, el_errorString := [], el_serial := 0,
       el_hasAsynchronousPin := False, el_hasSynchronousPin := False, el_scoreboard := sb_new\<rparr> =
     b\<lparr>el_state := PLE_UNDEFINED, el_errorType := PlvNoError, el_errorString := [], el_serial := 0,
       el_hasAsynchronousPin := False, el_hasSynchronousPin := False, el_scoreboard := sb_new\<rparr>"

lemma life_fixed_refl [simp]: "life_fixed a a"
  by (simp add: life_fixed_def)

lemma life_fixed_trans: "life_fixed a b \<Longrightarrow> life_fixed b c \<Longrightarrow> life_fixed a c"
  by (simp add: life_fixed_def)

lemma life_fixed_status: "status_only a b \<Longrightarrow> life_fixed a b"
  by (cases a; cases b; simp add: status_only_def life_fixed_def)

lemma life_fixed_fields:
  assumes "life_fixed a b"
  shows "el_id a = el_id b" "el_class a = el_class b" "el_name a = el_name b"
    "el_inputPins a = el_inputPins b" "el_outputPins a = el_outputPins b"
    "el_hasPipeline a = el_hasPipeline b"
  using assms by (cases a; cases b; simp add: life_fixed_def)+

definition elems_only :: "ref set \<Rightarrow> 'v plv \<Rightarrow> 'v plv \<Rightarrow> bool" where
  "elems_only E w w' \<longleftrightarrow>
     w'\<lparr>elems := elems w\<rparr> = w \<and> (\<forall>e. life_fixed (elems w' e) (elems w e)) \<and>
     (\<forall>e. e \<notin> E \<longrightarrow> elems w' e = elems w e)"

lemma elems_only_refl [simp]: "elems_only E w w"
  by (simp add: elems_only_def)

lemma elems_only_trans:
  assumes "elems_only E w1 w2" and "elems_only E w2 w3"
  shows "elems_only E w1 w3"
proof -
  from assms have "w3\<lparr>elems := elems w2\<rparr> = w2" "w2\<lparr>elems := elems w1\<rparr> = w1"
    by (auto simp: elems_only_def)
  then have "w3\<lparr>elems := elems w1\<rparr> = w1" by (cases w1; cases w2; cases w3; simp)
  with assms show ?thesis by (auto simp: elems_only_def intro: life_fixed_trans)
qed

lemma elems_only_mono: "elems_only E w w' \<Longrightarrow> E \<subseteq> F \<Longrightarrow> elems_only F w w'"
  by (auto simp: elems_only_def)

lemma elems_only_frame:
  assumes "elems_only E w w'"
  shows "ipins w' = ipins w" "opins w' = opins w" "conns w' = conns w" "nextConn w' = nextConn w"
    "children w' = children w" "connections w' = connections w"
    "producers w' = producers w" "processors w' = processors w"
    "readyQueue w' = readyQueue w" "runQueue w' = runQueue w"
    "pl_serial w' = pl_serial w" "pl_running w' = pl_running w" "pl_changed w' = pl_changed w"
    "pl_testCount w' = pl_testCount w" "pl_heartbeat w' = pl_heartbeat w"
    "pl_ordering w' = pl_ordering w" "signals w' = signals w"
    "pl_slots w' = pl_slots w" "pl_filename w' = pl_filename w"
    "\<And>e. e \<notin> E \<Longrightarrow> elems w' e = elems w e"
  using assms by (cases w; cases w'; simp add: elems_only_def)+

lemma elems_only_fields:
  assumes "elems_only E w w'"
  shows "el_id (elems w' e) = el_id (elems w e)" "el_class (elems w' e) = el_class (elems w e)"
    "el_hasPipeline (elems w' e) = el_hasPipeline (elems w e)"
    "inputPins e w' = inputPins e w" "outputPins e w' = outputPins e w"
  using assms life_fixed_fields [of "elems w' e" "elems w e"]
  by (auto simp: elems_only_def inputPins_def outputPins_def)

lemma elems_only_only: "only_elem e w w' \<Longrightarrow> elems_only {e} w w'"
  by (auto simp: only_elem_def elems_only_def intro: life_fixed_status)

text \<open>\<open>life_frame\<close> allows changes of the queues of ready elements and of the flags of the pipeline too.\<close>

definition life_frame :: "'v plv \<Rightarrow> 'v plv \<Rightarrow> bool" where
  "life_frame w w' \<longleftrightarrow>
     ipins w' = ipins w \<and> opins w' = opins w \<and> conns w' = conns w \<and> nextConn w' = nextConn w \<and>
     children w' = children w \<and> connections w' = connections w \<and>
     producers w' = producers w \<and> processors w' = processors w \<and> runQueue w' = runQueue w \<and>
     pl_serial w' = pl_serial w \<and> pl_testCount w' = pl_testCount w \<and>
     (\<forall>e. life_fixed (elems w' e) (elems w e))"

lemma life_frame_trans: "life_frame w1 w2 \<Longrightarrow> life_frame w2 w3 \<Longrightarrow> life_frame w1 w3"
  by (auto simp: life_frame_def intro: life_fixed_trans)

lemma elems_only_life: "elems_only E w w' \<Longrightarrow> life_frame w w'"
  by (simp add: life_frame_def elems_only_frame) (simp add: elems_only_def)

lemma life_frame_simps [simp]:
  "life_frame w w"
  "life_frame w (w'\<lparr>readyQueue := rq\<rparr>) = life_frame w w'"
  "life_frame w (w'\<lparr>pl_slots := n\<rparr>) = life_frame w w'"
  "life_frame w (w'\<lparr>pl_ordering := ordr\<rparr>) = life_frame w w'"
  "life_frame w (w'\<lparr>pl_heartbeat := b\<rparr>) = life_frame w w'"
  "life_frame w (w'\<lparr>pl_running := b\<rparr>) = life_frame w w'"
  "life_frame w (emit sg w') = life_frame w w'"
  by (simp_all add: life_frame_def)

lemma life_frame_fields:
  assumes "life_frame w w'"
  shows "el_id (elems w' e) = el_id (elems w e)" "el_class (elems w' e) = el_class (elems w e)"
    "inputPins e w' = inputPins e w" "outputPins e w' = outputPins e w"
    "nodes w' = nodes w" "is_child w' e = is_child w e"
  using assms life_fixed_fields [of "elems w' e" "elems w e"]
  by (auto simp: life_frame_def inputPins_def outputPins_def nodes_def is_child_def)

lemma life_frame_wiring:
  assumes "life_frame w w'"
  shows "same_wiring w w'"
proof -
  have "life_fixed (elems w' e) (elems w e)" for e using assms by (simp add: life_frame_def)
  from life_fixed_fields [OF this] assms show ?thesis
    by (simp add: same_wiring_def life_frame_def)
qed

lemma life_frame_required:
  assumes "life_frame w w'"
  shows "requiredPinsConnected e w' = requiredPinsConnected e w"
proof -
  have "requiredInputPinsConnected e w' = requiredInputPinsConnected e w"
    using assms
    by (simp add: requiredInputPinsConnected_def ipin_isConnected_def life_frame_fields)
      (simp add: life_frame_def)
  then show ?thesis
    by (simp add: requiredPinsConnected_def life_frame_fields [OF assms] split: ple_class.split)
qed

lemma life_frame_sources:
  assumes "life_frame w w'"
  shows "sources w' = sources w"
proof -
  have st: "ipins w' = ipins w" "opins w' = opins w" "conns w' = conns w"
    using assms by (simp_all add: life_frame_def)
  have "fromElement c w' = fromElement c w" for c by (simp add: fromElement_def st split: option.split)
  then have "feeds w' q = feeds w q" for q
    by (simp add: feeds_def st life_frame_fields [OF assms] split: option.split sum.split)
  then have "feeds w' = feeds w" by (rule ext)
  then show ?thesis by (intro ext) (simp add: sources_def life_frame_fields [OF assms])
qed

lemma elems_only_getState: "elems_only E w w' \<Longrightarrow> e \<notin> E \<Longrightarrow> getState e w' = getState e w"
  by (simp add: getState_def elems_only_frame)

section \<open>Single elements\<close>

lemma initInputPins_only: "elems_only {e} w (initInputPins e w)"
  by (simp add: elems_only_def initInputPins_def upd_elem_def life_fixed_def)

lemma initInputPins_state [simp]: "getState e' (initInputPins e w) = getState e' w"
  by (simp add: initInputPins_def getState_def)

lemma element_init_only: "elems_only {e} w (snd (element_init hk e w))"
  unfolding element_init_def
  by (cases "el_class (elems w e)")
    (auto intro: elems_only_only ple_init_only elems_only_trans [OF initInputPins_only])

lemma element_init_ok:
  assumes "getState e w = PLE_UNDEFINED" and "snd (hk_init hk e) = Inr True"
  shows "fst (element_init hk e w) = Inr True"
    and "getState e (snd (element_init hk e w)) = PLE_INITIALIZED"
  using assms
  by (cases "hk_init hk e"; cases "el_class (elems w e)"; simp add: element_init_def ple_init_cases)+

lemma ple_start_ok:
  assumes "getState e w = PLE_INITIALIZED" and "snd (hk_start hk e) = Inr True"
  shows "fst (ple_start e (hk_start hk e) w) = Inr True"
    and "getState e (snd (ple_start e (hk_start hk e) w)) = PLE_STARTED"
  using assms by (cases "hk_start hk e"; simp add: ple_start_cases)+

text \<open>Stopping and deinitialising an element whose \<open>stop\<close> does not throw always returns.  It ends in
  \<open>PLE_UNDEFINED\<close>, with its serial and error reset, unless \<open>deinit\<close> reports a failure.\<close>

lemma stopElement_run:
  assumes "getState e w \<ge> PLE_STARTED" and "snd (hk_stop hk e) = Inr b"
  shows "\<exists>w'. stopElement hk e w = (Inr (), w') \<and> elems_only {e} w w' \<and>
    (snd (hk_deinit hk e) \<longrightarrow> getState e w' = PLE_UNDEFINED \<and> el_serial (elems w' e) = 0 \<and>
       el_errorType (elems w' e) = PlvNoError)"
proof -
  obtain w1 where s: "ple_stop e (hk_stop hk e) w = (Inr b, w1)"
    "getState e w1 \<in> {PLE_ERROR, PLE_INITIALIZED}"
    using assms by (cases "hk_stop hk e") (simp add: ple_stop_cases)
  obtain err ok where h: "hk_deinit hk e = (err, ok)" by (cases "hk_deinit hk e")
  obtain r w2 where r: "ple_deinit e (hk_deinit hk e) w1 = (r, w2)" by fastforce
  note d = ple_deinit_result [OF s(2), where err = err and ok = ok]
  from d(1) r h have r': "r = Inr ok" by simp
  have "only_elem e w w1" "only_elem e w1 w2"
    using ple_stop_only [of e w "hk_stop hk e"] ple_deinit_only [of e w1 "hk_deinit hk e"] s(1) r by simp_all
  then have "elems_only {e} w w2" by (blast intro: elems_only_trans elems_only_only)
  moreover have "stopElement hk e w = (Inr (), w2)"
    using s(1) r r' by (simp add: stopElement_def ignoreM_def element_deinit_def monad_defs)
  ultimately show ?thesis using d r h by auto
qed

section \<open>The loops\<close>

lemma initLoop_ok:
  assumes "distinct es" and "\<And>e. e \<in> set es \<Longrightarrow> getState e w = PLE_UNDEFINED"
    and "\<And>e. e \<in> set es \<Longrightarrow> snd (hk_init hk e) = Inr True"
  shows "\<exists>w'. initLoop hk qset es ini w = (Inr (Some (ini @ es)), w') \<and> elems_only (set es) w w' \<and>
    (\<forall>e \<in> set es. getState e w' = PLE_INITIALIZED)"
  using assms
proof (induction es arbitrary: ini w)
  case Nil
  then show ?case by simp
next
  case (Cons e es)
  obtain r w1 where i: "element_init hk e w = (r, w1)" by fastforce
  from element_init_ok [of e w hk] element_init_only [of e w hk] Cons.prems i
  have e: "r = Inr True" "getState e w1 = PLE_INITIALIZED" and f: "elems_only {e} w w1" by simp_all
  have "getState x w1 = PLE_UNDEFINED" if "x \<in> set es" for x
    using Cons.prems(1,2) that f elems_only_getState [OF f, of x] by auto
  with Cons.IH [of w1 "ini @ [e]"] Cons.prems obtain w' where
    w': "initLoop hk qset es (ini @ [e]) w1 = (Inr (Some (ini @ e # es)), w')" "elems_only (set es) w1 w'"
    "\<forall>x \<in> set es. getState x w' = PLE_INITIALIZED" by auto
  have "elems_only (set (e # es)) w w'"
    by (rule elems_only_trans [OF elems_only_mono [OF f] elems_only_mono [OF w'(2)]]) auto
  moreover have "getState e w' = PLE_INITIALIZED"
    using elems_only_getState [OF w'(2), of e] Cons.prems(1) e by simp
  ultimately show ?case using i e w' by (simp add: attempt_def initError_def)
qed

lemma startLoop_ok:
  assumes "distinct es" and "\<And>e. e \<in> set es \<Longrightarrow> getState e w = PLE_INITIALIZED"
    and "\<And>e. e \<in> set es \<Longrightarrow> snd (hk_start hk e) = Inr True"
  shows "\<exists>w'. startLoop hk es st w = (Inr (False, st @ es), w') \<and> elems_only (set es) w w' \<and>
    (\<forall>e \<in> set es. getState e w' = PLE_STARTED)"
  using assms
proof (induction es arbitrary: st w)
  case Nil
  then show ?case by simp
next
  case (Cons e es)
  obtain r w1 where i: "ple_start e (hk_start hk e) w = (r, w1)" by fastforce
  from ple_start_ok [of e w hk] elems_only_only [OF ple_start_only [of e w "hk_start hk e"]] Cons.prems i
  have e: "r = Inr True" "getState e w1 = PLE_STARTED" and f: "elems_only {e} w w1" by simp_all
  have "getState x w1 = PLE_INITIALIZED" if "x \<in> set es" for x
    using Cons.prems(1,2) that f elems_only_getState [OF f, of x] by auto
  with Cons.IH [of w1 "st @ [e]"] Cons.prems obtain w' where
    w': "startLoop hk es (st @ [e]) w1 = (Inr (False, st @ e # es), w')" "elems_only (set es) w1 w'"
    "\<forall>x \<in> set es. getState x w' = PLE_STARTED" by auto
  have "elems_only (set (e # es)) w w'"
    by (rule elems_only_trans [OF elems_only_mono [OF f] elems_only_mono [OF w'(2)]]) auto
  moreover have "getState e w' = PLE_STARTED"
    using elems_only_getState [OF w'(2), of e] Cons.prems(1) e by simp
  ultimately show ?case using i e w' by simp
qed

lemma stopLoop_run:
  assumes "distinct es" and "\<And>e. e \<in> set es \<Longrightarrow> getState e w \<ge> PLE_STARTED"
    and "\<And>e. e \<in> set es \<Longrightarrow> \<exists>b. snd (hk_stop hk e) = Inr b"
  shows "\<exists>w'. forM (stopElement hk) es w = (Inr (), w') \<and> elems_only (set es) w w' \<and>
    (\<forall>e \<in> set es. snd (hk_deinit hk e) \<longrightarrow>
       getState e w' = PLE_UNDEFINED \<and> el_serial (elems w' e) = 0 \<and> el_errorType (elems w' e) = PlvNoError)"
  using assms
proof (induction es arbitrary: w)
  case Nil
  then show ?case by simp
next
  case (Cons e es)
  from Cons.prems(3) [of e] obtain b where "snd (hk_stop hk e) = Inr b" by auto
  with stopElement_run [of e w hk b] Cons.prems(2) [of e] obtain w1 where
    e: "stopElement hk e w = (Inr (), w1)" and f: "elems_only {e} w w1"
    and u: "snd (hk_deinit hk e) \<longrightarrow> getState e w1 = PLE_UNDEFINED \<and> el_serial (elems w1 e) = 0 \<and>
       el_errorType (elems w1 e) = PlvNoError" by auto
  have "getState x w1 \<ge> PLE_STARTED" if "x \<in> set es" for x
  proof -
    have "x \<noteq> e" using Cons.prems(1) that by auto
    then show ?thesis using Cons.prems(2) [of x] that elems_only_getState [OF f, of x] by simp
  qed
  with Cons.IH [of w1] Cons.prems obtain w' where
    w': "forM (stopElement hk) es w1 = (Inr (), w')" "elems_only (set es) w1 w'"
    "\<forall>x \<in> set es. snd (hk_deinit hk x) \<longrightarrow>
       getState x w' = PLE_UNDEFINED \<and> el_serial (elems w' x) = 0 \<and> el_errorType (elems w' x) = PlvNoError"
    by auto
  have "elems_only (set (e # es)) w w'"
    by (rule elems_only_trans [OF elems_only_mono [OF f] elems_only_mono [OF w'(2)]]) auto
  moreover have "elems w' e = elems w1 e" using elems_only_frame(20) [OF w'(2)] Cons.prems(1) by simp
  ultimately show ?case using e u w' by (auto simp: getState_def)
qed

section \<open>Starting\<close>

lemma wired_children_distinct: "wired w \<Longrightarrow> distinct (map snd (children w))"
  using distinct_pin_list [of "children w" "\<lambda>e. el_id (elems w e)"] wired_maps [of w]
  by (auto simp: qh_inv_def qm_inv_distinct)

definition ready_empty :: "'v plv \<Rightarrow> bool" where
  "ready_empty w \<longleftrightarrow> qh_inv (readyQueue w) \<and> (\<forall>(i, items) \<in> set (readyQueue w). items = [])"

lemma qh_insert_set: "set (qh_insert k v m) \<subseteq> insert (k, v) (set m)"
  by (induction k v m rule: qh_insert.induct) auto

lemma insertReadyQueues_empty: "ready_empty w \<Longrightarrow> ready_empty (fold insertReadyQueue es w)"
proof (induction es arbitrary: w)
  case Nil
  then show ?case by simp
next
  case (Cons e es)
  have "ready_empty (insertReadyQueue e w)"
    using Cons.prems qh_insert_set [of "el_id (elems w e)" "[]" "readyQueue w"]
    by (auto simp: ready_empty_def insertReadyQueue_def qh_inv_insert)
  with Cons show ?case by simp
qed

lemma insertReadyQueues:
  "\<exists>rq. fold insertReadyQueue es w = w\<lparr>readyQueue := rq\<rparr> \<and>
     (\<forall>i. map_of rq i = (if i \<in> (\<lambda>e. el_id (elems w e)) ` set es then Some [] else map_of (readyQueue w) i))"
proof (induction es arbitrary: w)
  case Nil
  have "fold insertReadyQueue [] w = w\<lparr>readyQueue := readyQueue w\<rparr>" by simp
  then show ?case by (intro exI [of _ "readyQueue w"]) simp
next
  case (Cons e es)
  from Cons [of "insertReadyQueue e w"] obtain rq where
    rq: "fold insertReadyQueue es (insertReadyQueue e w) = (insertReadyQueue e w)\<lparr>readyQueue := rq\<rparr>"
    "\<forall>i. map_of rq i = (if i \<in> (\<lambda>x. el_id (elems (insertReadyQueue e w) x)) ` set es then Some []
       else map_of (readyQueue (insertReadyQueue e w)) i)" by blast
  have one: "insertReadyQueue e w = w\<lparr>readyQueue := qh_insert (el_id (elems w e)) [] (readyQueue w)\<rparr>"
    by (simp add: insertReadyQueue_def)
  from rq have "fold insertReadyQueue (e # es) w = w\<lparr>readyQueue := rq\<rparr>" by (simp add: one)
  moreover have "map_of rq i = (if i \<in> (\<lambda>x. el_id (elems w x)) ` set (e # es) then Some []
       else map_of (readyQueue w) i)" for i
    using rq(2) by (auto simp: one map_of_qh_insert)
  ultimately show ?case by blast
qed

lemma pipeline_init_ok:
  assumes w: "wired w" and u: "\<And>e. is_child w e \<Longrightarrow> getState e w = PLE_UNDEFINED"
    and h: "\<And>e. is_child w e \<Longrightarrow> snd (hk_init hk e) = Inr True"
    and q: "\<And>xs. set (qset xs) = set xs"
  shows "\<exists>w'. pipeline_init hk qset w = (Inr True, w') \<and> life_frame w w' \<and>
    pl_slots w' = Suc (pl_slots w) \<and> pl_running w' = pl_running w \<and> (ready_empty w \<longrightarrow> ready_empty w') \<and>
    (\<forall>e. is_child w e \<longrightarrow> getState e w' = PLE_INITIALIZED \<and>
       map_of (readyQueue w') (el_id (elems w e)) = Some [])"
proof -
  let ?es = "map snd (children w)"
  have mem: "e \<in> set ?es \<longleftrightarrow> is_child w e" for e by (auto simp: is_child_def)
  from initLoop_ok [OF wired_children_distinct [OF w], of w hk qset "[]"] u h obtain w1 where
    w1: "initLoop hk qset ?es [] w = (Inr (Some ?es), w1)" "elems_only (set ?es) w w1"
    "\<forall>e \<in> set ?es. getState e w1 = PLE_INITIALIZED" by (auto simp: is_child_def)
  from insertReadyQueues [of "qset ?es" w1] obtain rq where
    rq: "fold insertReadyQueue (qset ?es) w1 = w1\<lparr>readyQueue := rq\<rparr>"
    "\<forall>i. map_of rq i = (if i \<in> (\<lambda>e. el_id (elems w1 e)) ` set (qset ?es) then Some []
       else map_of (readyQueue w1) i)" by blast
  let ?w' = "w1\<lparr>readyQueue := rq, pl_slots := Suc (pl_slots w)\<rparr>"
  have "pipeline_init hk qset w = (Inr True, ?w')"
    using w1(1) rq(1) elems_only_frame [OF w1(2)] by (simp add: pipeline_init_def monad_defs)
  moreover have "map_of rq (el_id (elems w e)) = Some []" if "is_child w e" for e
    using rq(2) q [of ?es] that mem elems_only_fields(1) [OF w1(2)] by auto
  moreover have "getState e ?w' = PLE_INITIALIZED" if "is_child w e" for e
    using bspec [OF w1(3), of e] that mem [of e] by (simp add: getState_def)
  moreover have "ready_empty ?w'" if "ready_empty w"
  proof -
    from that have "ready_empty w1" by (simp add: ready_empty_def elems_only_frame [OF w1(2)])
    from insertReadyQueues_empty [OF this, of "qset ?es"] show ?thesis by (simp add: rq(1) ready_empty_def)
  qed
  ultimately show ?thesis
    using elems_only_life [OF w1(2)] elems_only_frame [OF w1(2)] by (intro exI [of _ ?w']) simp
qed

lemma pipeline_start_ok:
  assumes w: "wired w" and ne: "children w \<noteq> []"
    and u: "\<And>e. is_child w e \<Longrightarrow> getState e w = PLE_UNDEFINED"
    and h: "\<And>e. is_child w e \<Longrightarrow> snd (hk_init hk e) = Inr True \<and> snd (hk_start hk e) = Inr True"
    and req: "\<And>e. is_child w e \<Longrightarrow> requiredPinsConnected e w"
    and acy: "acyclic_pipeline w" and q: "\<And>xs. set (qset xs) = set xs"
  shows "\<exists>w'. pipeline_start hk qset w = (Inr (), w') \<and> life_frame w w' \<and> pl_running w' \<and>
    pl_heartbeat w' \<and> pl_slots w' = Suc (pl_slots w) \<and> (ready_empty w \<longrightarrow> ready_empty w') \<and>
    topo (sources w) (pl_ordering w') \<and> set (pl_ordering w') = nodes w \<and>
    (\<forall>e. is_child w e \<longrightarrow> getState e w' = PLE_STARTED \<and>
       map_of (readyQueue w') (el_id (elems w e)) = Some [])"
proof -
  from pipeline_init_ok [where qset = qset, OF w u _ q] h obtain w2 where
    i: "pipeline_init hk qset w = (Inr True, w2)" and f2: "life_frame w w2"
    and sl: "pl_slots w2 = Suc (pl_slots w)" and re: "ready_empty w \<longrightarrow> ready_empty w2"
    and s2: "\<And>e. is_child w e \<Longrightarrow> getState e w2 = PLE_INITIALIZED \<and>
       map_of (readyQueue w2) (el_id (elems w e)) = Some []" by blast
  have w2: "wired w2" by (rule wired_same [OF w life_frame_wiring [OF f2]])
  have c2: "children w2 = children w" using f2 by (simp add: life_frame_def)
  have "acyclic_pipeline w2"
    using acy by (simp add: acyclic_pipeline_def life_frame_sources [OF f2] life_frame_fields [OF f2])
  with generateGraphOrdering_correct [OF w2, where qset = qset] ne c2 q obtain ordr where
    g: "generateGraphOrdering qset w2 = Some (Inr True, ordr)"
    and t: "topo (sources w) ordr" "set ordr = nodes w"
    by (auto simp: life_frame_sources [OF f2] life_frame_fields [OF f2])
  have nf: "find (\<lambda>e. \<not> requiredPinsConnected e w2) (map snd (children w2)) = None"
    using req c2 by (auto simp: find_None_iff life_frame_required [OF f2] is_child_def)
  let ?w3 = "w2\<lparr>pl_ordering := ordr\<rparr>" and ?es = "map snd (children w)"
  have s3: "getState e ?w3 = PLE_INITIALIZED" if "e \<in> set ?es" for e
    using s2 [of e] that by (auto simp: getState_def is_child_def)
  have h3: "snd (hk_start hk e) = Inr True" if "e \<in> set ?es" for e
    using h [of e] that by (auto simp: is_child_def)
  from startLoop_ok [where st = "[]", OF wired_children_distinct [OF w] s3 h3] obtain w4 where
    l: "startLoop hk ?es [] ?w3 = (Inr (False, ?es), w4)" and f4: "elems_only (set ?es) ?w3 w4"
    and s4: "\<forall>e \<in> set ?es. getState e w4 = PLE_STARTED" by auto
  let ?w' = "emit pipelineStarted (w4\<lparr>pl_heartbeat := True, pl_running := True\<rparr>)"
  have run: "pipeline_start hk qset w = (Inr (), ?w')"
    using ne i nf g l c2 by (simp add: pipeline_start_def monad_defs)
  have "life_frame w ?w'" using life_frame_trans [OF f2, of w4] elems_only_life [OF f4] 
    by (simp add: life_frame_def)
  moreover have "getState e ?w' = PLE_STARTED" if "is_child w e" for e
    using s4 that by (auto simp: getState_def is_child_def)
  moreover have "ready_empty w \<longrightarrow> ready_empty ?w'"
    using re by (simp add: ready_empty_def elems_only_frame [OF f4])
  ultimately show ?thesis
    using run t sl s2 elems_only_frame [OF f4] by (intro exI [of _ ?w']) simp
qed

section \<open>Stopping\<close>

lemma flushLoop:
  "\<exists>w'. forM flushConnection cs w = (Inr (), w') \<and>
     w'\<lparr>conns := conns w\<rparr> = w \<and>
     (\<forall>c. conns w' c = (if c \<in> set cs then conn_clear (conns w c) else conns w c))"
proof (induction cs arbitrary: w)
  case Nil
  then show ?case by simp
next
  case (Cons c cs)
  have one: "flushConnection c w = (Inr (), upd_conn c conn_clear w)"
    by (simp add: flushConnection_def monad_defs conn_flush_def conn_hasDataItems_def conn_clear_def)
  from Cons [of "upd_conn c conn_clear w"] obtain w' where
    w': "forM flushConnection cs (upd_conn c conn_clear w) = (Inr (), w')"
    "w'\<lparr>conns := conns (upd_conn c conn_clear w)\<rparr> = upd_conn c conn_clear w"
    "\<forall>d. conns w' d = (if d \<in> set cs then conn_clear (conns (upd_conn c conn_clear w) d)
       else conns (upd_conn c conn_clear w) d)" by blast
  have "w'\<lparr>conns := conns w\<rparr> = w" using w'(2) by (cases w; cases w') (simp add: upd_conn_def)
  with one w' show ?case by (auto simp: conn_clear_def)
qed

lemma pipeline_stop_run:
  assumes run: "pl_running w"
    and wait: "stopWait n workers (w\<lparr>pl_heartbeat := False\<rparr>) = Some w1"
    and w1: "wired w1"
    and st: "\<And>e. is_child w1 e \<Longrightarrow> getState e w1 \<ge> PLE_STARTED"
    and h: "\<And>e. is_child w1 e \<Longrightarrow> (\<exists>b. snd (hk_stop hk e) = Inr b) \<and> snd (hk_deinit hk e)"
  shows "\<exists>w'. pipeline_stop n workers hk w = Some (Inr (), w') \<and> \<not> pl_running w' \<and>
    children w' = children w1 \<and> pl_slots w' = pl_slots w1 \<and> readyQueue w' = [] \<and> pl_testCount w' = 0 \<and>
    same_wiring w1 w' \<and> ipins w' = ipins w1 \<and> opins w' = opins w1 \<and> runQueue w' = runQueue w1 \<and>
    (\<forall>c. c_producer (conns w' c) = c_producer (conns w1 c)) \<and>
    (\<forall>(i, c) \<in> set (connections w'). c_queue (conns w' c) = []) \<and>
    (\<forall>e. is_child w1 e \<longrightarrow> getState e w' = PLE_UNDEFINED \<and> el_serial (elems w' e) = 0)"
proof -
  let ?es = "map snd (children w1)"
  have mem: "e \<in> set ?es \<longleftrightarrow> is_child w1 e" for e by (auto simp: is_child_def)
  have st': "getState e w1 \<ge> PLE_STARTED" if "e \<in> set ?es" for e using st that mem by blast
  have h': "\<exists>b. snd (hk_stop hk e) = Inr b" if "e \<in> set ?es" for e using h that mem by blast
  from stopLoop_run [OF wired_children_distinct [OF w1] st' h'] obtain w2 where
    l: "forM (stopElement hk) ?es w1 = (Inr (), w2)" and f: "elems_only (set ?es) w1 w2"
    and u: "\<forall>e \<in> set ?es. snd (hk_deinit hk e) \<longrightarrow>
       getState e w2 = PLE_UNDEFINED \<and> el_serial (elems w2 e) = 0 \<and> el_errorType (elems w2 e) = PlvNoError"
    by blast
  from flushLoop [of "map snd (connections w2)" w2] obtain w3 where
    fl: "forM flushConnection (map snd (connections w2)) w2 = (Inr (), w3)"
    and w3: "w3\<lparr>conns := conns w2\<rparr> = w2"
    and c3: "\<forall>c. conns w3 c = (if c \<in> set (map snd (connections w2)) then conn_clear (conns w2 c) else conns w2 c)"
    by blast
  have eq3: "elems w3 = elems w2" "ipins w3 = ipins w2" "opins w3 = opins w2" "children w3 = children w2"
    "connections w3 = connections w2" "producers w3 = producers w2" "processors w3 = processors w2"
    "nextConn w3 = nextConn w2" "pl_slots w3 = pl_slots w2" "runQueue w3 = runQueue w2"
    using w3 by (cases w2; cases w3; simp)+
  let ?w' = "emit pipelineStopped (w3\<lparr>readyQueue := [], pl_testCount := 0, pl_running := False\<rparr>)"
  have r: "pipeline_stop n workers hk w = Some (Inr (), ?w')"
    using run wait l fl by (simp add: pipeline_stop_def monad_defs)
  have "same_wiring w2 ?w'" by (simp add: same_wiring_def eq3 c3 conn_clear_def)
  then have "same_wiring w1 ?w'"
    by (rule same_wiring_trans [OF life_frame_wiring [OF elems_only_life [OF f]]])
  moreover have "\<forall>(i, c) \<in> set (connections ?w'). c_queue (conns ?w' c) = []"
    by (auto simp: eq3 c3 conn_clear_def rev_image_eqI)
  moreover have "getState e ?w' = PLE_UNDEFINED \<and> el_serial (elems ?w' e) = 0" if "is_child w1 e" for e
    using bspec [OF u, of e] that mem [of e] h [of e] by (simp add: getState_def eq3)
  ultimately show ?thesis
    using r elems_only_frame [OF f] c3 by (intro exI [of _ ?w']) (simp add: eq3 conn_clear_def)
qed

text \<open>Waiting ends when the runs that were dispatched have ended.\<close>

lemma stopPass_all:
  assumes "\<And>ir. ir \<in> set rq \<Longrightarrow> runFinished w ir" and "distinct (map (\<lambda>ir. ri_element (snd ir)) rq)"
  shows "\<exists>w'. stopPass rq w = ([], w') \<and> elems_only ((\<lambda>ir. ri_element (snd ir)) ` set rq) w w' \<and>
    (\<forall>ir \<in> set rq. getState (ri_element (snd ir)) w' = PLE_STARTED)"
  using assms
proof (induction rq arbitrary: w)
  case Nil
  then show ?case by simp
next
  case (Cons ir rq)
  let ?e = "ri_element (snd ir)" and ?w1 = "setState (ri_element (snd ir)) PLE_STARTED w"
  have f1: "elems_only {?e} w ?w1" by (rule elems_only_only) simp
  have "runFinished ?w1 x" if "x \<in> set rq" for x
  proof -
    from that Cons.prems(2) have "ri_element (snd x) \<noteq> ?e" by (auto simp: rev_image_eqI)
    with Cons.prems(1) [of x] that show ?thesis by (simp add: runFinished_def)
  qed
  from Cons.IH [OF this] Cons.prems(2) obtain w' where
    w': "stopPass rq ?w1 = ([], w')" "elems_only ((\<lambda>ir. ri_element (snd ir)) ` set rq) ?w1 w'"
    "\<forall>ir \<in> set rq. getState (ri_element (snd ir)) w' = PLE_STARTED" by auto
  have "elems_only ((\<lambda>ir. ri_element (snd ir)) ` set (ir # rq)) w w'"
    by (rule elems_only_trans [OF elems_only_mono [OF f1] elems_only_mono [OF w'(2)]]) auto
  moreover have "getState ?e w' = PLE_STARTED"
    using elems_only_getState [OF w'(2), of ?e] Cons.prems(2) by auto
  ultimately show ?case using w' Cons.prems(1) [of ir] by simp
qed

lemma stopWait_one:
  assumes "\<And>ir. ir \<in> set (runQueue (workers w)) \<Longrightarrow> runFinished (workers w) ir"
    and "distinct (map (\<lambda>ir. ri_element (snd ir)) (runQueue (workers w)))" and "runQueue w \<noteq> []"
  shows "\<exists>w'. stopWait (Suc n) workers w = Some (w'\<lparr>runQueue := []\<rparr>) \<and>
    elems_only ((\<lambda>ir. ri_element (snd ir)) ` set (runQueue (workers w))) (workers w) w' \<and>
    (\<forall>ir \<in> set (runQueue (workers w)). getState (ri_element (snd ir)) w' = PLE_STARTED)"
proof -
  from stopPass_all [OF assms(1,2)] obtain w' where
    "stopPass (runQueue (workers w)) (workers w) = ([], w')"
    "elems_only ((\<lambda>ir. ri_element (snd ir)) ` set (runQueue (workers w))) (workers w) w'"
    "\<forall>ir \<in> set (runQueue (workers w)). getState (ri_element (snd ir)) w' = PLE_STARTED" by blast
  with assms(3) show ?thesis by auto
qed

declare stopWait.simps [simp del]

lemma sources_cong:
  assumes "ipins w' = ipins w" "opins w' = opins w" "\<And>c. c_producer (conns w' c) = c_producer (conns w c)"
    and sw: "same_wiring w w'"
  shows "sources w' = sources w"
proof -
  have "fromElement c w' = fromElement c w" for c by (simp add: fromElement_def assms split: option.split)
  then have "feeds w' q = feeds w q" for q
    by (simp add: feeds_def assms same_wiring_pins [OF sw] split: option.split sum.split)
  then have "feeds w' = feeds w" by (rule ext)
  then show ?thesis by (intro ext) (simp add: sources_def same_wiring_pins [OF sw])
qed

lemma required_cong:
  assumes "ipins w' = ipins w" and sw: "same_wiring w w'"
  shows "requiredPinsConnected e w' = requiredPinsConnected e w"
proof -
  have "requiredInputPinsConnected e w' = requiredInputPinsConnected e w"
    by (simp add: requiredInputPinsConnected_def ipin_isConnected_def assms(1) same_wiring_pins [OF sw])
  moreover have "el_class (elems w' e) = el_class (elems w e)" using sw by (simp add: same_wiring_def)
  ultimately show ?thesis by (simp add: requiredPinsConnected_def split: ple_class.split)
qed

text \<open>A pipeline can be started, stopped and started again; every start adds one more connection of the
  heartbeat to \<open>schedule\<close>, and \<open>stop\<close> removes none.\<close>

lemma start_stop_start:
  assumes w: "wired w" and ne: "children w \<noteq> []"
    and u: "\<And>e. is_child w e \<Longrightarrow> getState e w = PLE_UNDEFINED"
    and h: "\<And>e. is_child w e \<Longrightarrow> snd (hk_init hk e) = Inr True \<and> snd (hk_start hk e) = Inr True \<and>
       (\<exists>b. snd (hk_stop hk e) = Inr b) \<and> snd (hk_deinit hk e)"
    and req: "\<And>e. is_child w e \<Longrightarrow> requiredPinsConnected e w"
    and acy: "acyclic_pipeline w" and q: "\<And>xs. set (qset xs) = set xs" and rq: "runQueue w = []"
  shows "\<exists>w1 w2 w3. pipeline_start hk qset w = (Inr (), w1) \<and> pl_running w1 \<and>
    pipeline_stop n workers hk w1 = Some (Inr (), w2) \<and> \<not> pl_running w2 \<and>
    pipeline_start hk qset w2 = (Inr (), w3) \<and> pl_running w3 \<and> pl_slots w3 = pl_slots w + 2"
proof -
  from h have h1: "\<And>e. is_child w e \<Longrightarrow> snd (hk_init hk e) = Inr True \<and> snd (hk_start hk e) = Inr True"
    by blast
  from pipeline_start_ok [where qset = qset, OF w ne u h1 req acy q] obtain w1 where
    s1: "pipeline_start hk qset w = (Inr (), w1)" "life_frame w w1" "pl_running w1" "pl_slots w1 = Suc (pl_slots w)"
    and st1: "\<forall>e. is_child w e \<longrightarrow> getState e w1 = PLE_STARTED \<and> map_of (readyQueue w1) (el_id (elems w e)) = Some []"
    by blast
  let ?v = "w1\<lparr>pl_heartbeat := False\<rparr>"
  have rq1: "runQueue w1 = []" using s1(2) rq by (simp add: life_frame_def)
  then have wait: "stopWait n workers ?v = Some ?v" by (simp add: stopWait.simps)
  have fr: "life_frame w ?v" using s1(2) by simp
  have v: "wired ?v" by (rule wired_same [OF w life_frame_wiring [OF fr]])
  have ch: "is_child ?v e = is_child w e" for e by (rule life_frame_fields [OF fr])
  have stv: "getState e ?v \<ge> PLE_STARTED" if "is_child ?v e" for e
    using st1 that ch by (simp add: getState_def)
  have hv: "(\<exists>b. snd (hk_stop hk e) = Inr b) \<and> snd (hk_deinit hk e)" if "is_child ?v e" for e
    using h that ch by simp
  from pipeline_stop_run [OF s1(3) wait v stv hv] obtain w2 where
    s2: "pipeline_stop n workers hk w1 = Some (Inr (), w2)" "\<not> pl_running w2" "children w2 = children ?v"
    "pl_slots w2 = pl_slots ?v" "same_wiring ?v w2" "ipins w2 = ipins ?v" "opins w2 = opins ?v"
    "\<forall>c. c_producer (conns w2 c) = c_producer (conns ?v c)"
    "\<forall>e. is_child ?v e \<longrightarrow> getState e w2 = PLE_UNDEFINED \<and> el_serial (elems w2 e) = 0" by blast
  have w2: "wired w2" by (rule wired_same [OF v s2(5)])
  have ch2: "is_child w2 e = is_child w e" for e using same_wiring_pins(3) [OF s2(5)] ch by simp
  have "nodes w2 = nodes w" using ch2 by (auto simp: nodes_is_child)
  moreover have "sources w2 = sources ?v" by (rule sources_cong) (use s2 in auto)
  ultimately have acy2: "acyclic_pipeline w2"
    using acy life_frame_sources [OF fr] by (simp add: acyclic_pipeline_def)
  have req2: "requiredPinsConnected e w2" if "is_child w2 e" for e
    using required_cong [OF s2(6,5)] life_frame_required [OF fr] req that ch2 by simp
  have ne2: "children w2 \<noteq> []" using ne s1(2) s2(3) by (simp add: life_frame_def)
  from pipeline_start_ok [where qset = qset, OF w2 ne2 _ _ req2 acy2 q, of hk] s2(9) ch ch2 h obtain w3 where
    "pipeline_start hk qset w2 = (Inr (), w3)" "pl_running w3" "pl_slots w3 = Suc (pl_slots w2)" by auto
  with s1 s2 show ?thesis by auto
qed

section \<open>Failures\<close>

text \<open>An \<open>init\<close> that throws without having called \<open>setError\<close> leaves its element in \<open>PLE_UNDEFINED\<close>, in which
  \<open>__deinit\<close> may not be called.\<close>

lemma init_throw_asserts:
  assumes "children w = (i, e) # m" and "getState e w = PLE_UNDEFINED"
    and "hk_init hk e = (None, Inl x)" and "catchable x"
  shows "fst (pipeline_init hk qset w) = Inl AssertFailed"
proof -
  let ?w0 = "case el_class (elems w e) of PipelineProducer \<Rightarrow> w | PipelineProcessor \<Rightarrow> initInputPins e w"
  have st: "getState e ?w0 = PLE_UNDEFINED" using assms(2) by (simp split: ple_class.split)
  then have i: "element_init hk e w = (Inl x, ?w0)"
    using assms(3) by (simp add: element_init_def ple_init_cases reportError_def)
  have "element_deinit hk e ?w0 = (Inl AssertFailed, ?w0)"
    unfolding element_deinit_def by (rule ple_deinit_assert) (simp add: st)
  with i assms(1,4) show ?thesis
    by (simp add: pipeline_init_def monad_defs attempt_def initError_def ignoreM_def)
qed

text \<open>An \<open>init\<close> that returns false without having called \<open>setError\<close> counts as a success.\<close>

lemma init_false_ignored:
  assumes "children w = [(i, e)]" and "getState e w = PLE_UNDEFINED"
    and "hk_init hk e = (None, Inr False)" and "el_errorType (elems w e) = PlvNoError"
  shows "\<exists>w'. pipeline_init hk qset w = (Inr True, w')"
    and "qset [e] = [e] \<Longrightarrow> getState e (snd (pipeline_init hk qset w)) = PLE_ERROR"
proof -
  let ?w0 = "case el_class (elems w e) of PipelineProducer \<Rightarrow> w | PipelineProcessor \<Rightarrow> initInputPins e w"
  have st: "getState e ?w0 = PLE_UNDEFINED" using assms(2) by (simp split: ple_class.split)
  have err: "el_errorType (elems ?w0 e) = PlvNoError"
    using assms(4) by (simp add: initInputPins_def split: ple_class.split)
  have i: "element_init hk e w = (Inr False, setState e PLE_ERROR ?w0)"
    using st assms(3) by (simp add: element_init_def ple_init_cases reportError_def)
  have l: "initLoop hk qset [e] [] w = (Inr (Some [e]), setState e PLE_ERROR ?w0)"
    using i err by (simp add: attempt_def initError_def setState_def)
  then show "\<exists>w'. pipeline_init hk qset w = (Inr True, w')"
    using assms(1) by (simp add: pipeline_init_def monad_defs)
  show "getState e (snd (pipeline_init hk qset w)) = PLE_ERROR" if "qset [e] = [e]"
    using assms(1) l that by (simp add: pipeline_init_def monad_defs insertReadyQueue_def getState_def setState_def)
qed

text \<open>\<open>deinit\<close> leaves the ready queue as it is.\<close>

lemma deinitStep_frame: "readyQueue (snd (deinitStep hk e w)) = readyQueue w"
proof -
  obtain r w1 where d: "ple_deinit e (hk_deinit hk e) w = (r, w1)" by fastforce
  with ple_deinit_only [of e w "hk_deinit hk e"] have "only_elem e w w1" by simp
  then have "readyQueue w1 = readyQueue w" by (rule only_elem_frame)
  with d show ?thesis
    by (auto simp: deinitStep_def element_deinit_def bindM_def handleMessage_def split: sum.splits)
qed

lemma pipeline_deinit_readyQueue: "readyQueue (snd (pipeline_deinit hk w)) = readyQueue w"
proof -
  have "readyQueue (snd (forM (deinitStep hk) es w)) = readyQueue w" for es
    by (rule forM_invariant) (simp_all add: deinitStep_frame)
  then show ?thesis
    by (auto simp: pipeline_deinit_def monad_defs split: prod.splits sum.splits)
       (metis snd_conv)+
qed

text \<open>When the graph has a cycle, \<open>start\<close> returns without deinitialising the elements: they stay in
  \<open>PLE_INITIALIZED\<close>, and the next \<open>start\<close> fails the assertion of \<open>__init\<close>.\<close>

lemma start_cycle:
  assumes w: "wired w" and ne: "children w \<noteq> []"
    and u: "\<And>e. is_child w e \<Longrightarrow> getState e w = PLE_UNDEFINED"
    and h: "\<And>e. is_child w e \<Longrightarrow> snd (hk_init hk e) = Inr True"
    and req: "\<And>e. is_child w e \<Longrightarrow> requiredPinsConnected e w"
    and cyc: "\<not> acyclic_pipeline w" and q: "\<And>xs. set (qset xs) = set xs"
  shows "\<exists>w'. pipeline_start hk qset w = (Inr (), w') \<and> pl_running w' = pl_running w \<and> children w' = children w \<and>
    (\<forall>e. is_child w e \<longrightarrow> getState e w' = PLE_INITIALIZED) \<and>
    fst (pipeline_start hk qset w') = Inl AssertFailed"
proof -
  from pipeline_init_ok [where qset = qset, OF w u h q] obtain w2 where
    i: "pipeline_init hk qset w = (Inr True, w2)" and f2: "life_frame w w2"
    and pr: "pl_running w2 = pl_running w"
    and s2: "\<forall>e. is_child w e \<longrightarrow> getState e w2 = PLE_INITIALIZED \<and>
       map_of (readyQueue w2) (el_id (elems w e)) = Some []" by blast
  have w2: "wired w2" by (rule wired_same [OF w life_frame_wiring [OF f2]])
  have c2: "children w2 = children w" using f2 by (simp add: life_frame_def)
  have "\<not> acyclic_pipeline w2"
    using cyc by (simp add: acyclic_pipeline_def life_frame_sources [OF f2] life_frame_fields [OF f2])
  with generateGraphOrdering_correct [OF w2, where qset = qset] ne c2 q obtain ordr where
    g: "generateGraphOrdering qset w2 = Some (Inr False, ordr)" by auto
  have nf: "find (\<lambda>e. \<not> requiredPinsConnected e w2) (map snd (children w2)) = None"
    using req c2 by (auto simp: find_None_iff life_frame_required [OF f2] is_child_def)
  let ?w' = "handleMessage ''Cycle detected in pipeline graph'' (w2\<lparr>pl_ordering := ordr\<rparr>)"
  have run: "pipeline_start hk qset w = (Inr (), ?w')"
    using ne i nf g by (simp add: pipeline_start_def monad_defs)
  have st: "getState e ?w' = PLE_INITIALIZED" if "is_child w e" for e
    using s2 that by (simp add: handleMessage_def getState_def)
  obtain j e m where ch: "children w = (j, e) # m" using ne by (cases "children w") auto
  then have e: "is_child w e" by (simp add: is_child_def)
  have ch': "children ?w' = (j, e) # m" by (simp add: handleMessage_def c2 ch)
  have "element_init hk e ?w' = (Inl AssertFailed, case el_class (elems ?w' e) of
      PipelineProducer \<Rightarrow> ?w' | PipelineProcessor \<Rightarrow> initInputPins e ?w')"
    using st [OF e] by (cases "hk_init hk e") (simp add: element_init_def ple_init_cases split: ple_class.split)
  then have "fst (pipeline_init hk qset ?w') = Inl AssertFailed"
    by (simp add: pipeline_init_def ch' attempt_def catchable_def bindM_def)
  then have again: "fst (pipeline_start hk qset ?w') = Inl AssertFailed"
    using ch' by (auto simp: pipeline_start_def bindM_def split: prod.splits)
  with run st c2 pr show ?thesis by (intro exI [of _ ?w']) (simp add: handleMessage_def)
qed

end
