(* ===== verification/Scheduler.thy ===== *)
theory Scheduler
  imports Life_Cycle
begin

text \<open>
  The scheduler of a running pipeline (\<open>Pipeline::schedule\<close>, \<open>RunItem::dispatch\<close>) and the worker
  threads that execute the dispatched runs.

  A dispatched run is executed by a thread of Qt's pool at some later time.  The system is a transition
  relation: a step is one call of \<open>schedule()\<close> by the heartbeat timer, or one worker thread executing the
  run of one entry of the run queue.  The runs of different elements touch each other's state only
  through the mutex-protected queues, so a run is one step.  What a plug-in does in a run may depend on
  its element, the serial and the time; the relation allows any code that uses the pins of its own
  element only.
\<close>

section \<open>Model\<close>

definition dispatch :: "RunItem \<Rightarrow> ('v plv, RunItem) plvM" where
  "dispatch item w =
     seqM (assertM (getState (ri_element item) w = PLE_STARTED))
     (seqM (assertM (\<not> ri_dispatched item))
     (seqM (modifyM (setState (ri_element item) PLE_DISPATCHED))
     (returnM (item\<lparr>ri_dispatched := True, ri_result := None\<rparr>)))) w"

text \<open>The loop that removes the finished runs.  The result is the element of the first run that
  returned false, which ends the loop, if there is one.\<close>

fun reapLoop :: "(int \<times> RunItem) list \<Rightarrow> 'v plv \<Rightarrow> (plv_exn + ref option) \<times> (int \<times> RunItem) list \<times> 'v plv" where
  "reapLoop [] w = (Inr None, [], w)"
| "reapLoop ((i, item) # rq) w =
     (if \<not> ri_dispatched item then (Inl AssertFailed, (i, item) # rq, w)
      else case ri_result item of
        None \<Rightarrow> (case reapLoop rq w of (r, rq', w') \<Rightarrow> (r, (i, item) # rq', w'))
      | Some False \<Rightarrow> (Inr (Some (ri_element item)), (i, item) # rq, w)
      | Some True \<Rightarrow> reapLoop rq (setState (ri_element item) PLE_STARTED w))"

definition reap :: "('v plv, ref option) plvM" where
  "reap w = (case reapLoop (runQueue w) w of (r, rq, w') \<Rightarrow> (r, w'\<lparr>runQueue := rq\<rparr>))"

definition insertRunQueue :: "ref \<Rightarrow> RunItem \<Rightarrow> 'v plv \<Rightarrow> 'v plv" where
  "insertRunQueue e item w = w\<lparr>runQueue := qh_insert (el_id (elems w e)) item (runQueue w)\<rparr>"

text \<open>One iteration of the loop over the ready queues, for the queue of key \<open>i\<close>.\<close>

definition dispatchReady :: "int \<Rightarrow> ('v plv, unit) plvM" where
  "dispatchReady i w =
     (case map_of (readyQueue w) i of
        None \<Rightarrow> (Inr (), w)
      | Some [] \<Rightarrow> (Inr (), w)
      | Some (item # queue) \<Rightarrow>
          (if qm_contains (el_id (elems w (ri_element item))) (runQueue w) then (Inr (), w)
           else
             seqM (assertM (getState (ri_element item) w < PLE_DISPATCHED))
             (bindM (dispatch item) (\<lambda>item'.
               seqM (modifyM (insertRunQueue (ri_element item) item'))
                 (modifyM (\<lambda>w'. w'\<lparr>readyQueue := qh_insert i queue (readyQueue w')\<rparr>)))) w))"

definition dispatchProducer :: "ref \<Rightarrow> ('v plv, unit) plvM" where
  "dispatchProducer e w =
     bindM (dispatch (runItem e (pl_serial w))) (\<lambda>item. modifyM (insertRunQueue e item)) w"

definition maxQueued :: "'v plv \<Rightarrow> int" where
  "maxQueued w = fold (\<lambda>c mx. max (conn_size c w) mx) (map snd (connections w)) 0"

definition runProducers :: "(ref \<Rightarrow> bool) \<Rightarrow> ('v plv, unit) plvM" where
  "runProducers readyToProduce w =
     (if maxQueued w < 5 \<and> list_all (\<lambda>e. producer_ready (readyToProduce e) e w) (map snd (producers w))
      then seqM (forM dispatchProducer (map snd (producers w)))
             (seqM (modifyM (\<lambda>w'. w'\<lparr>pl_serial := pl_serial w' + 1\<rparr>))
               (\<lambda>w'. modifyM (emit (stepTaken (pl_serial w'))) w')) w
      else (Inr (), w))"

definition errorMessage :: "ref \<Rightarrow> 'v plv \<Rightarrow> string" where
  "errorMessage e w =
     ''Pipeline stopped because of an error in '' @ el_name (elems w e) @ ''. The error is '' @
     el_errorString (elems w e)"

text \<open>\<open>schedule\<close> returns early, after \<open>stop()\<close>, when a run has failed.\<close>

definition schedule ::
    "nat \<Rightarrow> ('v plv \<Rightarrow> 'v plv) \<Rightarrow> plugin_hooks \<Rightarrow> (ref \<Rightarrow> bool) \<Rightarrow> 'v plv \<Rightarrow> ((plv_exn + unit) \<times> 'v plv) option" where
  "schedule n workers hk readyToProduce w =
     (let w0 = w\<lparr>pl_testCount := pl_testCount w + 1\<rparr> in
      if pl_testCount w0 \<noteq> 1 then Some (Inl AssertFailed, w0)
      else case reap w0 of
        (Inl x, w1) \<Rightarrow> Some (Inl x, w1)
      | (Inr (Some e), w1) \<Rightarrow>
          map_option (\<lambda>(r, w2). (r, case r of Inl x \<Rightarrow> w2 | Inr u \<Rightarrow> emit (pipelineMessage (errorMessage e w1)) w2))
            (pipeline_stop n workers hk w1)
      | (Inr None, w1) \<Rightarrow> Some (
          seqM (forM dispatchReady (map fst (readyQueue w1)))
          (seqM (runProducers readyToProduce)
          (seqM (modifyM (\<lambda>w2. w2\<lparr>pl_testCount := pl_testCount w2 - 1\<rparr>))
            (\<lambda>w2. assertM (pl_testCount w2 = 0) w2))) w1))"

text \<open>A worker thread executes the run of entry \<open>i\<close> and stores its result in the future.\<close>

definition setResult :: "int \<Rightarrow> RunItem \<Rightarrow> bool \<Rightarrow> 'v plv \<Rightarrow> 'v plv" where
  "setResult i item b w = w\<lparr>runQueue := qh_insert i (item\<lparr>ri_result := Some b\<rparr>) (runQueue w)\<rparr>"

definition worker :: "'v plugin_code \<Rightarrow> int \<Rightarrow> RunItem \<Rightarrow> ('v plv, unit) plvM" where
  "worker code i item w =
     bindM (run (ri_element item) code (ri_serial item)) (\<lambda>b. modifyM (setResult i item b)) w"

section \<open>Transitions\<close>

definition own_code :: "'v plv \<Rightarrow> ref \<Rightarrow> 'v plugin_code \<Rightarrow> bool" where
  "own_code w e code \<longleftrightarrow> own_pins (set (inputPins e w)) (set (outputPins e w)) code"

text \<open>Of a call of \<open>schedule\<close> the relation has the case in which no run has failed; a failed run makes
  \<open>schedule\<close> stop the pipeline.\<close>

inductive sched_step :: "'v plv \<Rightarrow> 'v plv \<Rightarrow> bool" where
  step_schedule:
    "\<forall>(i, item) \<in> set (runQueue w). ri_result item \<noteq> Some False \<Longrightarrow>
     schedule n workers hk readyToProduce w = Some (Inr (), w') \<Longrightarrow> sched_step w w'"
| step_worker:
    "map_of (runQueue w) i = Some item \<Longrightarrow> ri_result item = None \<Longrightarrow> own_code w (ri_element item) code \<Longrightarrow>
     worker code i item w = (Inr (), w') \<Longrightarrow> sched_step w w'"

inductive_cases sched_stepE: "sched_step w w'"

section \<open>The invariant\<close>

definition ready_ok :: "'v plv \<Rightarrow> bool" where
  "ready_ok w \<longleftrightarrow>
     qh_inv (readyQueue w) \<and>
     (\<forall>(i, items) \<in> set (readyQueue w). \<forall>it \<in> set items.
        is_child w (ri_element it) \<and> el_id (elems w (ri_element it)) = i \<and> \<not> ri_dispatched it)"

definition run_entry_ok :: "'v plv \<Rightarrow> int \<times> RunItem \<Rightarrow> bool" where
  "run_entry_ok w ir \<longleftrightarrow>
     (case ir of (i, item) \<Rightarrow>
        is_child w (ri_element item) \<and> el_id (elems w (ri_element item)) = i \<and> ri_dispatched item \<and>
        (case ri_result item of
           None \<Rightarrow> getState (ri_element item) w = PLE_DISPATCHED
         | Some b \<Rightarrow> getState (ri_element item) w = PLE_DONE \<or> getState (ri_element item) w = PLE_ERROR))"

definition run_ok :: "'v plv \<Rightarrow> bool" where
  "run_ok w \<longleftrightarrow>
     qh_inv (runQueue w) \<and> (\<forall>ir \<in> set (runQueue w). run_entry_ok w ir) \<and>
     (\<forall>(i, e) \<in> set (children w). \<not> qm_contains i (runQueue w) \<longrightarrow> getState e w = PLE_STARTED)"

definition sched_inv :: "'v plv \<Rightarrow> bool" where
  "sched_inv w \<longleftrightarrow>
     wired w \<and> pl_running w \<and> pl_testCount w = 0 \<and> ready_ok w \<and> run_ok w \<and>
     (\<forall>(i, e) \<in> set (children w). qm_contains i (readyQueue w))"

end
