(* ===== verification/Run_Frame.thy ===== *)
theory Run_Frame
  imports Scheduler
begin

text \<open>
  What a run of an element leaves as it is: the wiring, the states of the other elements, the run
  queue; and what it adds to the ready queues.
\<close>

section \<open>Invariants of plug-in code\<close>

text \<open>A predicate that every call of a pin of the element keeps is kept by all its code, whether the
  code returns or throws.\<close>

lemma exec_preserves:
  assumes err: "\<And>t m w. I w \<Longrightarrow> I (setError e t m w)"
    and get: "\<And>q w. q \<in> ins \<Longrightarrow> I w \<Longrightarrow> I (snd (getVariant q w))"
    and clr: "\<And>q w. q \<in> ins \<Longrightarrow> I w \<Longrightarrow> I (snd (ipin_clear q w))"
    and put: "\<And>p v w. p \<in> outs \<Longrightarrow> I w \<Longrightarrow> I (snd (opin_put p v w))"
  shows "own_pins ins outs code \<Longrightarrow> I w \<Longrightarrow> I (snd (exec code e w))"
proof (induction code arbitrary: w)
  case (SetError t msg k)
  then show ?case using err by (simp add: monad_defs)
next
  case (Get q k)
  obtain r w1 where g: "getVariant q w = (r, w1)" by fastforce
  with get [of q w] Get.prems have "I w1" by simp
  with Get g show ?case by (auto simp: attempt_def split: sum.splits)
next
  case (Clear q k)
  obtain r w1 where g: "ipin_clear q w = (r, w1)" by fastforce
  with clr [of q w] Clear.prems have "I w1" by simp
  with Clear g show ?case by (auto simp: attempt_def split: sum.splits)
next
  case (Put p v k)
  obtain r w1 where g: "opin_put p v w = (r, w1)" by fastforce
  with put [of p w v] Put.prems have "I w1" by simp
  with Put g show ?case by (auto simp: attempt_def split: sum.splits)
qed (simp_all add: monad_defs)

section \<open>The frame of a run\<close>

definition run_frame :: "ref \<Rightarrow> 'v plv \<Rightarrow> 'v plv \<Rightarrow> bool" where
  "run_frame e w0 w \<longleftrightarrow>
     same_wiring w0 w \<and> nextConn w = nextConn w0 \<and>
     (\<forall>x. x \<noteq> e \<longrightarrow> getState x w = getState x w0) \<and>
     runQueue w = runQueue w0 \<and> pl_running w = pl_running w0 \<and> pl_testCount w = pl_testCount w0 \<and>
     pl_serial w = pl_serial w0 \<and> map fst (readyQueue w) = map fst (readyQueue w0) \<and> ready_ok w"

lemma run_frame_refl: "ready_ok w \<Longrightarrow> run_frame e w w"
  by (simp add: run_frame_def)

lemma run_frame_wired: "run_frame e w0 w \<Longrightarrow> wired w0 \<Longrightarrow> wired w"
  by (auto simp: run_frame_def intro: wired_same)

lemma ready_ok_cong:
  assumes "ready_ok w" and "same_wiring w w'" and "readyQueue w' = readyQueue w"
  shows "ready_ok w'"
  using assms by (auto simp: ready_ok_def same_wiring_def is_child_def)

text \<open>A change that keeps the wiring, the states of the others and the queues keeps the frame.\<close>

lemma run_frame_step:
  assumes "run_frame e w0 w" and "same_wiring w w'" and "nextConn w' = nextConn w"
    and "\<And>x. x \<noteq> e \<Longrightarrow> getState x w' = getState x w"
    and "runQueue w' = runQueue w" "pl_running w' = pl_running w" "pl_testCount w' = pl_testCount w"
      "pl_serial w' = pl_serial w" "readyQueue w' = readyQueue w"
  shows "run_frame e w0 w'"
  using assms ready_ok_cong [OF _ assms(2)]
  by (auto simp: run_frame_def intro: same_wiring_trans)

lemma run_frame_updates:
  assumes "run_frame e w0 w"
  shows "run_frame e w0 (upd_ipin q (\<lambda>qi. qi\<lparr>ip_called := b\<rparr>) w)"
    and "run_frame e w0 (upd_opin p (\<lambda>po. po\<lparr>op_called := b\<rparr>) w)"
    and "run_frame e w0 (upd_conn c conn_pop w)"
    and "run_frame e w0 (upd_conn c (conn_push d) w)"
    and "run_frame e w0 (emit sg w)"
    and "run_frame e w0 (setState e st w)"
    and "run_frame e w0 (setProcessingSerial e s w)"
    and "run_frame e w0 (upd_elem x (\<lambda>el. el\<lparr>el_scoreboard := sb\<rparr>) w)"
    and "run_frame e w0 (upd_elem e (\<lambda>el. el\<lparr>el_errorString := m, el_errorType := t\<rparr>) w)"
  by (rule run_frame_step [OF assms];
      simp add: same_wiring_def setProcessingSerial_def setState_def getState_def)+

lemma run_frame_setError: "run_frame e w0 w \<Longrightarrow> run_frame e w0 (setError e t m w)"
  unfolding setError_def by (intro run_frame_updates)

lemma fst_qh_insert_present:
  "map_of m k \<noteq> None \<Longrightarrow> map fst (qh_insert k v m) = map fst m"
  by (induction k v m rule: qh_insert.induct) (auto split: if_splits)

lemma set_qh_insert: "set (qh_insert k v m) \<subseteq> insert (k, v) (set m)"
  by (induction k v m rule: qh_insert.induct) auto

lemma set_qh_insert_other:
  "qh_inv m \<Longrightarrow> (j, x) \<in> set (qh_insert k v m) \<longleftrightarrow> (j, x) = (k, v) \<or> (j \<noteq> k \<and> (j, x) \<in> set m)"
  by (induction k v m rule: qh_insert.induct) (auto simp: qh_inv_def rev_image_eqI)

lemma run_frame_ready:
  assumes "run_frame e w0 w" and "is_child w x"
  shows "run_frame e w0 (snd (pipelineDataConsumerReady s x w))"
proof (cases "map_of (readyQueue w) (el_id (elems w x))")
  case None
  with assms(1) show ?thesis by (simp add: pipelineDataConsumerReady_def Let_def)
next
  case (Some items)
  let ?i = "el_id (elems w x)"
  let ?w' = "w\<lparr>readyQueue := qh_insert ?i (items @ [runItem x s]) (readyQueue w)\<rparr>"
  from assms(1) have ok: "ready_ok w" by (simp add: run_frame_def)
  from Some have "(?i, items) \<in> set (readyQueue w)" by (rule map_of_SomeD)
  with ok have its: "is_child w (ri_element it) \<and> el_id (elems w (ri_element it)) = ?i \<and> \<not> ri_dispatched it"
    if "it \<in> set items" for it using that by (auto simp: ready_ok_def)
  have old: "is_child w (ri_element it) \<and> el_id (elems w (ri_element it)) = j \<and> \<not> ri_dispatched it"
    if "(j, its) \<in> set (readyQueue w)" "it \<in> set its" for j its it
    using ok that by (auto simp: ready_ok_def)
  have "is_child w (ri_element it) \<and> el_id (elems w (ri_element it)) = j \<and> \<not> ri_dispatched it"
    if j: "(j, its) \<in> set (qh_insert ?i (items @ [runItem x s]) (readyQueue w))" "it \<in> set its" for j its it
  proof (cases "(j, its) \<in> set (readyQueue w)")
    case True
    with old j(2) show ?thesis by blast
  next
    case False
    with j(1) set_qh_insert have "j = ?i" "its = items @ [runItem x s]" by fastforce+
    with j(2) its [of it] assms(2) show ?thesis by (auto simp: runItem_def)
  qed
  then have "ready_ok ?w'"
    using ok by (auto simp: ready_ok_def qh_inv_insert is_child_def)
  moreover have "same_wiring w ?w'" by (simp add: same_wiring_def)
  ultimately have "run_frame e w0 ?w'"
    using assms(1) Some same_wiring_trans
    by (auto simp: run_frame_def fst_qh_insert_present getState_def)
  with Some show ?thesis by (simp add: pipelineDataConsumerReady_def Let_def)
qed

lemma is_child_upd [simp]:
  "is_child (upd_elem x f w) y = is_child w y" "is_child (upd_conn c g w) y = is_child w y"
  "is_child (upd_ipin q h w) y = is_child w y" "is_child (upd_opin p k w) y = is_child w y"
  "is_child (emit sg w) y = is_child w y"
  by (simp_all add: is_child_def)

lemma run_frame_newData:
  assumes "run_frame e w0 w" and "is_child w x"
  shows "run_frame e w0 (snd (newData x q s w))"
  using assms run_frame_ready [OF assms] run_frame_updates(8) [OF assms(1)]
    run_frame_ready [OF run_frame_updates(8) [OF assms(1)]]
  by (auto simp: newData_def Let_def split: prod.splits)

text \<open>A put on a connection of the pipeline.\<close>

lemma run_frame_conn_put:
  assumes f: "run_frame e w0 w" and w0: "wired w0" and c: "(i, c) \<in> set (connections w0)"
  shows "run_frame e w0 (snd (conn_put c d w))"
proof -
  have w: "wired w" by (rule run_frame_wired [OF f w0])
  from c f have c': "(i, c) \<in> set (connections w)" by (simp add: run_frame_def same_wiring_def)
  from wired_connection(3) [OF w c'] obtain p q where b: "conn_between w c p q" by blast
  then have q: "c_consumer (conns w c) = Some q" "is_child w (ip_owner (ipins w q))"
    by (auto simp: conn_between_def)
  have "run_frame e w0 (snd (newData (ip_owner (ipins w q)) q (d_serial d) (upd_conn c (conn_push d) w)))"
    by (rule run_frame_newData [OF run_frame_updates(4) [OF f]]) (simp add: q)
  with q show ?thesis by (simp add: conn_put_def Let_def acceptData_def)
qed

lemma run_frame_forM:
  assumes "run_frame e w0 w"
    and "\<And>x t. x \<in> set xs \<Longrightarrow> run_frame e w0 t \<Longrightarrow> run_frame e w0 (snd (f x t))"
  shows "run_frame e w0 (snd (forM f xs w))"
  using assms by (rule forM_invariant)

lemma run_frame_get:
  assumes "run_frame e w0 w"
  shows "run_frame e w0 (snd (conn_get c w))"
  using assms run_frame_updates(3) [OF assms] by (auto simp: conn_get_def split: option.splits)

lemma run_frame_removeFirst:
  assumes "run_frame e w0 w"
  shows "run_frame e w0 (snd (removeFirst q w))"
proof (cases "ip_connection (ipins w q)")
  case None
  with assms show ?thesis by (simp add: removeFirst_def)
next
  case (Some c)
  obtain r w1 where g: "conn_get c w = (r, w1)" by fastforce
  with run_frame_get [OF assms, of c] have "run_frame e w0 w1" by simp
  with g Some show ?thesis by (auto simp: removeFirst_def monad_defs split: sum.splits)
qed

lemma run_frame_getVariant:
  assumes "run_frame e w0 w"
  shows "run_frame e w0 (snd (getVariant q w))"
proof -
  let ?w1 = "upd_ipin q (\<lambda>qi. qi\<lparr>ip_called := True\<rparr>) w"
  have f: "run_frame e w0 ?w1" by (rule run_frame_updates [OF assms])
  have "run_frame e w0 w2" if "conn_get c ?w1 = (r, w2)" for c r w2
    using run_frame_get [OF f, of c] that by simp
  with assms f show ?thesis
    by (auto simp: getVariant_def Let_def bindM_def returnM_def throwM_def
        split: option.splits prod.splits sum.splits)
qed

lemma run_frame_clear:
  assumes "run_frame e w0 w"
  shows "run_frame e w0 (snd (ipin_clear q w))"
  using assms run_frame_updates(1) [OF assms] run_frame_removeFirst [OF run_frame_updates(1) [OF assms]]
  by (auto simp: ipin_clear_def Let_def)

text \<open>The output pins of a child have connections of the pipeline only.\<close>

lemma run_frame_pin_connections:
  assumes "run_frame e w0 w" and "wired w0" and "is_child w0 x" and "p \<in> set (outputPins x w0)"
    and "c \<in> set (op_connections (opins w p))"
  shows "\<exists>i. (i, c) \<in> set (connections w0)"
  using wired_output_connection(1) [OF assms(2-4), of c] assms(1,5)
  by (auto simp: run_frame_def same_wiring_def)

lemma run_frame_put:
  assumes f: "run_frame e w0 w" and w0: "wired w0" and x: "is_child w0 x" "p \<in> set (outputPins x w0)"
  shows "run_frame e w0 (snd (opin_put p v w))"
proof -
  let ?s = "el_serial (elems w (op_owner (opins w p)))"
  let ?w1 = "emit (viewerData p ?s) (upd_opin p (\<lambda>po. po\<lparr>op_called := True\<rparr>) w)"
  have f1: "run_frame e w0 ?w1" by (intro run_frame_updates f)
  have "run_frame e w0 (snd (forM (\<lambda>c. conn_put c (Data_payload ?s v)) (op_connections (opins w p)) ?w1))"
  proof (rule run_frame_forM [OF f1])
    fix c t assume c: "c \<in> set (op_connections (opins w p))" and t: "run_frame e w0 t"
    from run_frame_pin_connections [OF f w0 x c] obtain i where "(i, c) \<in> set (connections w0)" by blast
    with t w0 show "run_frame e w0 (snd (conn_put c (Data_payload ?s v) t))" by (rule run_frame_conn_put)
  qed
  with f show ?thesis by (simp add: opin_put_def putVariant_def Let_def)
qed

lemma run_frame_post:
  assumes f: "run_frame e w0 w" and w0: "wired w0" and x: "is_child w0 x" "p \<in> set (outputPins x w0)"
  shows "run_frame e w0 (snd (opin_post p w))"
proof -
  have "run_frame e w0 (snd (forM (postConn d) (op_connections (opins w p)) w))" for d
  proof (rule run_frame_forM [OF f])
    fix c t assume c: "c \<in> set (op_connections (opins w p))" and t: "run_frame e w0 t"
    from run_frame_pin_connections [OF f w0 x c] obtain i where "(i, c) \<in> set (connections w0)" by blast
    with t w0 have "run_frame e w0 (snd (conn_put c d t))" by (rule run_frame_conn_put)
    with t show "run_frame e w0 (snd (postConn d c t))" by (simp add: postConn_def split: sum.split)
  qed
  with f show ?thesis by (simp add: opin_post_def)
qed

section \<open>The frame of \<open>__process\<close> and \<open>run\<close>\<close>

lemma run_frame_bind:
  assumes "run_frame e w0 (snd (m w))"
    and "\<And>a w'. m w = (Inr a, w') \<Longrightarrow> run_frame e w0 w' \<Longrightarrow> run_frame e w0 (snd (f a w'))"
  shows "run_frame e w0 (snd (bindM m f w))"
  using assms by (cases "m w") (auto simp: bindM_def split: sum.splits)

lemma run_frame_seq:
  assumes "run_frame e w0 (snd (m w))"
    and "\<And>w'. m w = (Inr (), w') \<Longrightarrow> run_frame e w0 w' \<Longrightarrow> run_frame e w0 (snd (n w'))"
  shows "run_frame e w0 (snd (seqM m n w))"
  unfolding seqM_def using assms by (intro run_frame_bind) auto

lemma run_frame_assert: "run_frame e w0 w \<Longrightarrow> run_frame e w0 (snd (assertM b w))"
  by (simp add: assertM_def)

lemma run_frame_return: "run_frame e w0 w \<Longrightarrow> run_frame e w0 (snd (returnM a w))"
  by (simp add: returnM_def)

lemma run_frame_modify: "run_frame e w0 (f w) \<Longrightarrow> run_frame e w0 (snd (modifyM f w))"
  by (simp add: modifyM_def)

lemma run_frame_preInput:
  "run_frame e w0 w \<Longrightarrow> run_frame e w0 (snd (preInputLoop qs b w))"
proof (induction qs arbitrary: b w)
  case Nil
  then show ?case by simp
next
  case (Cons q qs)
  have "run_frame e w0 (ipin_pre q w)" unfolding ipin_pre_def by (rule run_frame_updates [OF Cons.prems])
  with Cons show ?case by (auto split: sum.splits)
qed

lemma run_frame_preOutput: "run_frame e w0 w \<Longrightarrow> run_frame e w0 (preOutput x w)"
proof -
  have "run_frame e w0 w \<Longrightarrow> run_frame e w0 (fold opin_pre ps w)" for ps
    by (induction ps arbitrary: w) (auto simp: opin_pre_def run_frame_updates)
  then show "run_frame e w0 w \<Longrightarrow> run_frame e w0 (preOutput x w)" by (simp add: preOutput_def)
qed

lemma run_frame_outputPins: "run_frame e w0 w \<Longrightarrow> outputPins x w = outputPins x w0"
  by (auto simp: run_frame_def dest: same_wiring_pins)

lemma run_frame_postOutput:
  assumes f: "run_frame e w0 w" and w0: "wired w0" and x: "is_child w0 x"
  shows "run_frame e w0 (snd (postOutput x w))"
  unfolding postOutput_def
proof (rule run_frame_forM [OF f])
  fix p t assume "p \<in> set (outputPins x w)" and t: "run_frame e w0 t"
  then have "p \<in> set (outputPins x w0)" using run_frame_outputPins [OF f] by simp
  with t w0 x show "run_frame e w0 (snd (opin_post p t))" by (intro run_frame_post)
qed

lemma run_frame_flush:
  assumes "run_frame e w0 w"
  shows "run_frame e w0 (snd (flushFirstOnSynchronousPins x w))"
  unfolding flushFirstOnSynchronousPins_def
  by (rule run_frame_forM [OF assms]) (auto intro: run_frame_removeFirst)

lemma run_frame_exec:
  assumes "run_frame e w0 w" and w0: "wired w0" and e: "is_child w0 e" and "own_code w0 e code"
  shows "run_frame e w0 (snd (exec code e w))"
proof (rule exec_preserves [where I = "run_frame e w0"])
  show "own_pins (set (inputPins e w0)) (set (outputPins e w0)) code" using assms(4) by (simp add: own_code_def)
qed (use assms(1) in \<open>auto intro: run_frame_setError run_frame_getVariant run_frame_clear run_frame_put [OF _ w0 e]\<close>)

lemma run_frame_processor:
  assumes f: "run_frame e w0 w" and w0: "wired w0" and e: "is_child w0 e" and code: "own_code w0 e code"
  shows "run_frame e w0 (snd (processor_process e code s w))"
  unfolding processor_process_def
proof (intro run_frame_seq run_frame_bind)
  show "run_frame e w0 (snd (assertM (requiredPinsConnected e w) w))" by (rule run_frame_assert [OF f])
next
  fix w1 assume "run_frame e w0 w1"
  then show "run_frame e w0 (snd (assertM (getState e w = PLE_RUNNING) w1))" by (rule run_frame_assert)
next
  fix w1 assume "run_frame e w0 w1"
  then show "run_frame e w0 (snd (modifyM (setProcessingSerial e s) w1))"
    by (intro run_frame_modify run_frame_updates)
next
  fix w1 assume "run_frame e w0 w1"
  then show "run_frame e w0 (snd (preInput e w1))" unfolding preInput_def by (rule run_frame_preInput)
next
  fix nul w1 assume w1: "run_frame e w0 w1"
  show "run_frame e w0 (snd ((if nul then
          seqM (flushFirstOnSynchronousPins e) (seqM (modifyM (preOutput e)) (seqM (postOutput e) (returnM True)))
        else seqM (modifyM (preOutput e)) (bindM (exec code e) (\<lambda>retval. seqM (postOutput e) (returnM retval)))) w1))"
  proof (cases nul)
    case True
    with w1 show ?thesis
      by (auto intro!: run_frame_seq intro: run_frame_flush run_frame_preOutput
          run_frame_postOutput [OF _ w0 e] run_frame_return simp: modifyM_def)
  next
    case False
    with w1 show ?thesis
      by (auto intro!: run_frame_seq run_frame_bind intro: run_frame_exec [OF _ w0 e code]
          run_frame_preOutput run_frame_postOutput [OF _ w0 e] run_frame_return simp: modifyM_def)
  qed
qed

lemma run_frame_producer:
  assumes f: "run_frame e w0 w" and w0: "wired w0" and e: "is_child w0 e" and code: "own_code w0 e code"
  shows "run_frame e w0 (snd (producer_process e code s w))"
  unfolding producer_process_def
proof (intro run_frame_seq run_frame_bind)
  show "run_frame e w0 (snd (assertM (el_serial (elems w e) < s \<or> s = 0) w))" by (rule run_frame_assert [OF f])
next
  fix w1 assume "run_frame e w0 w1"
  then show "run_frame e w0 (snd (modifyM (setProcessingSerial e s) w1))"
    by (intro run_frame_modify run_frame_updates)
next
  fix w1 assume "run_frame e w0 w1"
  then show "run_frame e w0 (snd (modifyM (preOutput e) w1))"
    by (intro run_frame_modify run_frame_preOutput)
next
  fix w1 assume "run_frame e w0 w1"
  then show "run_frame e w0 (snd (exec code e w1))" by (rule run_frame_exec [OF _ w0 e code])
next
  fix retval w1 assume "run_frame e w0 w1"
  then show "run_frame e w0 (snd (postOutput e w1))" by (rule run_frame_postOutput [OF _ w0 e])
next
  fix retval w1 assume w1: "run_frame e w0 w1"
  then show "run_frame e w0 (snd (modifyM (\<lambda>w'. if retval then w' else setState e PLE_ERROR w') w1))"
    using run_frame_updates(6) [OF w1] by (simp add: modifyM_def)
next
  fix retval w1 assume "run_frame e w0 w1"
  then show "run_frame e w0 (snd (returnM retval w1))" by (rule run_frame_return)
qed

lemma run_frame_run:
  assumes f: "run_frame e w0 w" and w0: "wired w0" and e: "is_child w0 e" and code: "own_code w0 e code"
  shows "run_frame e w0 (snd (run e code s w))"
proof (cases "getState e w = PLE_DISPATCHED")
  case False
  with f show ?thesis by (simp add: run_def monad_defs)
next
  case True
  let ?w1 = "setState e PLE_RUNNING w"
  have f1: "run_frame e w0 ?w1" by (rule run_frame_updates [OF f])
  obtain r w2 where p: "element_process e code s ?w1 = (r, w2)" by fastforce
  have "run_frame e w0 (snd (element_process e code s ?w1))"
    using run_frame_processor [OF f1 w0 e code] run_frame_producer [OF f1 w0 e code]
    by (simp add: element_process_def split: ple_class.split)
  with p have f2: "run_frame e w0 w2" by simp
  from f2 p True show ?thesis
    by (auto simp: run_def monad_defs attempt_def run_frame_setError run_frame_updates split: sum.splits)
qed

lemma run_state:
  assumes "run e code s w = (Inr b, w')"
  shows "getState e w' = PLE_DONE \<or> getState e w' = PLE_ERROR"
proof -
  have err: "getState e (setError e t m v) = PLE_ERROR" for t m and v :: "'a plv"
    by (simp add: setError_def getState_def setState_def)
  obtain r w2 where p: "element_process e code s (setState e PLE_RUNNING w) = (r, w2)" by fastforce
  with assms err show ?thesis
    by (auto simp: run_def monad_defs attempt_def split: sum.splits if_splits)
qed

end
