(* ===== verification/Scheduler_Inv.thy ===== *)
theory Scheduler_Inv
  imports Run_Frame
begin

text \<open>
  The invariant of a running pipeline: the run queue holds exactly the elements that are dispatched,
  running or done, every other element is in \<open>PLE_STARTED\<close>, and the ready queues hold undispatched
  items of their own element.  Every transition keeps it, and under it none of the assertions of
  \<open>schedule()\<close> and \<open>dispatch()\<close> can fail.
\<close>

definition sched_core :: "'v plv \<Rightarrow> bool" where
  "sched_core w \<longleftrightarrow>
     wired w \<and> pl_running w \<and> ready_ok w \<and> run_ok w \<and>
     (\<forall>(i, e) \<in> set (children w). qm_contains i (readyQueue w))"

lemma sched_inv_core: "sched_inv w \<longleftrightarrow> sched_core w \<and> pl_testCount w = 0"
  by (auto simp: sched_inv_def sched_core_def)

lemma sched_core_wired: "sched_core w \<Longrightarrow> wired w"
  by (simp add: sched_core_def)

section \<open>Entries of the run queue\<close>

lemma child_id_inject:
  assumes "wired w" and "is_child w x" and "is_child w y" and "el_id (elems w x) = el_id (elems w y)"
  shows "x = y"
proof -
  have "Some x = Some y"
    unfolding wired_child(2) [OF assms(1,2), symmetric] wired_child(2) [OF assms(1,3), symmetric] assms(4) ..
  then show ?thesis by simp
qed

lemma run_okI:
  assumes "qh_inv (runQueue w)" and "\<And>i item. (i, item) \<in> set (runQueue w) \<Longrightarrow> run_entry_ok w (i, item)"
    and "\<And>i e. (i, e) \<in> set (children w) \<Longrightarrow> \<not> qm_contains i (runQueue w) \<Longrightarrow> getState e w = PLE_STARTED"
  shows "run_ok w"
  using assms by (auto simp: run_ok_def)

lemma run_entry:
  assumes "run_ok w" and "(i, item) \<in> set (runQueue w)"
  shows "is_child w (ri_element item)" "el_id (elems w (ri_element item)) = i" "ri_dispatched item"
    and "getState (ri_element item) w \<ge> PLE_DISPATCHED"
proof -
  from assms have ok: "run_entry_ok w (i, item)" by (simp add: run_ok_def)
  then show "is_child w (ri_element item)" "el_id (elems w (ri_element item)) = i" "ri_dispatched item"
    by (simp_all add: run_entry_ok_def)
  from ok have "getState (ri_element item) w \<in> {PLE_DISPATCHED, PLE_DONE, PLE_ERROR}"
    by (cases "ri_result item") (simp_all add: run_entry_ok_def)
  then show "getState (ri_element item) w \<ge> PLE_DISPATCHED" by (auto simp: state_order)
qed

text \<open>Only these parts of the state matter for \<open>run_ok\<close>.\<close>

lemma run_ok_cong:
  assumes "run_ok w" and "runQueue w' = runQueue w" and "children w' = children w"
    and "\<And>x. getState x w' = getState x w" and "\<And>x. el_id (elems w' x) = el_id (elems w x)"
  shows "run_ok w'"
proof -
  have "run_entry_ok w' ir = run_entry_ok w ir" for ir
    using assms by (cases ir) (simp add: run_entry_ok_def is_child_def split: option.split)
  with assms show ?thesis by (simp add: run_ok_def)
qed

lemma not_queued_started:
  assumes "run_ok w" and "wired w" and "is_child w e" and "\<not> qm_contains (el_id (elems w e)) (runQueue w)"
  shows "getState e w = PLE_STARTED"
  using assms map_of_SomeD [OF wired_child(2) [OF assms(2,3)]] by (auto simp: run_ok_def)

lemma ready_not_queued:
  assumes "run_ok w" and "wired w" and "is_child w e" and "getState e w < PLE_DISPATCHED"
  shows "\<not> qm_contains (el_id (elems w e)) (runQueue w)"
proof
  assume "qm_contains (el_id (elems w e)) (runQueue w)"
  then obtain item where it: "(el_id (elems w e), item) \<in> set (runQueue w)" by (auto simp: qm_contains_def)
  note r = run_entry [OF assms(1) it]
  have "ri_element item = e" by (rule child_id_inject [OF assms(2) r(1) assms(3) r(2)])
  with r(4) assms(4) show False by simp
qed

section \<open>Workers\<close>

lemma worker_inv:
  assumes inv: "sched_core w" and it: "map_of (runQueue w) i = Some item"
    and code: "own_code w (ri_element item) code" and step: "worker code i item w = (Inr (), w')"
  shows "sched_core w' \<and> pl_testCount w' = pl_testCount w"
proof -
  let ?e = "ri_element item"
  from inv have w: "wired w" and rd: "ready_ok w" and ro: "run_ok w" by (auto simp: sched_core_def)
  note ent = run_entry [OF ro map_of_SomeD [OF it]]
  from step obtain b w1 where run: "run ?e code (ri_serial item) w = (Inr b, w1)"
    and w': "w' = setResult i item b w1" by (auto simp: worker_def run_simps)
  from run_frame_run [OF run_frame_refl [OF rd] w ent(1) code] run have f: "run_frame ?e w w1"
    by (metis snd_conv)
  have w1: "wired w1" by (rule run_frame_wired [OF f w])
  have rq: "runQueue w1 = runQueue w" and st: "\<And>x. x \<noteq> ?e \<Longrightarrow> getState x w1 = getState x w"
    and sw: "same_wiring w w1" and rk: "map fst (readyQueue w1) = map fst (readyQueue w)"
    and rd1: "ready_ok w1" using f by (auto simp: run_frame_def)
  have sw': "same_wiring w w'" using sw by (simp add: same_wiring_def w' setResult_def)
  have st': "getState x w' = getState x w1" for x by (simp add: w' setResult_def getState_def)
  have child: "is_child w' x = is_child w x" "el_id (elems w' x) = el_id (elems w x)" for x
    using sw' same_wiring_pins(3) by (auto simp: same_wiring_def)
  let ?rq = "qh_insert i (item\<lparr>ri_result := Some b\<rparr>) (runQueue w)"
  have rq': "runQueue w' = ?rq" by (simp add: w' setResult_def rq)
  have qi: "qh_inv (runQueue w)" using ro by (simp add: run_ok_def)
  have "run_entry_ok w' (j, it')" if j: "(j, it') \<in> set ?rq" for j it'
  proof (cases "j = i")
    case True
    with j set_qh_insert_other [OF qi] have "it' = item\<lparr>ri_result := Some b\<rparr>" by auto
    with True ent run_state [OF run] st' show ?thesis by (simp add: run_entry_ok_def child)
  next
    case False
    with j set_qh_insert_other [OF qi] have j': "(j, it') \<in> set (runQueue w)" by auto
    note ent' = run_entry [OF ro j']
    from False ent' ent have "ri_element it' \<noteq> ?e" by auto
    with ro j' st st' show ?thesis by (auto simp: run_ok_def run_entry_ok_def child split: option.splits)
  qed
  moreover have "getState x w' = PLE_STARTED"
    if x: "(j, x) \<in> set (children w')" "\<not> qm_contains j (runQueue w')" for j x
  proof -
    have cx: "(j, x) \<in> set (children w)" using x sw' by (simp add: same_wiring_def)
    have nq: "\<not> qm_contains j (runQueue w)" "j \<noteq> i"
      using x(2) by (auto simp: rq' qm_contains_def fst_set_qh_insert)
    have "el_id (elems w x) = j" by (rule wired_maps(4) [OF w cx])
    with nq(2) ent(2) have "x \<noteq> ?e" by auto
    with ro cx nq(1) st st' show ?thesis by (auto simp: run_ok_def)
  qed
  ultimately have "run_ok w'" using qi by (auto simp: run_ok_def rq' qh_inv_insert)
  moreover have "wired w'" by (rule wired_same [OF w sw'])
  moreover have "ready_ok w'" using rd1 by (simp add: ready_ok_def w' setResult_def is_child_def)
  moreover have "qm_contains j (readyQueue w')" if "(j, x) \<in> set (children w')" for j x
    using inv that sw' rk by (auto simp: sched_core_def same_wiring_def qm_contains_def w' setResult_def)
  moreover have "pl_running w'" "pl_testCount w' = pl_testCount w"
    using inv f by (simp_all add: sched_core_def run_frame_def w' setResult_def)
  ultimately show ?thesis by (auto simp: sched_core_def)
qed

section \<open>Dispatching\<close>

definition dispatched_state :: "ref \<Rightarrow> RunItem \<Rightarrow> 'v plv \<Rightarrow> 'v plv" where
  "dispatched_state e item w =
     insertRunQueue e (item\<lparr>ri_dispatched := True, ri_result := None\<rparr>) (setState e PLE_DISPATCHED w)"

lemma dispatched_state_simps [simp]:
  "children (dispatched_state e item w) = children w"
  "producers (dispatched_state e item w) = producers w"
  "readyQueue (dispatched_state e item w) = readyQueue w"
  "pl_running (dispatched_state e item w) = pl_running w"
  "pl_testCount (dispatched_state e item w) = pl_testCount w"
  "el_id (elems (dispatched_state e item w) x) = el_id (elems w x)"
  "is_child (dispatched_state e item w) x = is_child w x"
  "getState x (dispatched_state e item w) = (if x = e then PLE_DISPATCHED else getState x w)"
  by (simp_all add: dispatched_state_def insertRunQueue_def setState_def getState_def is_child_def)

lemma dispatched_state_queue:
  "runQueue (dispatched_state e item w) =
     qh_insert (el_id (elems w e)) (item\<lparr>ri_dispatched := True, ri_result := None\<rparr>) (runQueue w)"
  by (simp add: dispatched_state_def insertRunQueue_def setState_def)

lemma same_wiring_dispatched: "same_wiring w (dispatched_state e item w)"
  by (simp add: same_wiring_def dispatched_state_def insertRunQueue_def setState_def)

lemma dispatched_inv:
  assumes inv: "sched_core w" and e: "is_child w e" and item: "ri_element item = e"
    and nq: "\<not> qm_contains (el_id (elems w e)) (runQueue w)"
  shows "sched_core (dispatched_state e item w)"
proof -
  let ?w = "dispatched_state e item w" and ?i = "el_id (elems w e)"
  from inv have w: "wired w" and rd: "ready_ok w" and ro: "run_ok w" by (auto simp: sched_core_def)
  have qi: "qh_inv (runQueue w)" using ro by (simp add: run_ok_def)
  have entries: "run_entry_ok ?w (j, it')" if j: "(j, it') \<in> set (runQueue ?w)" for j it'
  proof (cases "j = ?i")
    case True
    with j set_qh_insert_other [OF qi] have "it' = item\<lparr>ri_dispatched := True, ri_result := None\<rparr>"
      by (auto simp: dispatched_state_queue)
    with True item e show ?thesis by (simp add: run_entry_ok_def)
  next
    case False
    with j set_qh_insert_other [OF qi] have j': "(j, it') \<in> set (runQueue w)"
      by (auto simp: dispatched_state_queue)
    note ent' = run_entry [OF ro j']
    from False ent' have "ri_element it' \<noteq> e" by auto
    with ro j' show ?thesis by (auto simp: run_ok_def run_entry_ok_def split: option.splits)
  qed
  have others: "getState x ?w = PLE_STARTED"
    if x: "(j, x) \<in> set (children w)" "\<not> qm_contains j (runQueue ?w)" for j x
  proof -
    have j: "\<not> qm_contains j (runQueue w)" "j \<noteq> ?i"
      using x(2) by (auto simp: dispatched_state_queue qm_contains_def fst_set_qh_insert)
    with wired_maps(4) [OF w x(1)] have "x \<noteq> e" by auto
    with ro x(1) j(1) show ?thesis by (auto simp: run_ok_def)
  qed
  have "run_ok ?w"
    using qi entries others by (intro run_okI) (simp_all add: dispatched_state_queue qh_inv_insert)
  moreover have "wired ?w" by (rule wired_same [OF w same_wiring_dispatched])
  moreover have "ready_ok ?w" using rd by (simp add: ready_ok_def)
  ultimately show ?thesis using inv by (simp add: sched_core_def)
qed

lemma dispatch_run:
  assumes "getState (ri_element item) w = PLE_STARTED" and "\<not> ri_dispatched item"
  shows "dispatch item w = (Inr (item\<lparr>ri_dispatched := True, ri_result := None\<rparr>),
    setState (ri_element item) PLE_DISPATCHED w)"
  using assms by (simp add: dispatch_def monad_defs)

lemma ready_ok_pop:
  assumes "ready_ok w" and "map_of (readyQueue w) i = Some (item # queue)"
  shows "ready_ok (w\<lparr>readyQueue := qh_insert i queue (readyQueue w)\<rparr>)"
proof -
  from assms(1) have qi: "qh_inv (readyQueue w)" by (simp add: ready_ok_def)
  have old: "is_child w (ri_element it) \<and> el_id (elems w (ri_element it)) = j \<and> \<not> ri_dispatched it"
    if "(j, its) \<in> set (readyQueue w)" "it \<in> set its" for j its it
    using assms(1) that by (auto simp: ready_ok_def)
  have "is_child w (ri_element it) \<and> el_id (elems w (ri_element it)) = j \<and> \<not> ri_dispatched it"
    if j: "(j, its) \<in> set (qh_insert i queue (readyQueue w))" "it \<in> set its" for j its it
  proof (cases "j = i")
    case True
    with j set_qh_insert_other [OF qi] have "it \<in> set (item # queue)" by auto
    with old [OF map_of_SomeD [OF assms(2)]] True show ?thesis by blast
  next
    case False
    with j set_qh_insert_other [OF qi] have "(j, its) \<in> set (readyQueue w)" by auto
    with old j(2) show ?thesis by blast
  qed
  then show ?thesis using qi by (auto simp: ready_ok_def qh_inv_insert is_child_def)
qed

lemma dispatchReady_inv:
  assumes inv: "sched_core w"
  shows "\<exists>w'. dispatchReady i w = (Inr (), w') \<and> sched_core w' \<and> pl_testCount w' = pl_testCount w"
proof (cases "map_of (readyQueue w) i")
  case None
  with inv show ?thesis by (simp add: dispatchReady_def)
next
  case (Some items)
  show ?thesis
  proof (cases items)
    case Nil
    with Some inv show ?thesis by (simp add: dispatchReady_def)
  next
    case (Cons item queue)
    let ?e = "ri_element item"
    from inv have w: "wired w" and rd: "ready_ok w" and ro: "run_ok w" by (auto simp: sched_core_def)
    from rd map_of_SomeD [OF Some] Cons have it: "is_child w ?e" "el_id (elems w ?e) = i" "\<not> ri_dispatched item"
      by (auto simp: ready_ok_def)
    show ?thesis
    proof (cases "qm_contains (el_id (elems w ?e)) (runQueue w)")
      case True
      with Some Cons inv show ?thesis by (simp add: dispatchReady_def)
    next
      case False
      have st: "getState ?e w = PLE_STARTED" by (rule not_queued_started [OF ro w it(1) False])
      let ?w1 = "dispatched_state ?e item w"
      let ?w' = "?w1\<lparr>readyQueue := qh_insert i queue (readyQueue ?w1)\<rparr>"
      have "dispatchReady i w = (Inr (), ?w')"
        using Some Cons False st dispatch_run [OF st it(3)]
        by (simp add: dispatchReady_def monad_defs dispatched_state_def state_order)
      moreover have c1: "sched_core ?w1" by (rule dispatched_inv [OF inv it(1) refl False])
      moreover have "ready_ok ?w'"
        by (rule ready_ok_pop [where item = item]) (use c1 Some Cons in \<open>auto simp: sched_core_def\<close>)
      moreover have "wired ?w'"
        by (rule wired_same [OF sched_core_wired [OF c1]]) (simp add: same_wiring_def)
      moreover have "run_ok ?w'"
        by (rule run_ok_cong [where w = ?w1]) (use c1 in \<open>simp_all add: sched_core_def getState_def\<close>)
      ultimately show ?thesis
        by (auto simp: sched_core_def qm_contains_def fst_set_qh_insert)
    qed
  qed
qed

lemma dispatchReadies_inv:
  assumes "sched_core w"
  shows "\<exists>w'. forM dispatchReady is w = (Inr (), w') \<and> sched_core w' \<and> pl_testCount w' = pl_testCount w"
proof -
  have "\<exists>w'. forM dispatchReady is w = (Inr (), w') \<and> (sched_core w' \<and> pl_testCount w' = pl_testCount w)"
    by (rule forM_total) (use assms dispatchReady_inv in \<open>fastforce+\<close>)
  then show ?thesis .
qed

section \<open>Producers\<close>

lemma dispatchProducer_inv:
  assumes inv: "sched_core w" and e: "is_child w e" and st: "getState e w < PLE_DISPATCHED"
  shows "dispatchProducer e w = (Inr (), dispatched_state e (runItem e (pl_serial w)) w)"
    and "sched_core (dispatched_state e (runItem e (pl_serial w)) w)"
proof -
  from inv have w: "wired w" and ro: "run_ok w" by (auto simp: sched_core_def)
  note nq = ready_not_queued [OF ro w e st]
  have "getState (ri_element (runItem e (pl_serial w))) w = PLE_STARTED"
    using not_queued_started [OF ro w e nq] by (simp add: runItem_def)
  from dispatch_run [OF this] show "dispatchProducer e w = (Inr (), dispatched_state e (runItem e (pl_serial w)) w)"
    by (simp add: dispatchProducer_def monad_defs dispatched_state_def runItem_def)
  show "sched_core (dispatched_state e (runItem e (pl_serial w)) w)"
    by (rule dispatched_inv [OF inv e _ nq]) (simp add: runItem_def)
qed

lemma pl_serial_dispatched [simp]: "pl_serial (dispatched_state e item w) = pl_serial w"
  by (simp add: dispatched_state_def insertRunQueue_def)

lemma dispatchProducers_inv:
  assumes "sched_core w" and "distinct es"
    and "\<And>e. e \<in> set es \<Longrightarrow> is_child w e \<and> getState e w < PLE_DISPATCHED"
  shows "\<exists>w'. forM dispatchProducer es w = (Inr (), w') \<and> sched_core w' \<and>
    pl_testCount w' = pl_testCount w \<and> pl_serial w' = pl_serial w \<and>
    (\<forall>e \<in> set es. \<exists>item. (el_id (elems w' e), item) \<in> set (runQueue w') \<and> ri_element item = e \<and>
       ri_serial item = pl_serial w) \<and>
    (\<forall>ir \<in> set (runQueue w). ir \<in> set (runQueue w')) \<and> (\<forall>e. el_id (elems w' e) = el_id (elems w e))"
  using assms
proof (induction es arbitrary: w)
  case Nil
  then show ?case by auto
next
  case (Cons e es)
  let ?it = "runItem e (pl_serial w)" and ?w1 = "dispatched_state e (runItem e (pl_serial w)) w"
  from Cons.prems(3) [of e] have e: "is_child w e" "getState e w < PLE_DISPATCHED" by auto
  note d = dispatchProducer_inv [OF Cons.prems(1) e]
  from Cons.prems(1) have ro: "run_ok w" and w: "wired w" by (auto simp: sched_core_def)
  have "\<not> qm_contains (el_id (elems w e)) (runQueue w)" by (rule ready_not_queued [OF ro w e])
  then have q1: "runQueue ?w1 = runQueue w @ [(el_id (elems w e), ?it\<lparr>ri_dispatched := True, ri_result := None\<rparr>)]"
    by (simp add: dispatched_state_queue qh_insert_fresh qm_contains_iff)
  have "is_child ?w1 x \<and> getState x ?w1 < PLE_DISPATCHED" if "x \<in> set es" for x
    using Cons.prems(2,3) that by auto
  with Cons.IH [OF d(2)] Cons.prems(2) obtain w' where
    w': "forM dispatchProducer es ?w1 = (Inr (), w')" "sched_core w'" "pl_testCount w' = pl_testCount w"
    "pl_serial w' = pl_serial w"
    "\<forall>x \<in> set es. \<exists>item. (el_id (elems w' x), item) \<in> set (runQueue w') \<and> ri_element item = x \<and>
       ri_serial item = pl_serial w"
    "\<forall>ir \<in> set (runQueue ?w1). ir \<in> set (runQueue w')" "\<forall>x. el_id (elems w' x) = el_id (elems w x)" by auto
  moreover have "\<exists>item. (el_id (elems w' e), item) \<in> set (runQueue w') \<and> ri_element item = e \<and>
       ri_serial item = pl_serial w"
    using w'(6,7) q1 by (intro exI [of _ "?it\<lparr>ri_dispatched := True, ri_result := None\<rparr>"]) (simp add: runItem_def)
  ultimately show ?case using d(1) q1 by auto
qed

lemma sched_core_serial: "sched_core w \<Longrightarrow> sched_core (w\<lparr>pl_serial := s\<rparr>)"
  "sched_core w \<Longrightarrow> sched_core (w\<lparr>pl_testCount := n\<rparr>)" "sched_core w \<Longrightarrow> sched_core (emit sg w)"
proof -
  have *: "sched_core w'" if "sched_core w" "same_wiring w w'" "readyQueue w' = readyQueue w"
    "runQueue w' = runQueue w" "pl_running w' = pl_running w" "elems w' = elems w" for w' :: "'a plv"
  proof -
    have "run_ok w'" by (rule run_ok_cong [where w = w])
        (use that in \<open>auto simp: sched_core_def same_wiring_def getState_def\<close>)
    moreover have "ready_ok w'" by (rule ready_ok_cong [where w = w]) (use that in \<open>auto simp: sched_core_def\<close>)
    moreover have "wired w'" by (rule wired_same [where w = w]) (use that in \<open>auto simp: sched_core_def\<close>)
    ultimately show ?thesis using that by (auto simp: sched_core_def same_wiring_def)
  qed
  show "sched_core w \<Longrightarrow> sched_core (w\<lparr>pl_serial := s\<rparr>)"
    "sched_core w \<Longrightarrow> sched_core (w\<lparr>pl_testCount := n\<rparr>)" "sched_core w \<Longrightarrow> sched_core (emit sg w)"
    by (erule *; simp add: same_wiring_def emit_def)+
qed

lemma producers_children:
  assumes "wired w"
  shows "distinct (map snd (producers w))" and "e \<in> set (map snd (producers w)) \<Longrightarrow> is_child w e"
proof -
  have p: "producers w = filter (\<lambda>(i, e). el_class (elems w e) = PipelineProducer) (children w)"
    using wired_maps(3) [OF assms] by (simp add: classes_ok_def)
  have "distinct (map snd (filter P (children w)))" for P
    using wired_children_distinct [OF assms] by (rule distinct_map_filter)
  then show "distinct (map snd (producers w))" by (simp add: p)
  show "e \<in> set (map snd (producers w)) \<Longrightarrow> is_child w e" by (auto simp: p is_child_def)
qed

lemma runProducers_inv:
  assumes inv: "sched_core w"
  shows "\<exists>w'. runProducers rtp w = (Inr (), w') \<and> sched_core w' \<and> pl_testCount w' = pl_testCount w"
proof (cases "maxQueued w < 5 \<and> list_all (\<lambda>e. producer_ready (rtp e) e w) (map snd (producers w))")
  case False
  with inv show ?thesis by (auto simp: runProducers_def)
next
  case True
  have "is_child w e \<and> getState e w < PLE_DISPATCHED" if "e \<in> set (map snd (producers w))" for e
    using producers_children(2) [OF sched_core_wired [OF inv] that] True that
    by (auto simp: list_all_iff producer_ready_def)
  from dispatchProducers_inv [OF inv producers_children(1) [OF sched_core_wired [OF inv]] this]
  obtain w1 where "forM dispatchProducer (map snd (producers w)) w = (Inr (), w1)" "sched_core w1"
    "pl_testCount w1 = pl_testCount w" by blast
  with True show ?thesis
    by (auto simp: runProducers_def monad_defs intro: sched_core_serial)
qed

section \<open>Removing finished runs\<close>

lemma reapLoop_ok:
  assumes "\<And>i item. (i, item) \<in> set rq \<Longrightarrow> ri_dispatched item \<and> ri_result item \<noteq> Some False"
    and "distinct (map (\<lambda>ir. ri_element (snd ir)) rq)"
  shows "\<exists>w'. reapLoop rq w = (Inr None, filter (\<lambda>ir. ri_result (snd ir) = None) rq, w') \<and>
    elems_only ((\<lambda>ir. ri_element (snd ir)) ` set rq) w w' \<and>
    (\<forall>ir \<in> set rq. getState (ri_element (snd ir)) w' =
       (if ri_result (snd ir) = None then getState (ri_element (snd ir)) w else PLE_STARTED))"
  using assms
proof (induction rq arbitrary: w)
  case Nil
  then show ?case by simp
next
  case (Cons ir rq)
  obtain i item where ir: "ir = (i, item)" by (cases ir)
  let ?e = "ri_element item" and ?E = "(\<lambda>ir. ri_element (snd ir)) ` set rq"
  from Cons.prems(1) [of i item] ir have it: "ri_dispatched item" "ri_result item \<noteq> Some False" by auto
  have ne: "?e \<notin> ?E" using Cons.prems(2) ir by auto
  let ?w1 = "if ri_result item = None then w else setState ?e PLE_STARTED w"
  have f1: "elems_only {?e} w ?w1" by (auto intro: elems_only_only)
  from Cons.IH [of ?w1] Cons.prems obtain w' where
    w': "reapLoop rq ?w1 = (Inr None, filter (\<lambda>ir. ri_result (snd ir) = None) rq, w')"
    "elems_only ?E ?w1 w'"
    "\<forall>ir \<in> set rq. getState (ri_element (snd ir)) w' =
       (if ri_result (snd ir) = None then getState (ri_element (snd ir)) ?w1 else PLE_STARTED)" by auto
  have "elems_only ((\<lambda>ir. ri_element (snd ir)) ` set (ir # rq)) w w'"
    by (rule elems_only_trans [OF elems_only_mono [OF f1] elems_only_mono [OF w'(2)]]) (auto simp: ir)
  moreover have "getState ?e w' = getState ?e ?w1" by (rule elems_only_getState [OF w'(2) ne])
  moreover have "getState (ri_element (snd x)) ?w1 = getState (ri_element (snd x)) w" if "x \<in> set rq" for x
    using ne that by (auto simp: rev_image_eqI)
  ultimately show ?case
    using w' it by (cases "ri_result item") (auto simp: ir)
qed

lemma run_queue_elements_distinct:
  assumes "wired w" and "run_ok w"
  shows "distinct (map (\<lambda>ir. ri_element (snd ir)) (runQueue w))"
proof -
  have "map fst (runQueue w) = map (\<lambda>ir. el_id (elems w (ri_element (snd ir)))) (runQueue w)"
    using run_entry(2) [OF assms(2)] by (intro map_cong) auto
  moreover have "distinct (map fst (runQueue w))" using assms(2) by (simp add: run_ok_def qh_inv_def)
  ultimately have "distinct (map (\<lambda>ir. el_id (elems w (ri_element (snd ir)))) (runQueue w))" by metis
  then show ?thesis by (simp add: distinct_map inj_on_def)
qed

lemma reap_inv:
  assumes inv: "sched_core w" and ok: "\<forall>(i, item) \<in> set (runQueue w). ri_result item \<noteq> Some False"
  shows "\<exists>w'. reap w = (Inr None, w') \<and> sched_core w' \<and> pl_testCount w' = pl_testCount w"
proof -
  from inv have w: "wired w" and rd: "ready_ok w" and ro: "run_ok w" by (auto simp: sched_core_def)
  let ?E = "(\<lambda>ir. ri_element (snd ir)) ` set (runQueue w)"
  have "ri_dispatched item \<and> ri_result item \<noteq> Some False" if "(i, item) \<in> set (runQueue w)" for i item
    using run_entry(3) [OF ro that] ok that by auto
  with reapLoop_ok [of "runQueue w" w] run_queue_elements_distinct [OF w ro] obtain w1 where
    l: "reapLoop (runQueue w) w = (Inr None, filter (\<lambda>ir. ri_result (snd ir) = None) (runQueue w), w1)"
    and f: "elems_only ?E w w1"
    and st: "\<forall>ir \<in> set (runQueue w). getState (ri_element (snd ir)) w1 =
       (if ri_result (snd ir) = None then getState (ri_element (snd ir)) w else PLE_STARTED)" by blast
  let ?rq = "filter (\<lambda>ir. ri_result (snd ir) = None) (runQueue w)"
  let ?w' = "w1\<lparr>runQueue := ?rq\<rparr>"
  have r: "reap w = (Inr None, ?w')" by (simp add: reap_def l)
  have lf: "life_frame w w1" by (rule elems_only_life [OF f])
  have sw: "same_wiring w ?w'" using life_frame_wiring [OF lf] by (simp add: same_wiring_def)
  have gs: "getState x ?w' = getState x w1" for x by (simp add: getState_def)
  have ch: "is_child ?w' x = is_child w x" "el_id (elems ?w' x) = el_id (elems w x)" for x
    using sw same_wiring_pins(3) [OF sw] by (auto simp: same_wiring_def)
  have "run_ok ?w'"
  proof (rule run_okI)
    show "qh_inv (runQueue ?w')" using ro by (simp add: run_ok_def qh_inv_def distinct_map_filter)
    show "run_entry_ok ?w' (i, item)" if "(i, item) \<in> set (runQueue ?w')" for i item
    proof -
      from that have m: "(i, item) \<in> set (runQueue w)" and n: "ri_result item = None" by auto
      from m ro have "run_entry_ok w (i, item)" by (simp add: run_ok_def)
      with bspec [OF st m] n show ?thesis by (simp add: run_entry_ok_def ch gs life_frame_fields(1) [OF lf])
    qed
    show "getState e ?w' = PLE_STARTED"
      if e: "(i, e) \<in> set (children ?w')" "\<not> qm_contains i (runQueue ?w')" for i e
    proof (cases "qm_contains i (runQueue w)")
      case True
      then obtain item where m: "(i, item) \<in> set (runQueue w)" by (auto simp: qm_contains_def)
      with e(2) have n: "ri_result item \<noteq> None" by (force simp: qm_contains_def)
      have ce: "(i, e) \<in> set (children w)" using e(1) sw by (simp add: same_wiring_def)
      then have "is_child w e" "el_id (elems w e) = i" using wired_maps(4) [OF w] by (force simp: is_child_def)+
      with run_entry(1,2) [OF ro m] have "ri_element item = e" using child_id_inject [OF w] by blast
      with bspec [OF st m] n show ?thesis by (simp add: gs)
    next
      case False
      have ce: "(i, e) \<in> set (children w)" using e(1) sw by (simp add: same_wiring_def)
      have "e \<notin> ?E"
      proof
        assume "e \<in> ?E"
        then obtain j item where m: "(j, item) \<in> set (runQueue w)" "ri_element item = e" by auto
        with run_entry(2) [OF ro m(1)] wired_maps(4) [OF w ce] have "j = i" by simp
        with m False show False by (force simp: qm_contains_def)
      qed
      with elems_only_getState [OF f] ro ce False show ?thesis by (auto simp: gs run_ok_def)
    qed
  qed
  moreover have "ready_ok ?w'"
    by (rule ready_ok_cong [OF rd sw]) (simp add: elems_only_frame [OF f])
  moreover have "wired ?w'" by (rule wired_same [OF w sw])
  ultimately show ?thesis
    using r inv by (auto simp: sched_core_def elems_only_frame [OF f])
qed

section \<open>The scheduler\<close>

lemma schedule_inv:
  assumes inv: "sched_inv w" and ok: "\<forall>(i, item) \<in> set (runQueue w). ri_result item \<noteq> Some False"
  shows "\<exists>w'. schedule n workers hk rtp w = Some (Inr (), w') \<and> sched_inv w'"
proof -
  let ?w0 = "w\<lparr>pl_testCount := pl_testCount w + 1\<rparr>"
  from inv have c0: "sched_core ?w0" and t0: "pl_testCount ?w0 = 1"
    by (auto simp: sched_inv_core intro: sched_core_serial)
  from reap_inv [OF c0] ok t0 obtain w1 where
    w1: "reap ?w0 = (Inr None, w1)" "sched_core w1" "pl_testCount w1 = 1" by auto
  from dispatchReadies_inv [OF w1(2)] w1(3) obtain w2 where
    w2: "forM dispatchReady (map fst (readyQueue w1)) w1 = (Inr (), w2)" "sched_core w2" "pl_testCount w2 = 1"
    by metis
  from runProducers_inv [OF w2(2), of rtp] w2(3) obtain w3 where
    w3: "runProducers rtp w2 = (Inr (), w3)" "sched_core w3" "pl_testCount w3 = 1" by auto
  have "schedule n workers hk rtp w = Some (Inr (), w3\<lparr>pl_testCount := pl_testCount w3 - 1\<rparr>)"
    using t0 w1(1) w2(1) w3(1,3) by (simp add: schedule_def Let_def seqM_def bindM_def modifyM_def assertM_def)
  moreover have "sched_inv (w3\<lparr>pl_testCount := pl_testCount w3 - 1\<rparr>)"
    using w3 by (auto simp: sched_inv_core intro: sched_core_serial)
  ultimately show ?thesis by blast
qed

lemma sched_step_inv:
  assumes "sched_step w w'" and "sched_inv w"
  shows "sched_inv w'"
  using assms
proof (cases rule: sched_step.cases)
  case (step_schedule n workers hk rtp)
  with schedule_inv [OF assms(2), of n workers hk rtp] show ?thesis by auto
next
  case (step_worker i item code)
  from assms(2) have "sched_core w" "pl_testCount w = 0" by (auto simp: sched_inv_core)
  with worker_inv [OF _ step_worker(1,3,4)] show ?thesis by (auto simp: sched_inv_core)
qed

lemma sched_steps_inv: "sched_step\<^sup>*\<^sup>* w w' \<Longrightarrow> sched_inv w \<Longrightarrow> sched_inv w'"
  by (induction rule: rtranclp_induct) (auto intro: sched_step_inv)

section \<open>A failed run stops the pipeline\<close>

lemma reapLoop_failed:
  assumes "\<forall>ir \<in> set rq. ri_dispatched (snd ir) \<and> ri_result (snd ir) \<noteq> None"
    and "distinct (map (\<lambda>ir. ri_element (snd ir)) rq)"
    and "\<exists>ir \<in> set rq. ri_result (snd ir) = Some False"
  shows "\<exists>x rq' w'. reapLoop rq w = (Inr (Some x), rq', w') \<and> rq' \<noteq> [] \<and> (\<exists>pre. rq = pre @ rq' \<and>
    elems_only ((\<lambda>ir. ri_element (snd ir)) ` set pre) w w' \<and>
    (\<forall>ir \<in> set pre. getState (ri_element (snd ir)) w' = PLE_STARTED))"
  using assms
proof (induction rq arbitrary: w)
  case Nil
  then show ?case by simp
next
  case (Cons ir rq)
  obtain i item where ir: "ir = (i, item)" by (cases ir)
  let ?e = "ri_element item"
  from Cons.prems(1) ir have it: "ri_dispatched item" "ri_result item \<noteq> None" by auto
  show ?case
  proof (cases "ri_result item = Some False")
    case True
    with it show ?thesis by (intro exI [of _ ?e] exI [of _ "ir # rq"] exI [of _ w]) (simp add: ir)
  next
    case False
    let ?w1 = "setState ?e PLE_STARTED w"
    have p: "\<forall>ir \<in> set rq. ri_dispatched (snd ir) \<and> ri_result (snd ir) \<noteq> None"
      "distinct (map (\<lambda>ir. ri_element (snd ir)) rq)" "\<exists>ir \<in> set rq. ri_result (snd ir) = Some False"
      using Cons.prems False ir by auto
    from Cons.IH [OF p, of ?w1] obtain x rq' w' pre where
      w': "reapLoop rq ?w1 = (Inr (Some x), rq', w')" "rq' \<noteq> []" "rq = pre @ rq'"
      "elems_only ((\<lambda>ir. ri_element (snd ir)) ` set pre) ?w1 w'"
      "\<forall>ir \<in> set pre. getState (ri_element (snd ir)) w' = PLE_STARTED" by blast
    have "?e \<notin> (\<lambda>ir. ri_element (snd ir)) ` set pre" using Cons.prems(2) w'(3) ir by auto
    with elems_only_getState [OF w'(4), of ?e] have e: "getState ?e w' = PLE_STARTED" by simp
    have "elems_only ((\<lambda>ir. ri_element (snd ir)) ` set (ir # pre)) w w'"
      by (rule elems_only_trans [OF elems_only_mono [OF elems_only_only [OF only_elem_setState]] elems_only_mono [OF w'(4)]])
        (auto simp: ir)
    moreover have "reapLoop (ir # rq) w = (Inr (Some x), rq', w')" using w'(1) it False by (auto simp: ir)
    ultimately show ?thesis
      using w' e by (intro exI [of _ x] exI [of _ rq'] exI [of _ w'] conjI exI [of _ "ir # pre"]) (auto simp: ir)
  qed
qed

lemma run_results_finished:
  assumes "run_ok w" and "(i, item) \<in> set (runQueue w)" and "ri_result item \<noteq> None"
  shows "runFinished w (i, item)"
proof -
  from assms(1,2) have "run_entry_ok w (i, item)" by (simp add: run_ok_def)
  with assms(3) show ?thesis by (auto simp: run_entry_ok_def runFinished_def)
qed

lemma schedule_error:
  assumes inv: "sched_inv w" and fin: "\<forall>ir \<in> set (runQueue w). ri_result (snd ir) \<noteq> None"
    and bad: "\<exists>ir \<in> set (runQueue w). ri_result (snd ir) = Some False"
    and h: "\<And>e. is_child w e \<Longrightarrow> (\<exists>b. snd (hk_stop hk e) = Inr b) \<and> snd (hk_deinit hk e)"
  shows "\<exists>w'. schedule (Suc n) id hk rtp w = Some (Inr (), w') \<and> \<not> pl_running w' \<and> pl_testCount w' = 0 \<and>
    wired w' \<and> readyQueue w' = [] \<and> (\<forall>(i, c) \<in> set (connections w'). c_queue (conns w' c) = []) \<and>
    (\<forall>e. is_child w e \<longrightarrow> getState e w' = PLE_UNDEFINED)"
proof -
  let ?w0 = "w\<lparr>pl_testCount := pl_testCount w + 1\<rparr>" and ?el = "\<lambda>ir. ri_element (snd ir)"
  from inv have t0: "pl_testCount ?w0 = 1" and core: "sched_core w" by (auto simp: sched_inv_core)
  then have w: "wired w" and ro: "run_ok w" by (auto simp: sched_core_def)
  have d: "distinct (map ?el (runQueue w))" by (rule run_queue_elements_distinct [OF w ro])
  have "\<forall>ir \<in> set (runQueue w). ri_dispatched (snd ir) \<and> ri_result (snd ir) \<noteq> None"
    using run_entry(3) [OF ro] fin by force
  from reapLoop_failed [OF this d bad, of ?w0] obtain x rq' w1 pre where
    l: "reapLoop (runQueue w) ?w0 = (Inr (Some x), rq', w1)" "rq' \<noteq> []" "runQueue w = pre @ rq'"
    "elems_only (?el ` set pre) ?w0 w1" "\<forall>ir \<in> set pre. getState (?el ir) w1 = PLE_STARTED" by blast
  let ?w2 = "w1\<lparr>runQueue := rq'\<rparr>"
  have r: "reap ?w0 = (Inr (Some x), ?w2)" using l(1) by (simp add: reap_def)
  have st0: "getState y ?w0 = getState y w" for y by (simp add: getState_def)
  let ?w3 = "?w2\<lparr>pl_heartbeat := False\<rparr>"
  have g3: "getState y ?w3 = getState y w1" for y by (simp add: getState_def)
  have suf: "?el ir \<notin> ?el ` set pre" if "ir \<in> set rq'" for ir using d l(3) that by auto
  have rest: "runFinished ?w3 ir" if ir: "ir \<in> set rq'" for ir
  proof -
    from ir l(3) have m: "(fst ir, snd ir) \<in> set (runQueue w)" by simp
    with run_results_finished [OF ro m] bspec [OF fin m] have "runFinished w ir" by simp
    then show ?thesis
      using elems_only_getState [OF l(4) suf [OF ir]] by (simp add: runFinished_def g3 st0)
  qed
  from stopWait_one [of id ?w3 n] rest d l(2,3) obtain w4 where
    w4: "stopWait (Suc n) id ?w3 = Some (w4\<lparr>runQueue := []\<rparr>)" "elems_only (?el ` set rq') ?w3 w4"
    "\<forall>ir \<in> set rq'. getState (?el ir) w4 = PLE_STARTED" by auto
  let ?w5 = "w4\<lparr>runQueue := []\<rparr>"
  have lf1: "life_frame ?w0 w1" and lf4: "life_frame ?w3 w4"
    using elems_only_life l(4) w4(2) by blast+
  have sw: "same_wiring w ?w5"
    using life_frame_wiring [OF lf1] life_frame_wiring [OF lf4] by (auto simp: same_wiring_def)
  have w5: "wired ?w5" by (rule wired_same [OF w sw])
  have ch: "is_child ?w5 y = is_child w y" for y by (rule same_wiring_pins(3) [OF sw])
  have "getState y ?w5 = PLE_STARTED" if y: "is_child w y" for y
  proof (cases "y \<in> ?el ` set (runQueue w)")
    case True
    then consider "y \<in> ?el ` set rq'" | "y \<in> ?el ` set pre" "y \<notin> ?el ` set rq'" using l(3) by auto
    then show ?thesis
    proof cases
      case 1
      with w4(3) show ?thesis by (auto simp: getState_def)
    next
      case 2
      with elems_only_getState [OF w4(2), of y] l(5) have "getState y w4 = PLE_STARTED"
        by (auto simp: getState_def)
      then show ?thesis by (simp add: getState_def)
    qed
  next
    case False
    have "\<not> qm_contains (el_id (elems w y)) (runQueue w)"
    proof
      assume "qm_contains (el_id (elems w y)) (runQueue w)"
      then obtain item where m: "(el_id (elems w y), item) \<in> set (runQueue w)" by (auto simp: qm_contains_def)
      from child_id_inject [OF w run_entry(1) [OF ro m] y run_entry(2) [OF ro m]] m False show False by force
    qed
    from not_queued_started [OF ro w y this] have "getState y w = PLE_STARTED" .
    moreover have "y \<notin> ?el ` set pre" "y \<notin> ?el ` set rq'" using False l(3) by auto
    ultimately show ?thesis
      using elems_only_getState [OF w4(2), of y] elems_only_getState [OF l(4), of y]
      by (simp add: getState_def)
  qed
  then have st5: "getState y ?w5 \<ge> PLE_STARTED" if "is_child ?w5 y" for y using that ch by simp
  have run2: "pl_running ?w2"
    using core elems_only_frame(12) [OF l(4)] by (simp add: sched_core_def)
  have h5: "(\<exists>b. snd (hk_stop hk y) = Inr b) \<and> snd (hk_deinit hk y)" if "is_child ?w5 y" for y
    using h that ch by simp
  from pipeline_stop_run [OF run2 w4(1) w5 st5 h5] obtain w' where
    w': "pipeline_stop (Suc n) id hk ?w2 = Some (Inr (), w')" "\<not> pl_running w'" "readyQueue w' = []"
    "pl_testCount w' = 0" "same_wiring ?w5 w'" "\<forall>(i, c) \<in> set (connections w'). c_queue (conns w' c) = []"
    "\<forall>e. is_child ?w5 e \<longrightarrow> getState e w' = PLE_UNDEFINED \<and> el_serial (elems w' e) = 0" by blast
  have "wired w'" by (rule wired_same [OF w5 w'(5)])
  then have "wired (emit sg w')" for sg by (rule wired_same) simp
  with r t0 w' ch show ?thesis by (simp add: schedule_def Let_def getState_def)
qed

section \<open>From start to the scheduler\<close>

lemma start_sched_inv:
  assumes w: "wired w" and ne: "children w \<noteq> []"
    and u: "\<And>e. is_child w e \<Longrightarrow> getState e w = PLE_UNDEFINED"
    and h: "\<And>e. is_child w e \<Longrightarrow> snd (hk_init hk e) = Inr True \<and> snd (hk_start hk e) = Inr True"
    and req: "\<And>e. is_child w e \<Longrightarrow> requiredPinsConnected e w"
    and acy: "acyclic_pipeline w" and q: "\<And>xs. set (qset xs) = set xs"
    and idle: "runQueue w = []" "pl_testCount w = 0" "ready_empty w"
  shows "\<exists>w'. pipeline_start hk qset w = (Inr (), w') \<and> sched_inv w'"
proof -
  from pipeline_start_ok [where qset = qset, OF w ne u h req acy q] obtain w' where
    s: "pipeline_start hk qset w = (Inr (), w')" "life_frame w w'" "pl_running w'" "ready_empty w \<longrightarrow> ready_empty w'"
    and c: "\<forall>e. is_child w e \<longrightarrow> getState e w' = PLE_STARTED \<and> map_of (readyQueue w') (el_id (elems w e)) = Some []"
    by blast
  from s(2) have eq: "children w' = children w" "runQueue w' = []" "pl_testCount w' = 0"
    using idle by (simp_all add: life_frame_def)
  have "wired w'" by (rule wired_same [OF w life_frame_wiring [OF s(2)]])
  moreover have "ready_ok w'" using s(4) idle(3) by (auto simp: ready_empty_def ready_ok_def)
  moreover have "run_ok w'"
    using c by (intro run_okI) (auto simp: eq qh_inv_def is_child_def rev_image_eqI)
  moreover have "qm_contains i (readyQueue w')" if "(i, e) \<in> set (children w)" for i e
  proof -
    from that have "is_child w e" "el_id (elems w e) = i" using wired_maps(4) [OF w] by (force simp: is_child_def)+
    with c show ?thesis by (auto simp: qm_contains_iff)
  qed
  ultimately have "sched_inv w'" using s(3) by (auto simp: sched_inv_def eq)
  with s(1) show ?thesis by blast
qed

end
