(* ===== verification/Sample_Pipeline.thy ===== *)
theory Sample_Pipeline
  imports Scheduler_Inv
begin

text \<open>
  A small pipeline: a producer, a processor that reads its output, and a second processor that reads
  both.  The theorems of the development are applied to it in the states it passes through: idle,
  started, with a dispatched run, and with data on its connections.
\<close>

section \<open>The pipeline\<close>

definition demo_qt :: QMetaType where
  "demo_qt = \<lparr>isRegistered = (\<lambda>t. 0 < t), typeName = (\<lambda>t. ''CvMatData'')\<rparr>"

definition demo_ipin :: "int \<Rightarrow> ref \<Rightarrow> ref option \<Rightarrow> IInputPin" where
  "demo_ipin i e c =
     \<lparr>ip_id = i, ip_name = ''input'', ip_owner = e, ip_class = TypedInputPin, ip_typeId = 7,
      ip_required = CONNECTION_REQUIRED, ip_synchronous = CONNECTION_SYNCHRONOUS,
      ip_guarantee = CONNECTION_GUARANTEES_DATA, ip_connection = c, ip_called = False\<rparr>"

definition demo_opin :: "int \<Rightarrow> ref \<Rightarrow> ref list \<Rightarrow> IOutputPin" where
  "demo_opin i e cs =
     \<lparr>op_id = i, op_name = ''output'', op_owner = e, op_class = TypedOutputPin, op_typeId = 7,
      op_connections = cs, op_called = False\<rparr>"

definition demo_elem ::
    "ple_class \<Rightarrow> int \<Rightarrow> State \<Rightarrow> (int \<times> ref) list \<Rightarrow> (int \<times> ref) list \<Rightarrow> int \<Rightarrow> PipelineElement" where
  "demo_elem cl i st ins outs pincount =
     \<lparr>el_id = i, el_class = cl, el_name = ''element'', el_state = st, el_errorType = PlvNoError,
      el_errorString = '''', el_serial = 0, el_hasPipeline = True, el_inputPins = ins, el_outputPins = outs,
      el_hasAsynchronousPin = False, el_hasSynchronousPin = (pincount > 0),
      el_scoreboard = \<lparr>m_pincount = pincount, m_lookup = []\<rparr>\<rparr>"

definition demo_conn :: "int \<Rightarrow> ref \<Rightarrow> ref \<Rightarrow> nat Data list \<Rightarrow> nat PinConnection" where
  "demo_conn i p q ds = \<lparr>c_id = i, c_producer = Some p, c_consumer = Some q, c_queue = ds\<rparr>"

text \<open>The pipeline with the states of its elements and the items on the first two connections, which
  come from the camera.\<close>

definition demo_world :: "State \<Rightarrow> State \<Rightarrow> State \<Rightarrow> nat Data list \<Rightarrow> nat plv" where
  "demo_world s0 s1 s2 ds =
     \<lparr>elems = (\<lambda>e. if e = 0 then demo_elem PipelineProducer 0 s0 [] [(0, 0)] 0
                    else if e = 1 then demo_elem PipelineProcessor 1 s1 [(0, 1)] [(0, 1)] 1
                    else if e = 2 then demo_elem PipelineProcessor 2 s2 [(0, 2), (1, 3)] [] 2
                    else demo_elem PipelineProducer (- 1) PLE_UNDEFINED [] [] 0),
      ipins = (\<lambda>q. if q = 1 then demo_ipin 0 1 (Some 0) else if q = 2 then demo_ipin 0 2 (Some 1)
                    else demo_ipin 1 2 (Some 2)),
      opins = (\<lambda>p. if p = 0 then demo_opin 0 0 [0, 1] else demo_opin 0 1 [2]),
      conns = (\<lambda>c. if c = 0 then demo_conn 0 0 1 ds else if c = 1 then demo_conn 1 0 2 ds
                    else demo_conn 2 1 3 []),
      nextConn = 3, children = [(0, 0), (1, 1), (2, 2)], connections = [(0, 0), (1, 1), (2, 2)],
      producers = [(0, 0)], processors = [(1, 1), (2, 2)],
      readyQueue = [], runQueue = [], pl_serial = 1, pl_running = False, pl_changed = False,
      pl_testCount = 0, pl_heartbeat = False, pl_slots = 0, pl_filename = ''a.plv'', pl_ordering = [], signals = []\<rparr>"

definition demo :: "nat plv" where
  "demo = demo_world PLE_UNDEFINED PLE_UNDEFINED PLE_UNDEFINED []"

definition demo_started :: "nat plv" where
  "demo_started = (demo_world PLE_STARTED PLE_STARTED PLE_STARTED [])
     \<lparr>readyQueue := [(0, []), (1, []), (2, [])], pl_running := True, pl_heartbeat := True\<rparr>"

text \<open>The camera is dispatched, for serial 1.\<close>

definition demo_item :: "bool option \<Rightarrow> RunItem" where
  "demo_item r = \<lparr>ri_element = 0, ri_serial = 1, ri_dispatched = True, ri_result = r\<rparr>"

definition demo_dispatched :: "nat plv" where
  "demo_dispatched = (demo_world PLE_DISPATCHED PLE_STARTED PLE_STARTED [])
     \<lparr>readyQueue := [(0, []), (1, []), (2, [])], runQueue := [(0, demo_item None)], pl_running := True,
      pl_heartbeat := True, pl_serial := 2\<rparr>"

text \<open>The run of the camera has failed.\<close>

definition demo_failed :: "nat plv" where
  "demo_failed = (demo_world PLE_ERROR PLE_STARTED PLE_STARTED [])
     \<lparr>readyQueue := [(0, []), (1, []), (2, [])], runQueue := [(0, demo_item (Some False))], pl_running := True,
      pl_heartbeat := True, pl_serial := 2\<rparr>"

text \<open>The camera has sent a null item, and the blur filter runs.\<close>

definition demo_null :: "nat plv" where
  "demo_null = (demo_world PLE_STARTED PLE_RUNNING PLE_STARTED [Data_null 1])
     \<lparr>readyQueue := [(0, []), (1, []), (2, [])], pl_running := True\<rparr>"

text \<open>The camera has sent a frame, and the blur filter runs.\<close>

definition demo_frame :: "nat plv" where
  "demo_frame = (demo_world PLE_STARTED PLE_RUNNING PLE_STARTED [Data_payload 1 5])
     \<lparr>readyQueue := [(0, []), (1, []), (2, [])], pl_running := True\<rparr>"

definition demo_camera :: "nat plugin_code" where
  "demo_camera = Put 0 5 (\<lambda>r. Return True)"

text \<open>The plug-ins succeed in everything.\<close>

definition demo_hooks :: plugin_hooks where
  "demo_hooks =
     \<lparr>hk_init = (\<lambda>e. (None, Inr True)), hk_deinit = (\<lambda>e. (None, True)),
      hk_start = (\<lambda>e. (None, Inr True)), hk_stop = (\<lambda>e. (None, Inr True))\<rparr>"

lemma demo_hooks_simps:
  "hk_init demo_hooks e = (None, Inr True)" "hk_start demo_hooks e = (None, Inr True)"
  "hk_stop demo_hooks e = (None, Inr True)" "hk_deinit demo_hooks e = (None, True)"
  by (simp_all add: demo_hooks_def)

section \<open>Facts about its states\<close>

lemma demo_wired: "wired demo"
  by code_simp

lemma demo_undefined: "is_child demo e \<Longrightarrow> getState e demo = PLE_UNDEFINED"
  by (auto simp: is_child_def demo_def demo_world_def getState_def demo_elem_def)

lemma demo_required: "is_child demo e \<Longrightarrow> requiredPinsConnected e demo"
proof -
  have "\<forall>e \<in> snd ` set (children demo). requiredPinsConnected e demo" by code_simp
  then show "is_child demo e \<Longrightarrow> requiredPinsConnected e demo" by (auto simp: is_child_def)
qed

lemma demo_idle: "runQueue demo = []" "pl_testCount demo = 0" "ready_empty demo" "pl_running demo = False"
  "children demo \<noteq> []" "pl_changed demo = False"
  by (simp_all add: demo_def demo_world_def ready_empty_def qh_inv_def)

lemma demo_ordering: "generateGraphOrdering id demo = Some (Inr True, [0, 1, 2])"
  by code_simp

lemma demo_acyclic: "acyclic_pipeline demo"
  using generateGraphOrdering_correct [OF demo_wired demo_idle(5), where qset = id] demo_ordering by simp

lemma demo_started_inv: "sched_inv demo_started" "runQueue demo_started = []"
  by code_simp+

lemma demo_dispatched_inv: "sched_inv demo_dispatched" "wired demo_dispatched" "is_child demo_dispatched 0"
  "outputPins 0 demo_dispatched = [0]" "map_of (runQueue demo_dispatched) 0 = Some (demo_item None)"
  by code_simp+

lemma demo_camera_own: "own_code demo_dispatched 0 demo_camera"
  using demo_dispatched_inv(4) by (simp add: own_code_def demo_camera_def)

lemma demo_camera_run: "fst (run 0 demo_camera 1 demo_dispatched) = Inr True"
  by code_simp

lemma demo_camera_step: "\<exists>w. sched_step demo_dispatched w"
proof -
  have "fst (worker demo_camera 0 (demo_item None) demo_dispatched) = Inr ()" by code_simp
  then obtain w where "worker demo_camera 0 (demo_item None) demo_dispatched = (Inr (), w)"
    by (metis prod.collapse)
  with demo_camera_own demo_dispatched_inv(5) have "sched_step demo_dispatched w"
    by (intro step_worker [of _ 0 "demo_item None" demo_camera]) (simp_all add: demo_item_def)
  then show ?thesis by blast
qed

lemma demo_failed_inv: "sched_inv demo_failed" "runQueue demo_failed = [(0, demo_item (Some False))]"
  by code_simp+

lemma demo_null_facts: "wired demo_null" "is_child demo_null 1"
  "fst (preInput 1 (setProcessingSerial 1 1 demo_null)) = Inr True"
  "fst (processor_process 1 (Return False) 1 demo_null) = Inr True"
  "1 \<in> set (outputPins 1 demo_null)" "2 \<in> set (op_connections (opins demo_null 1))"
  by code_simp+

section \<open>A loop\<close>

text \<open>Two processors that read each other's output.\<close>

definition demo_loop :: "nat plv" where
  "demo_loop = demo
     \<lparr>elems := (\<lambda>e. if e = 0 then demo_elem PipelineProcessor 0 PLE_UNDEFINED [(0, 1)] [(0, 0)] 0
                     else demo_elem PipelineProcessor 1 PLE_UNDEFINED [(0, 2)] [(0, 1)] 0),
      ipins := (\<lambda>q. if q = 1 then demo_ipin 0 0 (Some 1) else demo_ipin 0 1 (Some 0)),
      opins := (\<lambda>p. if p = 0 then demo_opin 0 0 [0] else demo_opin 0 1 [1]),
      conns := (\<lambda>c. if c = 0 then demo_conn 0 0 2 [] else demo_conn 1 1 1 []),
      nextConn := 2, children := [(0, 0), (1, 1)], connections := [(0, 0), (1, 1)],
      producers := [], processors := [(0, 0), (1, 1)]\<rparr>"

lemma demo_loop_wired: "wired demo_loop"
  by code_simp

lemma demo_loop_ordering: "generateGraphOrdering id demo_loop = Some (Inr False, [1, 0, 1])
    \<or> generateGraphOrdering id demo_loop = Some (Inr False, [0])"
  by code_simp

lemma demo_loop_cyclic: "\<not> acyclic_pipeline demo_loop"
proof -
  have "children demo_loop \<noteq> []" by (simp add: demo_loop_def)
  from generateGraphOrdering_correct [OF demo_loop_wired this, where qset = id] demo_loop_ordering
  show ?thesis by auto
qed

end
