(* ===== verification/Blob_Matrix.thy ===== *)
theory Blob_Matrix
  imports Plv_Prelude
begin

text \<open>
  The class template \<open>Matrix\<close> of the blob tracker (\<open>matrix.cpp\<close>).

  The array of arrays is a function of the two indices; \<open>m_allocated\<close> is false while the pointer is
  null.  The asserts of the access operator are in \<open>mat_at\<close>; a loop over the rows and columns of a matrix
  reads \<open>m_matrix\<close>, as its indices are in range.  Memory that \<open>new\<close> leaves uninitialised is always written
  before it is read.
\<close>

section \<open>Model\<close>

record 'a Matrix =
  m_rows :: nat
  m_columns :: nat
  m_allocated :: bool
  m_matrix :: "nat \<Rightarrow> nat \<Rightarrow> 'a"

definition mat_default :: "'a::zero Matrix" where
  "mat_default = \<lparr>m_rows = 0, m_columns = 0, m_allocated = False, m_matrix = (\<lambda>i j. 0)\<rparr>"

definition mat_set :: "nat \<Rightarrow> nat \<Rightarrow> 'a \<Rightarrow> 'a Matrix \<Rightarrow> 'a Matrix" where
  "mat_set i j x m = m\<lparr>m_matrix := (m_matrix m)(i := (m_matrix m i)(j := x))\<rparr>"

text \<open>The index pairs in the order of two nested loops.\<close>

definition cells :: "nat \<Rightarrow> nat \<Rightarrow> (nat \<times> nat) list" where
  "cells r c = List.product [0..<r] [0..<c]"

definition mat_clear :: "'a::zero Matrix \<Rightarrow> plv_exn + 'a Matrix" where
  "mat_clear m =
     (if \<not> m_allocated m then Inl AssertFailed
      else Inr (fold (\<lambda>(i, j). mat_set i j 0) (cells (m_rows m) (m_columns m)) m))"

definition mat_resize :: "nat \<Rightarrow> nat \<Rightarrow> 'a::zero Matrix \<Rightarrow> 'a Matrix" where
  "mat_resize r c m =
     \<lparr>m_rows = r, m_columns = c, m_allocated = True,
      m_matrix = (\<lambda>i j. if m_allocated m \<and> i < min r (m_rows m) \<and> j < min c (m_columns m)
                        then m_matrix m i j else 0)\<rparr>"

definition mat_new :: "nat \<Rightarrow> nat \<Rightarrow> 'a::zero Matrix" where
  "mat_new r c = mat_resize r c mat_default"

definition mat_copy :: "'a::zero Matrix \<Rightarrow> 'a Matrix" where
  "mat_copy m =
     (if m_allocated m
      then fold (\<lambda>(i, j). mat_set i j (m_matrix m i j)) (cells (m_rows m) (m_columns m))
             (mat_new (m_rows m) (m_columns m))
      else mat_default)"

definition mat_assign :: "'a::zero Matrix \<Rightarrow> 'a Matrix \<Rightarrow> 'a Matrix" where
  "mat_assign this other =
     (if m_allocated other
      then fold (\<lambda>(i, j). mat_set i j (m_matrix other i j)) (cells (m_rows other) (m_columns other))
             (mat_resize (m_rows other) (m_columns other) this)
      else mat_default)"

definition mat_at :: "int \<Rightarrow> int \<Rightarrow> 'a Matrix \<Rightarrow> plv_exn + 'a" where
  "mat_at x y m =
     (if 0 \<le> x \<and> 0 \<le> y \<and> x < int (m_rows m) \<and> y < int (m_columns m) \<and> m_allocated m
      then Inr (m_matrix m (nat x) (nat y)) else Inl AssertFailed)"

definition minsize :: "'a Matrix \<Rightarrow> nat" where
  "minsize m = (if m_rows m < m_columns m then m_rows m else m_columns m)"

definition mat_identity :: "'a::{zero, one} Matrix \<Rightarrow> plv_exn + 'a Matrix" where
  "mat_identity m =
     (case mat_clear m of
        Inl x \<Rightarrow> Inl x
      | Inr m' \<Rightarrow> Inr (fold (\<lambda>i. mat_set i i 1) [0..<min (m_rows m) (m_columns m)] m'))"

definition mat_trace :: "'a::comm_monoid_add Matrix \<Rightarrow> plv_exn + 'a" where
  "mat_trace m =
     (if \<not> m_allocated m then Inl AssertFailed
      else Inr (fold (\<lambda>i value. value + m_matrix m i i) [0..<min (m_rows m) (m_columns m)] 0))"

definition mat_swap :: "nat \<times> nat \<Rightarrow> 'a Matrix \<Rightarrow> 'a Matrix" where
  "mat_swap ij m =
     (case ij of (i, j) \<Rightarrow> mat_set j i (m_matrix m i j) (mat_set i j (m_matrix m j i) m))"

definition upper_cells :: "nat \<Rightarrow> nat \<Rightarrow> (nat \<times> nat) list" where
  "upper_cells r c = concat (map (\<lambda>i. map (Pair i) [i + 1..<c]) [0..<r])"

definition mat_transpose :: "'a::zero Matrix \<Rightarrow> plv_exn + 'a Matrix" where
  "mat_transpose m =
     (if m_rows m = 0 \<or> m_columns m = 0 then Inl AssertFailed
      else
        let new_rows = m_columns m; new_columns = m_rows m; n = max (m_rows m) (m_columns m);
            m1 = (if m_rows m \<noteq> m_columns m then mat_resize n n m else m);
            m2 = fold mat_swap (upper_cells (m_rows m1) (m_columns m1)) m1
        in Inr (if new_columns \<noteq> new_rows then mat_resize new_rows new_columns m2 else m2))"

definition mat_product :: "'a::comm_semiring_0 Matrix \<Rightarrow> 'a Matrix \<Rightarrow> plv_exn + 'a Matrix" where
  "mat_product m other =
     (if \<not> m_allocated m \<or> \<not> m_allocated other \<or> m_columns m \<noteq> m_rows other then Inl AssertFailed
      else Inr (fold (\<lambda>(i, j) out.
                  fold (\<lambda>x out. mat_set i j (m_matrix out i j + m_matrix m i x * m_matrix other x j) out)
                    [0..<m_columns m] out)
                (cells (m_rows m) (m_columns other)) (mat_new (m_rows m) (m_columns other))))"

section \<open>Loops that write cells\<close>

lemma set_cells [simp]: "set (cells r c) = {..<r} \<times> {..<c}"
  by (auto simp: cells_def)

lemma distinct_cells [simp]: "distinct (cells r c)"
  by (simp add: cells_def distinct_product)

lemma mat_set_dims [simp]:
  "m_rows (mat_set i j x m) = m_rows m" "m_columns (mat_set i j x m) = m_columns m"
  "m_allocated (mat_set i j x m) = m_allocated m"
  by (simp_all add: mat_set_def)

lemma mat_set_at [simp]:
  "m_matrix (mat_set i j x m) a b = (if a = i \<and> b = j then x else m_matrix m a b)"
  by (simp add: mat_set_def)

lemma mat_resize_fields [simp]:
  "m_rows (mat_resize r c m) = r" "m_columns (mat_resize r c m) = c" "m_allocated (mat_resize r c m)"
  by (simp_all add: mat_resize_def)

lemma mat_new_fields [simp]:
  "m_rows (mat_new r c) = r" "m_columns (mat_new r c) = c" "m_allocated (mat_new r c)"
  "m_matrix (mat_new r c) i j = 0"
  by (simp_all add: mat_new_def mat_resize_def mat_default_def)

text \<open>A loop that writes each cell it visits a value computed from that cell and from data that the
  loop does not change.\<close>

lemma fold_mat_set:
  "distinct ps \<Longrightarrow>
     m_rows (fold (\<lambda>(i, j) m. mat_set i j (f i j (m_matrix m i j)) m) ps m) = m_rows m \<and>
     m_columns (fold (\<lambda>(i, j) m. mat_set i j (f i j (m_matrix m i j)) m) ps m) = m_columns m \<and>
     m_allocated (fold (\<lambda>(i, j) m. mat_set i j (f i j (m_matrix m i j)) m) ps m) = m_allocated m \<and>
     m_matrix (fold (\<lambda>(i, j) m. mat_set i j (f i j (m_matrix m i j)) m) ps m) a b =
       (if (a, b) \<in> set ps then f a b (m_matrix m a b) else m_matrix m a b)"
proof (induction ps arbitrary: m)
  case (Cons p ps)
  obtain i j where p: "p = (i, j)" by (cases p)
  show ?case using Cons.prems Cons.IH [of "mat_set i j (f i j (m_matrix m i j)) m"] by (simp add: p)
qed simp

lemma fold_mat_swap:
  assumes "\<forall>(i, j) \<in> set ps. i < j" and "distinct ps"
  shows "m_rows (fold mat_swap ps m) = m_rows m \<and> m_columns (fold mat_swap ps m) = m_columns m \<and>
     m_allocated (fold mat_swap ps m) = m_allocated m \<and>
     m_matrix (fold mat_swap ps m) a b =
       (if (a, b) \<in> set ps \<or> (b, a) \<in> set ps then m_matrix m b a else m_matrix m a b)"
  using assms
proof (induction ps arbitrary: m)
  case (Cons p ps)
  obtain i j where p: "p = (i, j)" by (cases p)
  with Cons.prems have "i < j" "(i, j) \<notin> set ps" "(j, i) \<notin> set ps" by auto
  with Cons.IH [of "mat_swap p m"] Cons.prems p show ?case
    by (auto simp: mat_swap_def)
qed simp

lemma upper_cells_props: "set (upper_cells r c) = {(i, j). i < r \<and> i < j \<and> j < c}" "distinct (upper_cells r c)"
proof -
  show "set (upper_cells r c) = {(i, j). i < r \<and> i < j \<and> j < c}"
    by (force simp: upper_cells_def)
  show "distinct (upper_cells r c)"
    unfolding upper_cells_def
    by (induction r) (auto simp: distinct_map inj_on_def)
qed

section \<open>What the operations compute\<close>

text \<open>Inside its range a matrix is the function of the entries; outside the model keeps 0.\<close>

definition mat_wf :: "'a::zero Matrix \<Rightarrow> bool" where
  "mat_wf m \<longleftrightarrow> m_allocated m \<and> (\<forall>i j. m_rows m \<le> i \<or> m_columns m \<le> j \<longrightarrow> m_matrix m i j = 0)"

lemma mat_eqI:
  assumes "mat_wf m" and "mat_wf m'" and "m_rows m = m_rows m'" and "m_columns m = m_columns m'"
    and "\<And>i j. i < m_rows m \<Longrightarrow> j < m_columns m \<Longrightarrow> m_matrix m i j = m_matrix m' i j"
  shows "m = (m' :: 'a::zero Matrix)"
proof -
  have "m_matrix m i j = m_matrix m' i j" for i j
    using assms by (cases "i < m_rows m \<and> j < m_columns m") (auto simp: mat_wf_def not_less)
  then have "m_matrix m = m_matrix m'" by blast
  with assms show ?thesis by (cases m; cases m') (simp add: mat_wf_def)
qed

lemma mat_transpose_correct:
  assumes "mat_wf m" and "0 < m_rows m" and "0 < m_columns m"
  shows "\<exists>t. mat_transpose m = Inr t \<and> mat_wf t \<and> m_rows t = m_columns m \<and> m_columns t = m_rows m \<and>
    (\<forall>i j. m_matrix t i j = m_matrix m j i)"
proof -
  define n where "n = max (m_rows m) (m_columns m)"
  define m1 where "m1 = (if m_rows m \<noteq> m_columns m then mat_resize n n m else m)"
  have m1: "m_rows m1 = n" "m_columns m1 = n" "m_allocated m1" "m_matrix m1 i j = m_matrix m i j" for i j
    using assms(1) by (auto simp: m1_def n_def mat_wf_def mat_resize_def)
  define m2 where "m2 = fold mat_swap (upper_cells n n) m1"
  have m2: "m_rows m2 = n" "m_columns m2 = n" "m_allocated m2" "m_matrix m2 i j = m_matrix m j i" for i j
  proof -
    have "\<forall>(i, j) \<in> set (upper_cells n n). i < j" "distinct (upper_cells n n)"
      by (auto simp: upper_cells_props)
    note sw = fold_mat_swap [OF this, of m1]
    show "m_rows m2 = n" "m_columns m2 = n" "m_allocated m2" using sw [of i j] m1 by (simp_all add: m2_def)
    show "m_matrix m2 i j = m_matrix m j i"
    proof (cases "i < n \<and> j < n")
      case True
      then show ?thesis using sw [of i j] m1 by (auto simp: m2_def upper_cells_props not_less le_less)
    next
      case False
      then have "m_matrix m i j = 0" "m_matrix m j i = 0"
        using assms(1) by (auto simp: mat_wf_def n_def)
      then show ?thesis using sw [of i j] m1 by (simp add: m2_def)
    qed
  qed
  have "mat_transpose m =
      Inr (if m_rows m \<noteq> m_columns m then mat_resize (m_columns m) (m_rows m) m2 else m2)"
    using assms m1(1,2) unfolding mat_transpose_def Let_def m1_def [symmetric] n_def [symmetric] m2_def
    by simp
  moreover have "m_matrix m j i = 0" if "m_columns m \<le> i \<or> m_rows m \<le> j" for i j
    using that assms(1) by (auto simp: mat_wf_def)
  ultimately show ?thesis using m2 n_def by (auto simp: mat_wf_def mat_resize_def)
qed

lemma fold_product_entry:
  "fold (\<lambda>x out. mat_set i j (m_matrix out i j + f x) out) xs =
     (\<lambda>m. mat_set i j (m_matrix m i j + sum_list (map f xs)) m)"
proof (rule ext)
  show "fold (\<lambda>x out. mat_set i j (m_matrix out i j + f x) out) xs m =
      mat_set i j (m_matrix m i j + sum_list (map f xs)) m" for m
    by (induction xs arbitrary: m) (simp_all add: mat_set_def add.assoc)
qed

lemma mat_product_correct:
  fixes m :: "'a::comm_semiring_0 Matrix"
  assumes "m_allocated m" and "m_allocated b" and "m_columns m = m_rows b"
  shows "\<exists>t. mat_product m b = Inr t \<and> mat_wf t \<and> m_rows t = m_rows m \<and> m_columns t = m_columns b \<and>
    (\<forall>i < m_rows m. \<forall>j < m_columns b. m_matrix t i j = (\<Sum>x < m_columns m. m_matrix m i x * m_matrix b x j))"
proof -
  define f where "f = (\<lambda>i j (y :: 'a). y + sum_list (map (\<lambda>x. m_matrix m i x * m_matrix b x j) [0..<m_columns m]))"
  define t where "t = fold (\<lambda>(i, j) out. mat_set i j (f i j (m_matrix out i j)) out)
    (cells (m_rows m) (m_columns b)) (mat_new (m_rows m) (m_columns b))"
  have "mat_product m b = Inr t"
    using assms by (simp add: mat_product_def fold_product_entry t_def f_def)
  moreover note fold_mat_set [of "cells (m_rows m) (m_columns b)" f "mat_new (m_rows m) (m_columns b)", folded t_def]
  ultimately show ?thesis
    by (auto simp: mat_wf_def f_def interv_sum_list_conv_sum_set_nat atLeast0LessThan)
qed

lemma mat_assign_correct:
  assumes "mat_wf m"
  shows "mat_assign t m = m"
proof (rule mat_eqI)
  note f = fold_mat_set [of "cells (m_rows m) (m_columns m)" "\<lambda>i j _. m_matrix m i j"
      "mat_resize (m_rows m) (m_columns m) t"]
  from f show "mat_wf (mat_assign t m)"
    using assms by (auto simp: mat_assign_def mat_wf_def mat_resize_def)
  from f show "m_rows (mat_assign t m) = m_rows m" "m_columns (mat_assign t m) = m_columns m"
    "i < m_rows (mat_assign t m) \<Longrightarrow> j < m_columns (mat_assign t m) \<Longrightarrow>
       m_matrix (mat_assign t m) i j = m_matrix m i j" for i j
    using assms by (auto simp: mat_assign_def mat_wf_def)
qed (rule assms)

lemma mat_copy_correct:
  assumes "mat_wf m"
  shows "mat_copy m = m"
  using mat_assign_correct [OF assms, of mat_default] assms
  by (simp add: mat_copy_def mat_assign_def mat_wf_def mat_new_def)

end
