(* ===== verification/Munkres.thy ===== *)
theory Munkres
  imports Blob_Matrix
begin

text \<open>
  The assignment algorithm of the blob tracker (\<open>munkres.cpp\<close>), step by step as the code has it.

  The costs are a linearly ordered integral domain: the doubles of the program without rounding and
  NaN.  A cost matrix may have infinite entries, \<open>None\<close>, which \<open>solve\<close> replaces by a number above all the
  finite ones.  The loop over the steps is a partial function, so that a run that does not end would
  be \<open>None\<close>.
\<close>

section \<open>Model\<close>

abbreviation (input) NORMAL :: int where "NORMAL \<equiv> 0"
abbreviation (input) STAR :: int where "STAR \<equiv> 1"
abbreviation (input) PRIME :: int where "PRIME \<equiv> 2"

record 'a munkres =
  mk_matrix :: "'a Matrix"
  mask_matrix :: "int Matrix"
  row_mask :: "nat \<Rightarrow> bool"
  col_mask :: "nat \<Rightarrow> bool"
  saverow :: nat
  savecol :: nat

abbreviation rows :: "'a munkres \<Rightarrow> nat" where "rows st \<equiv> m_rows (mk_matrix st)"
abbreviation columns :: "'a munkres \<Rightarrow> nat" where "columns st \<equiv> m_columns (mk_matrix st)"
abbreviation cost :: "'a munkres \<Rightarrow> nat \<Rightarrow> nat \<Rightarrow> 'a" where "cost st \<equiv> m_matrix (mk_matrix st)"
abbreviation mark :: "'a munkres \<Rightarrow> nat \<Rightarrow> nat \<Rightarrow> int" where "mark st \<equiv> m_matrix (mask_matrix st)"

definition set_mark :: "nat \<Rightarrow> nat \<Rightarrow> int \<Rightarrow> 'a munkres \<Rightarrow> 'a munkres" where
  "set_mark i j x st = st\<lparr>mask_matrix := mat_set i j x (mask_matrix st)\<rparr>"

text \<open>The answer is the position found.  The reference arguments of the code hold it as well; when there is
  none their values are not used.\<close>

definition find_uncovered_in_matrix :: "'a \<Rightarrow> 'a munkres \<Rightarrow> (nat \<times> nat) option" where
  "find_uncovered_in_matrix item st =
     find (\<lambda>(row, col). \<not> row_mask st row \<and> \<not> col_mask st col \<and> cost st row col = item)
       (cells (rows st) (columns st))"

definition step1_cell :: "nat \<times> nat \<Rightarrow> 'a::zero munkres \<Rightarrow> 'a munkres" where
  "step1_cell rc st =
     (case rc of (row, col) \<Rightarrow>
        if cost st row col = 0 \<and> \<not> list_ex (\<lambda>nrow. mark st nrow col = STAR) [0..<rows st] \<and>
           \<not> list_ex (\<lambda>ncol. mark st row ncol = STAR) [0..<columns st]
        then set_mark row col STAR st else st)"

definition step1 :: "'a::zero munkres \<Rightarrow> nat \<times> 'a munkres" where
  "step1 st = (2, fold step1_cell (cells (rows st) (columns st)) st)"

definition step2_cell :: "nat \<times> nat \<Rightarrow> nat \<times> 'a munkres \<Rightarrow> nat \<times> 'a munkres" where
  "step2_cell rc cs =
     (case (rc, cs) of ((row, col), (covercount, st)) \<Rightarrow>
        if mark st row col = STAR then (covercount + 1, st\<lparr>col_mask := (col_mask st)(col := True)\<rparr>)
        else (covercount, st))"

definition step2 :: "'a munkres \<Rightarrow> nat \<times> 'a munkres" where
  "step2 st =
     (case fold step2_cell (cells (rows st) (columns st)) (0, st) of
        (covercount, st') \<Rightarrow> (if covercount \<ge> minsize (mk_matrix st) then 0 else 3, st'))"

text \<open>A search that fails also moves \<open>saverow\<close> and \<open>savecol\<close>, which are next read after one that succeeds.\<close>

definition step3 :: "'a::zero munkres \<Rightarrow> nat \<times> 'a munkres" where
  "step3 st =
     (case find_uncovered_in_matrix 0 st of
        None \<Rightarrow> (5, st)
      | Some (row, col) \<Rightarrow>
          let st1 = set_mark row col PRIME (st\<lparr>saverow := row, savecol := col\<rparr>) in
          (case find (\<lambda>ncol. mark st1 row ncol = STAR) [0..<columns st] of
             Some ncol \<Rightarrow>
               (3, st1\<lparr>row_mask := (row_mask st1)(row := True), col_mask := (col_mask st1)(ncol := False)\<rparr>)
           | None \<Rightarrow> (4, st1)))"

text \<open>The alternating sequence of primed and starred zeros; \<open>pair_in_list\<close> is membership.\<close>

function step4_seq :: "nat \<Rightarrow> nat \<Rightarrow> (nat \<Rightarrow> nat \<Rightarrow> int) \<Rightarrow> nat \<Rightarrow> (nat \<times> nat) list \<Rightarrow> (nat \<times> nat) list" where
  "step4_seq nrows ncols mk col seq =
     (case find (\<lambda>row. mk row col = STAR \<and> (row, col) \<notin> set seq) [0..<nrows] of
        None \<Rightarrow> seq
      | Some row \<Rightarrow>
          let seq1 = seq @ [(row, col)] in
          (case find (\<lambda>c. mk row c = PRIME \<and> (row, c) \<notin> set seq1) [0..<ncols] of
             None \<Rightarrow> seq1
           | Some c \<Rightarrow> step4_seq nrows ncols mk c (seq1 @ [(row, c)])))"
  by pat_completeness auto

definition step4_flip :: "nat \<times> nat \<Rightarrow> 'a munkres \<Rightarrow> 'a munkres" where
  "step4_flip ij st =
     (case ij of (i, j) \<Rightarrow>
        let st1 = (if mark st i j = STAR then set_mark i j NORMAL st else st)
        in if mark st1 i j = PRIME then set_mark i j STAR st1 else st1)"

definition step4_erase :: "nat \<times> nat \<Rightarrow> 'a munkres \<Rightarrow> 'a munkres" where
  "step4_erase ij st =
     (case ij of (i, j) \<Rightarrow> if mark st i j = PRIME then set_mark i j NORMAL st else st)"

definition step4 :: "'a munkres \<Rightarrow> nat \<times> 'a munkres" where
  "step4 st =
     (let seq = step4_seq (rows st) (columns st) (mark st) (savecol st) [(saverow st, savecol st)];
          st1 = fold step4_flip seq st;
          st2 = fold step4_erase (cells (m_rows (mask_matrix st1)) (m_columns (mask_matrix st1))) st1
      in (2, st2\<lparr>row_mask := fold (\<lambda>i f. f(i := False)) [0..<rows st] (row_mask st2),
                 col_mask := fold (\<lambda>i f. f(i := False)) [0..<columns st] (col_mask st2)\<rparr>))"

definition step5_min :: "'a::linordered_idom munkres \<Rightarrow> 'a" where
  "step5_min st =
     fold (\<lambda>(row, col) h.
         if \<not> row_mask st row \<and> \<not> col_mask st col \<and>
            (h > cost st row col \<and> cost st row col \<noteq> 0 \<or> h = 0)
         then cost st row col else h)
       (cells (rows st) (columns st)) 0"

definition step5 :: "'a::linordered_idom munkres \<Rightarrow> nat \<times> 'a munkres" where
  "step5 st =
     (let h = step5_min st;
          m1 = fold (\<lambda>(row, col) m. mat_set row col (if row_mask st row then m_matrix m row col + h else m_matrix m row col) m)
                 (cells (rows st) (columns st)) (mk_matrix st);
          m2 = fold (\<lambda>(row, col) m. mat_set row col (if \<not> col_mask st col then m_matrix m row col - h else m_matrix m row col) m)
                 (cells (rows st) (columns st)) m1
      in (3, st\<lparr>mk_matrix := m2\<rparr>))"

text \<open>The switch and the loop of \<open>solve\<close>.\<close>

definition munkres_step :: "nat \<Rightarrow> 'a::linordered_idom munkres \<Rightarrow> nat \<times> 'a munkres" where
  "munkres_step step st =
     (if step = 1 then step1 st else if step = 2 then step2 st else if step = 3 then step3 st
      else if step = 4 then step4 st else if step = 5 then step5 st else (step, st))"

partial_function (option) solve_loop :: "nat \<Rightarrow> 'a::linordered_idom munkres \<Rightarrow> 'a munkres option" where
  "solve_loop step st =
     (if step = 0 then Some st else case munkres_step step st of (step', st') \<Rightarrow> solve_loop step' st')"

declare solve_loop.simps [code]

definition high_value :: "'a::linordered_idom option Matrix \<Rightarrow> 'a" where
  "high_value m =
     fold (\<lambda>(row, col) h. case m_matrix m row col of None \<Rightarrow> h | Some x \<Rightarrow> if x > h then x else h)
       (cells (m_rows m) (m_columns m)) 0 + 1"

definition finite_costs :: "'a::linordered_idom option Matrix \<Rightarrow> 'a Matrix" where
  "finite_costs m =
     \<lparr>m_rows = m_rows m, m_columns = m_columns m, m_allocated = m_allocated m,
      m_matrix = (\<lambda>i j. if i < m_rows m \<and> j < m_columns m
                        then (case m_matrix m i j of None \<Rightarrow> high_value m | Some x \<Rightarrow> x) else 0)\<rparr>"

definition store_result :: "'a::linordered_idom munkres \<Rightarrow> 'a Matrix" where
  "store_result st =
     fold (\<lambda>(row, col) m. mat_set row col (if mark st row col = STAR then 0 else - 1) m)
       (cells (rows st) (columns st)) (mk_matrix st)"

text \<open>\<open>old\<close> is what the member \<open>mask_matrix\<close> holds before the call: a new object has a null matrix there.\<close>

definition solve :: "int Matrix \<Rightarrow> 'a::linordered_idom option Matrix \<Rightarrow> 'a Matrix option" where
  "solve old m =
     map_option store_result
       (solve_loop 1 \<lparr>mk_matrix = finite_costs m, mask_matrix = mat_resize (m_rows m) (m_columns m) old,
          row_mask = (\<lambda>_. False), col_mask = (\<lambda>_. False), saverow = 0, savecol = 0\<rparr>)"

text \<open>Each round of the alternating sequence adds a pair that was not in it.\<close>

lemma find_NoneD: "find P xs = None \<Longrightarrow> x \<in> set xs \<Longrightarrow> \<not> P x"
  by (simp add: find_None_iff)

definition seq_room :: "nat \<Rightarrow> nat \<Rightarrow> nat \<Rightarrow> (nat \<times> nat) list \<Rightarrow> (nat \<times> nat) set" where
  "seq_room nrows ncols col seq = {(i, j). i < nrows \<and> (j = col \<or> j < ncols)} - set seq"

lemma seq_room_decreases:
  assumes "r < nrows" and "(r, col) \<notin> set seq" and "c < ncols"
  shows "card (seq_room nrows ncols c (seq @ [(r, col)] @ [(r, c)])) < card (seq_room nrows ncols col seq)"
proof (rule psubset_card_mono)
  show "finite (seq_room nrows ncols col seq)"
    by (rule finite_subset [of _ "{..<nrows} \<times> {..<max (Suc col) ncols}"]) (auto simp: seq_room_def)
  have "(r, col) \<in> seq_room nrows ncols col seq" "(r, col) \<notin> seq_room nrows ncols c (seq @ [(r, col)] @ [(r, c)])"
    using assms by (simp_all add: seq_room_def)
  moreover have "seq_room nrows ncols c (seq @ [(r, col)] @ [(r, c)]) \<subseteq> seq_room nrows ncols col seq"
    using assms by (auto simp: seq_room_def)
  ultimately show "seq_room nrows ncols c (seq @ [(r, col)] @ [(r, c)]) \<subset> seq_room nrows ncols col seq"
    by blast
qed

termination step4_seq
proof (relation "measure (\<lambda>(nrows, ncols, mk, col, seq). card (seq_room nrows ncols col seq))")
  fix nrows ncols :: nat and mk :: "nat \<Rightarrow> nat \<Rightarrow> int" and col seq row seq1 c
  assume row: "find (\<lambda>row. mk row col = STAR \<and> (row, col) \<notin> set seq) [0..<nrows] = Some row"
    and seq1: "seq1 = seq @ [(row, col)]"
    and c: "find (\<lambda>c. mk row c = PRIME \<and> (row, c) \<notin> set seq1) [0..<ncols] = Some c"
  have "row < nrows" "(row, col) \<notin> set seq" "c < ncols"
    using find_SomeD [OF row] find_SomeD [OF c] by simp_all
  from seq_room_decreases [OF this] show "((nrows, ncols, mk, c, seq1 @ [(row, c)]), nrows, ncols, mk, col, seq)
      \<in> measure (\<lambda>(nrows, ncols, mk, col, seq). card (seq_room nrows ncols col seq))"
    by (simp add: seq1)
qed simp

declare step4_seq.simps [simp del]

end
