(* ===== verification/Munkres_Path.thy ===== *)
theory Munkres_Path
  imports Munkres
begin

text \<open>
  The two facts on which the assignment algorithm rests: a set of independent zeros of a reduced cost
  matrix has minimal cost, and exchanging the stars and primes of the alternating sequence of \<open>step4\<close>
  gives one more independent zero.
\<close>

section \<open>Independent sets of cells\<close>

definition indep :: "(nat \<times> nat) set \<Rightarrow> bool" where
  "indep S \<longleftrightarrow> inj_on fst S \<and> inj_on snd S"

lemma inj_fst: "inj_on fst S \<Longrightarrow> (i, j) \<in> S \<Longrightarrow> (i, j') \<in> S \<Longrightarrow> j = j'"
  by (auto dest: inj_onD [of fst S "(i, j)" "(i, j')"])

lemma indep_row: "indep S \<Longrightarrow> (i, j) \<in> S \<Longrightarrow> (i, j') \<in> S \<Longrightarrow> j = j'"
  by (auto simp: indep_def intro: inj_fst)

lemma indep_col: "indep S \<Longrightarrow> (i, j) \<in> S \<Longrightarrow> (i', j) \<in> S \<Longrightarrow> i = i'"
  by (auto simp: indep_def dest: inj_onD [of snd S "(i, j)" "(i', j)"])

lemma indepI:
  assumes "\<And>i j j'. (i, j) \<in> S \<Longrightarrow> (i, j') \<in> S \<Longrightarrow> j = j'" and "\<And>i i' j. (i, j) \<in> S \<Longrightarrow> (i', j) \<in> S \<Longrightarrow> i = i'"
  shows "indep S"
  using assms by (auto simp: indep_def inj_on_def)

lemma indep_card_le:
  assumes "indep S" and "S \<subseteq> {..<r} \<times> {..<c}"
  shows "card S \<le> min r c"
proof -
  have "fst ` S \<subseteq> {..<r}" "snd ` S \<subseteq> {..<c}" using assms(2) by auto
  then have "card (fst ` S) \<le> r" "card (snd ` S) \<le> c"
    using card_mono [of "{..<r}" "fst ` S"] card_mono [of "{..<c}" "snd ` S"] by simp_all
  then show ?thesis using assms(1) by (simp add: indep_def card_image)
qed

text \<open>A sum of values that are at most 0 is least over a set outside of which they are 0.\<close>

lemma sum_nonpos_le:
  fixes f :: "nat \<Rightarrow> 'a::linordered_idom"
  assumes "\<And>i. i < n \<Longrightarrow> f i \<le> 0" and "\<And>i. i < n \<Longrightarrow> i \<notin> A \<Longrightarrow> f i = 0"
    and "A \<subseteq> {..<n}" and "B \<subseteq> {..<n}"
  shows "sum f A \<le> sum f B"
proof -
  have "sum f A = sum f {..<n}"
    by (rule sum.mono_neutral_left) (use assms in auto)
  also have "\<dots> = sum f B + sum f ({..<n} - B)"
    using assms(4) by (simp add: sum.subset_diff add.commute)
  also have "\<dots> \<le> sum f B"
    using assms(1) sum_nonpos [of "{..<n} - B" f] by simp
  finally show ?thesis .
qed

theorem assignment_optimal:
  fixes c :: "nat \<Rightarrow> nat \<Rightarrow> 'a::linordered_idom"
  assumes lower: "\<And>i j. i < nr \<Longrightarrow> j < nc \<Longrightarrow> u i + v j \<le> c i j"
    and tight: "\<And>i j. (i, j) \<in> S \<Longrightarrow> c i j = u i + v j"
    and u: "\<And>i. i < nr \<Longrightarrow> u i \<le> 0" "\<And>i. i < nr \<Longrightarrow> i \<notin> fst ` S \<Longrightarrow> u i = 0"
    and v: "\<And>j. j < nc \<Longrightarrow> v j \<le> H" "\<And>j. j < nc \<Longrightarrow> j \<notin> snd ` S \<Longrightarrow> v j = H"
    and S: "S \<subseteq> {..<nr} \<times> {..<nc}" "indep S" and T: "T \<subseteq> {..<nr} \<times> {..<nc}" "indep T" and "card T = card S"
  shows "(\<Sum>(i, j) \<in> S. c i j) \<le> (\<Sum>(i, j) \<in> T. c i j)"
proof -
  have split: "(\<Sum>(i, j) \<in> X. u i + v j) = sum u (fst ` X) + sum (\<lambda>j. v j - H) (snd ` X) + of_nat (card X) * H"
    if "indep X" for X
  proof -
    have "(\<Sum>(i, j) \<in> X. u i + v j) = (\<Sum>p \<in> X. u (fst p) + ((v (snd p) - H) + H))"
      by (rule sum.cong) auto
    also have "\<dots> = (\<Sum>p \<in> X. u (fst p)) + (\<Sum>p \<in> X. v (snd p) - H) + of_nat (card X) * H"
      by (simp only: sum.distrib sum_constant add.assoc)
    finally show ?thesis using that by (simp add: indep_def sum.reindex)
  qed
  have "(\<Sum>(i, j) \<in> S. c i j) = (\<Sum>(i, j) \<in> S. u i + v j)"
    by (rule sum.cong) (auto simp: tight)
  also have "\<dots> \<le> (\<Sum>(i, j) \<in> T. u i + v j)"
  proof -
    have "sum u (fst ` S) \<le> sum u (fst ` T)"
      by (rule sum_nonpos_le [of nr]) (use u S T in auto)
    moreover have "sum (\<lambda>j. v j - H) (snd ` S) \<le> sum (\<lambda>j. v j - H) (snd ` T)"
      by (rule sum_nonpos_le [of nc]) (use v S T in auto)
    ultimately show ?thesis using split [OF S(2)] split [OF T(2)] \<open>card T = card S\<close> by simp
  qed
  also have "\<dots> \<le> (\<Sum>(i, j) \<in> T. c i j)"
    by (rule sum_mono) (use T lower in auto)
  finally show ?thesis .
qed

section \<open>The alternating sequence\<close>

definition marked :: "int \<Rightarrow> nat \<Rightarrow> nat \<Rightarrow> (nat \<Rightarrow> nat \<Rightarrow> int) \<Rightarrow> (nat \<times> nat) set" where
  "marked x nr nc mk = {(i, j). i < nr \<and> j < nc \<and> mk i j = x}"

abbreviation "starred \<equiv> marked STAR"
abbreviation "primed \<equiv> marked PRIME"

text \<open>The stars there would be if the sequence ended here.\<close>

definition exchanged :: "nat \<Rightarrow> nat \<Rightarrow> (nat \<Rightarrow> nat \<Rightarrow> int) \<Rightarrow> (nat \<times> nat) list \<Rightarrow> (nat \<times> nat) set" where
  "exchanged nr nc mk seq = (starred nr nc mk - set seq) \<union> (primed nr nc mk \<inter> set seq)"

lemma marked_finite [simp]: "finite (marked x nr nc mk)"
  by (rule finite_subset [of _ "{..<nr} \<times> {..<nc}"]) (auto simp: marked_def)

lemma exchanged_finite [simp]: "finite (exchanged nr nc mk seq)"
  by (simp add: exchanged_def)

lemma marked_grid: "marked x nr nc mk \<subseteq> {..<nr} \<times> {..<nc}"
  by (auto simp: marked_def)

text \<open>Along the sequence the rows of the primes go down in the order in which they were covered.\<close>

definition path_marks :: "nat \<Rightarrow> nat \<Rightarrow> (nat \<Rightarrow> nat \<Rightarrow> int) \<Rightarrow> (nat \<Rightarrow> nat) \<Rightarrow> bool" where
  "path_marks nr nc mk rk \<longleftrightarrow>
     indep (starred nr nc mk) \<and>
     (\<forall>i j i'. (i, j) \<in> primed nr nc mk \<and> (i', j) \<in> starred nr nc mk \<longrightarrow>
        rk i' < rk i \<and> (\<exists>j'. (i', j') \<in> primed nr nc mk))"

definition path_inv :: "nat \<Rightarrow> nat \<Rightarrow> (nat \<Rightarrow> nat \<Rightarrow> int) \<Rightarrow> (nat \<Rightarrow> nat) \<Rightarrow> nat \<Rightarrow> nat \<Rightarrow> (nat \<times> nat) list \<Rightarrow> bool" where
  "path_inv nr nc mk rk r col seq \<longleftrightarrow>
     (r, col) \<in> primed nr nc mk \<and> (r, col) \<in> set seq \<and> distinct seq \<and>
     set seq \<subseteq> starred nr nc mk \<union> primed nr nc mk \<and>
     inj_on fst (exchanged nr nc mk seq) \<and>
     (\<forall>i i' j. (i, j) \<in> exchanged nr nc mk seq \<and> (i', j) \<in> exchanged nr nc mk seq \<and> j \<noteq> col \<longrightarrow> i = i') \<and>
     (\<forall>i. (i, col) \<in> exchanged nr nc mk seq \<longrightarrow> i = r \<or> (i, col) \<in> starred nr nc mk) \<and>
     card (exchanged nr nc mk seq) = Suc (card (starred nr nc mk)) \<and>
     fst ` starred nr nc mk \<subseteq> fst ` exchanged nr nc mk seq \<and>
     snd ` starred nr nc mk \<subseteq> snd ` exchanged nr nc mk seq \<and>
     (\<forall>i j. (i, j) \<in> primed nr nc mk \<and> (i, j) \<in> set seq \<and> j \<noteq> col \<longrightarrow>
        (\<exists>i'. (i', j) \<in> starred nr nc mk \<and> rk r \<le> rk i'))"

definition path_result :: "nat \<Rightarrow> nat \<Rightarrow> (nat \<Rightarrow> nat \<Rightarrow> int) \<Rightarrow> (nat \<times> nat) list \<Rightarrow> bool" where
  "path_result nr nc mk seq \<longleftrightarrow>
     distinct seq \<and> set seq \<subseteq> starred nr nc mk \<union> primed nr nc mk \<and>
     indep (exchanged nr nc mk seq) \<and> card (exchanged nr nc mk seq) = Suc (card (starred nr nc mk)) \<and>
     fst ` starred nr nc mk \<subseteq> fst ` exchanged nr nc mk seq \<and>
     snd ` starred nr nc mk \<subseteq> snd ` exchanged nr nc mk seq"

lemma star_not_prime: "(i, j) \<in> starred nr nc mk \<Longrightarrow> (i, j) \<notin> primed nr nc mk"
  by (simp add: marked_def)

lemma path_start:
  assumes "path_marks nr nc mk rk" and "(r, col) \<in> primed nr nc mk" and "\<forall>j. (r, j) \<notin> starred nr nc mk"
  shows "path_inv nr nc mk rk r col [(r, col)]"
proof -
  have ex: "exchanged nr nc mk [(r, col)] = insert (r, col) (starred nr nc mk)"
    using assms(2,3) by (auto simp: exchanged_def)
  moreover have "(r, col) \<notin> starred nr nc mk" using assms(3) by blast
  moreover have "inj_on fst (insert (r, col) (starred nr nc mk))"
    using assms(1,3) by (auto simp: path_marks_def indep_def)
  ultimately show ?thesis
    using assms by (auto simp: path_inv_def path_marks_def ex dest: indep_col)
qed

lemma path_end:
  assumes "path_inv nr nc mk rk r col seq" and "\<And>i. (i, col) \<in> starred nr nc mk \<Longrightarrow> (i, col) \<in> set seq"
  shows "path_result nr nc mk seq"
proof -
  have r: "i = r" if "(i, col) \<in> exchanged nr nc mk seq" for i
  proof -
    from that assms(2) have "(i, col) \<in> primed nr nc mk" by (auto simp: exchanged_def)
    then have "(i, col) \<notin> starred nr nc mk" using star_not_prime by blast
    with assms(1) that show ?thesis by (auto simp: path_inv_def)
  qed
  have "indep (exchanged nr nc mk seq)"
  proof (rule indepI)
    fix i j j' assume "(i, j) \<in> exchanged nr nc mk seq" "(i, j') \<in> exchanged nr nc mk seq"
    moreover have "inj_on fst (exchanged nr nc mk seq)" using assms(1) by (simp add: path_inv_def)
    ultimately show "j = j'" by (metis inj_fst)
  next
    fix i i' j assume "(i, j) \<in> exchanged nr nc mk seq" "(i', j) \<in> exchanged nr nc mk seq"
    with assms(1) r show "i = i'" unfolding path_inv_def by metis
  qed
  with assms(1) show ?thesis by (simp add: path_result_def path_inv_def)
qed

lemma path_step:
  assumes marks: "path_marks nr nc mk rk" and inv: "path_inv nr nc mk rk r col seq"
    and row: "(row, col) \<in> starred nr nc mk" "(row, col) \<notin> set seq"
  shows "\<exists>c. (row, c) \<in> primed nr nc mk \<and> (row, c) \<notin> set (seq @ [(row, col)])"
    and "(row, c) \<in> primed nr nc mk \<Longrightarrow> (row, c) \<notin> set (seq @ [(row, col)]) \<Longrightarrow>
      path_inv nr nc mk rk row c ((seq @ [(row, col)]) @ [(row, c)])"
proof -
  let ?S = "starred nr nc mk" and ?P = "primed nr nc mk" and ?V = "exchanged nr nc mk seq"
  have inv': "(r, col) \<in> ?P" "(r, col) \<in> set seq" "distinct seq" "set seq \<subseteq> ?S \<union> ?P" "inj_on fst ?V"
    "card ?V = Suc (card ?S)" "fst ` ?S \<subseteq> fst ` ?V" "snd ` ?S \<subseteq> snd ` ?V"
    using inv by (simp_all add: path_inv_def)
  have cols: "\<And>i i' j. (i, j) \<in> ?V \<Longrightarrow> (i', j) \<in> ?V \<Longrightarrow> j \<noteq> col \<Longrightarrow> i = i'"
    using inv unfolding path_inv_def by (elim conjE) blast
  have last: "\<And>i. (i, col) \<in> ?V \<Longrightarrow> i = r \<or> (i, col) \<in> ?S"
    using inv unfolding path_inv_def by (elim conjE) blast
  have later: "\<And>i j. (i, j) \<in> ?P \<Longrightarrow> (i, j) \<in> set seq \<Longrightarrow> j \<noteq> col \<Longrightarrow> \<exists>i'. (i', j) \<in> ?S \<and> rk r \<le> rk i'"
    using inv unfolding path_inv_def by (elim conjE) blast
  have S: "indep ?S" and rk: "\<And>i j i'. (i, j) \<in> ?P \<Longrightarrow> (i', j) \<in> ?S \<Longrightarrow> rk i' < rk i"
    and next_prime: "\<And>i j i'. (i, j) \<in> ?P \<Longrightarrow> (i', j) \<in> ?S \<Longrightarrow> \<exists>j'. (i', j') \<in> ?P"
    using marks unfolding path_marks_def by blast+
  have rowV: "(row, col) \<in> ?V" using row by (simp add: exchanged_def)
  have fresh: "(row, c) \<notin> set (seq @ [(row, col)]) \<and> c \<noteq> col" if "(row, c) \<in> ?P" for c
  proof -
    have "c \<noteq> col" using that row(1) star_not_prime by blast
    moreover have "(row, c) \<notin> set seq"
    proof
      assume "(row, c) \<in> set seq"
      with that have "(row, c) \<in> ?V" by (simp add: exchanged_def)
      with rowV inj_fst [OF inv'(5)] \<open>c \<noteq> col\<close> show False by blast
    qed
    ultimately show ?thesis by simp
  qed
  then show "\<exists>c. (row, c) \<in> ?P \<and> (row, c) \<notin> set (seq @ [(row, col)])"
    using next_prime [OF inv'(1) row(1)] by blast
  assume c: "(row, c) \<in> ?P" "(row, c) \<notin> set (seq @ [(row, col)])"
  let ?seq = "(seq @ [(row, col)]) @ [(row, c)]"
  let ?W = "exchanged nr nc mk ?seq"
  have ccol: "c \<noteq> col" using fresh [OF c(1)] by simp
  have W: "?W = insert (row, c) (?V - {(row, col)})"
    using row c star_not_prime by (auto simp: exchanged_def)
  have cV: "(row, c) \<notin> ?V" using c star_not_prime by (auto simp: exchanged_def)
  have rown: "(row, j) \<notin> ?V - {(row, col)}" for j
    using rowV inj_fst [OF inv'(5)] by blast
  have r: "r \<noteq> row" using inv'(1) row(1) star_not_prime by blast
  have rV: "(r, col) \<in> ?V" using inv'(1,2) by (simp add: exchanged_def)
  have "inj_on fst ?W" unfolding W using inv'(5) rown by (auto simp: inj_on_def)
  moreover have "i = i'" if "(i, j) \<in> ?W" "(i', j) \<in> ?W" "j \<noteq> c" for i i' j
  proof -
    have V: "(i, j) \<in> ?V" "(i', j) \<in> ?V" "(i, j) \<noteq> (row, col)" "(i', j) \<noteq> (row, col)"
      using that unfolding W by auto
    show ?thesis
    proof (cases "j = col")
      case True
      then have "i = r" "i' = r" using V last [of i] last [of i'] indep_col [OF S _ row(1)] by auto
      then show ?thesis by simp
    next
      case False
      with V cols show ?thesis by blast
    qed
  qed
  moreover have "i = row \<or> (i, c) \<in> ?S" if "(i, c) \<in> ?W" for i
  proof (rule ccontr)
    assume n: "\<not> (i = row \<or> (i, c) \<in> ?S)"
    with that have "(i, c) \<in> ?P" "(i, c) \<in> set seq" unfolding W by (auto simp: exchanged_def)
    from later [OF this ccol] obtain i' where "(i', c) \<in> ?S" "rk r \<le> rk i'" by blast
    with rk [OF c(1)] rk [OF inv'(1) row(1)] show False by fastforce
  qed
  moreover have "card ?W = Suc (card ?S)"
    unfolding W using cV rowV inv'(6) by (simp add: card_Diff_singleton)
  moreover have "fst ` ?S \<subseteq> fst ` ?W"
  proof -
    have "fst ` ?V \<subseteq> fst ` ?W" unfolding W by force
    with inv'(7) show ?thesis by blast
  qed
  moreover have "snd ` ?S \<subseteq> snd ` ?W"
  proof -
    have "(r, col) \<in> ?W" unfolding W using rV r by simp
    then have "col \<in> snd ` ?W" by force
    moreover have "?V \<subseteq> insert (row, col) ?W" unfolding W by blast
    ultimately have "snd ` ?V \<subseteq> snd ` ?W" by force
    with inv'(8) show ?thesis by blast
  qed
  moreover have "\<exists>i'. (i', j) \<in> ?S \<and> rk row \<le> rk i'" if "(i, j) \<in> ?P" "(i, j) \<in> set ?seq" "j \<noteq> c" for i j
  proof -
    have seq: "(i, j) \<in> set seq" using that row(1) star_not_prime by auto
    show ?thesis
    proof (cases "j = col")
      case True
      with row(1) show ?thesis by blast
    next
      case False
      from later [OF that(1) seq this] rk [OF inv'(1) row(1)] show ?thesis by fastforce
    qed
  qed
  ultimately show "path_inv nr nc mk rk row c ?seq"
    using c row inv'(3,4) ccol unfolding path_inv_def by auto
qed

lemma step4_seq_result:
  assumes "path_marks nr nc mk rk" and "path_inv nr nc mk rk r col seq"
  shows "path_result nr nc mk (step4_seq nr nc mk col seq)"
  using assms
proof (induction nr nc mk col seq arbitrary: r rule: step4_seq.induct)
  case (1 nr nc mk col seq)
  have colb: "col < nc" using "1.prems"(2) by (simp add: path_inv_def marked_def)
  show ?case
  proof (cases "find (\<lambda>row. mk row col = STAR \<and> (row, col) \<notin> set seq) [0..<nr]")
    case None
    then have "(i, col) \<in> set seq" if "(i, col) \<in> starred nr nc mk" for i
      using find_NoneD [OF None, of i] that by (auto simp: marked_def)
    from path_end [OF "1.prems"(2) this] None show ?thesis by (simp add: step4_seq.simps)
  next
    case (Some row)
    then have row: "(row, col) \<in> starred nr nc mk" "(row, col) \<notin> set seq"
      using find_SomeD [OF Some] colb by (auto simp: marked_def)
    note step = path_step [OF "1.prems" row]
    from step(1) obtain c where
      c: "find (\<lambda>c. mk row c = PRIME \<and> (row, c) \<notin> set (seq @ [(row, col)])) [0..<nc] = Some c"
    proof (cases "find (\<lambda>c. mk row c = PRIME \<and> (row, c) \<notin> set (seq @ [(row, col)])) [0..<nc]")
      case None
      with step(1) show ?thesis using find_NoneD [OF None] by (auto simp: marked_def)
    qed blast
    then have "(row, c) \<in> primed nr nc mk" "(row, c) \<notin> set (seq @ [(row, col)])"
      using find_SomeD [OF c] row(1) by (auto simp: marked_def)
    from "1.IH" [OF Some refl c "1.prems"(1) step(2) [OF this]] Some c show ?thesis
      by (simp add: step4_seq.simps [of nr nc mk col] Let_def)
  qed
qed

end
