(* ===== verification/Munkres_Correct.thy ===== *)
theory Munkres_Correct
  imports Munkres_Path
begin

text \<open>
  Total correctness of the assignment algorithm: the loop over the steps ends, the starred cells are then
  a complete independent set, and for costs that are not negative their total cost is least.
\<close>

section \<open>Invariants of the steps\<close>

abbreviation stars :: "'a munkres \<Rightarrow> (nat \<times> nat) set" where
  "stars st \<equiv> starred (rows st) (columns st) (mark st)"

abbreviation primes :: "'a munkres \<Rightarrow> (nat \<times> nat) set" where
  "primes st \<equiv> primed (rows st) (columns st) (mark st)"

text \<open>In every step the stars are independent zeros, and the cost matrix is the original one reduced by
  potentials that are extreme for the rows and columns without a star.\<close>

definition potentials :: "(nat \<Rightarrow> nat \<Rightarrow> 'a::linordered_idom) \<Rightarrow> 'a munkres \<Rightarrow> (nat \<Rightarrow> 'a) \<Rightarrow> (nat \<Rightarrow> 'a) \<Rightarrow> 'a \<Rightarrow> bool" where
  "potentials c st u v H \<longleftrightarrow>
     (\<forall>i < rows st. \<forall>j < columns st. cost st i j = c i j - u i - v j \<and> 0 \<le> cost st i j) \<and>
     (\<forall>i < rows st. u i \<le> 0 \<and> (i \<notin> fst ` stars st \<longrightarrow> u i = 0)) \<and>
     (\<forall>j < columns st. v j \<le> H \<and> (j \<notin> snd ` stars st \<longrightarrow> v j = H))"

definition base_inv :: "(nat \<Rightarrow> nat \<Rightarrow> 'a::linordered_idom) \<Rightarrow> 'a munkres \<Rightarrow> bool" where
  "base_inv c st \<longleftrightarrow>
     m_rows (mask_matrix st) = rows st \<and> m_columns (mask_matrix st) = columns st \<and>
     indep (stars st) \<and> (\<forall>(i, j) \<in> stars st. cost st i j = 0) \<and>
     ((\<forall>i < rows st. \<forall>j < columns st. 0 \<le> c i j) \<longrightarrow> (\<exists>u v H. potentials c st u v H))"

definition uncovered_inv :: "'a munkres \<Rightarrow> bool" where
  "uncovered_inv st \<longleftrightarrow>
     primes st = {} \<and> (\<forall>i < rows st. \<not> row_mask st i) \<and> (\<forall>j < columns st. \<not> col_mask st j)"

definition cover_inv :: "'a::zero munkres \<Rightarrow> bool" where
  "cover_inv st \<longleftrightarrow>
     (\<forall>i j. (i, j) \<in> stars st \<longrightarrow> (col_mask st j \<longleftrightarrow> \<not> row_mask st i)) \<and>
     (\<forall>i < rows st. row_mask st i \<longrightarrow> i \<in> fst ` stars st \<and> i \<in> fst ` primes st) \<and>
     (\<forall>j < columns st. col_mask st j \<longrightarrow> j \<in> snd ` stars st) \<and>
     (\<forall>i j. (i, j) \<in> primes st \<longrightarrow> row_mask st i \<and> \<not> col_mask st j \<and> cost st i j = 0) \<and>
     (\<exists>rk :: nat \<Rightarrow> nat. \<forall>i j i'. (i, j) \<in> primes st \<and> (i', j) \<in> stars st \<longrightarrow> rk i' < rk i)"

lemma cover_star: "cover_inv st \<Longrightarrow> (i, j) \<in> stars st \<Longrightarrow> col_mask st j \<longleftrightarrow> \<not> row_mask st i"
  unfolding cover_inv_def by (elim conjE) blast

lemma cover_row: "cover_inv st \<Longrightarrow> row_mask st i \<Longrightarrow> i < rows st \<Longrightarrow> i \<in> fst ` stars st \<and> i \<in> fst ` primes st"
  unfolding cover_inv_def by (elim conjE) blast

lemma cover_column: "cover_inv st \<Longrightarrow> col_mask st j \<Longrightarrow> j < columns st \<Longrightarrow> j \<in> snd ` stars st"
  unfolding cover_inv_def by (elim conjE) blast

lemma cover_prime: "cover_inv st \<Longrightarrow> (i, j) \<in> primes st \<Longrightarrow> row_mask st i \<and> \<not> col_mask st j \<and> cost st i j = 0"
  unfolding cover_inv_def by (elim conjE) blast

lemma cover_rank:
  assumes "cover_inv st"
  shows "\<exists>rk :: nat \<Rightarrow> nat. \<forall>i j i'. (i, j) \<in> primes st \<and> (i', j) \<in> stars st \<longrightarrow> rk i' < rk i"
  using assms unfolding cover_inv_def by (elim conjE)

definition augment_inv :: "'a::zero munkres \<Rightarrow> bool" where
  "augment_inv st \<longleftrightarrow>
     (saverow st, savecol st) \<in> primes st \<and> saverow st \<notin> fst ` stars st \<and>
     (\<forall>i j. (i, j) \<in> primes st \<longrightarrow> cost st i j = 0) \<and>
     (\<exists>rk. path_marks (rows st) (columns st) (mark st) rk)"

lemma stars_card_le: "base_inv c st \<Longrightarrow> card (stars st) \<le> min (rows st) (columns st)"
  unfolding base_inv_def using indep_card_le [OF _ marked_grid] by blast

lemma minsize_min: "minsize m = min (m_rows m) (m_columns m)"
  by (simp add: minsize_def)

lemma set_mark_fields [simp]:
  "mk_matrix (set_mark i j x st) = mk_matrix st" "row_mask (set_mark i j x st) = row_mask st"
  "col_mask (set_mark i j x st) = col_mask st" "saverow (set_mark i j x st) = saverow st"
  "savecol (set_mark i j x st) = savecol st"
  "m_rows (mask_matrix (set_mark i j x st)) = m_rows (mask_matrix st)"
  "m_columns (mask_matrix (set_mark i j x st)) = m_columns (mask_matrix st)"
  "mark (set_mark i j x st) a b = (if a = i \<and> b = j then x else mark st a b)"
  by (simp_all add: set_mark_def)

section \<open>Step 1\<close>

lemma step1_cell_inv:
  assumes "row < rows st" and "col < columns st" and "base_inv c st" and "uncovered_inv st"
    and pot: "potentials c st (\<lambda>_. 0) (\<lambda>_. 0) 0 \<or> \<not> (\<forall>i < rows st. \<forall>j < columns st. 0 \<le> c i j)"
  shows "base_inv c (step1_cell (row, col) st) \<and> uncovered_inv (step1_cell (row, col) st)"
    and "mk_matrix (step1_cell (row, col) st) = mk_matrix st"
proof -
  show "mk_matrix (step1_cell (row, col) st) = mk_matrix st" by (simp add: step1_cell_def)
  let ?st = "set_mark row col STAR st"
  show "base_inv c (step1_cell (row, col) st) \<and> uncovered_inv (step1_cell (row, col) st)"
  proof (cases "cost st row col = 0 \<and> \<not> list_ex (\<lambda>nrow. mark st nrow col = STAR) [0..<rows st] \<and>
      \<not> list_ex (\<lambda>ncol. mark st row ncol = STAR) [0..<columns st]")
    case True
    then have free: "row \<notin> fst ` stars st" "col \<notin> snd ` stars st"
      by (auto simp: marked_def list_ex_iff)
    have st: "stars ?st = insert (row, col) (stars st)" "primes ?st \<subseteq> primes st"
      using assms(1,2) by (auto simp: marked_def)
    have "indep (stars ?st)"
      using assms(3) free unfolding st base_inv_def by (force simp: indep_def)
    moreover have "\<forall>(i, j) \<in> stars ?st. cost ?st i j = 0"
      using assms(3) True unfolding st base_inv_def by auto
    moreover have "potentials c ?st (\<lambda>_. 0) (\<lambda>_. 0) 0" if "\<forall>i < rows st. \<forall>j < columns st. 0 \<le> c i j"
      using pot that by (simp add: potentials_def)
    ultimately have "base_inv c ?st" using assms(3) by (auto simp: base_inv_def)
    moreover have "uncovered_inv ?st" using assms(4) st(2) by (auto simp: uncovered_inv_def)
    moreover have "step1_cell (row, col) st = ?st" using True by (simp add: step1_cell_def)
    ultimately show ?thesis by simp
  next
    case False
    then have "step1_cell (row, col) st = st" by (auto simp: step1_cell_def)
    with assms show ?thesis by simp
  qed
qed

definition start_inv :: "(nat \<Rightarrow> nat \<Rightarrow> 'a::linordered_idom) \<Rightarrow> 'a munkres \<Rightarrow> bool" where
  "start_inv c st \<longleftrightarrow> base_inv c st \<and> uncovered_inv st \<and> (\<forall>i < rows st. \<forall>j < columns st. cost st i j = c i j)"

lemma step1_inv:
  assumes "start_inv c st"
  shows "base_inv c (snd (step1 st)) \<and> uncovered_inv (snd (step1 st)) \<and> mk_matrix (snd (step1 st)) = mk_matrix st"
proof -
  have "start_inv c (fold step1_cell (cells (rows st) (columns st)) st) \<and>
      mk_matrix (fold step1_cell (cells (rows st) (columns st)) st) = mk_matrix st"
  proof (rule fold_invariant [where Q = "\<lambda>(i, j). i < rows st \<and> j < columns st"])
    fix x s
    assume "case x of (i, j) \<Rightarrow> i < rows st \<and> j < columns st"
      and s: "start_inv c s \<and> mk_matrix s = mk_matrix st"
    then obtain row col where x: "x = (row, col)" "row < rows s" "col < columns s" by (cases x) auto
    have "potentials c s (\<lambda>_. 0) (\<lambda>_. 0) 0 \<or> \<not> (\<forall>i < rows s. \<forall>j < columns s. 0 \<le> c i j)"
      using s by (auto simp: potentials_def start_inv_def)
    from step1_cell_inv [OF x(2,3) _ _ this] x(1) s
    show "start_inv c (step1_cell x s) \<and> mk_matrix (step1_cell x s) = mk_matrix st"
      by (auto simp: start_inv_def)
  qed (use assms in auto)
  then show ?thesis by (simp add: step1_def start_inv_def)
qed

section \<open>Step 2\<close>

lemma fold_step2_cell:
  "fold step2_cell ps (n, st) =
     (n + length (filter (\<lambda>(i, j). mark st i j = STAR) ps),
      st\<lparr>col_mask := (\<lambda>j. col_mask st j \<or> (\<exists>i. (i, j) \<in> set ps \<and> mark st i j = STAR))\<rparr>)"
proof (induction ps arbitrary: n st)
  case (Cons p ps)
  obtain i j where "p = (i, j)" by (cases p)
  with Cons show ?case by (auto simp: step2_cell_def intro!: arg_cong [of _ _ "\<lambda>f. st\<lparr>col_mask := f\<rparr>"])
qed simp

lemma step2_inv:
  assumes "base_inv c st" and "uncovered_inv st"
  shows "step2 st = (if card (stars st) \<ge> min (rows st) (columns st) then 0 else 3, snd (step2 st))"
    and "base_inv c (snd (step2 st))" and "cover_inv (snd (step2 st))"
    and "mk_matrix (snd (step2 st)) = mk_matrix st" and "stars (snd (step2 st)) = stars st"
    and "row_mask (snd (step2 st)) = row_mask st"
proof -
  let ?st = "st\<lparr>col_mask := (\<lambda>j. col_mask st j \<or> (\<exists>i. (i, j) \<in> set (cells (rows st) (columns st)) \<and> mark st i j = STAR))\<rparr>"
  have "length (filter (\<lambda>(i, j). mark st i j = STAR) (cells (rows st) (columns st))) =
      card (set (filter (\<lambda>(i, j). mark st i j = STAR) (cells (rows st) (columns st))))"
    by (rule distinct_card [symmetric]) simp
  also have "set (filter (\<lambda>(i, j). mark st i j = STAR) (cells (rows st) (columns st))) = stars st"
    by (auto simp: marked_def)
  finally have step2: "step2 st = (if card (stars st) \<ge> min (rows st) (columns st) then 0 else 3, ?st)"
    by (simp add: step2_def fold_step2_cell minsize_min)
  then show "step2 st = (if card (stars st) \<ge> min (rows st) (columns st) then 0 else 3, snd (step2 st))"
    by simp
  show "base_inv c (snd (step2 st))" "mk_matrix (snd (step2 st)) = mk_matrix st" "stars (snd (step2 st)) = stars st"
    "row_mask (snd (step2 st)) = row_mask st"
    using assms(1) by (simp_all add: step2 base_inv_def potentials_def)
  show "cover_inv (snd (step2 st))"
    using assms(2) unfolding cover_inv_def uncovered_inv_def by (auto simp: step2 marked_def image_iff)
qed

section \<open>Step 3\<close>

definition search_inv :: "(nat \<Rightarrow> nat \<Rightarrow> 'a::linordered_idom) \<Rightarrow> 'a munkres \<Rightarrow> bool" where
  "search_inv c st \<longleftrightarrow> base_inv c st \<and> cover_inv st \<and> card (stars st) < min (rows st) (columns st)"

definition uncovered_rows :: "'a munkres \<Rightarrow> nat" where
  "uncovered_rows st = card {i. i < rows st \<and> \<not> row_mask st i}"

lemma find_uncovered_Some:
  assumes "find_uncovered_in_matrix 0 st = Some (row, col)"
  shows "row < rows st" "col < columns st" "\<not> row_mask st row" "\<not> col_mask st col" "cost st row col = 0"
  using find_SomeD [OF assms [unfolded find_uncovered_in_matrix_def]] by auto

lemma find_uncovered_None:
  assumes "find_uncovered_in_matrix 0 st = None" and "i < rows st" "j < columns st" "\<not> row_mask st i" "\<not> col_mask st j"
  shows "cost st i j \<noteq> 0"
  using find_NoneD [OF assms(1) [unfolded find_uncovered_in_matrix_def], of "(i, j)"] assms by auto

text \<open>The state after priming an uncovered zero: what the two ways to go on share.\<close>

lemma prime_uncovered:
  assumes "search_inv c st" and "find_uncovered_in_matrix 0 st = Some (row, col)"
  defines "st1 \<equiv> set_mark row col PRIME (st\<lparr>saverow := row, savecol := col\<rparr>)"
  shows "stars st1 = stars st" and "primes st1 = insert (row, col) (primes st)" and "base_inv c st1"
    and "(row, col) \<notin> stars st"
    and "\<exists>rk. \<forall>i j i'. (i, j) \<in> primes st1 \<and> (i', j) \<in> stars st1 \<longrightarrow> rk i' < (rk i :: nat)"
proof -
  note f = find_uncovered_Some [OF assms(2)]
  have cov: "cover_inv st" using assms(1) by (simp add: search_inv_def)
  show nostar: "(row, col) \<notin> stars st"
    using cover_star [OF cov] f(3,4) by blast
  then show stars: "stars st1 = stars st" using f by (auto simp: st1_def marked_def)
  show primes: "primes st1 = insert (row, col) (primes st)"
    using f by (auto simp: st1_def marked_def)
  have same: "mk_matrix st1 = mk_matrix st" by (simp add: st1_def)
  show "base_inv c st1"
    using assms(1) stars same by (simp add: search_inv_def base_inv_def potentials_def) (simp add: st1_def)
  obtain rk :: "nat \<Rightarrow> nat" where rk: "\<And>i j i'. (i, j) \<in> primes st \<Longrightarrow> (i', j) \<in> stars st \<Longrightarrow> rk i' < rk i"
    using cover_rank [OF cov] by blast
  define rk' where "rk' = rk(row := Suc (Max (rk ` {..<rows st})))"
  have "rk' i' < rk' i" if "(i, j) \<in> primes st1" "(i', j) \<in> stars st1" for i j i'
  proof -
    have star: "(i', j) \<in> stars st" "i' < rows st" using that(2) stars by (auto simp: marked_def)
    show ?thesis
    proof (cases "(i, j) = (row, col)")
      case True
      with star nostar have "i' \<noteq> row" by auto
      then show ?thesis using True star by (auto simp: rk'_def le_imp_less_Suc)
    next
      case False
      then have p: "(i, j) \<in> primes st" using that(1) primes by blast
      from cover_prime [OF cov p] have "row_mask st i" "\<not> col_mask st j" by simp_all
      moreover from this cover_star [OF cov star(1)] have "row_mask st i'" by simp
      ultimately show ?thesis using rk [OF p star(1)] f(3) by (auto simp: rk'_def)
    qed
  qed
  then show "\<exists>rk. \<forall>i j i'. (i, j) \<in> primes st1 \<and> (i', j) \<in> stars st1 \<longrightarrow> rk i' < (rk i :: nat)" by blast
qed

lemma step3_inv:
  assumes inv: "search_inv c st" and found: "find_uncovered_in_matrix 0 st = Some (row, col)"
  shows "(fst (step3 st) = 3 \<and> search_inv c (snd (step3 st)) \<and> uncovered_rows (snd (step3 st)) < uncovered_rows st \<or>
     fst (step3 st) = 4 \<and> base_inv c (snd (step3 st)) \<and> augment_inv (snd (step3 st)) \<and>
       row_mask (snd (step3 st)) = row_mask st) \<and>
     mk_matrix (snd (step3 st)) = mk_matrix st \<and> stars (snd (step3 st)) = stars st"
proof -
  define st1 where "st1 = set_mark row col PRIME (st\<lparr>saverow := row, savecol := col\<rparr>)"
  note f = find_uncovered_Some [OF found] and p = prime_uncovered [OF inv found, folded st1_def]
  have cov: "cover_inv st" using inv by (simp add: search_inv_def)
  have same: "mk_matrix st1 = mk_matrix st" "row_mask st1 = row_mask st" "col_mask st1 = col_mask st"
    by (simp_all add: st1_def)
  show ?thesis
  proof (cases "find (\<lambda>ncol. mark st1 row ncol = STAR) [0..<columns st]")
    case None
    then have norow: "row \<notin> fst ` stars st1"
      using find_NoneD [OF None] same by (auto simp: marked_def)
    from None found have step3: "step3 st = (4, st1)"
      by (simp add: step3_def st1_def Let_def)
    obtain rk where rk: "\<forall>i j i'. (i, j) \<in> primes st1 \<and> (i', j) \<in> stars st1 \<longrightarrow> rk i' < (rk i :: nat)"
      using p(5) by blast
    have "\<exists>j'. (i', j') \<in> primes st1" if "(i, j) \<in> primes st1" "(i', j) \<in> stars st1" for i j i'
    proof -
      have "\<not> col_mask st j" using that(1) p(2) cover_prime [OF cov, of i j] f(4) by auto
      moreover have "(i', j) \<in> stars st" using that(2) p(1) by simp
      ultimately have "row_mask st i'" "i' < rows st" using cover_star [OF cov] by (auto simp: marked_def)
      from cover_row [OF cov this] p(2) show ?thesis by auto
    qed
    with rk p(3) have "path_marks (rows st1) (columns st1) (mark st1) rk"
      unfolding path_marks_def base_inv_def by blast
    moreover have "cost st1 i j = 0" if "(i, j) \<in> primes st1" for i j
      using that p(2) cover_prime [OF cov, of i j] f(5) same by auto
    moreover have "(saverow st1, savecol st1) = (row, col)" by (simp add: st1_def)
    ultimately have "augment_inv st1"
      using norow p(2) unfolding augment_inv_def by auto
    with step3 p same show ?thesis by simp
  next
    case (Some ncol)
    then have star: "(row, ncol) \<in> stars st1"
      using find_SomeD [OF Some] f(1) same by (simp add: marked_def)
    define st2 where "st2 = st1\<lparr>row_mask := (row_mask st1)(row := True), col_mask := (col_mask st1)(ncol := False)\<rparr>"
    from Some found have step3: "step3 st = (3, st2)"
      by (simp add: step3_def st1_def st2_def Let_def)
    have indep: "indep (stars st1)" using p(3) by (simp add: base_inv_def)
    have "{i. i < rows st2 \<and> \<not> row_mask st2 i} = {i. i < rows st \<and> \<not> row_mask st i} - {row}"
      using same by (auto simp: st2_def)
    then have "uncovered_rows st2 < uncovered_rows st"
      using f(1,3) card_Diff1_less [of "{i. i < rows st \<and> \<not> row_mask st i}" row]
      unfolding uncovered_rows_def by simp
    moreover have "base_inv c st2" using p(3) by (simp add: base_inv_def potentials_def st2_def)
    moreover have "cover_inv st2"
      unfolding cover_inv_def
    proof (intro conjI allI impI)
      have ns: "stars st2 = stars st" "primes st2 = insert (row, col) (primes st)" using p(1,2) by (simp_all add: st2_def)
      have masks: "row_mask st2 = (row_mask st)(row := True)" "col_mask st2 = (col_mask st)(ncol := False)"
        using same by (simp_all add: st2_def)
      fix i j i' assume star': "(i, j) \<in> stars st2"
      have "i = row \<longleftrightarrow> j = ncol"
        using star star' indep_row [OF indep] indep_col [OF indep] p(1) ns by blast
      then show "col_mask st2 j = (\<not> row_mask st2 i)"
        using cover_star [OF cov, of i j] star' ns(1) masks by auto
    next
      fix i assume "i < rows st2" "row_mask st2 i"
      then show "i \<in> fst ` stars st2" "i \<in> fst ` primes st2"
        using cover_row [OF cov, of i] star p(1,2) same by (force simp: st2_def split: if_splits)+
    next
      fix j assume "j < columns st2" "col_mask st2 j"
      then show "j \<in> snd ` stars st2"
        using cover_column [OF cov, of j] p(1) same by (auto simp: st2_def split: if_splits)
    next
      fix i j assume "(i, j) \<in> primes st2"
      then have pr: "(i, j) \<in> primes st \<or> (i, j) = (row, col)" using p(2) by (auto simp: st2_def)
      then show "row_mask st2 i" "\<not> col_mask st2 j" "cost st2 i j = 0"
        using cover_prime [OF cov, of i j] f same by (auto simp: st2_def)
    next
      show "\<exists>rk. \<forall>i j i'. (i, j) \<in> primes st2 \<and> (i', j) \<in> stars st2 \<longrightarrow> rk i' < (rk i :: nat)"
        using p(5) by (simp add: st2_def)
    qed
    ultimately show ?thesis using step3 p(1) same inv by (simp add: search_inv_def st2_def)
  qed
qed

section \<open>Step 4\<close>

lemma fold_step4_flip:
  "distinct ps \<Longrightarrow>
     mk_matrix (fold step4_flip ps st) = mk_matrix st \<and>
     m_rows (mask_matrix (fold step4_flip ps st)) = m_rows (mask_matrix st) \<and>
     m_columns (mask_matrix (fold step4_flip ps st)) = m_columns (mask_matrix st) \<and>
     mark (fold step4_flip ps st) i j =
       (if (i, j) \<in> set ps then (if mark st i j = STAR then NORMAL else if mark st i j = PRIME then STAR else mark st i j)
        else mark st i j)"
proof (induction ps arbitrary: st)
  case (Cons p ps)
  obtain a b where p: "p = (a, b)" by (cases p)
  with Cons.prems Cons.IH [of "step4_flip p st"] show ?case
    by (auto simp: step4_flip_def Let_def)
qed simp

lemma fold_step4_erase:
  "mk_matrix (fold step4_erase ps st) = mk_matrix st \<and>
   m_rows (mask_matrix (fold step4_erase ps st)) = m_rows (mask_matrix st) \<and>
   m_columns (mask_matrix (fold step4_erase ps st)) = m_columns (mask_matrix st) \<and>
   mark (fold step4_erase ps st) i j =
     (if (i, j) \<in> set ps \<and> mark st i j = PRIME then NORMAL else mark st i j)"
proof (induction ps arbitrary: st)
  case (Cons p ps)
  obtain a b where p: "p = (a, b)" by (cases p)
  with Cons.IH [of "step4_erase p st"] show ?case by (auto simp: step4_erase_def)
qed simp

lemma fold_fun_upd: "fold (\<lambda>k g. g(k := x)) ks f i = (if i \<in> set ks then x else f i)"
  by (induction ks arbitrary: f) auto

lemma potentials_more_stars:
  assumes "potentials c st u v H" and "mk_matrix st' = mk_matrix st"
    and "fst ` stars st \<subseteq> fst ` stars st'" and "snd ` stars st \<subseteq> snd ` stars st'"
  shows "potentials c st' u v H"
  using assms(1,3,4) unfolding potentials_def assms(2) by blast

lemma step4_inv:
  assumes base: "base_inv c st" and aug: "augment_inv st"
  shows "fst (step4 st) = 2 \<and> base_inv c (snd (step4 st)) \<and> uncovered_inv (snd (step4 st)) \<and>
    mk_matrix (snd (step4 st)) = mk_matrix st \<and> card (stars (snd (step4 st))) = Suc (card (stars st))"
proof -
  obtain rk where marks: "path_marks (rows st) (columns st) (mark st) rk"
    using aug by (auto simp: augment_inv_def)
  have "(saverow st, savecol st) \<in> primes st" "\<forall>j. (saverow st, j) \<notin> stars st"
    using aug by (force simp: augment_inv_def)+
  note path = step4_seq_result [OF marks path_start [OF marks this]]
  define seq where "seq = step4_seq (rows st) (columns st) (mark st) (savecol st) [(saverow st, savecol st)]"
  have res: "distinct seq" "set seq \<subseteq> stars st \<union> primes st"
    "indep (exchanged (rows st) (columns st) (mark st) seq)"
    "card (exchanged (rows st) (columns st) (mark st) seq) = Suc (card (stars st))"
    "fst ` stars st \<subseteq> fst ` exchanged (rows st) (columns st) (mark st) seq"
    "snd ` stars st \<subseteq> snd ` exchanged (rows st) (columns st) (mark st) seq"
    using path unfolding seq_def path_result_def by blast+
  define st1 where "st1 = fold step4_flip seq st"
  define st2 where "st2 = fold step4_erase (cells (m_rows (mask_matrix st1)) (m_columns (mask_matrix st1))) st1"
  define st3 where "st3 = st2\<lparr>row_mask := fold (\<lambda>i f. f(i := False)) [0..<rows st] (row_mask st2),
    col_mask := fold (\<lambda>i f. f(i := False)) [0..<columns st] (col_mask st2)\<rparr>"
  have step4: "step4 st = (2, st3)"
    by (simp add: step4_def Let_def seq_def st1_def st2_def st3_def)
  have dims: "m_rows (mask_matrix st) = rows st" "m_columns (mask_matrix st) = columns st"
    using base by (simp_all add: base_inv_def)
  have same: "mk_matrix st3 = mk_matrix st" "m_rows (mask_matrix st3) = rows st" "m_columns (mask_matrix st3) = columns st"
    using fold_step4_flip [OF res(1), of st] fold_step4_erase [of _ st1] dims
    by (simp_all add: st3_def st2_def st1_def)
  have mark3: "mark st3 i j = (if (i, j) \<in> set seq then (if mark st i j = STAR then NORMAL else STAR)
      else if mark st i j = PRIME then NORMAL else mark st i j)" if "i < rows st" "j < columns st" for i j
  proof -
    have "mark st i j = STAR \<or> mark st i j = PRIME" if "(i, j) \<in> set seq"
      using that res(2) by (auto simp: marked_def)
    moreover have "m_rows (mask_matrix st1) = rows st" "m_columns (mask_matrix st1) = columns st"
      using fold_step4_flip [OF res(1), of st] dims by (simp_all add: st1_def)
    moreover have "mark st1 i j = (if (i, j) \<in> set seq then (if mark st i j = STAR then NORMAL else if mark st i j = PRIME then STAR else mark st i j)
        else mark st i j)"
      using fold_step4_flip [OF res(1), of st i j] by (simp add: st1_def)
    ultimately show ?thesis
      using that fold_step4_erase [of "cells (rows st) (columns st)" st1 i j]
      by (auto simp: st3_def st2_def)
  qed
  have stars3: "stars st3 = exchanged (rows st) (columns st) (mark st) seq"
    using mark3 same(1) res(2) by (auto simp: marked_def exchanged_def split: if_splits)
  have "primes st3 = {}"
    using mark3 same(1) by (auto simp: marked_def split: if_splits)
  then have unc: "uncovered_inv st3"
    using same(1) by (simp add: uncovered_inv_def st3_def fold_fun_upd)
  have "\<forall>(i, j) \<in> stars st3. cost st3 i j = 0"
    using base aug same(1) unfolding stars3 by (auto simp: exchanged_def base_inv_def augment_inv_def)
  moreover have "potentials c st3 u v H" if "potentials c st u v H" for u v H
    using potentials_more_stars [OF that same(1)] res(5,6) stars3 by simp
  ultimately have "base_inv c st3"
    using base res(3) same stars3 unfolding base_inv_def by metis
  with unc res(4) step4 same stars3 show ?thesis by simp
qed

section \<open>Step 5\<close>

lemma fold_min:
  fixes a :: "nat \<Rightarrow> nat \<Rightarrow> 'a::linordered_idom"
  assumes "\<forall>(i, j) \<in> set ps. U i j \<longrightarrow> a i j \<noteq> 0"
  shows "let h' = fold (\<lambda>(i, j) h. if U i j \<and> (h > a i j \<and> a i j \<noteq> 0 \<or> h = 0) then a i j else h) ps h in
    (h \<noteq> 0 \<longrightarrow> h' \<le> h) \<and> (\<forall>(i, j) \<in> set ps. U i j \<longrightarrow> h' \<le> a i j) \<and>
    (h' = h \<or> (\<exists>(i, j) \<in> set ps. U i j \<and> h' = a i j)) \<and> (h = 0 \<longrightarrow> (\<exists>(i, j) \<in> set ps. U i j) \<longrightarrow> h' \<noteq> 0) \<and>
    (h \<noteq> 0 \<longrightarrow> h' \<noteq> 0)"
  using assms
proof (induction ps arbitrary: h)
  case (Cons p ps)
  obtain i j where p: "p = (i, j)" by (cases p)
  define h1 where "h1 = (if U i j \<and> (h > a i j \<and> a i j \<noteq> 0 \<or> h = 0) then a i j else h)"
  have IH: "let h' = fold (\<lambda>(i, j) h. if U i j \<and> (h > a i j \<and> a i j \<noteq> 0 \<or> h = 0) then a i j else h) ps h1 in
    (h1 \<noteq> 0 \<longrightarrow> h' \<le> h1) \<and> (\<forall>(i, j) \<in> set ps. U i j \<longrightarrow> h' \<le> a i j) \<and>
    (h' = h1 \<or> (\<exists>(i, j) \<in> set ps. U i j \<and> h' = a i j)) \<and> (h1 = 0 \<longrightarrow> (\<exists>(i, j) \<in> set ps. U i j) \<longrightarrow> h' \<noteq> 0) \<and>
    (h1 \<noteq> 0 \<longrightarrow> h' \<noteq> 0)"
    by (rule Cons.IH) (use Cons.prems in simp)
  have "U i j \<Longrightarrow> a i j \<noteq> 0" using Cons.prems p by simp
  then show ?case
    using IH by (auto simp: p h1_def Let_def not_less split: if_splits)
qed simp

lemma uncovered_exists:
  assumes "search_inv c st"
  shows "\<exists>i < rows st. \<exists>j < columns st. \<not> row_mask st i \<and> \<not> col_mask st j"
proof -
  have cov: "cover_inv st" and ind: "indep (stars st)" and few: "card (stars st) < min (rows st) (columns st)"
    using assms by (simp_all add: search_inv_def base_inv_def)
  have "\<exists>i < rows st. \<not> row_mask st i"
  proof (rule ccontr)
    assume "\<not> ?thesis"
    then have "{..<rows st} \<subseteq> fst ` stars st" using cover_row [OF cov] by auto
    from card_mono [OF _ this] have "rows st \<le> card (stars st)"
      using ind by (simp add: indep_def card_image)
    with few show False by simp
  qed
  moreover have "\<exists>j < columns st. \<not> col_mask st j"
  proof (rule ccontr)
    assume "\<not> ?thesis"
    then have "{..<columns st} \<subseteq> snd ` stars st" using cover_column [OF cov] by auto
    from card_mono [OF _ this] have "columns st \<le> card (stars st)"
      using ind by (simp add: indep_def card_image)
    with few show False by simp
  qed
  ultimately show ?thesis by blast
qed

lemma step5_min:
  assumes "search_inv c st" and "find_uncovered_in_matrix 0 st = None"
  shows "step5_min st \<noteq> 0"
    and "\<And>i j. i < rows st \<Longrightarrow> j < columns st \<Longrightarrow> \<not> row_mask st i \<Longrightarrow> \<not> col_mask st j \<Longrightarrow> step5_min st \<le> cost st i j"
    and "\<exists>i < rows st. \<exists>j < columns st. \<not> row_mask st i \<and> \<not> col_mask st j \<and> step5_min st = cost st i j"
proof -
  let ?U = "\<lambda>i j. \<not> row_mask st i \<and> \<not> col_mask st j"
  have "\<forall>(i, j) \<in> set (cells (rows st) (columns st)). ?U i j \<longrightarrow> cost st i j \<noteq> 0"
    using find_uncovered_None [OF assms(2)] by auto
  note min = fold_min [OF this, of 0, unfolded Let_def]
  have eq: "step5_min st = fold (\<lambda>(i, j) h. if ?U i j \<and> (h > cost st i j \<and> cost st i j \<noteq> 0 \<or> h = 0) then cost st i j else h)
      (cells (rows st) (columns st)) 0"
    by (simp add: step5_min_def conj_assoc)
  from min uncovered_exists [OF assms(1)] show nz: "step5_min st \<noteq> 0"
    unfolding eq by auto
  from min show "\<And>i j. i < rows st \<Longrightarrow> j < columns st \<Longrightarrow> \<not> row_mask st i \<Longrightarrow> \<not> col_mask st j \<Longrightarrow> step5_min st \<le> cost st i j"
    unfolding eq by auto
  from min nz show "\<exists>i < rows st. \<exists>j < columns st. \<not> row_mask st i \<and> \<not> col_mask st j \<and> step5_min st = cost st i j"
    unfolding eq by auto
qed

lemma step5_inv:
  assumes inv: "search_inv c st" and none: "find_uncovered_in_matrix 0 st = None"
  shows "fst (step5 st) = 3 \<and> search_inv c (snd (step5 st)) \<and> stars (snd (step5 st)) = stars st \<and>
    row_mask (snd (step5 st)) = row_mask st \<and> rows (snd (step5 st)) = rows st \<and> columns (snd (step5 st)) = columns st \<and>
    find_uncovered_in_matrix 0 (snd (step5 st)) \<noteq> None"
proof -
  define h where "h = step5_min st"
  define st' where "st' = snd (step5 st)"
  have cov: "cover_inv st" and base: "base_inv c st" using inv by (simp_all add: search_inv_def)
  have fst: "fst (step5 st) = 3" by (simp add: step5_def Let_def)
  note f1 = fold_mat_set [of "cells (rows st) (columns st)" "\<lambda>i j y. if row_mask st i then y + h else y" "mk_matrix st", OF distinct_cells]
  define m1 where "m1 = fold (\<lambda>(i, j) m. mat_set i j (if row_mask st i then m_matrix m i j + h else m_matrix m i j) m)
    (cells (rows st) (columns st)) (mk_matrix st)"
  note f2 = fold_mat_set [of "cells (rows st) (columns st)" "\<lambda>i j y. if \<not> col_mask st j then y - h else y" m1, OF distinct_cells]
  have st': "mk_matrix st' = fold (\<lambda>(i, j) m. mat_set i j (if \<not> col_mask st j then m_matrix m i j - h else m_matrix m i j) m)
      (cells (rows st) (columns st)) m1"
    unfolding st'_def step5_def Let_def h_def m1_def by simp
  have frame: "mask_matrix st' = mask_matrix st" "row_mask st' = row_mask st" "col_mask st' = col_mask st"
    by (simp_all add: st'_def step5_def Let_def)
  have dims: "rows st' = rows st" "columns st' = columns st"
    using f1 f2 by (simp_all add: st' m1_def)
  have cost: "cost st' i j = cost st i j + (if row_mask st i then h else 0) - (if col_mask st j then 0 else h)"
    if "i < rows st" "j < columns st" for i j
    using f1 [of i j] f2 [of i j] that by (simp add: st' m1_def)
  have marks: "stars st' = stars st" "primes st' = primes st" by (simp_all add: dims frame)
  have stars0: "cost st' i j = 0" if "(i, j) \<in> stars st" for i j
    using that cover_star [OF cov that] base cost [of i j] by (auto simp: base_inv_def marked_def)
  have primes0: "cost st' i j = 0" if "(i, j) \<in> primes st" for i j
    using that cover_prime [OF cov that] cost [of i j] by (simp add: marked_def)
  have "potentials c st' (\<lambda>i. if row_mask st i then u i - h else u i) (\<lambda>j. if col_mask st j then v j else v j + h) (H + h)"
    if p: "potentials c st u v H" for u v H
  proof -
    obtain i j where "i < rows st" "j < columns st" "h = cost st i j"
      using step5_min(3) [OF inv none] h_def by blast
    moreover from this p have "0 \<le> cost st i j" unfolding potentials_def by blast
    ultimately have h: "0 < h" using step5_min(1) [OF inv none] by (simp add: h_def order.strict_iff_order)
    have "cost st' i j = c i j - (if row_mask st i then u i - h else u i) - (if col_mask st j then v j else v j + h)"
      if "i < rows st" "j < columns st" for i j
      using p that cost [OF that] by (simp add: potentials_def)
    moreover have "0 \<le> cost st' i j" if "i < rows st" "j < columns st" for i j
    proof -
      have "0 \<le> cost st i j" using p that unfolding potentials_def by blast
      with cost [OF that] step5_min(2) [OF inv none that] h show ?thesis by (auto simp: h_def)
    qed
    moreover have "u i \<le> 0" "i \<notin> fst ` stars st \<Longrightarrow> u i = 0" if "i < rows st" for i
      using p that unfolding potentials_def by blast+
    moreover have "v j \<le> H" "j \<notin> snd ` stars st \<Longrightarrow> v j = H" if "j < columns st" for j
      using p that unfolding potentials_def by blast+
    moreover have "row_mask st i \<Longrightarrow> i \<in> fst ` stars st" if "i < rows st" for i
      using cover_row [OF cov _ that] by simp
    moreover have "col_mask st j \<Longrightarrow> j \<in> snd ` stars st" if "j < columns st" for j
      using cover_column [OF cov _ that] by simp
    ultimately show ?thesis
      using h unfolding potentials_def dims frame(1) by (auto intro: order_trans [of _ 0] order_trans [of _ H] add_increasing2)
  qed
  then have "base_inv c st'"
    using base stars0 unfolding base_inv_def dims frame(1) by blast
  moreover have "cover_inv st'"
    using cov primes0 unfolding cover_inv_def dims frame by blast
  moreover have "find_uncovered_in_matrix 0 st' \<noteq> None"
  proof
    assume n: "find_uncovered_in_matrix 0 st' = None"
    obtain i j where ij: "i < rows st" "j < columns st" "\<not> row_mask st i" "\<not> col_mask st j" "h = cost st i j"
      using step5_min(3) [OF inv none] h_def by blast
    with find_uncovered_None [OF n, of i j] cost [of i j] show False by (simp add: dims frame)
  qed
  ultimately show ?thesis
    using fst inv marks(1) frame(2) dims by (simp add: search_inv_def flip: st'_def)
qed

section \<open>The loop\<close>

definition done_inv :: "(nat \<Rightarrow> nat \<Rightarrow> 'a::linordered_idom) \<Rightarrow> 'a munkres \<Rightarrow> bool" where
  "done_inv c st \<longleftrightarrow> base_inv c st \<and> card (stars st) = min (rows st) (columns st)"

definition step_inv :: "(nat \<Rightarrow> nat \<Rightarrow> 'a::linordered_idom) \<Rightarrow> nat \<Rightarrow> 'a munkres \<Rightarrow> bool" where
  "step_inv c step st \<longleftrightarrow>
     step = 0 \<and> done_inv c st \<or>
     step = 1 \<and> start_inv c st \<and> stars st = {} \<or>
     step = 2 \<and> base_inv c st \<and> uncovered_inv st \<or>
     step = 3 \<and> search_inv c st \<or>
     step = 4 \<and> base_inv c st \<and> augment_inv st \<or>
     step = 5 \<and> search_inv c st \<and> find_uncovered_in_matrix 0 st = None"

text \<open>The measure: stars that are missing, then rows that are not covered, then the position in the cycle.\<close>

definition step_rank :: "nat \<Rightarrow> 'a::zero munkres \<Rightarrow> nat" where
  "step_rank step st =
     (if step = 1 then 5 else if step = 2 then 4
      else if step = 3 then (if find_uncovered_in_matrix 0 st = None then 3 else 1)
      else if step = 5 then 2 else 0)"

definition step_less :: "((nat \<times> 'a::linordered_idom munkres) \<times> (nat \<times> 'a munkres)) set" where
  "step_less = inv_image (less_than <*lex*> less_than <*lex*> less_than)
     (\<lambda>(step, st). (min (rows st) (columns st) - card (stars st), uncovered_rows st, step_rank step st))"

lemma wf_step_less: "wf step_less"
  unfolding step_less_def by (intro wf_inv_image wf_lex_prod wf_less_than)

lemma munkres_step_inv:
  assumes "step_inv c step st" and "step \<noteq> 0"
  shows "step_inv c (fst (munkres_step step st)) (snd (munkres_step step st)) \<and>
    (munkres_step step st, (step, st)) \<in> step_less \<and>
    rows (snd (munkres_step step st)) = rows st \<and> columns (snd (munkres_step step st)) = columns st"
proof -
  consider (1) "step = 1" "start_inv c st" "stars st = {}" | (2) "step = 2" "base_inv c st" "uncovered_inv st"
    | (3) "step = 3" "search_inv c st" | (4) "step = 4" "base_inv c st" "augment_inv st"
    | (5) "step = 5" "search_inv c st" "find_uncovered_in_matrix 0 st = None"
    using assms unfolding step_inv_def by auto
  then show ?thesis
  proof cases
    case 1
    have m: "munkres_step step st = (2, snd (step1 st))"
      using 1 by (simp add: munkres_step_def step1_def)
    note s = step1_inv [OF 1(2)]
    have "uncovered_rows (snd (step1 st)) = uncovered_rows st"
      using s 1(2) unfolding uncovered_rows_def uncovered_inv_def start_inv_def by (metis (no_types, lifting))
    with s m 1(1,3) show ?thesis
      by (auto simp: step_inv_def step_less_def step_rank_def)
  next
    case 2
    obtain step' st' where eq: "step2 st = (step', st')" by (cases "step2 st")
    note s = step2_inv [OF 2(2,3), unfolded eq snd_conv]
    have m: "munkres_step step st = (step', st')" using 2 eq by (simp add: munkres_step_def)
    have same: "uncovered_rows st' = uncovered_rows st" "card (stars st') = card (stars st)"
      using s(4-6) by (simp_all add: uncovered_rows_def)
    have "card (stars st) \<le> min (rows st) (columns st)" by (rule stars_card_le [OF 2(2)])
    then have "step' = 0 \<and> done_inv c st' \<or> step' = 3 \<and> search_inv c st'"
      using s(1-3) s(4) same(2) by (auto simp: done_inv_def search_inv_def)
    then have "step_inv c step' st'" "step_rank step' st' < step_rank step st"
      using 2(1) by (auto simp: step_inv_def step_rank_def)
    moreover have "rows st' = rows st" "columns st' = columns st" using s(4) by simp_all
    ultimately show ?thesis
      unfolding m fst_conv snd_conv step_less_def using same by simp
  next
    case 3
    show ?thesis
    proof (cases "find_uncovered_in_matrix 0 st")
      case None
      with 3 show ?thesis
        by (simp add: munkres_step_def step3_def step_inv_def step_less_def step_rank_def)
    next
      case (Some p)
      then obtain row col where f: "find_uncovered_in_matrix 0 st = Some (row, col)" by (cases p) auto
      have m: "munkres_step step st = step3 st" using 3 by (simp add: munkres_step_def)
      note s = step3_inv [OF 3(2) f]
      from s have same: "mk_matrix (snd (step3 st)) = mk_matrix st" "stars (snd (step3 st)) = stars st" by blast+
      consider (again) "fst (step3 st) = 3" "search_inv c (snd (step3 st))" "uncovered_rows (snd (step3 st)) < uncovered_rows st"
        | (path) "fst (step3 st) = 4" "base_inv c (snd (step3 st))" "augment_inv (snd (step3 st))" "row_mask (snd (step3 st)) = row_mask st"
        using s by blast
      then show ?thesis
      proof cases
        case again
        with same 3 show ?thesis unfolding m by (simp add: step_inv_def step_less_def case_prod_unfold)
      next
        case path
        then have "uncovered_rows (snd (step3 st)) = uncovered_rows st"
          using same(1) by (simp add: uncovered_rows_def)
        with path same 3 f show ?thesis
          unfolding m by (simp add: step_inv_def step_less_def step_rank_def case_prod_unfold)
      qed
    qed
  next
    case 4
    note s = step4_inv [OF 4(2,3)]
    have "Suc (card (stars st)) \<le> min (rows st) (columns st)"
      using s stars_card_le [of c "snd (step4 st)"] by metis
    moreover have "munkres_step step st = step4 st" using 4 by (simp add: munkres_step_def)
    ultimately show ?thesis
      using s 4(1) by (auto simp: step_inv_def step_less_def case_prod_unfold)
  next
    case 5
    note s = step5_inv [OF 5(2,3)]
    have "munkres_step step st = step5 st" using 5 by (simp add: munkres_step_def)
    moreover have "uncovered_rows (snd (step5 st)) = uncovered_rows st"
      using s by (simp add: uncovered_rows_def)
    ultimately show ?thesis
      using s 5(1) by (auto simp: step_inv_def step_less_def step_rank_def case_prod_unfold)
  qed
qed

lemma solve_loop_total:
  assumes "step_inv c step st"
  shows "\<exists>st'. solve_loop step st = Some st' \<and> done_inv c st' \<and> rows st' = rows st \<and> columns st' = columns st"
  using assms
proof (induction "(step, st)" arbitrary: step st rule: wf_induct_rule [OF wf_step_less])
  case 1
  show ?case
  proof (cases "step = 0")
    case True
    with 1(2) show ?thesis by (simp add: solve_loop.simps step_inv_def)
  next
    case False
    obtain step' st' where m: "munkres_step step st = (step', st')" by (cases "munkres_step step st")
    note s = munkres_step_inv [OF 1(2) False, unfolded m, simplified]
    from 1(1) [of step' st'] s False m show ?thesis by (subst solve_loop.simps) auto
  qed
qed

section \<open>The solver\<close>

text \<open>The assignment in the matrix that \<open>solve\<close> leaves: its zeros.\<close>

definition assigned :: "'a::zero Matrix \<Rightarrow> (nat \<times> nat) set" where
  "assigned m = {(i, j). i < m_rows m \<and> j < m_columns m \<and> m_matrix m i j = 0}"

definition total_cost :: "'a::linordered_idom option Matrix \<Rightarrow> (nat \<times> nat) set \<Rightarrow> 'a" where
  "total_cost m S = (\<Sum>(i, j) \<in> S. m_matrix (finite_costs m) i j)"

text \<open>A complete assignment uses every row or every column, and none of them twice.\<close>

definition complete_assignment :: "nat \<Rightarrow> nat \<Rightarrow> (nat \<times> nat) set \<Rightarrow> bool" where
  "complete_assignment r c S \<longleftrightarrow> S \<subseteq> {..<r} \<times> {..<c} \<and> indep S \<and> card S = min r c"

lemma store_result_fields:
  "m_rows (store_result st) = rows st" "m_columns (store_result st) = columns st"
  "i < rows st \<Longrightarrow> j < columns st \<Longrightarrow> m_matrix (store_result st) i j = (if mark st i j = STAR then 0 else - 1)"
  using fold_mat_set [of "cells (rows st) (columns st)" "\<lambda>i j _. if mark st i j = STAR then 0 else - 1" "mk_matrix st" i j]
  by (simp_all add: store_result_def)

lemma assigned_store_result: "assigned (store_result st) = stars st"
  by (auto simp: assigned_def store_result_fields marked_def split: if_splits)

lemma finite_costs_nonneg:
  assumes "\<And>i j x. i < m_rows m \<Longrightarrow> j < m_columns m \<Longrightarrow> m_matrix m i j = Some x \<Longrightarrow> 0 \<le> x"
    and "i < m_rows m" and "j < m_columns m"
  shows "0 \<le> m_matrix (finite_costs m) i j"
proof -
  have "0 \<le> high_value m"
  proof -
    have "0 \<le> fold (\<lambda>(row, col) h. case m_matrix m row col of None \<Rightarrow> h | Some x \<Rightarrow> if x > h then x else h) ps (h :: 'a)"
      if "0 \<le> h" for ps h
      using that
    proof (induction ps arbitrary: h)
      case (Cons p ps)
      then show ?case by (cases p) (auto split: option.splits)
    qed simp
    from this [of 0] show ?thesis unfolding high_value_def by (rule add_nonneg_nonneg) simp_all
  qed
  with assms show ?thesis by (auto simp: finite_costs_def split: option.splits)
qed

lemma solve_done:
  fixes m :: "'a::linordered_idom option Matrix"
  shows "\<exists>st. solve mat_default m = Some (store_result st) \<and> done_inv (m_matrix (finite_costs m)) st \<and>
    rows st = m_rows m \<and> columns st = m_columns m"
proof -
  define st0 :: "'a munkres" where
    "st0 = \<lparr>mk_matrix = finite_costs m, mask_matrix = mat_resize (m_rows m) (m_columns m) mat_default,
       row_mask = (\<lambda>_. False), col_mask = (\<lambda>_. False), saverow = 0, savecol = 0\<rparr>"
  have dims: "rows st0 = m_rows m" "columns st0 = m_columns m" "cost st0 = m_matrix (finite_costs m)"
    by (simp_all add: st0_def finite_costs_def)
  have "mark st0 i j = 0" for i j by (simp add: st0_def mat_resize_def mat_default_def)
  then have "stars st0 = {}" "primes st0 = {}" by (simp_all add: marked_def)
  moreover have "potentials (m_matrix (finite_costs m)) st0 (\<lambda>_. 0) (\<lambda>_. 0) 0"
    if "\<forall>i < rows st0. \<forall>j < columns st0. 0 \<le> m_matrix (finite_costs m) i j"
    using that by (simp add: potentials_def dims)
  moreover have "m_rows (mask_matrix st0) = rows st0" "m_columns (mask_matrix st0) = columns st0"
    "row_mask st0 = (\<lambda>_. False)" "col_mask st0 = (\<lambda>_. False)"
    by (simp_all add: st0_def finite_costs_def)
  ultimately have "start_inv (m_matrix (finite_costs m)) st0"
    by (auto simp: start_inv_def base_inv_def uncovered_inv_def indep_def dims(3))
  with \<open>stars st0 = {}\<close> have "step_inv (m_matrix (finite_costs m)) 1 st0" by (simp add: step_inv_def)
  from solve_loop_total [OF this] dims show ?thesis by (auto simp: solve_def st0_def)
qed

lemma solve_complete:
  "\<exists>r. solve mat_default m = Some r \<and> m_rows r = m_rows m \<and> m_columns r = m_columns m \<and>
     complete_assignment (m_rows m) (m_columns m) (assigned r)"
proof -
  obtain st where st: "solve mat_default m = Some (store_result st)" "done_inv (m_matrix (finite_costs m)) st"
    "rows st = m_rows m" "columns st = m_columns m"
    using solve_done by blast
  then show ?thesis
    using marked_grid [of STAR "rows st" "columns st" "mark st"]
    by (auto simp: complete_assignment_def assigned_store_result store_result_fields done_inv_def base_inv_def)
qed

lemma solve_optimal:
  fixes m :: "'a::linordered_idom option Matrix"
  assumes "\<And>i j x. i < m_rows m \<Longrightarrow> j < m_columns m \<Longrightarrow> m_matrix m i j = Some x \<Longrightarrow> 0 \<le> x"
    and "solve mat_default m = Some r" and "complete_assignment (m_rows m) (m_columns m) T"
  shows "total_cost m (assigned r) \<le> total_cost m T"
proof -
  let ?c = "m_matrix (finite_costs m)"
  obtain st where st: "solve mat_default m = Some (store_result st)" "done_inv ?c st"
    "rows st = m_rows m" "columns st = m_columns m"
    using solve_done by blast
  then have r: "assigned r = stars st" using assms(2) by (simp add: assigned_store_result)
  have base: "base_inv ?c st" and card: "card (stars st) = min (m_rows m) (m_columns m)"
    using st by (simp_all add: done_inv_def)
  have "\<forall>i < rows st. \<forall>j < columns st. 0 \<le> ?c i j" using finite_costs_nonneg [OF assms(1)] st by auto
  then obtain u v H where p: "potentials ?c st u v H" using base by (auto simp: base_inv_def)
  show ?thesis unfolding total_cost_def r
  proof (rule assignment_optimal [where u = u and v = v and H = H])
    fix i j assume "i < rows st" "j < columns st"
    then have "cost st i j = ?c i j - u i - v j" "0 \<le> cost st i j" using p unfolding potentials_def by blast+
    then show "u i + v j \<le> ?c i j" by simp
  next
    fix i j assume s: "(i, j) \<in> stars st"
    then have "i < rows st" "j < columns st" by (auto simp: marked_def)
    then have "cost st i j = ?c i j - u i - v j" using p unfolding potentials_def by blast
    moreover have "cost st i j = 0" using s base by (auto simp: base_inv_def)
    ultimately show "?c i j = u i + v j" by simp
  qed (use p base assms(3) card st marked_grid [of STAR] in \<open>auto simp: potentials_def base_inv_def complete_assignment_def\<close>)
qed

end
