(* ===== verification/Cv_Rect.thy ===== *)
theory Cv_Rect
  imports Plv_Prelude
begin

text \<open>
  Rectangles of pixels and their overlap (\<open>Util.cpp\<close>), and the helper \<open>Math::factorial\<close>.  Coordinates are
  unbounded integers; the program assumes that the sum of a coordinate and a length fits into an \<open>int\<close>.
\<close>

section \<open>Model\<close>

record Rect =
  r_x :: int
  r_y :: int
  r_width :: int
  r_height :: int

definition overlap :: "Rect \<Rightarrow> Rect \<Rightarrow> bool" where
  "overlap a b \<longleftrightarrow>
     r_x a < r_x b + r_width b \<and> r_x a + r_width a > r_x b \<and>
     r_y a < r_y b + r_height b \<and> r_y a + r_height a > r_y b"

text \<open>The answer and the reference argument \<open>area\<close>, which is left alone when there is no overlap.  The answer
  is the boolean \<open>true\<close> converted to an integer, not the area.\<close>

definition overlappingArea :: "Rect \<Rightarrow> Rect \<Rightarrow> Rect \<Rightarrow> int \<times> Rect" where
  "overlappingArea a b area =
     (let ax = r_x a + r_width a; ay = r_y a + r_height a; bx = r_x b + r_width b; by = r_y b + r_height b in
      if \<not> (r_x a < bx \<and> ax > r_x b \<and> r_y a < by \<and> ay > r_y b) then (0, area)
      else
        let x1 = (if r_x a > r_x b then r_x a else r_x b); y1 = (if r_y a > r_y b then r_y a else r_y b);
            x2 = (if ax < bx then ax else bx); y2 = (if ay < by then ay else by)
        in (1, \<lparr>r_x = x1, r_y = y1, r_width = x2 - x1, r_height = y2 - y1\<rparr>))"

definition rect_area :: "Rect \<Rightarrow> int" where
  "rect_area r = r_width r * r_height r"

fun factorial_loop :: "nat \<Rightarrow> int \<Rightarrow> int \<Rightarrow> int \<Rightarrow> int" where
  "factorial_loop 0 i n res = res"
| "factorial_loop (Suc k) i n res = (if i < n then factorial_loop k (i + 1) n (res * i) else res)"

text \<open>The loop makes at most \<open>n\<close> rounds.\<close>

definition factorial :: "int \<Rightarrow> int" where
  "factorial n = factorial_loop (nat n) 2 n n"

section \<open>Pixels\<close>

definition rect_pixels :: "Rect \<Rightarrow> (int \<times> int) set" where
  "rect_pixels r = {r_x r..<r_x r + r_width r} \<times> {r_y r..<r_y r + r_height r}"

lemma card_rect_pixels: "0 \<le> r_width r \<Longrightarrow> 0 \<le> r_height r \<Longrightarrow> int (card (rect_pixels r)) = rect_area r"
  by (simp add: rect_pixels_def rect_area_def card_cartesian_product)

lemma overlappingArea_pixels:
  assumes "0 < r_width a" and "0 < r_height a" and "0 < r_width b" and "0 < r_height b"
  shows "fst (overlappingArea a b r) = (if overlap a b then 1 else 0)"
    and "overlap a b \<longleftrightarrow> rect_pixels a \<inter> rect_pixels b \<noteq> {}"
    and "overlap a b \<Longrightarrow> rect_pixels (snd (overlappingArea a b r)) = rect_pixels a \<inter> rect_pixels b"
    and "overlap a b \<Longrightarrow> 0 < rect_area (snd (overlappingArea a b r))"
proof -
  show "fst (overlappingArea a b r) = (if overlap a b then 1 else 0)"
    by (simp add: overlappingArea_def overlap_def Let_def)
  show "overlap a b \<Longrightarrow> rect_pixels (snd (overlappingArea a b r)) = rect_pixels a \<inter> rect_pixels b"
    by (auto simp: overlappingArea_def overlap_def rect_pixels_def Let_def)
  have "(max (r_x a) (r_x b), max (r_y a) (r_y b)) \<in> rect_pixels a \<inter> rect_pixels b" if "overlap a b"
    using that assms by (auto simp: overlap_def rect_pixels_def max_def)
  moreover have "overlap a b" if "p \<in> rect_pixels a \<inter> rect_pixels b" for p
    using that by (auto simp: overlap_def rect_pixels_def)
  ultimately show "overlap a b \<longleftrightarrow> rect_pixels a \<inter> rect_pixels b \<noteq> {}" by blast
  show "overlap a b \<Longrightarrow> 0 < rect_area (snd (overlappingArea a b r))"
    using assms by (auto simp: overlappingArea_def overlap_def rect_area_def Let_def)
qed

lemma factorial_loop_fact:
  "0 < i \<Longrightarrow> i \<le> n \<Longrightarrow> nat (n - i) \<le> k \<Longrightarrow> factorial_loop k i n res * fact (nat (i - 1)) = res * fact (nat (n - 1))"
proof (induction k arbitrary: i res)
  case (Suc k)
  show ?case
  proof (cases "i < n")
    case True
    have "(fact (nat i) :: int) = i * fact (nat (i - 1))"
      using Suc.prems fact_reduce [of "nat i", where 'a = int] by (simp add: nat_diff_distrib)
    with Suc.IH [of "i + 1" "res * i"] Suc.prems True
    have "i * (factorial_loop k (i + 1) n (res * i) * fact (nat (i - 1))) = i * (res * fact (nat (n - 1)))"
      by (simp add: ac_simps)
    with Suc.prems True show ?thesis by simp
  qed (use Suc.prems in simp)
qed simp

lemma factorial_fact: "2 \<le> n \<Longrightarrow> factorial n = fact (nat n)"
proof -
  assume n: "2 \<le> n"
  have "factorial n * fact (nat (2 - 1)) = n * fact (nat (n - 1))"
    unfolding factorial_def by (rule factorial_loop_fact) (use n in auto)
  moreover have "(fact (nat n) :: int) = n * fact (nat (n - 1))"
    using n fact_reduce [of "nat n", where 'a = int] by (simp add: nat_diff_distrib)
  ultimately show ?thesis by simp
qed

text \<open>The factorial of 0 is wrong.\<close>

lemma factorial_0: "factorial 0 = 0"
  by (simp add: factorial_def)

end
