(* ===== verification/Blob_Tracking.thy ===== *)
theory Blob_Tracking
  imports Complex_Main Munkres_Correct Cv_Rect
begin

text \<open>
  The blob tracker (\<open>Blob.cpp\<close>, \<open>BlobTrack.cpp\<close>, \<open>BlobTracker.cpp\<close>, \<open>BlobDetector.cpp\<close>): tracks are matched
  with the blobs of a frame by the overlap of their bounding rectangles.

  What OpenCV computes from a contour (its area, moments and bounding rectangle) is the parameter \<open>Cv\<close>; numbers of
  type double that come from it are rationals here.  The drawing of the blobs and tracks is left out.  Scores and costs are integers: the program converts the integer scores to doubles, all of
  which are exact.  The least positive double, with which the search for the best score starts, is 0 here,
  as no integer lies between the two.
\<close>

section \<open>Blobs and tracks\<close>

type_synonym contour = "(int \<times> int) list"

record Blob =
  b_frameNr :: u32
  b_contour :: contour
  b_cog :: "int \<times> int"
  b_size :: rat
  b_boundingRect :: Rect
  b_valid :: bool

text \<open>
  \<open>cv_moments\<close> yields the moments \<open>m00\<close>, \<open>m10\<close> and \<open>m01\<close>; \<open>cv_nonfinite\<close> is what the conversion of an infinite
  value or a NaN to \<open>int\<close> yields, which C++ leaves open.
\<close>

record Cv =
  cv_contourArea :: "contour \<Rightarrow> rat"
  cv_boundingRect :: "contour \<Rightarrow> Rect"
  cv_moments :: "contour \<Rightarrow> rat \<times> rat \<times> rat"
  cv_nonfinite :: int

definition truncate_quotient :: "Cv \<Rightarrow> rat \<Rightarrow> rat \<Rightarrow> int" where
  "truncate_quotient cv x y =
     (if y = 0 then cv_nonfinite cv else if x / y \<ge> 0 then \<lfloor>x / y\<rfloor> else \<lceil>x / y\<rceil>)"

definition Blob_new :: "Cv \<Rightarrow> u32 \<Rightarrow> contour \<Rightarrow> Blob" where
  "Blob_new cv frameNr contour =
     (case cv_moments cv contour of (m00, m10, m01) \<Rightarrow>
        \<lparr>b_frameNr = frameNr, b_contour = contour,
         b_cog = (truncate_quotient cv m10 m00, truncate_quotient cv m01 m00),
         b_size = \<bar>cv_contourArea cv contour\<bar>, b_boundingRect = cv_boundingRect cv contour, b_valid = True\<rparr>)"

datatype BlobTrackState = BlobTrackBirth | BlobTrackNormal | BlobTrackLost | BlobTrackDead

record BlobTrack =
  t_id :: u32
  t_birthThreshold :: u32
  t_birthWindow :: u32
  t_dieThreshold :: u32
  t_historySize :: u32
  t_trackSize :: u32
  t_age :: u32
  t_state :: BlobTrackState
  t_history :: "Blob list"
  t_track :: "(int \<times> int) list"

text \<open>The constructor of the data and the one of the track both append the blob.\<close>

definition BlobTrack_new :: "u32 \<Rightarrow> Blob \<Rightarrow> plv_exn + BlobTrack" where
  "BlobTrack_new i blob =
     (if \<not> b_valid blob then Inl AssertFailed
      else Inr \<lparr>t_id = i, t_birthThreshold = 3, t_birthWindow = 10, t_dieThreshold = 10, t_historySize = 10,
                t_trackSize = 2147483647, t_age = 0, t_state = BlobTrackBirth,
                t_history = [blob] @ [blob], t_track = []\<rparr>)"

definition getLastMeasurement :: "BlobTrack \<Rightarrow> Blob" where
  "getLastMeasurement t = last (t_history t)"

definition notMatched :: "u32 \<Rightarrow> BlobTrack \<Rightarrow> BlobTrack" where
  "notMatched frameNumber t =
     (let t1 = t\<lparr>t_age := t_age t + 1\<rparr> in
      if frameNumber - b_frameNr (last (t_history t1)) > t_dieThreshold t1 then t1\<lparr>t_state := BlobTrackDead\<rparr> else t1)"

text \<open>The loop over the birth window has an empty body.\<close>

definition addMeasurement :: "Blob \<Rightarrow> BlobTrack \<Rightarrow> BlobTrack" where
  "addMeasurement blob t =
     (let t1 = t\<lparr>t_age := t_age t + 1, t_history := t_history t @ [blob]\<rparr>;
          t2 = (if of_nat (length (t_history t1)) > t_historySize t1 then t1\<lparr>t_history := tl (t_history t1)\<rparr> else t1);
          t3 = t2\<lparr>t_track := t_track t2 @ [b_cog blob]\<rparr>;
          t4 = (if of_nat (length (t_track t3)) > t_trackSize t3 then t3\<lparr>t_track := tl (t_track t3)\<rparr> else t3);
          count = (0 :: u32)
      in if t_state t4 = BlobTrackBirth \<and> count \<ge> t_birthThreshold t4 then t4\<lparr>t_state := BlobTrackNormal\<rparr> else t4)"

definition overlappingAreaRect :: "Blob \<Rightarrow> Blob \<Rightarrow> Rect \<Rightarrow> bool \<times> Rect" where
  "overlappingAreaRect b other area =
     (case overlappingArea (b_boundingRect b) (b_boundingRect other) area of (r, area') \<Rightarrow> (r > 0, area'))"

definition matchingArea :: "Blob \<Rightarrow> Blob \<Rightarrow> int" where
  "matchingArea b blob =
     (case overlappingAreaRect b blob \<lparr>r_x = 0, r_y = 0, r_width = 0, r_height = 0\<rparr> of
        (ok, area) \<Rightarrow> if \<not> ok then 0 else rect_area area)"

definition matches :: "Blob \<Rightarrow> BlobTrack \<Rightarrow> int" where
  "matches blob t = (if t_state t = BlobTrackDead then 0 else matchingArea blob (getLastMeasurement t))"

section \<open>The tracker\<close>

definition maxScore :: "Blob list \<Rightarrow> BlobTrack list \<Rightarrow> int" where
  "maxScore blobs tracks =
     fold (\<lambda>track mx. fold (\<lambda>blob mx. if matches blob track > mx then matches blob track else mx) blobs mx) tracks 0 - 1"

definition scoreMatrix :: "Blob list \<Rightarrow> BlobTrack list \<Rightarrow> int option Matrix" where
  "scoreMatrix blobs tracks =
     (let matrixSize = (if length tracks > length blobs then length tracks else length blobs) in
      \<lparr>m_rows = matrixSize, m_columns = matrixSize, m_allocated = True,
       m_matrix = (\<lambda>i j. if i < length tracks \<and> j < length blobs \<and> matches (blobs ! j) (tracks ! i) > 0
                         then Some (maxScore blobs tracks - matches (blobs ! j) (tracks ! i)) else None)\<rparr>)"

text \<open>The last zero of a row.\<close>

definition matchOf :: "int Matrix \<Rightarrow> nat \<Rightarrow> nat \<Rightarrow> nat option" where
  "matchOf m nblobs i = fold (\<lambda>j match. if m_matrix m i j = 0 then Some j else match) [0..<nblobs] None"

definition updateTrack :: "u32 \<Rightarrow> Blob list \<Rightarrow> int Matrix \<Rightarrow> nat \<Rightarrow> BlobTrack \<Rightarrow> BlobTrack" where
  "updateTrack serial blobs m i track =
     (case matchOf m (length blobs) i of
        Some j \<Rightarrow> addMeasurement (blobs ! j) track
      | None \<Rightarrow> notMatched serial track)"

definition matchedBlobs :: "int Matrix \<Rightarrow> nat \<Rightarrow> nat \<Rightarrow> nat list" where
  "matchedBlobs m ntracks nblobs = List.map_filter (matchOf m nblobs) [0..<ntracks]"

fun newTracks :: "Blob list \<Rightarrow> u32 \<Rightarrow> plv_exn + (BlobTrack list \<times> u32)" where
  "newTracks [] counter = Inr ([], counter)"
| "newTracks (blob # bs) counter =
     (case BlobTrack_new (counter + 1) blob of
        Inl x \<Rightarrow> Inl x
      | Inr t \<Rightarrow> (case newTracks bs (counter + 1) of Inl x \<Rightarrow> Inl x | Inr (ts, c) \<Rightarrow> Inr (t # ts, c)))"

record BlobTracker =
  m_blobTracks :: "BlobTrack list"
  m_idCounter :: u32

definition matchBlobs :: "u32 \<Rightarrow> Blob list \<Rightarrow> BlobTracker \<Rightarrow> (plv_exn + BlobTracker) option" where
  "matchBlobs serial blobs bt =
     (let tracks = m_blobTracks bt in
      map_option (\<lambda>m.
        let tracks' = map (\<lambda>(i, t). updateTrack serial blobs m i t) (zip [0..<length tracks] tracks);
            matched = matchedBlobs m (length tracks) (length blobs);
            rest = map (\<lambda>j. blobs ! j) (filter (\<lambda>j. j \<notin> set matched) [0..<length blobs])
        in case newTracks rest (m_idCounter bt) of
             Inl x \<Rightarrow> Inl x
           | Inr (ts, c) \<Rightarrow> Inr \<lparr>m_blobTracks = tracks' @ ts, m_idCounter = c\<rparr>)
       (solve mat_default (scoreMatrix blobs tracks)))"

definition BlobTracker_stop :: "BlobTracker \<Rightarrow> bool \<times> BlobTracker" where
  "BlobTracker_stop bt = (True, bt\<lparr>m_blobTracks := []\<rparr>)"

definition BlobTracker_deinit :: "BlobTracker \<Rightarrow> bool \<times> BlobTracker" where
  "BlobTracker_deinit bt = (True, bt\<lparr>m_blobTracks := []\<rparr>)"

section \<open>The detector\<close>

record BlobDetector =
  m_iterations :: u32
  m_minBlobSize :: int

text \<open>\<open>findContours\<close> is what OpenCV finds in the image, after the conversion of its depth.\<close>

definition BlobDetector_process :: "Cv \<Rightarrow> ('img \<Rightarrow> contour list) \<Rightarrow> 'img \<Rightarrow> BlobDetector \<Rightarrow> Blob list \<times> BlobDetector" where
  "BlobDetector_process cv findContours src d =
     (let newBlobs = fold (\<lambda>c bs. let b = Blob_new cv (m_iterations d) c in
                                   if b_size b \<ge> of_int (m_minBlobSize d) then bs @ [b] else bs) (findContours src) []
      in (filter (\<lambda>b. \<not> b_size b < of_int (m_minBlobSize d)) newBlobs, d\<lparr>m_iterations := m_iterations d + 1\<rparr>))"

definition setMinBlobSize :: "int \<Rightarrow> BlobDetector \<Rightarrow> BlobDetector" where
  "setMinBlobSize sz d = (if sz \<ge> 0 then d\<lparr>m_minBlobSize := sz\<rparr> else d)"

lemma fold_collect:
  "fold (\<lambda>c bs. let b = f c in if P b then bs @ [b] else bs) cs bs = bs @ filter P (map f cs)"
  by (induction cs arbitrary: bs) (simp_all add: Let_def)

lemma BlobDetector_process_correct:
  "BlobDetector_process cv findContours src d =
     (filter (\<lambda>b. b_size b \<ge> of_int (m_minBlobSize d)) (map (Blob_new cv (m_iterations d)) (findContours src)),
      d\<lparr>m_iterations := m_iterations d + 1\<rparr>)"
  unfolding BlobDetector_process_def fold_collect by (simp add: Let_def not_less)

lemma BlobDetector_process_valid:
  "b \<in> set (fst (BlobDetector_process cv findContours src d)) \<Longrightarrow>
    b_valid b \<and> b_frameNr b = m_iterations d \<and> b_size b \<ge> of_int (m_minBlobSize d)"
  by (auto simp: BlobDetector_process_correct Blob_new_def split: prod.splits)

section \<open>Every blob gets a track\<close>

lemma fold_last:
  "fold (\<lambda>j r. if P j then Some j else r) js r =
     (if \<exists>j \<in> set js. P j then Some (last (filter P js)) else r)"
  by (induction js arbitrary: r) (auto simp: filter_empty_conv)

lemma matchOf_cases:
  "matchOf m n i = Some j \<Longrightarrow> j < n \<and> m_matrix m i j = 0"
  "matchOf m n i = None \<Longrightarrow> j < n \<Longrightarrow> m_matrix m i j \<noteq> 0"
proof -
  assume "matchOf m n i = Some j"
  then have ex: "\<exists>j \<in> set [0..<n]. m_matrix m i j = 0" and j: "j = last (filter (\<lambda>j. m_matrix m i j = 0) [0..<n])"
    by (auto simp: matchOf_def fold_last split: if_splits)
  then have "j \<in> set (filter (\<lambda>j. m_matrix m i j = 0) [0..<n])"
    unfolding j by (intro last_in_set) (auto simp: filter_empty_conv)
  then show "j < n \<and> m_matrix m i j = 0" by simp
next
  assume "matchOf m n i = None" "j < n"
  then show "m_matrix m i j \<noteq> 0" by (auto simp: matchOf_def fold_last split: if_splits)
qed

lemma addMeasurement_last:
  assumes "t_history t \<noteq> []"
  shows "t_history (addMeasurement b t) \<noteq> []" and "getLastMeasurement (addMeasurement b t) = b"
proof -
  have "t_history (addMeasurement b t) = t_history t @ [b] \<or> t_history (addMeasurement b t) = tl (t_history t @ [b])"
    by (simp add: addMeasurement_def Let_def)
  with assms show "t_history (addMeasurement b t) \<noteq> []" "getLastMeasurement (addMeasurement b t) = b"
    by (auto simp: getLastMeasurement_def)
qed

lemma notMatched_history [simp]: "t_history (notMatched s t) = t_history t"
  by (simp add: notMatched_def Let_def)

lemma newTracks_ok:
  "\<forall>b \<in> set bs. b_valid b \<Longrightarrow>
    \<exists>ts c'. newTracks bs c = Inr (ts, c') \<and> length ts = length bs \<and>
      (\<forall>t \<in> set ts. t_history t \<noteq> []) \<and> map getLastMeasurement ts = bs"
proof (induction bs arbitrary: c)
  case (Cons b bs)
  then obtain ts c' where "newTracks bs (c + 1) = Inr (ts, c')" "length ts = length bs"
    "\<forall>t \<in> set ts. t_history t \<noteq> []" "map getLastMeasurement ts = bs"
    by (metis list.set_intros(2))
  moreover obtain t where "BlobTrack_new (c + 1) b = Inr t" "t_history t \<noteq> []" "getLastMeasurement t = b"
    using Cons.prems by (simp add: BlobTrack_new_def getLastMeasurement_def)
  ultimately show ?case by simp
qed simp

lemma complete_square:
  assumes "complete_assignment n n A"
  shows "fst ` A = {..<n}" and "snd ` A = {..<n}"
proof -
  have "fst ` A \<subseteq> {..<n}" "snd ` A \<subseteq> {..<n}" "card (fst ` A) = n" "card (snd ` A) = n"
    using assms by (auto simp: complete_assignment_def indep_def card_image)
  then show "fst ` A = {..<n}" "snd ` A = {..<n}"
    using card_subset_eq [of "{..<n}" "fst ` A"] card_subset_eq [of "{..<n}" "snd ` A"] by simp_all
qed

text \<open>The rows of the tracks in an assignment on a square: how many blobs they leave over.\<close>

lemma unmatched_count:
  assumes "complete_assignment n n A" and "n = max nt nb"
  shows "card {j. j < nb \<and> (\<forall>i < nt. (i, j) \<notin> A)} = nb - nt"
proof (cases "nb \<le> nt")
  case True
  then have n: "n = nt" using assms(2) by simp
  have "\<exists>i < nt. (i, j) \<in> A" if "j < nb" for j
  proof -
    have "j \<in> snd ` A" unfolding complete_square(2) [OF assms(1)] using that True n by simp
    then obtain i where "(i, j) \<in> A" by force
    moreover from this have "i < nt" using assms(1) n by (auto simp: complete_assignment_def)
    ultimately show ?thesis by blast
  qed
  then have "{j. j < nb \<and> (\<forall>i < nt. (i, j) \<notin> A)} = {}" by blast
  with True show ?thesis by simp
next
  case False
  then have n: "n = nb" using assms(2) by simp
  let ?M = "snd ` {p \<in> A. fst p < nt}"
  have inj: "inj_on fst A" "inj_on snd A" using assms(1) by (auto simp: complete_assignment_def indep_def)
  have "fst ` {p \<in> A. fst p < nt} = fst ` A \<inter> {..<nt}" by blast
  then have "fst ` {p \<in> A. fst p < nt} = {..<nt}"
    unfolding complete_square(1) [OF assms(1)] using False n by auto
  then have "card {p \<in> A. fst p < nt} = nt"
    using card_image [OF inj_on_subset [OF inj(1)], of "{p \<in> A. fst p < nt}"] by simp
  then have "card ?M = nt"
    using card_image [OF inj_on_subset [OF inj(2)], of "{p \<in> A. fst p < nt}"] by simp
  moreover have "?M \<subseteq> {..<nb}" using assms(1) n by (auto simp: complete_assignment_def)
  moreover have "{j. j < nb \<and> (\<forall>i < nt. (i, j) \<notin> A)} = {..<nb} - ?M" by force
  ultimately show ?thesis by (simp add: card_Diff_subset finite_subset)
qed

lemma matchBlobs_total:
  assumes valid: "\<forall>b \<in> set blobs. b_valid b" and hist: "\<forall>t \<in> set (m_blobTracks bt). t_history t \<noteq> []"
  shows "\<exists>bt'. matchBlobs serial blobs bt = Some (Inr bt') \<and>
    length (m_blobTracks bt') = max (length (m_blobTracks bt)) (length blobs) \<and>
    (\<forall>t \<in> set (m_blobTracks bt'). t_history t \<noteq> []) \<and>
    set blobs \<subseteq> getLastMeasurement ` set (m_blobTracks bt')"
proof -
  let ?ts = "m_blobTracks bt"
  define n where "n = max (length ?ts) (length blobs)"
  obtain m where m: "solve mat_default (scoreMatrix blobs ?ts) = Some m" "complete_assignment n n (assigned m)"
    "m_rows m = n" "m_columns m = n"
  proof -
    have "m_rows (scoreMatrix blobs ?ts) = n" "m_columns (scoreMatrix blobs ?ts) = n"
      by (simp_all add: scoreMatrix_def n_def max_def Let_def)
    with solve_complete [of "scoreMatrix blobs ?ts"] that show ?thesis by auto
  qed
  define match where "match = matchOf m (length blobs)"
  have match: "match i = Some j \<longleftrightarrow> j < length blobs \<and> (i, j) \<in> assigned m" if "i < length ?ts" for i j
  proof -
    have ai: "(i, j) \<in> assigned m \<longleftrightarrow> m_matrix m i j = 0" if "j < length blobs" for j
      using that \<open>i < length ?ts\<close> m(3,4) by (auto simp: assigned_def n_def)
    show ?thesis
    proof (cases "match i")
      case None
      then show ?thesis using matchOf_cases(2) [of m "length blobs" i] ai unfolding match_def by auto
    next
      case (Some k)
      then have "k < length blobs" "(i, k) \<in> assigned m"
        using matchOf_cases(1) [of m "length blobs" i k] ai unfolding match_def by auto
      with Some show ?thesis
        using indep_row [of "assigned m" i] m(2) by (auto simp: complete_assignment_def)
    qed
  qed
  define rest where "rest = filter (\<lambda>j. j \<notin> set (matchedBlobs m (length ?ts) (length blobs))) [0..<length blobs]"
  have matched: "j \<in> set (matchedBlobs m (length ?ts) (length blobs)) \<longleftrightarrow> (\<exists>i < length ?ts. match i = Some j)" for j
    by (force simp: matchedBlobs_def List.map_filter_def match_def)
  have set_rest: "set rest = {j. j < length blobs \<and> (\<forall>i < length ?ts. (i, j) \<notin> assigned m)}"
    using match by (auto simp: rest_def matched)
  have "distinct rest" by (simp add: rest_def)
  then have rest: "length rest = length blobs - length ?ts"
    using unmatched_count [OF m(2) n_def] unfolding set_rest [symmetric] by (simp add: distinct_card)
  obtain ts c where new: "newTracks (map (\<lambda>j. blobs ! j) rest) (m_idCounter bt) = Inr (ts, c)" "length ts = length rest"
    "\<forall>t \<in> set ts. t_history t \<noteq> []" "map getLastMeasurement ts = map (\<lambda>j. blobs ! j) rest"
  proof -
    have "\<forall>b \<in> set (map (\<lambda>j. blobs ! j) rest). b_valid b" using valid by (auto simp: rest_def)
    from newTracks_ok [OF this] that show ?thesis by auto
  qed
  define old where "old = map (\<lambda>(i, t). updateTrack serial blobs m i t) (zip [0..<length ?ts] ?ts)"
  have old: "length old = length ?ts" "\<And>i. i < length ?ts \<Longrightarrow> old ! i = updateTrack serial blobs m i (?ts ! i)"
    by (simp_all add: old_def)
  have upd: "t_history (updateTrack serial blobs m i t) \<noteq> []" if "t_history t \<noteq> []" for i t
    using that by (simp add: updateTrack_def addMeasurement_last(1) split: option.split)
  have "t_history t \<noteq> []" if "t \<in> set old" for t
  proof -
    have "\<exists>i < length old. old ! i = t" using that by (simp only: in_set_conv_nth)
    then obtain i where i: "i < length ?ts" "t = updateTrack serial blobs m i (?ts ! i)"
      unfolding old(1) using old(2) by blast
    have "t_history (?ts ! i) \<noteq> []" using hist nth_mem [OF i(1)] by blast
    then show ?thesis unfolding i(2) by (rule upd)
  qed
  moreover have "b \<in> getLastMeasurement ` set (old @ ts)" if b: "b \<in> set blobs" for b
  proof -
    obtain j where j: "j < length blobs" "b = blobs ! j" using b by (auto simp: in_set_conv_nth)
    show ?thesis
    proof (cases "j \<in> set rest")
      case True
      then have "b \<in> set (map getLastMeasurement ts)" using j by (simp add: new(4))
      then show ?thesis by auto
    next
      case False
      then obtain i where i: "i < length ?ts" "match i = Some j" using j matched by (auto simp: rest_def)
      have "old ! i = addMeasurement b (?ts ! i)"
        using i(2) j(2) unfolding old(2) [OF i(1)] by (simp add: updateTrack_def match_def)
      moreover have "t_history (?ts ! i) \<noteq> []" using hist nth_mem [OF i(1)] by blast
      ultimately have "getLastMeasurement (old ! i) = b" by (simp add: addMeasurement_last(2))
      moreover have "old ! i \<in> set (old @ ts)" using old(1) i(1) by simp
      ultimately show ?thesis by blast
    qed
  qed
  moreover have "matchBlobs serial blobs bt = Some (Inr \<lparr>m_blobTracks = old @ ts, m_idCounter = c\<rparr>)"
    using new(1) m(1) by (simp add: matchBlobs_def Let_def old_def rest_def)
  ultimately show ?thesis
    using new(2,3) rest old(1) by (auto simp: max_def)
qed

end
