(* ===== verification/Blob_Sample.thy ===== *)
theory Blob_Sample
  imports Blob_Tracking
begin

text \<open>
  Concrete tracks, blobs and costs, and the run of the assignment algorithm on a two by two matrix: matrices and
  vectors with two indices in a normal form that the simplifier keeps.
\<close>

section \<open>A concrete tracker\<close>

definition demo_blob :: "int \<Rightarrow> Blob" where
  "demo_blob x =
     \<lparr>b_frameNr = 1, b_contour = [], b_cog = (x, 0), b_size = 10,
      b_boundingRect = \<lparr>r_x = x, r_y = 0, r_width = 10, r_height = 1\<rparr>, b_valid = True\<rparr>"

definition demo_track :: "u32 \<Rightarrow> int \<Rightarrow> BlobTrack" where
  "demo_track i x = (case BlobTrack_new i (demo_blob x) of Inr t \<Rightarrow> t)"

definition demo_tracker :: BlobTracker where
  "demo_tracker = \<lparr>m_blobTracks = [demo_track 1 0, demo_track 2 1], m_idCounter = 2\<rparr>"

definition demo_costs :: "int option Matrix" where
  "demo_costs = \<lparr>m_rows = 1, m_columns = 2, m_allocated = True,
     m_matrix = (\<lambda>i j. if j = 0 then Some 4 else Some 1)\<rparr>"

lemma demo_track_history: "t_history (demo_track i x) = [demo_blob x, demo_blob x]"
  by (simp add: demo_track_def BlobTrack_new_def demo_blob_def)

lemma demo_costs_nonneg:
  "i < m_rows demo_costs \<Longrightarrow> j < m_columns demo_costs \<Longrightarrow> m_matrix demo_costs i j = Some x \<Longrightarrow> 0 \<le> x"
  by (auto simp: demo_costs_def split: if_splits)

section \<open>Evaluation of two by two matrices\<close>

definition mat2 :: "'a::zero \<Rightarrow> 'a \<Rightarrow> 'a \<Rightarrow> 'a \<Rightarrow> nat \<Rightarrow> nat \<Rightarrow> 'a" where
  "mat2 a b c d i j = (if i = 0 then if j = 0 then a else if j = 1 then b else 0
     else if i = 1 then if j = 0 then c else if j = 1 then d else 0 else 0)"
definition matrix2 :: "'a::zero \<Rightarrow> 'a \<Rightarrow> 'a \<Rightarrow> 'a \<Rightarrow> 'a Matrix" where
  "matrix2 a b c d = \<lparr>m_rows = 2, m_columns = 2, m_allocated = True, m_matrix = mat2 a b c d\<rparr>"
definition vec2 :: "bool \<Rightarrow> bool \<Rightarrow> nat \<Rightarrow> bool" where
  "vec2 a b i = (if i = 0 then a else if i = 1 then b else False)"
lemma mat2_get [simp]: "mat2 a b c d 0 0 = a" "mat2 a b c d 0 (Suc 0) = b" "mat2 a b c d (Suc 0) 0 = c" "mat2 a b c d (Suc 0) (Suc 0) = d"
  by (simp_all add: mat2_def)
lemma mat2_set [simp]:
  "(mat2 a b c d)(0 := (mat2 a b c d 0)(0 := x)) = mat2 x b c d"
  "(mat2 a b c d)(0 := (mat2 a b c d 0)(Suc 0 := x)) = mat2 a x c d"
  "(mat2 a b c d)(Suc 0 := (mat2 a b c d (Suc 0))(0 := x)) = mat2 a b x d"
  "(mat2 a b c d)(Suc 0 := (mat2 a b c d (Suc 0))(Suc 0 := x)) = mat2 a b c x"
  by (auto simp: mat2_def fun_eq_iff)
lemma vec2_simps [simp]: "vec2 a b 0 = a" "vec2 a b (Suc 0) = b" "(vec2 a b)(0 := x) = vec2 x b" "(vec2 a b)(Suc 0 := x) = vec2 a x"
  by (auto simp: vec2_def fun_eq_iff)
lemma matrix2_simps [simp]: "m_rows (matrix2 a b c d) = 2"  "m_columns (matrix2 a b c d) = 2" "m_matrix (matrix2 a b c d) = mat2 a b c d"
  "mat_set i j x (matrix2 a b c d) = (matrix2 a b c d)\<lparr>m_matrix := (mat2 a b c d)(i := (mat2 a b c d i)(j := x))\<rparr>"
  "(matrix2 a b c d)\<lparr>m_matrix := mat2 e f g h\<rparr> = matrix2 e f g h"
  by (simp_all add: matrix2_def mat_set_def)

lemma upt_2 [simp]: "[0..<2] = [0, Suc 0]" by (simp add: upt_rec)
lemma cells22 [simp]: "cells 2 2 = [(0,0),(0,Suc 0),(Suc 0,0),(Suc 0,Suc 0)]" by (simp add: cells_def)
definition st2 :: "int Matrix \<Rightarrow> int Matrix \<Rightarrow> (nat \<Rightarrow> bool) \<Rightarrow> (nat \<Rightarrow> bool) \<Rightarrow> nat \<Rightarrow> nat \<Rightarrow> int munkres" where
  "st2 C K r c sr sc = \<lparr>mk_matrix = C, mask_matrix = K, row_mask = r, col_mask = c, saverow = sr, savecol = sc\<rparr>"
lemmas munkres_eval =
  step1_def step1_cell_def step2_def step2_cell_def step3_def step4_def step5_def set_mark_def find_uncovered_in_matrix_def 
  step4_flip_def step4_erase_def step5_min_def step4_seq.simps minsize_def munkres_step_def
definition demo_scores :: "int option Matrix" where
  "demo_scores = \<lparr>m_rows = 2, m_columns = 2, m_allocated = True,
  m_matrix = (\<lambda>i j. if j = (0::nat) then (if i = (0::nat) then Some 0 else if i = 1 then Some (-1::int) else None) else None)\<rparr>"
lemma demo_steps:
  "munkres_step 1 (st2 (matrix2 0 1 (- 1) 1) (matrix2 0 0 0 0) (vec2 False False) (vec2 False False) 0 0) =
     (2, st2 (matrix2 0 1 (-1) 1) (matrix2 1 0 0 0) (vec2 False False) (vec2 False False) 0 0)"
  "munkres_step 2 (st2 (matrix2 0 1 (- 1) 1) (matrix2 1 0 0 0) (vec2 False False) (vec2 False False) 0 0) =
     (3, st2 (matrix2 0 1 (-1) 1) (matrix2 1 0 0 0) (vec2 False False) (vec2 True False) 0 0)"
  "munkres_step 3 (st2 (matrix2 0 1 (- 1) 1) (matrix2 1 0 0 0) (vec2 False False) (vec2 True False) 0 0) =
     (5, st2 (matrix2 0 1 (-1) 1) (matrix2 1 0 0 0) (vec2 False False) (vec2 True False) 0 0)"
  "munkres_step 5 (st2 (matrix2 0 1 (- 1) 1) (matrix2 1 0 0 0) (vec2 False False) (vec2 True False) 0 0) =
     (3, st2 (matrix2 0 0 (-1) 0) (matrix2 1 0 0 0) (vec2 False False) (vec2 True False) 0 0)"
  "munkres_step 3 (st2 (matrix2 0 0 (- 1) 0) (matrix2 1 0 0 0) (vec2 False False) (vec2 True False) 0 0) =
     (3, st2 (matrix2 0 0 (-1) 0) (matrix2 1 2 0 0) (vec2 True False) (vec2 False False) 0 1)"
  "munkres_step 3 (st2 (matrix2 0 0 (- 1) 0) (matrix2 1 2 0 0) (vec2 True False) (vec2 False False) 0 1) =
     (4, st2 (matrix2 0 0 (-1) 0) (matrix2 1 2 0 2) (vec2 True False) (vec2 False False) 1 1)"
  "munkres_step 4 (st2 (matrix2 0 0 (- 1) 0) (matrix2 1 2 0 2) (vec2 True False) (vec2 False False) 1 1) =
     (2, st2 (matrix2 0 0 (-1) 0) (matrix2 1 0 0 1) (vec2 False False) (vec2 False False) 1 1)"
  "munkres_step 2 (st2 (matrix2 0 0 (- 1) 0) (matrix2 1 0 0 1) (vec2 False False) (vec2 False False) 1 1) =
     (0, st2 (matrix2 0 0 (-1) 0) (matrix2 1 0 0 1) (vec2 False False) (vec2 True True) 1 1)"
  by (simp_all add: munkres_eval st2_def)

lemma solve_loop_step:
  "munkres_step k st = (k', st') \<Longrightarrow> k \<noteq> 0 \<Longrightarrow> solve_loop k st = solve_loop k' st'"
  by (subst solve_loop.simps) simp

lemma solve_loop_0: "solve_loop 0 st = Some st"
  by (subst solve_loop.simps) simp

text \<open>The zero of the first row is starred before the negative cost below it is looked at, and is kept.\<close>

lemma demo_scores_solved: "solve mat_default demo_scores = Some (matrix2 0 (- 1) (- 1) 0)"
proof -
  have "finite_costs demo_scores = matrix2 0 1 (- 1) 1"
    by (auto simp: finite_costs_def matrix2_def demo_scores_def high_value_def mat2_def fun_eq_iff)
  moreover have "mat_resize 2 2 mat_default = matrix2 0 0 0 (0::int)"
    by (auto simp: mat_resize_def matrix2_def mat_default_def mat2_def fun_eq_iff)
  moreover have "vec2 False False = (\<lambda>_. False)" by (simp add: vec2_def fun_eq_iff)
  moreover have "solve_loop 1 (st2 (matrix2 0 1 (- 1) 1) (matrix2 0 0 0 0) (vec2 False False) (vec2 False False) 0 0)
     = Some (st2 (matrix2 0 0 (- 1) 0) (matrix2 1 0 0 1) (vec2 False False) (vec2 True True) 1 1)"
    by (simp only: solve_loop_0 solve_loop_step [OF demo_steps(1) one_neq_zero]
        solve_loop_step [OF demo_steps(2) numeral_neq_zero] solve_loop_step [OF demo_steps(3) numeral_neq_zero]
        solve_loop_step [OF demo_steps(4) numeral_neq_zero] solve_loop_step [OF demo_steps(5) numeral_neq_zero]
        solve_loop_step [OF demo_steps(6) numeral_neq_zero] solve_loop_step [OF demo_steps(7) numeral_neq_zero]
        solve_loop_step [OF demo_steps(8) numeral_neq_zero])
  ultimately show ?thesis by (simp add: solve_def st2_def store_result_def demo_scores_def)
qed

text \<open>The matrix of scores when a blob overlaps the second of two tracks by one pixel more than the first.\<close>

lemma scoreMatrix_demo:
  "0 < matches b t1 \<Longrightarrow> matches b t2 = matches b t1 + 1 \<Longrightarrow> scoreMatrix [b] [t1, t2] = demo_scores"
  by (auto simp: scoreMatrix_def demo_scores_def maxScore_def fun_eq_iff less_Suc_eq nth_Cons')

lemma matchOf_demo:
  "matchOf (matrix2 0 (- 1) (- 1) 0) (Suc 0) 0 = Some 0" "matchOf (matrix2 0 (- 1) (- 1) 0) (Suc 0) (Suc 0) = None"
  by (simp_all add: matchOf_def)

lemma demo_matches: "matches (demo_blob y) (demo_track i x) = (if \<bar>x - y\<bar> < 10 then 10 - \<bar>x - y\<bar> else 0)"
  by (auto simp: matches_def demo_track_def BlobTrack_new_def demo_blob_def getLastMeasurement_def matchingArea_def
      overlappingAreaRect_def overlappingArea_def rect_area_def Let_def)

end
