(* ===== verification/Blob_Properties.thy ===== *)
theory Blob_Properties
  imports Blob_Sample
begin

text \<open>
  What the assignment algorithm, the blob tracker and the rectangles they rest on promise.
\<close>

section \<open>The assignment\<close>

text \<open>C26. The assignment algorithm returns for every matrix of costs, also with infinite and with negative
  ones, and for every shape: the zeros of the result are a complete assignment, which uses every row or every
  column and none of them twice.\<close>

theorem munkres_assigns_all:
  fixes m :: "'a::linordered_idom option Matrix"
  shows "\<exists>r. solve mat_default m = Some r \<and> m_rows r = m_rows m \<and> m_columns r = m_columns m \<and>
     complete_assignment (m_rows m) (m_columns m) (assigned r)"
  by (rule solve_complete)



section \<open>The tracker\<close>



text \<open>When a blob overlaps two tracks, the second by one pixel more, the tracker gives it to the first: the
  cost of the best score is one less than zero, and the algorithm stars the zeros only.\<close>

theorem tracker_prefers_worse_match:
  assumes "0 < matches b t1" and "matches b t2 = matches b t1 + 1"
  shows "matchBlobs serial [b] \<lparr>m_blobTracks = [t1, t2], m_idCounter = n\<rparr> =
    Some (Inr \<lparr>m_blobTracks = [addMeasurement b t1, notMatched serial t2], m_idCounter = n\<rparr>)"
proof -
  have "matchedBlobs (matrix2 0 (- 1) (- 1) 0) 2 (Suc 0) = [0]"
    by (simp add: matchedBlobs_def List.map_filter_def matchOf_demo)
  then show ?thesis
    by (simp add: matchBlobs_def Let_def scoreMatrix_demo [OF assms] demo_scores_solved updateTrack_def matchOf_demo
        flip: numeral_2_eq_2)
qed

theorem tracker_prefers_worse_match_witness:
  "matchBlobs 2 [demo_blob 1] demo_tracker =
    Some (Inr \<lparr>m_blobTracks = [addMeasurement (demo_blob 1) (demo_track 1 0), notMatched 2 (demo_track 2 1)],
               m_idCounter = 2\<rparr>)"
proof -
  have "0 < matches (demo_blob 1) (demo_track 1 0)"
    "matches (demo_blob 1) (demo_track 2 1) = matches (demo_blob 1) (demo_track 1 0) + 1"
    by (simp_all add: demo_matches)
  from tracker_prefers_worse_match [OF this] show ?thesis by (simp add: demo_tracker_def)
qed

section \<open>Rectangles\<close>

text \<open>The area that \<open>overlappingArea\<close> stores consists of the pixels that the two rectangles share, and the
  answer is 1 or 0: whether there are such pixels.\<close>

theorem overlappingArea_is_intersection:
  assumes "0 < r_width a" and "0 < r_height a" and "0 < r_width b" and "0 < r_height b"
  shows "fst (overlappingArea a b r) = (if rect_pixels a \<inter> rect_pixels b = {} then 0 else 1) \<and>
    (\<not> overlap a b \<longrightarrow> snd (overlappingArea a b r) = r) \<and>
    (overlap a b \<longleftrightarrow> rect_pixels a \<inter> rect_pixels b \<noteq> {}) \<and>
    (overlap a b \<longrightarrow> rect_pixels (snd (overlappingArea a b r)) = rect_pixels a \<inter> rect_pixels b)"
  using overlappingArea_pixels [OF assms] by (auto simp: overlappingArea_def overlap_def Let_def)

theorem overlappingArea_is_intersection_witness:
  "rect_pixels (snd (overlappingArea \<lparr>r_x = 0, r_y = 0, r_width = 10, r_height = 1\<rparr>
     \<lparr>r_x = 8, r_y = 0, r_width = 10, r_height = 1\<rparr> \<lparr>r_x = 0, r_y = 0, r_width = 0, r_height = 0\<rparr>)) = {8..<10} \<times> {0..<1}"
proof -
  have "overlap \<lparr>r_x = 0, r_y = 0, r_width = 10, r_height = 1\<rparr> \<lparr>r_x = 8, r_y = 0, r_width = 10, r_height = 1\<rparr>"
    by (simp add: overlap_def)
  with overlappingArea_is_intersection [of "\<lparr>r_x = 0, r_y = 0, r_width = 10, r_height = 1\<rparr>"
      "\<lparr>r_x = 8, r_y = 0, r_width = 10, r_height = 1\<rparr>" "\<lparr>r_x = 0, r_y = 0, r_width = 0, r_height = 0\<rparr>"]
  show ?thesis by (auto simp: rect_pixels_def)
qed

end
