(* ===== verification/Qt_Stream.thy ===== *)
theory Qt_Stream
  imports Plv_Prelude
begin

unbundle bit_operations_syntax

text \<open>
  What the network code uses of Qt's \<open>QDataStream\<close> on a socket: 32 bit integers in network byte order.  A read
  past the end of the data yields 0 and takes what is there; \<open>skipRawData\<close> of a negative number of bytes
  skips nothing.
\<close>

section \<open>Integers\<close>

type_synonym byte = "8 word"

definition put_u32 :: "u32 \<Rightarrow> byte list" where
  "put_u32 w = [ucast (drop_bit 24 w), ucast (drop_bit 16 w), ucast (drop_bit 8 w), ucast w]"

definition join_bytes :: "byte \<Rightarrow> byte \<Rightarrow> byte \<Rightarrow> byte \<Rightarrow> u32" where
  "join_bytes a b c d = push_bit 24 (ucast a) OR push_bit 16 (ucast b) OR push_bit 8 (ucast c) OR ucast d"

fun get_u32 :: "byte list \<Rightarrow> u32 \<times> byte list" where
  "get_u32 (a # b # c # d # bs) = (join_bytes a b c d, bs)"
| "get_u32 bs = (0, [])"

definition get_i32 :: "byte list \<Rightarrow> int \<times> byte list" where
  "get_i32 bs = (case get_u32 bs of (w, bs') \<Rightarrow> (sint w, bs'))"

definition skipRawData :: "int \<Rightarrow> byte list \<Rightarrow> byte list" where
  "skipRawData n bs = drop (nat n) bs"

section \<open>Round trips\<close>

lemma length_put_u32 [simp]: "length (put_u32 w) = 4"
  by (simp add: put_u32_def)

lemma join_put_u32:
  "join_bytes (ucast (drop_bit 24 w)) (ucast (drop_bit 16 w)) (ucast (drop_bit 8 w)) (ucast w) = w"
  (is "?l = w")
proof (rule bit_word_eqI)
  fix n assume n: "n < LENGTH(32)"
  consider "n < 8" | "8 \<le> n" "n < 16" | "16 \<le> n" "n < 24" | "24 \<le> n" by linarith
  then show "bit ?l n = bit w n"
    using n by cases (auto simp: join_bytes_def bit_simps)
qed

lemma get_put_u32 [simp]: "get_u32 (put_u32 w @ bs) = (w, bs)"
  by (simp add: put_u32_def join_put_u32)

lemma get_put_i32 [simp]: "get_i32 (put_u32 w @ bs) = (sint w, bs)"
  by (simp add: get_i32_def)

lemma get_u32_rest: "4 \<le> length bs \<Longrightarrow> snd (get_u32 bs) = drop 4 bs"
  by (cases bs rule: get_u32.cases) simp_all

lemma get_u32_length: "length (snd (get_u32 bs)) = length bs - 4"
  by (cases bs rule: get_u32.cases) simp_all

lemma get_u32_prefix: "4 \<le> length bs \<Longrightarrow> get_u32 bs = (fst (get_u32 (take 4 bs)), drop 4 bs)"
  by (cases bs rule: get_u32.cases) simp_all

text \<open>A size that fits into the signed integer it is read into.\<close>

lemma sint_of_size:
  assumes "n < 2 ^ 31"
  shows "sint (of_nat n :: u32) = int n"
  using assms by (simp add: signed_of_nat signed_take_bit_int_eq_self)

end
