(* ===== verification/Message_Reader.thy ===== *)
theory Message_Reader
  imports Qt_Stream
begin

text \<open>
  The contract of the two slots that read messages from a socket, \<open>TCPClientProducer::readData\<close> and
  \<open>ServerConnection::readyRead\<close>: a message is its size and a payload, the reader keeps the size of the message it
  waits for, and a socket delivers the bytes in chunks of any size.  The lemmas show that the chunks
  make no difference: the messages take effect one by one, each when its last byte has arrived.
\<close>

section \<open>Messages on the wire\<close>

definition wire :: "byte list \<Rightarrow> byte list" where
  "wire payload = put_u32 (of_nat (length payload)) @ payload"

lemma length_wire [simp]: "length (wire p) = 4 + length p"
  by (simp add: wire_def)

text \<open>
  The reader waits for a message of size \<open>n\<close> (0 when it does not know the size yet) and has the unread bytes
  \<open>bs\<close>; the messages \<open>ps\<close> are to come, of which the bytes \<open>rest\<close> have not arrived.
\<close>

definition awaiting :: "int \<Rightarrow> byte list \<Rightarrow> byte list list \<Rightarrow> byte list \<Rightarrow> bool" where
  "awaiting n bs ps rest \<longleftrightarrow>
     (if n = 0 then length bs < 4 \<and> bs @ rest = concat (map wire ps)
      else \<exists>p ps'. ps = p # ps' \<and> n = int (length p) \<and> length bs < length p \<and>
             bs @ rest = p @ concat (map wire ps'))"

lemma awaiting_start: "awaiting 0 [] ps (concat (map wire ps))"
  by (simp add: awaiting_def)

lemma awaiting_done:
  assumes "awaiting n bs ps []"
  shows "ps = [] \<and> n = 0 \<and> bs = []"
proof (cases "n = 0")
  case True
  with assms have "length bs < 4 \<and> bs = concat (map wire ps)" unfolding awaiting_def by auto
  then have "length (concat (map wire ps)) < 4" by blast
  then have "ps = []" by (cases ps) simp_all
  with assms True show ?thesis by (simp add: awaiting_def)
next
  case False
  with assms show ?thesis by (auto simp: awaiting_def)
qed

lemma awaiting_more:
  "awaiting n bs ps rest \<Longrightarrow> awaiting n bs (ps @ qs) (rest @ concat (map wire qs))"
  by (auto simp: awaiting_def simp flip: append_assoc split: if_splits)

lemma append_prefix_split:
  assumes "bs @ rest = p @ q" and "length p \<le> length bs"
  obtains bs1 where "bs = p @ bs1" and "bs1 @ rest = q"
  using assms by (auto simp: append_eq_append_conv2)

section \<open>The reader\<close>

text \<open>
  \<open>handle n bs s\<close> reads the opcode of a message of size \<open>n\<close> from \<open>bs\<close> and does what the message asks for;
  \<open>payload\<close> are the bytes of a message after its size, and \<open>effect\<close> is what it does to the state when it
  is well formed (\<open>ok\<close>) and the state accepts messages (\<open>ready\<close>).
\<close>

locale message_reader =
  fixes handle :: "int \<Rightarrow> byte list \<Rightarrow> 's \<Rightarrow> byte list \<times> 's"
    and loop :: "int \<Rightarrow> byte list \<Rightarrow> 's \<Rightarrow> (int \<times> byte list \<times> 's) option"
    and read :: "int \<Rightarrow> byte list \<Rightarrow> 's \<Rightarrow> (int \<times> byte list \<times> 's) option"
    and payload :: "'m \<Rightarrow> byte list" and effect :: "'m \<Rightarrow> 's \<Rightarrow> 's" and ok :: "'m \<Rightarrow> bool"
    and ready :: "'s \<Rightarrow> bool"
  assumes read_eq:
      "read n bs s =
         (if n = 0 then
            if length bs < 4 then Some (0, bs, s)
            else case get_i32 bs of (n', bs') \<Rightarrow>
              if int (length bs') < n' then Some (n', bs', s) else loop n' bs' s
          else if int (length bs) < n then Some (n, bs, s) else loop n bs s)"
    and loop_eq:
      "loop n bs s =
         (case handle n bs s of (bs1, s1) \<Rightarrow>
            if 4 \<le> length bs1 then
              case get_i32 bs1 of (n', bs2) \<Rightarrow>
                if int (length bs2) < n' then Some (n', bs2, s1) else loop n' bs2 s1
            else Some (0, bs1, s1))"
    and handle_ok: "ok m \<Longrightarrow> ready s \<Longrightarrow> handle (int (length (payload m))) (payload m @ bs) s = (bs, effect m s)"
    and effect_ready: "ok m \<Longrightarrow> ready s \<Longrightarrow> ready (effect m s)"
    and size_ok: "ok m \<Longrightarrow> 0 < length (payload m) \<and> length (payload m) < 2 ^ 31"
begin

lemma size_read:
  assumes "ok m"
  shows "get_i32 (wire (payload m) @ bs) = (int (length (payload m)), payload m @ bs)"
  using size_ok [OF assms] by (simp add: wire_def sint_of_size)

lemma wire_split:
  assumes "bs @ rest = wire (payload m) @ q" and "ok m" and "4 \<le> length bs"
  obtains bs2 where "get_i32 bs = (int (length (payload m)), bs2)" and "bs2 @ rest = payload m @ q"
proof -
  have "bs @ rest = put_u32 (of_nat (length (payload m))) @ payload m @ q" using assms(1) by (simp add: wire_def)
  from append_prefix_split [OF this] assms(3) obtain bs2
    where "bs = put_u32 (of_nat (length (payload m))) @ bs2" "bs2 @ rest = payload m @ q" by auto
  with that size_ok [OF assms(2)] show ?thesis by (simp add: sint_of_size)
qed

lemma loop_after:
  assumes "ok m" and "ready s"
  shows "loop (int (length (payload m))) (payload m @ bs1) s =
    (if 4 \<le> length bs1 then
       case get_i32 bs1 of (n', bs2) \<Rightarrow>
         if int (length bs2) < n' then Some (n', bs2, effect m s) else loop n' bs2 (effect m s)
     else Some (0, bs1, effect m s))"
  by (subst loop_eq) (simp add: handle_ok [OF assms])

lemma loop_messages:
  assumes "ok m" and "\<forall>m' \<in> set ms. ok m'" and "ready s" and "length (payload m) \<le> length bs"
    and "bs @ rest = payload m @ concat (map wire (map payload ms))"
  shows "\<exists>ms1 ms2 n' bs'. ms = ms1 @ ms2 \<and>
    loop (int (length (payload m))) bs s = Some (n', bs', fold effect (m # ms1) s) \<and>
    awaiting n' bs' (map payload ms2) rest"
  using assms
proof (induction ms arbitrary: m bs s)
  case Nil
  then obtain bs1 where bs1: "bs = payload m @ bs1" "bs1 @ rest = []"
    using append_prefix_split [of bs rest "payload m" "[]"] by auto
  with Nil(1,3) have "loop (int (length (payload m))) bs s = Some (0, [], effect m s)"
    using loop_after [of m s "[]"] by simp
  with bs1(2) show ?case by (simp add: awaiting_def)
next
  case (Cons m' ms)
  obtain bs1 where bs1: "bs = payload m @ bs1" "bs1 @ rest = wire (payload m') @ concat (map wire (map payload ms))"
    by (rule append_prefix_split [OF Cons.prems(5,4)]) simp
  have ok': "ok m'" "\<forall>m \<in> set ms. ok m" using Cons.prems(2) by simp_all
  show ?case
  proof (cases "4 \<le> length bs1")
    case False
    then have "loop (int (length (payload m))) bs s = Some (0, bs1, effect m s)"
      using Cons.prems(1,3) bs1(1) by (simp add: loop_after)
    moreover have "awaiting 0 bs1 (map payload (m' # ms)) rest" using False bs1(2) by (simp add: awaiting_def)
    ultimately show ?thesis by (intro exI [of _ "[]"] exI [of _ "m' # ms"]) simp
  next
    case True
    obtain bs2 where bs2: "get_i32 bs1 = (int (length (payload m')), bs2)"
      "bs2 @ rest = payload m' @ concat (map wire (map payload ms))"
      using wire_split [OF bs1(2) ok'(1) True] by blast
    have l: "loop (int (length (payload m))) bs s =
        (if int (length bs2) < int (length (payload m')) then Some (int (length (payload m')), bs2, effect m s)
         else loop (int (length (payload m'))) bs2 (effect m s))"
      using Cons.prems(1,3) bs1(1) True bs2(1) by (simp add: loop_after)
    show ?thesis
    proof (cases "length bs2 < length (payload m')")
      case True
      then have "awaiting (int (length (payload m'))) bs2 (map payload (m' # ms)) rest"
        using bs2(2) by (auto simp: awaiting_def)
      with l True show ?thesis by (intro exI [of _ "[]"] exI [of _ "m' # ms"]) simp
    next
      case False
      with Cons.IH [OF ok' effect_ready [OF Cons.prems(1,3)] _ bs2(2)] obtain ms1 ms2 n' bs' where
        "ms = ms1 @ ms2" "loop (int (length (payload m'))) bs2 (effect m s) = Some (n', bs', fold effect (m' # ms1) (effect m s))"
        "awaiting n' bs' (map payload ms2) rest" by auto
      with l False show ?thesis by (intro exI [of _ "m' # ms1"] exI [of _ ms2]) simp
    qed
  qed
qed

text \<open>A chunk completes some of the messages.\<close>

lemma read_chunk:
  assumes "\<forall>m \<in> set ms. ok m" and "awaiting n bs (map payload ms) (chunk @ rest)" and "ready s"
  shows "\<exists>ms1 ms2 n' bs'. ms = ms1 @ ms2 \<and> read n (bs @ chunk) s = Some (n', bs', fold effect ms1 s) \<and>
    awaiting n' bs' (map payload ms2) rest"
proof (cases "n = 0")
  case True
  with assms(2) have bs: "(bs @ chunk) @ rest = concat (map wire (map payload ms))" by (simp add: awaiting_def)
  show ?thesis
  proof (cases "length (bs @ chunk) < 4")
    case True
    with bs \<open>n = 0\<close> show ?thesis
      by (intro exI [of _ "[]"] exI [of _ ms]) (simp add: read_eq awaiting_def)
  next
    case False
    then obtain m ms' where ms: "ms = m # ms'" using bs by (cases ms) auto
    then have ok: "ok m" "\<forall>m \<in> set ms'. ok m" using assms(1) by simp_all
    obtain bs2 where bs2: "get_i32 (bs @ chunk) = (int (length (payload m)), bs2)"
      "bs2 @ rest = payload m @ concat (map wire (map payload ms'))"
      using wire_split [of "bs @ chunk" rest m] bs ok(1) False ms by auto
    show ?thesis
    proof (cases "length bs2 < length (payload m)")
      case True
      then have "awaiting (int (length (payload m))) bs2 (map payload ms) rest"
        using bs2(2) ms by (auto simp: awaiting_def)
      with \<open>n = 0\<close> False bs2(1) True show ?thesis
        by (intro exI [of _ "[]"] exI [of _ ms]) (simp add: read_eq)
    next
      case F: False
      then obtain ms1 ms2 n' bs' where "ms' = ms1 @ ms2"
        "loop (int (length (payload m))) bs2 s = Some (n', bs', fold effect (m # ms1) s)"
        "awaiting n' bs' (map payload ms2) rest"
        using loop_messages [OF ok assms(3) _ bs2(2)] by auto
      with \<open>n = 0\<close> False bs2(1) F ms show ?thesis
        by (intro exI [of _ "m # ms1"] exI [of _ ms2]) (simp add: read_eq)
    qed
  qed
next
  case n: False
  with assms(2) obtain m ms' where m: "ms = m # ms'" "n = int (length (payload m))" "length bs < length (payload m)"
    "(bs @ chunk) @ rest = payload m @ concat (map wire (map payload ms'))"
    by (auto simp: awaiting_def)
  show ?thesis
  proof (cases "length (bs @ chunk) < length (payload m)")
    case True
    with m have "awaiting n (bs @ chunk) (map payload ms) rest" using n by (auto simp: awaiting_def)
    moreover have "read n (bs @ chunk) s = Some (n, bs @ chunk, s)" using True m n by (simp add: read_eq)
    ultimately show ?thesis by (intro exI [of _ "[]"] exI [of _ ms]) simp
  next
    case False
    with loop_messages [of m ms' s "bs @ chunk" rest] m(1,4) assms(1,3) obtain ms1 ms2 n' bs' where "ms' = ms1 @ ms2"
      "loop (int (length (payload m))) (bs @ chunk) s = Some (n', bs', fold effect (m # ms1) s)"
      "awaiting n' bs' (map payload ms2) rest" by auto
    with False m n show ?thesis
      by (intro exI [of _ "m # ms1"] exI [of _ ms2]) (simp add: read_eq)
  qed
qed

end

end
