(* ===== verification/Server_Connection.thy ===== *)
theory Server_Connection
  imports Message_Reader
begin

text \<open>
  The server's end of a connection (\<open>ServerConnection.cpp\<close>): frames wait in a queue, are written to the socket
  while fewer than \<open>m_maxFramesInFlight\<close> are unacknowledged, and are dropped or throttle the server when the
  queue is full.

  Of the socket the model has the bytes that have arrived and are unread (\<open>sc_in\<close>) and those that were written and
  have not arrived at the other end (\<open>sc_out\<close>).  How many bytes of a write the socket accepts is the parameter
  \<open>accept\<close>, a function of the bytes under way and the new ones; its value is -1 for an error.
  \<open>sc_scheduled\<close> counts the calls of \<open>sendData\<close> that wait in the event loop, \<open>sc_signals\<close> are the values of
  \<open>waitingOnClient\<close> that were emitted.
\<close>

section \<open>Model\<close>

abbreviation (input) PROTO_FRAME :: u32 where "PROTO_FRAME \<equiv> 0"
abbreviation (input) PROTO_INIT :: u32 where "PROTO_INIT \<equiv> 1"
abbreviation (input) PROTO_ACK :: u32 where "PROTO_ACK \<equiv> 3"

record Frame =
  f_serial :: u32
  f_bytes :: "byte list"
  f_sent :: nat

record ServerConnection =
  sc_open :: bool
  sc_connected :: bool
  sc_in :: "byte list"
  sc_out :: "byte list"
  m_waiting :: bool
  m_lossless :: bool
  m_maxFramesInQueue :: int
  m_maxFramesInFlight :: int
  m_blockSize :: int
  m_frameNumbersInFlight :: "u32 list"
  m_frameQueue :: "Frame list"
  sc_signals :: "bool list"
  sc_scheduled :: nat

definition ServerConnection_new :: "bool \<Rightarrow> int \<Rightarrow> int \<Rightarrow> ServerConnection" where
  "ServerConnection_new lossless maxFrameQueue maxFramesInFlight =
     \<lparr>sc_open = False, sc_connected = False, sc_in = [], sc_out = [], m_waiting = False, m_lossless = lossless,
      m_maxFramesInQueue = maxFrameQueue, m_maxFramesInFlight = maxFramesInFlight, m_blockSize = 0,
      m_frameNumbersInFlight = [], m_frameQueue = [], sc_signals = [], sc_scheduled = 0\<rparr>"

text \<open>\<open>ok\<close> tells whether the socket descriptor could be used.\<close>

definition sc_start :: "bool \<Rightarrow> ServerConnection \<Rightarrow> plv_exn + ServerConnection" where
  "sc_start ok c =
     (if sc_open c then Inl AssertFailed else Inr (c\<lparr>sc_open := True, sc_connected := ok\<rparr>))"

definition sc_disconnected :: "ServerConnection \<Rightarrow> ServerConnection" where
  "sc_disconnected c = c\<lparr>sc_open := False, sc_connected := False, sc_in := []\<rparr>"

type_synonym accept = "byte list \<Rightarrow> byte list \<Rightarrow> int"

definition socketWrite :: "accept \<Rightarrow> byte list \<Rightarrow> ServerConnection \<Rightarrow> int \<times> ServerConnection" where
  "socketWrite accept bs c = (accept (sc_out c) bs, c\<lparr>sc_out := sc_out c @ take (nat (accept (sc_out c) bs)) bs\<rparr>)"

text \<open>What the loop does with the first frame: whether the write failed, and the new state.\<close>

definition sendFirst :: "accept \<Rightarrow> Frame \<Rightarrow> ServerConnection \<Rightarrow> bool \<times> ServerConnection" where
  "sendFirst accept f c =
     (if f_sent f = 0 then
        case socketWrite accept (f_bytes f) c of (bytesSent, c1) \<Rightarrow>
          if bytesSent < int (length (f_bytes f)) then
            if bytesSent \<noteq> - 1 then (False, c1\<lparr>m_frameQueue := f\<lparr>f_sent := nat bytesSent\<rparr> # tl (m_frameQueue c1)\<rparr>)
            else (True, c1)
          else (False, c1\<lparr>m_frameNumbersInFlight := m_frameNumbersInFlight c1 @ [f_serial f],
                          m_frameQueue := tl (m_frameQueue c1)\<rparr>)
      else
        let len = int (length (f_bytes f)) - int (f_sent f) in
        case socketWrite accept (drop (f_sent f) (f_bytes f)) c of (bytesSent, c1) \<Rightarrow>
          if bytesSent < len then
            if bytesSent \<noteq> - 1
            then (False, c1\<lparr>m_frameQueue := f\<lparr>f_sent := f_sent f + nat bytesSent\<rparr> # tl (m_frameQueue c1)\<rparr>)
            else (True, c1)
          else (False, c1\<lparr>m_frameNumbersInFlight := m_frameNumbersInFlight c1 @ [f_serial f],
                          m_frameQueue := tl (m_frameQueue c1)\<rparr>))"

text \<open>A socket that accepts no byte and reports no error makes the loop run for ever.\<close>

partial_function (option) sendLoop :: "accept \<Rightarrow> ServerConnection \<Rightarrow> ServerConnection option" where
  "sendLoop accept c =
     (if int (length (m_frameNumbersInFlight c)) \<ge> m_maxFramesInFlight c \<or> m_frameQueue c = [] then Some c
      else case sendFirst accept (hd (m_frameQueue c)) c of (overflow, c1) \<Rightarrow>
        if overflow then Some (c1\<lparr>m_waiting := True, sc_signals := sc_signals c1 @ [True]\<rparr>)
        else sendLoop accept c1)"

declare sendLoop.simps [code]

definition sendData :: "accept \<Rightarrow> ServerConnection \<Rightarrow> ServerConnection option" where
  "sendData accept c =
     (if \<not> sc_open c \<or> \<not> sc_connected c then Some c
      else if m_waiting c then Some c
      else sendLoop accept c)"

text \<open>The second half of \<open>queueFrame\<close>: throttling or dropping.\<close>

definition checkQueue :: "ServerConnection \<Rightarrow> ServerConnection" where
  "checkQueue c =
     (if int (length (m_frameQueue c)) > m_maxFramesInQueue c then
        if m_lossless c then
          if \<not> m_waiting c then c\<lparr>m_waiting := True, sc_signals := sc_signals c @ [True]\<rparr> else c
        else c\<lparr>m_frameQueue := tl (m_frameQueue c)\<rparr>
      else c)"

definition queueFrame :: "accept \<Rightarrow> u32 \<Rightarrow> byte list \<Rightarrow> ServerConnection \<Rightarrow> ServerConnection option" where
  "queueFrame accept frameNumber frameData c =
     (if \<not> sc_open c then Some c
      else
        let c1 = c\<lparr>m_frameQueue := m_frameQueue c @ [\<lparr>f_serial = frameNumber, f_bytes = frameData, f_sent = 0\<rparr>]\<rparr> in
        map_option (\<lambda>c2. let c3 = checkQueue c2 in c3\<lparr>sc_scheduled := sc_scheduled c3 + 1\<rparr>)
          (if int (length (m_frameNumbersInFlight c1)) < m_maxFramesInFlight c1 then sendData accept c1 else Some c1))"

definition ackFrame :: "u32 \<Rightarrow> ServerConnection \<Rightarrow> ServerConnection" where
  "ackFrame serial c =
     (case m_frameNumbersInFlight c of
        [] \<Rightarrow> c
      | expectedSerial # fs \<Rightarrow>
          let c1 = (if expectedSerial = serial then c\<lparr>m_frameNumbersInFlight := fs\<rparr> else c) in
          if m_lossless c1 \<and> m_waiting c1
          then c1\<lparr>m_waiting := False, sc_signals := sc_signals c1 @ [False]\<rparr> else c1)"

text \<open>The subtraction from an \<open>int\<close> is made in an unsigned type and converted back.\<close>

definition int32 :: "int \<Rightarrow> int" where
  "int32 i = sint (word_of_int i :: u32)"

definition serverMessage :: "int \<Rightarrow> byte list \<Rightarrow> ServerConnection \<Rightarrow> byte list \<times> ServerConnection" where
  "serverMessage blockSize bs c =
     (case get_u32 bs of (opcode, bs1) \<Rightarrow>
        if opcode = PROTO_ACK then case get_u32 bs1 of (serial, bs2) \<Rightarrow> (bs2, ackFrame serial c)
        else (skipRawData (int32 (blockSize - 4)) bs1, c))"

partial_function (option) serverLoop ::
    "int \<Rightarrow> byte list \<Rightarrow> ServerConnection \<Rightarrow> (int \<times> byte list \<times> ServerConnection) option" where
  "serverLoop blockSize bs c =
     (case serverMessage blockSize bs c of (bs1, c1) \<Rightarrow>
        if 4 \<le> length bs1 then
          case get_i32 bs1 of (blockSize', bs2) \<Rightarrow>
            if int (length bs2) < blockSize' then Some (blockSize', bs2, c1) else serverLoop blockSize' bs2 c1
        else Some (0, bs1, c1))"

declare serverLoop.simps [code]

definition serverRead :: "int \<Rightarrow> byte list \<Rightarrow> ServerConnection \<Rightarrow> (int \<times> byte list \<times> ServerConnection) option" where
  "serverRead blockSize bs c =
     (if blockSize = 0 then
        if length bs < 4 then Some (0, bs, c)
        else case get_i32 bs of (blockSize', bs') \<Rightarrow>
          if int (length bs') < blockSize' then Some (blockSize', bs', c) else serverLoop blockSize' bs' c
      else if int (length bs) < blockSize then Some (blockSize, bs, c) else serverLoop blockSize bs c)"

definition readyRead :: "ServerConnection \<Rightarrow> ServerConnection option" where
  "readyRead c =
     map_option (\<lambda>(blockSize, bs, c'). c'\<lparr>m_blockSize := blockSize, sc_in := bs\<rparr>)
       (serverRead (m_blockSize c) (sc_in c) c)"

definition setMaxFrameQueue :: "int \<Rightarrow> ServerConnection \<Rightarrow> ServerConnection" where
  "setMaxFrameQueue mx c = c\<lparr>m_maxFramesInQueue := mx\<rparr>"

definition setMaxFramesInFlight :: "int \<Rightarrow> ServerConnection \<Rightarrow> ServerConnection" where
  "setMaxFramesInFlight mx c = c\<lparr>m_maxFramesInFlight := mx\<rparr>"

definition setLossless :: "bool \<Rightarrow> ServerConnection \<Rightarrow> ServerConnection" where
  "setLossless l c = c\<lparr>m_lossless := l\<rparr>"

section \<open>Sending\<close>

lemma sendFirst_fields:
  assumes "sendFirst accept f c = (ov, c')"
  shows "m_maxFramesInFlight c' = m_maxFramesInFlight c" "m_maxFramesInQueue c' = m_maxFramesInQueue c"
    "m_lossless c' = m_lossless c" "m_waiting c' = m_waiting c" "sc_open c' = sc_open c"
    "sc_connected c' = sc_connected c" "sc_in c' = sc_in c" "m_blockSize c' = m_blockSize c"
    "sc_scheduled c' = sc_scheduled c" "sc_signals c' = sc_signals c"
  using assms by (auto simp: sendFirst_def socketWrite_def Let_def split: if_splits)

text \<open>A socket that takes all the bytes of a write, as one with an unbounded buffer does.\<close>

definition accepts_all :: "accept \<Rightarrow> bool" where
  "accepts_all accept \<longleftrightarrow> (\<forall>out bs. accept out bs = int (length bs))"

lemma sendFirst_all:
  assumes "accepts_all accept" and "f_sent f = 0"
  shows "sendFirst accept f c = (False, c\<lparr>sc_out := sc_out c @ f_bytes f,
    m_frameNumbersInFlight := m_frameNumbersInFlight c @ [f_serial f], m_frameQueue := tl (m_frameQueue c)\<rparr>)"
  using assms by (simp add: sendFirst_def socketWrite_def accepts_all_def)

text \<open>On such a socket the loop sends frames until the limit is reached or the queue is empty.\<close>

definition sendable :: "ServerConnection \<Rightarrow> nat" where
  "sendable c = min (length (m_frameQueue c)) (nat (m_maxFramesInFlight c - int (length (m_frameNumbersInFlight c))))"

lemma sendLoop_all:
  assumes "accepts_all accept" and "\<forall>f \<in> set (m_frameQueue c). f_sent f = 0"
  shows "sendLoop accept c = Some (c\<lparr>sc_out := sc_out c @ concat (map f_bytes (take (sendable c) (m_frameQueue c))),
    m_frameNumbersInFlight := m_frameNumbersInFlight c @ map f_serial (take (sendable c) (m_frameQueue c)),
    m_frameQueue := drop (sendable c) (m_frameQueue c)\<rparr>)"
  using assms(2)
proof (induction "m_frameQueue c" arbitrary: c)
  case Nil
  then show ?case by (simp add: sendLoop.simps [of accept c] sendable_def)
next
  case (Cons f fs)
  let ?c = "c\<lparr>sc_out := sc_out c @ f_bytes f, m_frameNumbersInFlight := m_frameNumbersInFlight c @ [f_serial f],
    m_frameQueue := tl (m_frameQueue c)\<rparr>"
  have q: "m_frameQueue c = f # fs" using Cons.hyps(2) by simp
  show ?case
  proof (cases "int (length (m_frameNumbersInFlight c)) \<ge> m_maxFramesInFlight c")
    case True
    then have "sendable c = 0" by (simp add: sendable_def)
    with True show ?thesis by (simp add: sendLoop.simps [of accept c])
  next
    case False
    then have "sendable c = Suc (sendable ?c)" using q by (auto simp: sendable_def)
    moreover have "sendLoop accept c = sendLoop accept ?c"
      using False q sendFirst_all [OF assms(1), of f c] Cons.prems by (simp add: sendLoop.simps [of accept c])
    ultimately show ?thesis using Cons.hyps(1) [of ?c] Cons.prems q by simp
  qed
qed

section \<open>Acknowledgements\<close>

definition ack_payload :: "u32 \<Rightarrow> byte list" where
  "ack_payload serial = put_u32 PROTO_ACK @ put_u32 serial"

interpretation acks: message_reader serverMessage serverLoop serverRead ack_payload ackFrame "\<lambda>_. True" "\<lambda>_. True"
proof
  show "serverRead n bs s =
      (if n = 0 then
         if length bs < 4 then Some (0, bs, s)
         else case get_i32 bs of (n', bs') \<Rightarrow>
           if int (length bs') < n' then Some (n', bs', s) else serverLoop n' bs' s
       else if int (length bs) < n then Some (n, bs, s) else serverLoop n bs s)" for n bs s
    by (rule serverRead_def)
  show "serverLoop n bs s =
      (case serverMessage n bs s of (bs1, s1) \<Rightarrow>
         if 4 \<le> length bs1 then
           case get_i32 bs1 of (n', bs2) \<Rightarrow>
             if int (length bs2) < n' then Some (n', bs2, s1) else serverLoop n' bs2 s1
         else Some (0, bs1, s1))" for n bs s
    by (rule serverLoop.simps)
qed (simp_all add: ack_payload_def serverMessage_def)

lemma length_ack_payload [simp]: "length (ack_payload s) = 8"
  by (simp add: ack_payload_def)

end
