(* ===== verification/Tcp_Client.thy ===== *)
theory Tcp_Client
  imports Server_Connection
begin

text \<open>
  The client's end (\<open>TCPClientProducer.cpp\<close>) and the message that the server sends for a frame
  (\<open>TCPServerProcessor::process\<close>).

  How Qt writes a variant to a stream and reads one is the pair of parameters \<open>put\<close> and \<open>get\<close>: \<open>get\<close> yields
  \<open>None\<close> for an invalid variant.  \<open>variant_codec\<close> states that \<open>get\<close> reads back what \<open>put\<close> writes.
  Of the socket the client has the unread bytes (\<open>cl_in\<close>) and those written that have not arrived (\<open>cl_out\<close>).
\<close>

section \<open>The message of a frame\<close>

definition variant_codec :: "('v \<Rightarrow> byte list) \<Rightarrow> (byte list \<Rightarrow> 'v option \<times> byte list) \<Rightarrow> bool" where
  "variant_codec put get \<longleftrightarrow> (\<forall>v bs. get (put v @ bs) = (Some v, bs))"

record 'v server_pin =
  sp_connected :: bool
  sp_typeId :: int
  sp_variant :: 'v

text \<open>The variants of the connected pins; \<open>toImage\<close> is the conversion of a matrix to a \<open>QImage\<close>.\<close>

definition frameData :: "('v \<Rightarrow> 'v) \<Rightarrow> int \<Rightarrow> bool \<Rightarrow> 'v server_pin list \<Rightarrow> 'v list" where
  "frameData toImage cvMatDataTypeId convert pins =
     map (\<lambda>p. if sp_typeId p = cvMatDataTypeId \<and> convert then toImage (sp_variant p) else sp_variant p)
       (filter sp_connected pins)"

definition frameBlock :: "('v \<Rightarrow> byte list) \<Rightarrow> u32 \<Rightarrow> 'v list \<Rightarrow> byte list" where
  "frameBlock put frameNumber args =
     (let block = put_u32 0 @ put_u32 PROTO_FRAME @ put_u32 frameNumber @ put_u32 (of_nat (length args)) @
                    concat (map put args)
      in put_u32 (of_nat (length block - 4)) @ drop 4 block)"

section \<open>The client\<close>

record 'v TCPClientProducer =
  cl_in :: "byte list"
  cl_out :: "byte list"
  cl_blockSize :: int
  m_configured :: bool
  m_frameList :: "'v list list"

definition TCPClientProducer_new :: "'v TCPClientProducer" where
  "TCPClientProducer_new =
     \<lparr>cl_in = [], cl_out = [], cl_blockSize = 0, m_configured = True, m_frameList = []\<rparr>"

text \<open>A failed write is only reported.\<close>

definition clientAck :: "accept \<Rightarrow> u32 \<Rightarrow> 'v TCPClientProducer \<Rightarrow> 'v TCPClientProducer" where
  "clientAck accept frameNumber c =
     (let bytes = put_u32 8 @ put_u32 PROTO_ACK @ put_u32 frameNumber
      in c\<lparr>cl_out := cl_out c @ take (nat (accept (cl_out c) bytes)) bytes\<rparr>)"

fun parseArgs :: "(byte list \<Rightarrow> 'v option \<times> byte list) \<Rightarrow> nat \<Rightarrow> 'v list \<Rightarrow> byte list \<Rightarrow> 'v list option \<times> byte list" where
  "parseArgs get 0 frame bs = (Some frame, bs)"
| "parseArgs get (Suc n) frame bs =
     (case get bs of
        (None, bs') \<Rightarrow> (None, bs')
      | (Some v, bs') \<Rightarrow> parseArgs get n (frame @ [v]) bs')"

definition parseFrame ::
    "accept \<Rightarrow> (byte list \<Rightarrow> 'v option \<times> byte list) \<Rightarrow> int \<Rightarrow> byte list \<Rightarrow> 'v TCPClientProducer \<Rightarrow>
     bool \<times> byte list \<times> 'v TCPClientProducer" where
  "parseFrame accept get blockSize bs c =
     (case get_u32 bs of (serial, bs1) \<Rightarrow> case get_u32 bs1 of (numargs, bs2) \<Rightarrow>
        if numargs < 1 then (False, skipRawData (int32 (blockSize - 8)) bs2, c)
        else
          case parseArgs get (unat numargs) [] bs2 of
            (None, bs3) \<Rightarrow> (False, bs3, c)
          | (Some frame, bs3) \<Rightarrow>
              let c1 = clientAck accept serial c in (True, bs3, c1\<lparr>m_frameList := m_frameList c1 @ [frame]\<rparr>))"

definition clientMessage ::
    "accept \<Rightarrow> (byte list \<Rightarrow> 'v option \<times> byte list) \<Rightarrow> int \<Rightarrow> byte list \<Rightarrow> 'v TCPClientProducer \<Rightarrow>
     byte list \<times> 'v TCPClientProducer" where
  "clientMessage accept get blockSize bs c =
     (case get_u32 bs of (opcode, bs1) \<Rightarrow>
        if opcode = PROTO_INIT then (bs1, c)
        else if opcode = PROTO_FRAME then
          if m_configured c then snd (parseFrame accept get blockSize bs1 c) else (bs1, c)
        else (skipRawData (int32 (blockSize - 4)) bs1, c))"

partial_function (option) clientLoop ::
    "accept \<Rightarrow> (byte list \<Rightarrow> 'v option \<times> byte list) \<Rightarrow> int \<Rightarrow> byte list \<Rightarrow> 'v TCPClientProducer \<Rightarrow>
     (int \<times> byte list \<times> 'v TCPClientProducer) option" where
  "clientLoop accept get blockSize bs c =
     (case clientMessage accept get blockSize bs c of (bs1, c1) \<Rightarrow>
        if 4 \<le> length bs1 then
          case get_i32 bs1 of (blockSize', bs2) \<Rightarrow>
            if int (length bs2) < blockSize' then Some (blockSize', bs2, c1)
            else clientLoop accept get blockSize' bs2 c1
        else Some (0, bs1, c1))"

declare clientLoop.simps [code]

definition clientRead ::
    "accept \<Rightarrow> (byte list \<Rightarrow> 'v option \<times> byte list) \<Rightarrow> int \<Rightarrow> byte list \<Rightarrow> 'v TCPClientProducer \<Rightarrow>
     (int \<times> byte list \<times> 'v TCPClientProducer) option" where
  "clientRead accept get blockSize bs c =
     (if blockSize = 0 then
        if length bs < 4 then Some (0, bs, c)
        else case get_i32 bs of (blockSize', bs') \<Rightarrow>
          if int (length bs') < blockSize' then Some (blockSize', bs', c)
          else clientLoop accept get blockSize' bs' c
      else if int (length bs) < blockSize then Some (blockSize, bs, c)
      else clientLoop accept get blockSize bs c)"

text \<open>A client that is not configured would read the size of the message only.\<close>

definition readData ::
    "accept \<Rightarrow> (byte list \<Rightarrow> 'v option \<times> byte list) \<Rightarrow> 'v TCPClientProducer \<Rightarrow> 'v TCPClientProducer option" where
  "readData accept get c =
     (if \<not> m_configured c then
        Some (if cl_blockSize c = 0 \<and> 4 \<le> length (cl_in c)
              then case get_i32 (cl_in c) of (blockSize, bs) \<Rightarrow> c\<lparr>cl_blockSize := blockSize, cl_in := bs\<rparr>
              else c)
      else
        map_option (\<lambda>(blockSize, bs, c'). c'\<lparr>cl_blockSize := blockSize, cl_in := bs\<rparr>)
          (clientRead accept get (cl_blockSize c) (cl_in c) c))"

text \<open>Bytes that are left in the socket are skipped, and only then the size is forgotten.\<close>

definition client_disconnected :: "'v TCPClientProducer \<Rightarrow> 'v TCPClientProducer" where
  "client_disconnected c = (if cl_in c \<noteq> [] then c\<lparr>cl_in := [], cl_blockSize := 0\<rparr> else c)"

section \<open>Frames\<close>

definition frame_payload :: "('v \<Rightarrow> byte list) \<Rightarrow> u32 \<times> 'v list \<Rightarrow> byte list" where
  "frame_payload put m =
     put_u32 PROTO_FRAME @ put_u32 (fst m) @ put_u32 (of_nat (length (snd m))) @ concat (map put (snd m))"

lemma frameBlock_wire: "frameBlock put n args = wire (frame_payload put (n, args))"
  by (simp add: frameBlock_def wire_def frame_payload_def)

text \<open>A frame that fits: it has an argument, and its size can be held by an \<open>int\<close>.\<close>

definition good_frame :: "('v \<Rightarrow> byte list) \<Rightarrow> u32 \<times> 'v list \<Rightarrow> bool" where
  "good_frame put m \<longleftrightarrow>
     snd m \<noteq> [] \<and> length (snd m) < 2 ^ 32 \<and> length (frame_payload put m) < 2 ^ 31"

lemma parseArgs_put:
  "variant_codec put get \<Longrightarrow>
    parseArgs get (length args) frame (concat (map put args) @ bs) = (Some (frame @ args), bs)"
  by (induction args arbitrary: frame) (simp_all add: variant_codec_def)

definition receive :: "u32 \<times> 'v list \<Rightarrow> 'v TCPClientProducer \<Rightarrow> 'v TCPClientProducer" where
  "receive m c = c\<lparr>cl_out := cl_out c @ wire (ack_payload (fst m)), m_frameList := m_frameList c @ [snd m]\<rparr>"

lemma clientAck_all: "accepts_all accept \<Longrightarrow> clientAck accept n c = c\<lparr>cl_out := cl_out c @ wire (ack_payload n)\<rparr>"
  by (simp add: clientAck_def accepts_all_def wire_def ack_payload_def Let_def)

lemma unat_length: "n < 2 ^ 32 \<Longrightarrow> unat (of_nat n :: u32) = n"
  by (simp add: unat_of_nat)

lemma clientMessage_frame:
  assumes "variant_codec put get" and "accepts_all accept" and "good_frame put m" and "m_configured c"
  shows "clientMessage accept get n (frame_payload put m @ bs) c = (bs, receive m c)"
proof -
  have "\<not> (of_nat (length (snd m)) :: u32) < 1"
    using assms(3) unat_length [of "length (snd m)"] by (auto simp: good_frame_def word_less_nat_alt)
  then show ?thesis
    using assms parseArgs_put [OF assms(1), of "snd m" "[]" bs]
    by (simp add: clientMessage_def frame_payload_def parseFrame_def good_frame_def unat_length Let_def
        clientAck_all receive_def)
qed

text \<open>The client is a reader of frames; a frame takes effect when the parameters are as documented.\<close>

interpretation frames: message_reader "clientMessage accept get" "clientLoop accept get" "clientRead accept get"
  "frame_payload put" receive
  "\<lambda>m. variant_codec put get \<and> accepts_all accept \<and> good_frame put m" m_configured
  for accept :: accept and get :: "byte list \<Rightarrow> 'v option \<times> byte list" and put :: "'v \<Rightarrow> byte list"
proof
  show "clientRead accept get n bs s =
      (if n = 0 then
         if length bs < 4 then Some (0, bs, s)
         else case get_i32 bs of (n', bs') \<Rightarrow>
           if int (length bs') < n' then Some (n', bs', s) else clientLoop accept get n' bs' s
       else if int (length bs) < n then Some (n, bs, s) else clientLoop accept get n bs s)" for n bs s
    by (rule clientRead_def)
  show "clientLoop accept get n bs s =
      (case clientMessage accept get n bs s of (bs1, s1) \<Rightarrow>
         if 4 \<le> length bs1 then
           case get_i32 bs1 of (n', bs2) \<Rightarrow>
             if int (length bs2) < n' then Some (n', bs2, s1) else clientLoop accept get n' bs2 s1
         else Some (0, bs1, s1))" for n bs s
    by (rule clientLoop.simps)
  show "clientMessage accept get (int (length (frame_payload put m))) (frame_payload put m @ bs) s = (bs, receive m s)"
    if "variant_codec put get \<and> accepts_all accept \<and> good_frame put m" "m_configured s" for m bs s
    using that by (simp add: clientMessage_frame)
qed (auto simp: good_frame_def frame_payload_def receive_def)

end
