(* ===== verification/Tcp_Link.thy ===== *)
theory Tcp_Link
  imports Tcp_Client "HOL-Library.Sublist"
begin

text \<open>
  A server's connection and a client together: the bytes that one end wrote arrive at the other in chunks of
  any size, in any interleaving with new frames and with the calls of \<open>sendData\<close> in the event loop.
\<close>

section \<open>The link\<close>

text \<open>\<open>lk_queued\<close> and \<open>lk_taken\<close> record the frames given to \<open>queueFrame\<close> and those taken by \<open>produce\<close>.\<close>

record 'v link =
  lk_server :: ServerConnection
  lk_client :: "'v TCPClientProducer"
  lk_queued :: "(u32 \<times> 'v list) list"
  lk_taken :: "'v list list"

definition link_start :: "bool \<Rightarrow> int \<Rightarrow> int \<Rightarrow> 'v link" where
  "link_start lossless maxFrameQueue maxFramesInFlight =
     \<lparr>lk_server = (ServerConnection_new lossless maxFrameQueue maxFramesInFlight)\<lparr>sc_open := True, sc_connected := True\<rparr>,
      lk_client = TCPClientProducer_new, lk_queued = [], lk_taken = []\<rparr>"

inductive link_step ::
    "accept \<Rightarrow> ('v \<Rightarrow> byte list) \<Rightarrow> (byte list \<Rightarrow> 'v option \<times> byte list) \<Rightarrow> 'v link \<Rightarrow> 'v link \<Rightarrow> bool"
  for accept :: accept and put :: "'v \<Rightarrow> byte list" and get :: "byte list \<Rightarrow> 'v option \<times> byte list" where
  queue: "good_frame put m \<Longrightarrow> queueFrame accept (fst m) (frameBlock put (fst m) (snd m)) (lk_server l) = Some s \<Longrightarrow>
    link_step accept put get l (l\<lparr>lk_queued := lk_queued l @ [m], lk_server := s\<rparr>)"
| send: "0 < sc_scheduled (lk_server l) \<Longrightarrow>
    sendData accept ((lk_server l)\<lparr>sc_scheduled := sc_scheduled (lk_server l) - 1\<rparr>) = Some s \<Longrightarrow>
    link_step accept put get l (l\<lparr>lk_server := s\<rparr>)"
| down: "sc_out (lk_server l) = chunk @ rest \<Longrightarrow>
    readData accept get ((lk_client l)\<lparr>cl_in := cl_in (lk_client l) @ chunk\<rparr>) = Some c \<Longrightarrow>
    link_step accept put get l (l\<lparr>lk_server := (lk_server l)\<lparr>sc_out := rest\<rparr>, lk_client := c\<rparr>)"
| up: "cl_out (lk_client l) = chunk @ rest \<Longrightarrow>
    readyRead ((lk_server l)\<lparr>sc_in := sc_in (lk_server l) @ chunk\<rparr>) = Some s \<Longrightarrow>
    link_step accept put get l (l\<lparr>lk_server := s, lk_client := (lk_client l)\<lparr>cl_out := rest\<rparr>\<rparr>)"
| take_frame: "m_frameList (lk_client l) = f # fs \<Longrightarrow>
    link_step accept put get l
      (l\<lparr>lk_client := (lk_client l)\<lparr>m_frameList := fs\<rparr>, lk_taken := lk_taken l @ [f]\<rparr>)"

section \<open>The operations of the server on a socket that takes everything\<close>

definition sent_frames :: "nat \<Rightarrow> ServerConnection \<Rightarrow> ServerConnection" where
  "sent_frames k c = c\<lparr>sc_out := sc_out c @ concat (map f_bytes (take k (m_frameQueue c))),
     m_frameNumbersInFlight := m_frameNumbersInFlight c @ map f_serial (take k (m_frameQueue c)),
     m_frameQueue := drop k (m_frameQueue c)\<rparr>"

lemma sent_frames_fields [simp]:
  "sc_open (sent_frames k c) = sc_open c" "sc_connected (sent_frames k c) = sc_connected c"
  "sc_in (sent_frames k c) = sc_in c" "m_waiting (sent_frames k c) = m_waiting c"
  "m_lossless (sent_frames k c) = m_lossless c" "m_maxFramesInQueue (sent_frames k c) = m_maxFramesInQueue c"
  "m_maxFramesInFlight (sent_frames k c) = m_maxFramesInFlight c" "m_blockSize (sent_frames k c) = m_blockSize c"
  "sc_out (sent_frames k c) = sc_out c @ concat (map f_bytes (take k (m_frameQueue c)))"
  "m_frameNumbersInFlight (sent_frames k c) = m_frameNumbersInFlight c @ map f_serial (take k (m_frameQueue c))"
  "m_frameQueue (sent_frames k c) = drop k (m_frameQueue c)"
  by (simp_all add: sent_frames_def)

lemma sendData_all:
  assumes "accepts_all accept" and "\<forall>f \<in> set (m_frameQueue c). f_sent f = 0" and "sc_open c" and "sc_connected c"
  shows "sendData accept c = Some (sent_frames (if m_waiting c then 0 else sendable c) c)"
  using sendLoop_all [OF assms(1,2)] assms(3,4) by (simp add: sendData_def sent_frames_def)

definition appended :: "u32 \<Rightarrow> byte list \<Rightarrow> ServerConnection \<Rightarrow> ServerConnection" where
  "appended n bs c = c\<lparr>m_frameQueue := m_frameQueue c @ [\<lparr>f_serial = n, f_bytes = bs, f_sent = 0\<rparr>]\<rparr>"

lemma appended_fields [simp]:
  "sc_open (appended n bs c) = sc_open c" "sc_connected (appended n bs c) = sc_connected c"
  "sc_in (appended n bs c) = sc_in c" "sc_out (appended n bs c) = sc_out c"
  "m_waiting (appended n bs c) = m_waiting c" "m_lossless (appended n bs c) = m_lossless c"
  "m_maxFramesInQueue (appended n bs c) = m_maxFramesInQueue c"
  "m_maxFramesInFlight (appended n bs c) = m_maxFramesInFlight c" "m_blockSize (appended n bs c) = m_blockSize c"
  "m_frameNumbersInFlight (appended n bs c) = m_frameNumbersInFlight c"
  "m_frameQueue (appended n bs c) = m_frameQueue c @ [\<lparr>f_serial = n, f_bytes = bs, f_sent = 0\<rparr>]"
  by (simp_all add: appended_def)

lemma queueFrame_all:
  assumes "accepts_all accept" and "\<forall>f \<in> set (m_frameQueue c). f_sent f = 0" and "sc_open c" and "sc_connected c"
  shows "\<exists>n. queueFrame accept i bs c = Some ((checkQueue (sent_frames
    (if m_waiting c then 0 else sendable (appended i bs c)) (appended i bs c)))\<lparr>sc_scheduled := n\<rparr>)"
proof (cases "int (length (m_frameNumbersInFlight c)) < m_maxFramesInFlight c")
  case True
  have "\<forall>f \<in> set (m_frameQueue (appended i bs c)). f_sent f = 0" using assms(2) by simp
  from sendData_all [OF assms(1) this] assms(3,4) True show ?thesis
    by (auto simp: queueFrame_def Let_def simp flip: appended_def)
next
  case False
  then have "sendable (appended i bs c) = 0" by (simp add: sendable_def)
  moreover have "sent_frames 0 (appended i bs c) = appended i bs c" by (simp add: sent_frames_def)
  ultimately show ?thesis
    using False assms(3) by (auto simp: queueFrame_def Let_def simp flip: appended_def)
qed

section \<open>The limits of the server\<close>

definition limits :: "ServerConnection \<Rightarrow> bool" where
  "limits s \<longleftrightarrow>
     1 \<le> m_maxFramesInFlight s \<and> 0 \<le> m_maxFramesInQueue s \<and>
     int (length (m_frameNumbersInFlight s)) \<le> m_maxFramesInFlight s \<and>
     (m_waiting s \<longrightarrow> m_lossless s \<and> m_frameNumbersInFlight s \<noteq> []) \<and>
     (\<not> m_lossless s \<longrightarrow> int (length (m_frameQueue s)) \<le> m_maxFramesInQueue s)"

lemma sent_in_flight:
  assumes "int (length (m_frameNumbersInFlight s)) \<le> m_maxFramesInFlight s" and "k \<le> sendable s"
  shows "int (length (m_frameNumbersInFlight (sent_frames k s))) \<le> m_maxFramesInFlight s"
proof -
  have "k \<le> nat (m_maxFramesInFlight s - int (length (m_frameNumbersInFlight s)))"
    using assms(2) by (simp add: sendable_def)
  with assms(1) have "int (length (m_frameNumbersInFlight s)) + int k \<le> m_maxFramesInFlight s" by linarith
  moreover have "length (take k (m_frameQueue s)) \<le> k" by simp
  ultimately show ?thesis unfolding sent_frames_fields by (simp only: length_append length_map of_nat_add)
qed

lemma limits_sent:
  assumes "limits s" and "k \<le> sendable s"
  shows "limits (sent_frames k s)"
proof -
  have "int (length (m_frameNumbersInFlight (sent_frames k s))) \<le> m_maxFramesInFlight s"
    using assms by (intro sent_in_flight) (simp_all add: limits_def)
  moreover have "\<not> m_lossless s \<longrightarrow> int (length (m_frameQueue (sent_frames k s))) \<le> m_maxFramesInQueue s"
  proof
    assume "\<not> m_lossless s"
    moreover have "length (m_frameQueue (sent_frames k s)) \<le> length (m_frameQueue s)" by simp
    ultimately show "int (length (m_frameQueue (sent_frames k s))) \<le> m_maxFramesInQueue s"
      using assms(1) unfolding limits_def by linarith
  qed
  moreover have "m_waiting s \<longrightarrow> m_lossless s \<and> m_frameNumbersInFlight (sent_frames k s) \<noteq> []"
    using assms(1) by (simp add: limits_def)
  ultimately show ?thesis using assms(1) unfolding limits_def by (simp only: sent_frames_fields simp_thms)
qed

text \<open>After a frame was queued one more than the limit can be in the queue, before \<open>checkQueue\<close>.\<close>

lemma limits_check:
  assumes "1 \<le> m_maxFramesInFlight s" and "0 \<le> m_maxFramesInQueue s"
    and "int (length (m_frameNumbersInFlight s)) \<le> m_maxFramesInFlight s"
    and "m_frameNumbersInFlight s \<noteq> []" and "m_waiting s \<longrightarrow> m_lossless s"
    and "\<not> m_lossless s \<longrightarrow> int (length (m_frameQueue s)) \<le> m_maxFramesInQueue s + 1"
  shows "limits (checkQueue s)"
proof (cases "m_lossless s")
  case True
  with assms show ?thesis by (simp add: limits_def checkQueue_def)
next
  case False
  then have "int (length (m_frameQueue s)) - 1 \<le> m_maxFramesInQueue s" using assms(6) by simp
  then have "int (length (tl (m_frameQueue s))) \<le> m_maxFramesInQueue s" using assms(2) by simp
  with assms False show ?thesis by (simp add: limits_def checkQueue_def)
qed

lemma limits_queue:
  assumes "limits s"
  shows "limits (checkQueue (sent_frames (if m_waiting s then 0 else sendable (appended i bs s)) (appended i bs s)))"
    (is "limits (checkQueue (sent_frames ?k ?a))")
proof (rule limits_check)
  show "int (length (m_frameNumbersInFlight (sent_frames ?k ?a))) \<le> m_maxFramesInFlight (sent_frames ?k ?a)"
    unfolding sent_frames_fields(7) using assms by (intro sent_in_flight) (simp_all add: limits_def)
  show "m_frameNumbersInFlight (sent_frames ?k ?a) \<noteq> []"
  proof (cases "m_frameNumbersInFlight s = []")
    case True
    with assms have "\<not> m_waiting s" "0 < sendable ?a" by (auto simp: limits_def sendable_def)
    then show ?thesis by simp
  qed simp
  show "\<not> m_lossless (sent_frames ?k ?a) \<longrightarrow>
      int (length (m_frameQueue (sent_frames ?k ?a))) \<le> m_maxFramesInQueue (sent_frames ?k ?a) + 1"
  proof
    assume "\<not> m_lossless (sent_frames ?k ?a)"
    then have "int (length (m_frameQueue s)) \<le> m_maxFramesInQueue s" using assms by (simp add: limits_def)
    moreover have "length (m_frameQueue (sent_frames ?k ?a)) \<le> length (m_frameQueue s) + 1"
      unfolding sent_frames_fields appended_fields by (simp only: length_drop length_append) simp
    ultimately show "int (length (m_frameQueue (sent_frames ?k ?a))) \<le> m_maxFramesInQueue (sent_frames ?k ?a) + 1"
      unfolding sent_frames_fields(6) appended_fields(7) by linarith
  qed
qed (use assms in \<open>simp_all add: limits_def\<close>)

lemma limits_ack: "limits s \<Longrightarrow> limits (ackFrame i s)"
  by (auto simp: limits_def ackFrame_def Let_def split: list.splits)

section \<open>The invariant of the link\<close>

definition queued_frame :: "('v \<Rightarrow> byte list) \<Rightarrow> u32 \<times> 'v list \<Rightarrow> Frame" where
  "queued_frame put m = \<lparr>f_serial = fst m, f_bytes = wire (frame_payload put m), f_sent = 0\<rparr>"

lemma queued_frame_fields [simp]:
  "f_serial (queued_frame put m) = fst m" "f_bytes (queued_frame put m) = wire (frame_payload put m)"
  "f_sent (queued_frame put m) = 0"
  by (simp_all add: queued_frame_def)

text \<open>
  The frames that were sent are in three groups: acknowledged (\<open>as\<close>), received with the acknowledgement under way
  (\<open>bs\<close>) and under way to the client (\<open>cs\<close>); \<open>qs\<close> wait in the queue.
\<close>

definition link_state ::
    "('v \<Rightarrow> byte list) \<Rightarrow> (u32 \<times> 'v list) list \<Rightarrow> (u32 \<times> 'v list) list \<Rightarrow> (u32 \<times> 'v list) list \<Rightarrow>
     (u32 \<times> 'v list) list \<Rightarrow> 'v link \<Rightarrow> bool" where
  "link_state put as bs cs qs l \<longleftrightarrow>
     sc_open (lk_server l) \<and> sc_connected (lk_server l) \<and> m_configured (lk_client l) \<and>
     lk_taken l @ m_frameList (lk_client l) = map snd (as @ bs) \<and>
     m_frameNumbersInFlight (lk_server l) = map fst (bs @ cs) \<and>
     m_frameQueue (lk_server l) = map (queued_frame put) qs \<and>
     list_all (good_frame put) (as @ bs @ cs @ qs) \<and>
     awaiting (cl_blockSize (lk_client l)) (cl_in (lk_client l)) (map (frame_payload put) cs) (sc_out (lk_server l)) \<and>
     awaiting (m_blockSize (lk_server l)) (sc_in (lk_server l)) (map ack_payload (map fst bs)) (cl_out (lk_client l)) \<and>
     subseq (as @ bs @ cs @ qs) (lk_queued l) \<and>
     (m_lossless (lk_server l) \<longrightarrow> as @ bs @ cs @ qs = lk_queued l)"

definition link_inv :: "('v \<Rightarrow> byte list) \<Rightarrow> 'v link \<Rightarrow> bool" where
  "link_inv put l \<longleftrightarrow> limits (lk_server l) \<and> (\<exists>as bs cs qs. link_state put as bs cs qs l)"

lemma link_invI: "link_state put as bs cs qs l \<Longrightarrow> limits (lk_server l) \<Longrightarrow> link_inv put l"
  by (auto simp: link_inv_def)

lemma link_start_inv:
  "0 \<le> mq \<Longrightarrow> 1 \<le> mf \<Longrightarrow> link_inv put (link_start lossless mq mf)"
  by (rule link_invI [of _ "[]" "[]" "[]" "[]"])
    (simp_all add: link_state_def limits_def link_start_def ServerConnection_new_def TCPClientProducer_new_def
      awaiting_def)

text \<open>Sending moves frames from the queue to the ones under way.\<close>

lemma link_state_sent:
  assumes "link_state put as bs cs qs l"
  shows "link_state put as bs (cs @ take k qs) (drop k qs) (l\<lparr>lk_server := sent_frames k (lk_server l)\<rparr>)"
proof -
  have q: "take k (m_frameQueue (lk_server l)) = map (queued_frame put) (take k qs)"
    "drop k (m_frameQueue (lk_server l)) = map (queued_frame put) (drop k qs)"
    using assms by (simp_all add: link_state_def take_map drop_map)
  have "concat (map f_bytes (map (queued_frame put) (take k qs))) = concat (map wire (map (frame_payload put) (take k qs)))"
    by (simp add: comp_def)
  then have "awaiting (cl_blockSize (lk_client l)) (cl_in (lk_client l)) (map (frame_payload put) (cs @ take k qs))
      (sc_out (lk_server l) @ concat (map f_bytes (take k (m_frameQueue (lk_server l)))))"
    using assms awaiting_more [of "cl_blockSize (lk_client l)" "cl_in (lk_client l)" "map (frame_payload put) cs"
        "sc_out (lk_server l)" "map (frame_payload put) (take k qs)"]
    unfolding q map_append by (simp add: link_state_def)
  moreover have "map f_serial (map (queued_frame put) (take k qs)) = map fst (take k qs)" by (simp add: comp_def)
  moreover have "as @ bs @ (cs @ take k qs) @ drop k qs = as @ bs @ cs @ qs" by simp
  ultimately show ?thesis using assms unfolding link_state_def by (simp add: take_map drop_map comp_def)
qed

lemma link_state_append:
  assumes "link_state put as bs cs qs l" and "good_frame put m"
  shows "link_state put as bs cs (qs @ [m])
    (l\<lparr>lk_queued := lk_queued l @ [m], lk_server := appended (fst m) (frameBlock put (fst m) (snd m)) (lk_server l)\<rparr>)"
proof -
  have "subseq (as @ bs @ cs @ qs) (lk_queued l)" using assms(1) by (simp add: link_state_def)
  then have "subseq ((as @ bs @ cs @ qs) @ [m]) (lk_queued l @ [m])" by (intro list_emb_append_mono) simp_all
  then show ?thesis using assms by (simp add: link_state_def queued_frame_def frameBlock_wire)
qed

lemma link_state_fields:
  assumes "link_state put as bs cs qs l"
    and "sc_open s = sc_open (lk_server l)" "sc_connected s = sc_connected (lk_server l)"
    "sc_in s = sc_in (lk_server l)" "sc_out s = sc_out (lk_server l)" "m_lossless s = m_lossless (lk_server l)"
    "m_blockSize s = m_blockSize (lk_server l)" "m_frameNumbersInFlight s = m_frameNumbersInFlight (lk_server l)"
    "m_frameQueue s = m_frameQueue (lk_server l)"
  shows "link_state put as bs cs qs (l\<lparr>lk_server := s\<rparr>)"
  using assms by (simp add: link_state_def)

lemma link_state_drop:
  assumes "link_state put as bs cs qs l" and "\<not> m_lossless (lk_server l)"
  shows "link_state put as bs cs (tl qs) (l\<lparr>lk_server := (lk_server l)\<lparr>m_frameQueue := tl (m_frameQueue (lk_server l))\<rparr>\<rparr>)"
proof -
  have "subseq (as @ bs @ cs @ tl qs) (as @ bs @ cs @ qs)"
    by (intro list_emb_append_mono subseq_order.refl) (cases qs, simp_all add: list_emb_Cons)
  then have "subseq (as @ bs @ cs @ tl qs) (lk_queued l)"
    using assms(1) by (meson link_state_def subseq_order.trans)
  moreover have "list_all (good_frame put) (tl qs)" using assms(1) by (cases qs) (simp_all add: link_state_def)
  ultimately show ?thesis using assms by (simp add: link_state_def map_tl)
qed

lemma link_state_check:
  assumes "link_state put as bs cs qs l"
  shows "\<exists>qs'. link_state put as bs cs qs' (l\<lparr>lk_server := checkQueue (lk_server l)\<rparr>)"
proof (cases "\<not> m_lossless (lk_server l) \<and> int (length (m_frameQueue (lk_server l))) > m_maxFramesInQueue (lk_server l)")
  case True
  with link_state_drop [OF assms] show ?thesis by (auto simp: checkQueue_def)
next
  case False
  have "link_state put as bs cs qs (l\<lparr>lk_server := checkQueue (lk_server l)\<rparr>)"
    using False by (intro link_state_fields [OF assms]) (auto simp: checkQueue_def)
  then show ?thesis by blast
qed

lemma ackFrame_hit:
  "m_frameNumbersInFlight s = x # ys \<Longrightarrow>
    ackFrame x s = s\<lparr>m_frameNumbersInFlight := ys, m_waiting := m_waiting s \<and> \<not> m_lossless s,
      sc_signals := (if m_lossless s \<and> m_waiting s then sc_signals s @ [False] else sc_signals s)\<rparr>"
  by (cases s) (auto simp: ackFrame_def Let_def)

lemma fold_ackFrame_shape:
  "m_frameNumbersInFlight s = xs @ ys \<Longrightarrow>
    \<exists>w sg. fold ackFrame xs s = s\<lparr>m_frameNumbersInFlight := ys, m_waiting := w, sc_signals := sg\<rparr>"
proof (induction xs arbitrary: s)
  case Nil
  then have "fold ackFrame [] s = s\<lparr>m_frameNumbersInFlight := ys, m_waiting := m_waiting s, sc_signals := sc_signals s\<rparr>"
    by simp
  then show ?case by blast
next
  case (Cons x xs)
  then have "m_frameNumbersInFlight s = x # xs @ ys" by simp
  note s = ackFrame_hit [OF this]
  show ?case using Cons.IH [of "ackFrame x s"] by (simp add: s)
qed

lemma fold_ackFrame:
  assumes "m_frameNumbersInFlight s = xs @ ys"
  shows "m_frameNumbersInFlight (fold ackFrame xs s) = ys" "sc_open (fold ackFrame xs s) = sc_open s"
    "sc_connected (fold ackFrame xs s) = sc_connected s" "sc_in (fold ackFrame xs s) = sc_in s"
    "sc_out (fold ackFrame xs s) = sc_out s" "m_lossless (fold ackFrame xs s) = m_lossless s"
    "m_frameQueue (fold ackFrame xs s) = m_frameQueue s" "sc_scheduled (fold ackFrame xs s) = sc_scheduled s"
  using fold_ackFrame_shape [OF assms] by auto

lemma limits_acks: "limits s \<Longrightarrow> limits (fold ackFrame xs s)"
  by (induction xs arbitrary: s) (simp_all add: limits_ack)

lemma fold_receive:
  "m_configured (fold receive ms c) = m_configured c" "cl_in (fold receive ms c) = cl_in c"
  "m_frameList (fold receive ms c) = m_frameList c @ map snd ms"
  "cl_out (fold receive ms c) = cl_out c @ concat (map wire (map ack_payload (map fst ms)))"
  by (induction ms arbitrary: c) (simp_all add: receive_def)

text \<open>A chunk arrives at the client.\<close>

lemma readData_chunk:
  assumes "variant_codec put get" and "accepts_all accept" and "m_configured c"
    and "list_all (good_frame put) cs"
    and "awaiting (cl_blockSize c) (cl_in c) (map (frame_payload put) cs) (chunk @ rest)"
  obtains cs1 cs2 n bs where "cs = cs1 @ cs2"
    "readData accept get (c\<lparr>cl_in := cl_in c @ chunk\<rparr>) =
       Some ((fold receive cs1 (c\<lparr>cl_in := cl_in c @ chunk\<rparr>))\<lparr>cl_blockSize := n, cl_in := bs\<rparr>)"
    "awaiting n bs (map (frame_payload put) cs2) rest"
proof -
  have "\<forall>m \<in> set cs. variant_codec put get \<and> accepts_all accept \<and> good_frame put m"
    using assms by (simp add: list_all_iff)
  moreover have "m_configured (c\<lparr>cl_in := cl_in c @ chunk\<rparr>)" using assms(3) by simp
  ultimately obtain cs1 cs2 n bs where "cs = cs1 @ cs2"
    "clientRead accept get (cl_blockSize c) (cl_in c @ chunk) (c\<lparr>cl_in := cl_in c @ chunk\<rparr>) =
       Some (n, bs, fold receive cs1 (c\<lparr>cl_in := cl_in c @ chunk\<rparr>))"
    "awaiting n bs (map (frame_payload put) cs2) rest"
    using frames.read_chunk [OF _ assms(5)] by metis
  with that assms(3) show ?thesis by (simp add: readData_def)
qed

text \<open>A chunk arrives at the server.\<close>

lemma readyRead_chunk:
  assumes "awaiting (m_blockSize s) (sc_in s) (map ack_payload xs) (chunk @ rest)"
  obtains xs1 xs2 n bs where "xs = xs1 @ xs2"
    "readyRead (s\<lparr>sc_in := sc_in s @ chunk\<rparr>) =
       Some ((fold ackFrame xs1 (s\<lparr>sc_in := sc_in s @ chunk\<rparr>))\<lparr>m_blockSize := n, sc_in := bs\<rparr>)"
    "awaiting n bs (map ack_payload xs2) rest"
proof -
  obtain xs1 xs2 n bs where "xs = xs1 @ xs2"
    "serverRead (m_blockSize s) (sc_in s @ chunk) (s\<lparr>sc_in := sc_in s @ chunk\<rparr>) =
       Some (n, bs, fold ackFrame xs1 (s\<lparr>sc_in := sc_in s @ chunk\<rparr>))"
    "awaiting n bs (map ack_payload xs2) rest"
    using acks.read_chunk [OF _ assms] by metis
  with that show ?thesis by (simp add: readyRead_def)
qed

lemma map_append_split:
  assumes "map f zs = xs1 @ xs2"
  obtains zs1 zs2 where "zs = zs1 @ zs2" "xs1 = map f zs1" "xs2 = map f zs2"
  using assms by (metis map_eq_append_conv)

section \<open>Every step keeps the invariant\<close>

lemma inv_queue:
  assumes "link_inv put l" and "accepts_all accept" and "good_frame put m"
    and "queueFrame accept (fst m) (frameBlock put (fst m) (snd m)) (lk_server l) = Some s"
  shows "link_inv put (l\<lparr>lk_queued := lk_queued l @ [m], lk_server := s\<rparr>)"
proof -
  from assms(1) obtain as bs cs qs where st: "link_state put as bs cs qs l" and lim: "limits (lk_server l)"
    by (auto simp: link_inv_def)
  let ?bs = "frameBlock put (fst m) (snd m)"
  define k where "k = (if m_waiting (lk_server l) then 0 else sendable (appended (fst m) ?bs (lk_server l)))"
  have "sc_open (lk_server l)" "sc_connected (lk_server l)" "\<forall>f \<in> set (m_frameQueue (lk_server l)). f_sent f = 0"
    using st by (auto simp: link_state_def)
  then obtain n where s: "s = (checkQueue (sent_frames k (appended (fst m) ?bs (lk_server l))))\<lparr>sc_scheduled := n\<rparr>"
    using queueFrame_all [OF assms(2), of "lk_server l" "fst m" ?bs] assms(4) by (auto simp: k_def)
  obtain qs' where "link_state put as bs (cs @ take k (qs @ [m])) qs'
      (l\<lparr>lk_queued := lk_queued l @ [m], lk_server := checkQueue (sent_frames k (appended (fst m) ?bs (lk_server l)))\<rparr>)"
    using link_state_check [OF link_state_sent [OF link_state_append [OF st assms(3)], of k]] by auto
  from link_state_fields [OF this, of s]
  have "link_state put as bs (cs @ take k (qs @ [m])) qs' (l\<lparr>lk_queued := lk_queued l @ [m], lk_server := s\<rparr>)"
    by (simp add: s)
  moreover have "limits s"
    using limits_queue [OF lim, of "fst m" ?bs] by (simp add: s k_def limits_def)
  ultimately show ?thesis by (intro link_invI) simp_all
qed

lemma inv_send:
  assumes "link_inv put l" and "accepts_all accept"
    and "sendData accept ((lk_server l)\<lparr>sc_scheduled := n\<rparr>) = Some s"
  shows "link_inv put (l\<lparr>lk_server := s\<rparr>)"
proof -
  let ?s = "(lk_server l)\<lparr>sc_scheduled := n\<rparr>"
  from assms(1) obtain as bs cs qs where st: "link_state put as bs cs qs l" and lim: "limits (lk_server l)"
    by (auto simp: link_inv_def)
  define k where "k = (if m_waiting ?s then 0 else sendable ?s)"
  have "sc_open ?s" "sc_connected ?s" "\<forall>f \<in> set (m_frameQueue ?s). f_sent f = 0"
    using st by (auto simp: link_state_def)
  then have s: "s = sent_frames k ?s"
    using sendData_all [OF assms(2), of ?s] assms(3) by (simp add: k_def)
  have "link_state put as bs cs qs (l\<lparr>lk_server := ?s\<rparr>)"
    by (rule link_state_fields [OF st]) simp_all
  from link_state_sent [OF this, of k] have "link_state put as bs (cs @ take k qs) (drop k qs) (l\<lparr>lk_server := s\<rparr>)"
    by (simp add: s)
  moreover have "limits s" unfolding s using lim by (intro limits_sent) (simp_all add: limits_def k_def)
  ultimately show ?thesis by (intro link_invI) simp_all
qed

lemma state_down:
  assumes "link_state put as bs cs qs l" and "variant_codec put get" and "accepts_all accept"
    and "sc_out (lk_server l) = chunk @ rest"
  obtains cs1 cs2 c where "cs = cs1 @ cs2"
    "readData accept get ((lk_client l)\<lparr>cl_in := cl_in (lk_client l) @ chunk\<rparr>) = Some c"
    "link_state put as (bs @ cs1) cs2 qs (l\<lparr>lk_server := (lk_server l)\<lparr>sc_out := rest\<rparr>, lk_client := c\<rparr>)"
proof -
  note st = assms(1) [unfolded link_state_def]
  have "m_configured (lk_client l)" "list_all (good_frame put) cs"
    "awaiting (cl_blockSize (lk_client l)) (cl_in (lk_client l)) (map (frame_payload put) cs) (chunk @ rest)"
    using st assms(4) by simp_all
  then obtain cs1 cs2 n bs' where r: "cs = cs1 @ cs2"
    "readData accept get ((lk_client l)\<lparr>cl_in := cl_in (lk_client l) @ chunk\<rparr>) =
       Some ((fold receive cs1 ((lk_client l)\<lparr>cl_in := cl_in (lk_client l) @ chunk\<rparr>))\<lparr>cl_blockSize := n, cl_in := bs'\<rparr>)"
    "awaiting n bs' (map (frame_payload put) cs2) rest"
    by (rule readData_chunk [OF assms(2,3)])
  have "awaiting (m_blockSize (lk_server l)) (sc_in (lk_server l))
      (map ack_payload (map fst bs) @ map ack_payload (map fst cs1))
      (cl_out (lk_client l) @ concat (map wire (map ack_payload (map fst cs1))))"
    using st by (intro awaiting_more) simp
  with st r show ?thesis
    by (intro that [OF r(1,2)]) (simp add: link_state_def fold_receive)
qed

lemma state_up:
  assumes "link_state put as bs cs qs l" and "limits (lk_server l)" and "cl_out (lk_client l) = chunk @ rest"
  obtains bs1 bs2 s where "bs = bs1 @ bs2"
    "readyRead ((lk_server l)\<lparr>sc_in := sc_in (lk_server l) @ chunk\<rparr>) = Some s"
    "link_state put (as @ bs1) bs2 cs qs (l\<lparr>lk_server := s, lk_client := (lk_client l)\<lparr>cl_out := rest\<rparr>\<rparr>)"
    "limits s" "sc_scheduled s = sc_scheduled (lk_server l)"
proof -
  note st = assms(1) [unfolded link_state_def]
  have "awaiting (m_blockSize (lk_server l)) (sc_in (lk_server l)) (map ack_payload (map fst bs)) (chunk @ rest)"
    using st assms(3) by simp
  then obtain xs1 xs2 n bs' where r: "map fst bs = xs1 @ xs2"
    "readyRead ((lk_server l)\<lparr>sc_in := sc_in (lk_server l) @ chunk\<rparr>) =
       Some ((fold ackFrame xs1 ((lk_server l)\<lparr>sc_in := sc_in (lk_server l) @ chunk\<rparr>))\<lparr>m_blockSize := n, sc_in := bs'\<rparr>)"
    "awaiting n bs' (map ack_payload xs2) rest"
    by (rule readyRead_chunk)
  obtain bs1 bs2 where b: "bs = bs1 @ bs2" "xs1 = map fst bs1" "xs2 = map fst bs2"
    using map_append_split [OF r(1)] by metis
  let ?s = "(lk_server l)\<lparr>sc_in := sc_in (lk_server l) @ chunk\<rparr>"
  have "m_frameNumbersInFlight ?s = xs1 @ map fst (bs2 @ cs)" using st b by simp
  note f = fold_ackFrame [OF this]
  have "limits ?s" using assms(2) by (simp add: limits_def)
  then have "limits (fold ackFrame xs1 ?s)" by (rule limits_acks)
  then have lim: "limits ((fold ackFrame xs1 ?s)\<lparr>m_blockSize := n, sc_in := bs'\<rparr>)" by (simp add: limits_def)
  show ?thesis
    by (rule that [OF b(1) r(2) _ lim]) (use st r(3) f b in \<open>simp_all add: link_state_def\<close>)
qed

lemma inv_step:
  assumes "link_step accept put get l l'" and "link_inv put l" and "variant_codec put get" and "accepts_all accept"
  shows "link_inv put l'"
  using assms(1)
proof cases
  case queue
  then show ?thesis using inv_queue [OF assms(2,4)] by simp
next
  case send
  then show ?thesis using inv_send [OF assms(2,4)] by simp
next
  case (down chunk rest c)
  obtain as bs cs qs where st: "link_state put as bs cs qs l" and lim: "limits (lk_server l)"
    using assms(2) by (auto simp: link_inv_def)
  obtain cs1 cs2 c' where "readData accept get ((lk_client l)\<lparr>cl_in := cl_in (lk_client l) @ chunk\<rparr>) = Some c'"
    "link_state put as (bs @ cs1) cs2 qs (l\<lparr>lk_server := (lk_server l)\<lparr>sc_out := rest\<rparr>, lk_client := c'\<rparr>)"
    by (rule state_down [OF st assms(3,4) down(2)])
  then have "link_state put as (bs @ cs1) cs2 qs l'" using down(3) unfolding down(1) by simp
  moreover have "limits (lk_server l')" unfolding down(1) using lim by (simp add: limits_def)
  ultimately show ?thesis by (rule link_invI)
next
  case (up chunk rest s)
  obtain as bs cs qs where st: "link_state put as bs cs qs l" and lim: "limits (lk_server l)"
    using assms(2) by (auto simp: link_inv_def)
  obtain bs1 bs2 s' where "readyRead ((lk_server l)\<lparr>sc_in := sc_in (lk_server l) @ chunk\<rparr>) = Some s'"
    "link_state put (as @ bs1) bs2 cs qs (l\<lparr>lk_server := s', lk_client := (lk_client l)\<lparr>cl_out := rest\<rparr>\<rparr>)"
    "limits s'"
    by (rule state_up [OF st lim up(2)])
  then have "link_state put (as @ bs1) bs2 cs qs l'" "limits (lk_server l')" using up(3) unfolding up(1) by simp_all
  then show ?thesis by (rule link_invI)
next
  case (take_frame f fs)
  obtain as bs cs qs where st: "link_state put as bs cs qs l" and lim: "limits (lk_server l)"
    using assms(2) by (auto simp: link_inv_def)
  have "link_state put as bs cs qs l'" using st take_frame(2) unfolding link_state_def take_frame(1) by simp
  then show ?thesis using lim unfolding take_frame(1) by (intro link_invI) simp_all
qed

lemma inv_reachable:
  assumes "(link_step accept put get)\<^sup>*\<^sup>* (link_start lossless mq mf) l"
    and "0 \<le> mq" and "1 \<le> mf" and "variant_codec put get" and "accepts_all accept"
  shows "link_inv put l"
  using assms(1)
proof (induction rule: rtranclp_induct)
  case base
  show ?case using assms(2,3) by (rule link_start_inv)
next
  case (step l l')
  then show ?case using inv_step assms(4,5) by blast
qed

section \<open>Delivering what is under way\<close>

text \<open>When all bytes have been delivered, first to the client and then to the server, nothing is in flight.\<close>

lemma drain:
  assumes "link_state put as bs cs qs l" and "limits (lk_server l)" and "variant_codec put get" and "accepts_all accept"
  shows "\<exists>l'. (\<lambda>l l'. link_step accept put get l l' \<and> lk_queued l' = lk_queued l)\<^sup>*\<^sup>* l l' \<and>
    link_state put (as @ bs @ cs) [] [] qs l' \<and>
    limits (lk_server l') \<and> lk_queued l' = lk_queued l \<and> lk_taken l' = lk_taken l \<and>
    sc_scheduled (lk_server l') = sc_scheduled (lk_server l)"
proof -
  obtain cs1 cs2 c where c: "cs = cs1 @ cs2"
    "readData accept get ((lk_client l)\<lparr>cl_in := cl_in (lk_client l) @ sc_out (lk_server l)\<rparr>) = Some c"
    "link_state put as (bs @ cs1) cs2 qs (l\<lparr>lk_server := (lk_server l)\<lparr>sc_out := []\<rparr>, lk_client := c\<rparr>)"
    by (rule state_down [OF assms(1,3,4), of "sc_out (lk_server l)" "[]"]) simp
  let ?l1 = "l\<lparr>lk_server := (lk_server l)\<lparr>sc_out := []\<rparr>, lk_client := c\<rparr>"
  have "cs2 = []" using c(3) awaiting_done by (fastforce simp: link_state_def)
  with c(1,3) have st1: "link_state put as (bs @ cs) [] qs ?l1" by simp
  have lim1: "limits (lk_server ?l1)" using assms(2) by (simp add: limits_def)
  have step1: "link_step accept put get l ?l1" by (rule link_step.down [OF _ c(2)]) simp
  obtain bs1 bs2 s where s: "bs @ cs = bs1 @ bs2"
    "readyRead ((lk_server ?l1)\<lparr>sc_in := sc_in (lk_server ?l1) @ cl_out (lk_client ?l1)\<rparr>) = Some s"
    "link_state put (as @ bs1) bs2 [] qs (?l1\<lparr>lk_server := s, lk_client := (lk_client ?l1)\<lparr>cl_out := []\<rparr>\<rparr>)"
    "limits s" "sc_scheduled s = sc_scheduled (lk_server ?l1)"
    by (rule state_up [OF st1 lim1, of "cl_out (lk_client ?l1)" "[]"]) simp
  let ?l2 = "?l1\<lparr>lk_server := s, lk_client := (lk_client ?l1)\<lparr>cl_out := []\<rparr>\<rparr>"
  have "bs2 = []" using s(3) awaiting_done by (fastforce simp: link_state_def)
  with s(1,3) have st2: "link_state put (as @ bs @ cs) [] [] qs ?l2" by simp
  have step2: "link_step accept put get ?l1 ?l2" by (rule link_step.up [OF _ s(2)]) simp
  have "(\<lambda>l l'. link_step accept put get l l' \<and> lk_queued l' = lk_queued l)\<^sup>*\<^sup>* l ?l2"
    using step1 step2 by (intro converse_rtranclp_into_rtranclp [of _ l ?l1] r_into_rtranclp) simp_all
  then show ?thesis using st2 s(4,5) by (intro exI [of _ ?l2]) simp
qed

text \<open>
  A step that is not \<open>queueFrame\<close> sends nothing when no call of \<open>sendData\<close> is scheduled: an acknowledgement does
  not make the connection send the next frame.
\<close>

lemma quiet_step:
  assumes "link_step accept put get l l'" and "lk_queued l' = lk_queued l" and "sc_scheduled (lk_server l) = 0"
    and "link_inv put l"
  shows "m_frameQueue (lk_server l') = m_frameQueue (lk_server l) \<and> sc_scheduled (lk_server l') = 0"
  using assms(1)
proof cases
  case (up chunk rest s)
  obtain as bs cs qs where st: "link_state put as bs cs qs l" and lim: "limits (lk_server l)"
    using assms(4) by (auto simp: link_inv_def)
  obtain bs1 bs2 s' where "readyRead ((lk_server l)\<lparr>sc_in := sc_in (lk_server l) @ chunk\<rparr>) = Some s'"
    "link_state put (as @ bs1) bs2 cs qs (l\<lparr>lk_server := s', lk_client := (lk_client l)\<lparr>cl_out := rest\<rparr>\<rparr>)"
    "sc_scheduled s' = sc_scheduled (lk_server l)"
    by (rule state_up [OF st lim up(2)])
  with st up(3) assms(3) show ?thesis unfolding up(1) by (simp add: link_state_def)
qed (use assms in auto)

lemma quiet_path:
  "(\<lambda>l l'. link_step accept put get l l' \<and> lk_queued l' = lk_queued l)\<^sup>*\<^sup>* l l' \<Longrightarrow>
    (link_step accept put get)\<^sup>*\<^sup>* l l'"
  by (induction rule: rtranclp_induct) auto

lemma quiet_steps:
  assumes "(\<lambda>l l'. link_step accept put get l l' \<and> lk_queued l' = lk_queued l)\<^sup>*\<^sup>* l l'"
    and "sc_scheduled (lk_server l) = 0" and "link_inv put l" and "variant_codec put get" and "accepts_all accept"
  shows "m_frameQueue (lk_server l') = m_frameQueue (lk_server l) \<and> sc_scheduled (lk_server l') = 0 \<and> link_inv put l'"
  using assms(1)
proof (induction rule: rtranclp_induct)
  case base
  show ?case using assms(2,3) by simp
next
  case (step l1 l2)
  then show ?case using quiet_step [of accept put get l1 l2] inv_step [of accept put get l1 l2] assms(4,5) by simp
qed

section \<open>A connection that has failed to write\<close>

text \<open>The calls that a connection gets, but for \<open>setLossless\<close>.\<close>

inductive conn_op :: "accept \<Rightarrow> ServerConnection \<Rightarrow> ServerConnection \<Rightarrow> bool" for accept :: accept where
  "queueFrame accept n bs c = Some c' \<Longrightarrow> conn_op accept c c'"
| "sendData accept c = Some c' \<Longrightarrow> conn_op accept c c'"
| "readyRead (c\<lparr>sc_in := sc_in c @ bs\<rparr>) = Some c' \<Longrightarrow> conn_op accept c c'"
| "conn_op accept c (setMaxFrameQueue mx c)"
| "conn_op accept c (setMaxFramesInFlight mx c)"

definition stalled :: "ServerConnection \<Rightarrow> bool" where
  "stalled c \<longleftrightarrow> m_waiting c \<and> \<not> m_lossless c"

lemma serverMessage_stalled:
  "serverMessage n bs c = (bs', c') \<Longrightarrow> stalled c \<Longrightarrow> stalled c' \<and> sc_out c' = sc_out c"
  by (auto simp: serverMessage_def stalled_def ackFrame_def Let_def split: prod.splits if_splits list.splits)

lemma serverLoop_stalled:
  assumes "serverLoop n bs c = Some r"
  shows "stalled c \<longrightarrow> stalled (snd (snd r)) \<and> sc_out (snd (snd r)) = sc_out c"
proof (rule serverLoop.raw_induct
    [of "\<lambda>n bs c r. stalled c \<longrightarrow> stalled (snd (snd r)) \<and> sc_out (snd (snd r)) = sc_out c", OF _ assms])
  fix rec :: "int \<Rightarrow> byte list \<Rightarrow> ServerConnection \<Rightarrow> (int \<times> byte list \<times> ServerConnection) option" and n bs c r
  assume rec: "\<And>n bs c r. rec n bs c = Some r \<Longrightarrow>
      stalled c \<longrightarrow> stalled (snd (snd r)) \<and> sc_out (snd (snd r)) = sc_out c"
    and r: "(case serverMessage n bs c of (bs1, c1) \<Rightarrow>
        if 4 \<le> length bs1 then
          case get_i32 bs1 of (blockSize', bs2) \<Rightarrow>
            if int (length bs2) < blockSize' then Some (blockSize', bs2, c1) else rec blockSize' bs2 c1
        else Some (0, bs1, c1)) = Some r"
  obtain bs1 c1 where m: "serverMessage n bs c = (bs1, c1)" by force
  show "stalled c \<longrightarrow> stalled (snd (snd r)) \<and> sc_out (snd (snd r)) = sc_out c"
  proof
    assume "stalled c"
    with serverMessage_stalled [OF m] have c1: "stalled c1" "sc_out c1 = sc_out c" by simp_all
    with r show "stalled (snd (snd r)) \<and> sc_out (snd (snd r)) = sc_out c"
      by (auto simp: m split: prod.splits if_splits dest: rec)
  qed
qed

lemma conn_op_stalled:
  assumes "conn_op accept c c'" and "stalled c"
  shows "stalled c' \<and> sc_out c' = sc_out c"
  using assms(1)
proof cases
  case (1 n bs)
  then show ?thesis
    using assms(2) by (auto simp: queueFrame_def sendData_def stalled_def checkQueue_def Let_def split: if_splits)
next
  case 2
  then show ?thesis using assms(2) by (auto simp: sendData_def stalled_def split: if_splits)
next
  case (3 bs)
  have "stalled (c\<lparr>sc_in := sc_in c @ bs\<rparr>)" using assms(2) by (simp add: stalled_def)
  moreover obtain n' bs' c1 where
    r: "serverRead (m_blockSize c) (sc_in c @ bs) (c\<lparr>sc_in := sc_in c @ bs\<rparr>) = Some (n', bs', c1)"
    "c' = c1\<lparr>m_blockSize := n', sc_in := bs'\<rparr>"
    using 3 by (auto simp: readyRead_def)
  ultimately have "stalled c1 \<and> sc_out c1 = sc_out c"
    using r(1) by (auto simp: serverRead_def split: if_splits prod.splits dest: serverLoop_stalled)
  then show ?thesis using r(2) by (simp add: stalled_def)
qed (use assms(2) in \<open>simp_all add: stalled_def setMaxFrameQueue_def setMaxFramesInFlight_def\<close>)

lemma conn_ops_stalled:
  assumes "(conn_op accept)\<^sup>*\<^sup>* c c'" and "stalled c"
  shows "stalled c' \<and> sc_out c' = sc_out c"
  using assms(1)
proof (induction rule: rtranclp_induct)
  case (step c1 c2)
  then show ?case using conn_op_stalled by metis
qed (use assms(2) in simp)

section \<open>A client that is fed\<close>

fun feedClient ::
    "accept \<Rightarrow> (byte list \<Rightarrow> 'v option \<times> byte list) \<Rightarrow> byte list list \<Rightarrow> 'v TCPClientProducer \<Rightarrow> 'v TCPClientProducer option" where
  "feedClient accept get [] c = Some c"
| "feedClient accept get (chunk # chunks) c =
     (case readData accept get (c\<lparr>cl_in := cl_in c @ chunk\<rparr>) of
        None \<Rightarrow> None
      | Some c' \<Rightarrow> feedClient accept get chunks c')"

lemma feedClient_frames:
  assumes "variant_codec put get" and "accepts_all accept" and "m_configured c" and "list_all (good_frame put) ms"
    and "awaiting (cl_blockSize c) (cl_in c) (map (frame_payload put) ms) (concat chunks)"
  shows "\<exists>c'. feedClient accept get chunks c = Some c' \<and> m_frameList c' = m_frameList c @ map snd ms \<and>
    cl_out c' = cl_out c @ concat (map wire (map ack_payload (map fst ms))) \<and> cl_in c' = [] \<and> cl_blockSize c' = 0"
  using assms(3-5)
proof (induction chunks arbitrary: c ms)
  case Nil
  then have "awaiting (cl_blockSize c) (cl_in c) (map (frame_payload put) ms) []" by simp
  from awaiting_done [OF this] have "ms = [] \<and> cl_blockSize c = 0 \<and> cl_in c = []" by simp
  then show ?case by simp
next
  case (Cons chunk chunks)
  then have "awaiting (cl_blockSize c) (cl_in c) (map (frame_payload put) ms) (chunk @ concat chunks)" by simp
  then obtain ms1 ms2 n bs where ms: "ms = ms1 @ ms2"
    "readData accept get (c\<lparr>cl_in := cl_in c @ chunk\<rparr>) =
       Some ((fold receive ms1 (c\<lparr>cl_in := cl_in c @ chunk\<rparr>))\<lparr>cl_blockSize := n, cl_in := bs\<rparr>)"
    "awaiting n bs (map (frame_payload put) ms2) (concat chunks)"
    by (rule readData_chunk [OF assms(1,2) Cons.prems(1,2)])
  let ?c = "(fold receive ms1 (c\<lparr>cl_in := cl_in c @ chunk\<rparr>))\<lparr>cl_blockSize := n, cl_in := bs\<rparr>"
  have "m_configured ?c" "list_all (good_frame put) ms2"
    "awaiting (cl_blockSize ?c) (cl_in ?c) (map (frame_payload put) ms2) (concat chunks)"
    using Cons.prems(1,2) ms(1,3) by (simp_all add: fold_receive)
  from Cons.IH [OF this] show ?case using ms(1,2) by (auto simp: fold_receive)
qed

end
