(* ===== verification/Tcp_Processor.thy ===== *)
theory Tcp_Processor
  imports Tcp_Client
begin

text \<open>
  The server (\<open>Server.cpp\<close>) and the processor that owns it (\<open>TCPServerProcessor.cpp\<close>): the properties, the
  broadcast of a frame to all connections, and throttling.  A signal that is connected to slots of the
  connections is a function mapped over them.
\<close>

section \<open>The server\<close>

record Server =
  sv_lossless :: bool
  sv_maxFramesInQueue :: int
  sv_maxFramesInFlight :: int
  sv_connections :: "ServerConnection list"

definition Server_new :: Server where
  "Server_new = \<lparr>sv_lossless = False, sv_maxFramesInQueue = 1, sv_maxFramesInFlight = 1, sv_connections = []\<rparr>"

text \<open>The new connection is started in its own thread; \<open>ok\<close> tells whether its socket could be opened.\<close>

definition incomingConnection :: "bool \<Rightarrow> Server \<Rightarrow> plv_exn + Server" where
  "incomingConnection ok sv =
     map_sum id (\<lambda>c. sv\<lparr>sv_connections := sv_connections sv @ [c]\<rparr>)
       (sc_start ok (ServerConnection_new (sv_lossless sv) (sv_maxFramesInQueue sv) (sv_maxFramesInFlight sv)))"

definition sv_setMaxFramesInQueue :: "int \<Rightarrow> Server \<Rightarrow> plv_exn + Server" where
  "sv_setMaxFramesInQueue mx sv = (if \<not> mx \<ge> 1 then Inl AssertFailed else Inr (sv\<lparr>sv_maxFramesInQueue := mx\<rparr>))"

definition sv_setMaxFramesInFlight :: "int \<Rightarrow> Server \<Rightarrow> plv_exn + Server" where
  "sv_setMaxFramesInFlight mx sv = (if \<not> mx \<ge> 1 then Inl AssertFailed else Inr (sv\<lparr>sv_maxFramesInFlight := mx\<rparr>))"

definition sv_setLossless :: "bool \<Rightarrow> Server \<Rightarrow> Server" where
  "sv_setLossless l sv = sv\<lparr>sv_lossless := l\<rparr>"

fun queueAll :: "accept \<Rightarrow> u32 \<Rightarrow> byte list \<Rightarrow> ServerConnection list \<Rightarrow> ServerConnection list option" where
  "queueAll accept n bs [] = Some []"
| "queueAll accept n bs (c # cs) =
     (case queueFrame accept n bs c of
        None \<Rightarrow> None
      | Some c' \<Rightarrow> map_option ((#) c') (queueAll accept n bs cs))"

definition sendFrame :: "accept \<Rightarrow> u32 \<Rightarrow> byte list \<Rightarrow> Server \<Rightarrow> Server option" where
  "sendFrame accept n bs sv = map_option (\<lambda>cs. sv\<lparr>sv_connections := cs\<rparr>) (queueAll accept n bs (sv_connections sv))"

section \<open>The processor\<close>

record TCPServerProcessor =
  m_server :: Server
  tp_waiting :: bool
  m_convertCvMatToQImage :: bool
  m_cvMatDataTypeId :: int

definition isReadyForProcessing :: "TCPServerProcessor \<Rightarrow> bool" where
  "isReadyForProcessing t \<longleftrightarrow> \<not> tp_waiting t"

definition tp_process ::
    "accept \<Rightarrow> ('v \<Rightarrow> byte list) \<Rightarrow> ('v \<Rightarrow> 'v) \<Rightarrow> u32 \<Rightarrow> 'v server_pin list \<Rightarrow> TCPServerProcessor \<Rightarrow>
     (bool \<times> TCPServerProcessor) option" where
  "tp_process accept put toImage serial pins t =
     map_option (\<lambda>sv. (True, t\<lparr>m_server := sv\<rparr>))
       (sendFrame accept serial
          (frameBlock put serial (frameData toImage (m_cvMatDataTypeId t) (m_convertCvMatToQImage t) pins)) (m_server t))"

text \<open>
  The signal \<open>maxFramesInQueueChanged\<close> that \<open>setMaxFramesInQueue\<close> emits is connected to nothing: the server connects a
  signal \<open>maxFrameQueueChanged\<close>, which the processor does not have.
\<close>

definition tp_setMaxFramesInQueue :: "int \<Rightarrow> TCPServerProcessor \<Rightarrow> plv_exn + TCPServerProcessor" where
  "tp_setMaxFramesInQueue mx t =
     (if mx > 0 then map_sum id (\<lambda>sv. t\<lparr>m_server := sv\<rparr>) (sv_setMaxFramesInQueue mx (m_server t)) else Inr t)"

definition tp_setMaxFramesInFlight :: "int \<Rightarrow> TCPServerProcessor \<Rightarrow> plv_exn + TCPServerProcessor" where
  "tp_setMaxFramesInFlight mx t =
     (if mx > 0 then
        map_sum id (\<lambda>sv. t\<lparr>m_server := sv\<lparr>sv_connections := map (setMaxFramesInFlight mx) (sv_connections sv)\<rparr>\<rparr>)
          (sv_setMaxFramesInFlight mx (m_server t))
      else Inr t)"

definition tp_setLossless :: "bool \<Rightarrow> TCPServerProcessor \<Rightarrow> TCPServerProcessor" where
  "tp_setLossless l t =
     (let sv = sv_setLossless l (m_server t)
      in t\<lparr>m_server := sv\<lparr>sv_connections := map (setLossless l) (sv_connections sv)\<rparr>\<rparr>)"

definition tp_stalled :: "TCPServerProcessor \<Rightarrow> TCPServerProcessor" where
  "tp_stalled t = t\<lparr>tp_waiting := True\<rparr>"

definition tp_unstalled :: "TCPServerProcessor \<Rightarrow> TCPServerProcessor" where
  "tp_unstalled t = t\<lparr>tp_waiting := False\<rparr>"

definition serverThreadStalled :: "bool \<Rightarrow> TCPServerProcessor \<Rightarrow> TCPServerProcessor" where
  "serverThreadStalled isStalled t = (if isStalled then tp_stalled t else tp_unstalled t)"

section \<open>Limits of the connections\<close>

text \<open>No setter reaches an assertion of the server.\<close>

lemma setters_ok:
  "\<exists>t'. tp_setMaxFramesInQueue mx t = Inr t'" "\<exists>t'. tp_setMaxFramesInFlight mx t = Inr t'"
  by (simp_all add: tp_setMaxFramesInQueue_def tp_setMaxFramesInFlight_def sv_setMaxFramesInQueue_def
      sv_setMaxFramesInFlight_def)

text \<open>The limit of the frames in flight reaches the connections, the one of the queue does not.\<close>

lemma setMaxFramesInFlight_reaches:
  "0 < mx \<Longrightarrow> tp_setMaxFramesInFlight mx t = Inr t' \<Longrightarrow> c \<in> set (sv_connections (m_server t')) \<Longrightarrow>
    m_maxFramesInFlight c = mx"
  by (auto simp: tp_setMaxFramesInFlight_def sv_setMaxFramesInFlight_def setMaxFramesInFlight_def split: if_splits)

lemma setMaxFramesInQueue_does_not_reach:
  "tp_setMaxFramesInQueue mx t = Inr t' \<Longrightarrow> sv_connections (m_server t') = sv_connections (m_server t)"
  by (auto simp: tp_setMaxFramesInQueue_def sv_setMaxFramesInQueue_def split: if_splits)

lemma queueAll_nth:
  "queueAll accept n bs cs = Some cs' \<Longrightarrow>
    length cs' = length cs \<and> (\<forall>i < length cs. queueFrame accept n bs (cs ! i) = Some (cs' ! i))"
proof (induction cs arbitrary: cs')
  case (Cons c cs)
  then show ?case by (auto simp: nth_Cons split: option.splits nat.splits)
qed simp

end
