(* ===== verification/Tcp_Properties.thy ===== *)
theory Tcp_Properties
  imports Tcp_Link Tcp_Processor
begin

text \<open>
  What the connection of a server and a client promises, and where it fails.  The examples use a codec of
  integers in the format of Qt's version 4.0 streams (type id 2 and the value).
\<close>

section \<open>Examples\<close>

definition demo_put :: "u32 \<Rightarrow> byte list" where
  "demo_put v = put_u32 2 @ put_u32 v"

definition demo_get :: "byte list \<Rightarrow> u32 option \<times> byte list" where
  "demo_get bs = (case get_u32 bs of (t, bs1) \<Rightarrow>
     if t = 2 then case get_u32 bs1 of (v, bs2) \<Rightarrow> (Some v, bs2) else (None, bs1))"

definition demo_accept :: accept where
  "demo_accept out bs = int (length bs)"

lemma demo_codec: "variant_codec demo_put demo_get"
  by (simp add: variant_codec_def demo_put_def demo_get_def)

lemma demo_accept_all: "accepts_all demo_accept"
  by (simp add: accepts_all_def demo_accept_def)

lemma demo_good: "good_frame demo_put (n, [v])"
  by (simp add: good_frame_def frame_payload_def demo_put_def)

text \<open>A lossless link with one frame in flight and one in the queue; \<open>n\<close> calls of \<open>sendData\<close> are scheduled.\<close>

definition demo_message :: "u32 \<times> u32 list \<Rightarrow> byte list" where
  "demo_message m = frameBlock demo_put (fst m) (snd m)"

definition demo_server :: "byte list \<Rightarrow> u32 list \<Rightarrow> Frame list \<Rightarrow> nat \<Rightarrow> ServerConnection" where
  "demo_server out inflight q n =
     \<lparr>sc_open = True, sc_connected = True, sc_in = [], sc_out = out, m_waiting = False, m_lossless = True,
      m_maxFramesInQueue = 1, m_maxFramesInFlight = 1, m_blockSize = 0, m_frameNumbersInFlight = inflight,
      m_frameQueue = q, sc_signals = [], sc_scheduled = n\<rparr>"

lemma demo_server_steps:
  "queueFrame demo_accept i bs (demo_server [] [] [] 0) = Some (demo_server bs [i] [] (Suc 0))"
  "queueFrame demo_accept i bs (demo_server out [j] [] (Suc 0)) =
     Some (demo_server out [j] [\<lparr>f_serial = i, f_bytes = bs, f_sent = 0\<rparr>] 2)"
  "sendData demo_accept (demo_server out [j] q n) = Some (demo_server out [j] q n)"
  by (simp_all add: demo_server_def queueFrame_def sendData_def sendLoop.simps sendFirst_def socketWrite_def
      demo_accept_def checkQueue_def)

definition demo_link :: "nat \<Rightarrow> u32 link" where
  "demo_link n =
     \<lparr>lk_server = demo_server (demo_message (1, [10])) [1] [\<lparr>f_serial = 2, f_bytes = demo_message (2, [20]), f_sent = 0\<rparr>] n,
      lk_client = TCPClientProducer_new, lk_queued = [(1, [10]), (2, [20])], lk_taken = []\<rparr>"

lemma demo_link_reached: "(link_step demo_accept demo_put demo_get)\<^sup>*\<^sup>* (link_start True 1 1) (demo_link n)"
  if "n \<le> 2"
proof -
  let ?step = "link_step demo_accept demo_put demo_get"
  define l1 :: "u32 link" where
    "l1 = \<lparr>lk_server = demo_server (demo_message (1, [10])) [1] [] 1, lk_client = TCPClientProducer_new,
           lk_queued = [(1, [10])], lk_taken = []\<rparr>"
  have start: "link_start True 1 1 = \<lparr>lk_server = demo_server [] [] [] 0, lk_client = TCPClientProducer_new,
      lk_queued = [], lk_taken = []\<rparr>"
    by (simp add: link_start_def demo_server_def ServerConnection_new_def)
  have "?step (link_start True 1 1) l1"
    using link_step.queue [OF demo_good, of demo_accept 1 10 "link_start True 1 1" "demo_server (demo_message (1, [10])) [1] [] 1" demo_get]
    by (simp add: start l1_def demo_message_def demo_server_steps)
  moreover have "?step l1 (demo_link 2)"
    using link_step.queue [OF demo_good, of demo_accept 2 20 l1 "lk_server (demo_link 2)" demo_get]
    by (simp add: l1_def demo_link_def demo_message_def demo_server_steps)
  moreover have send: "?step (demo_link (Suc n)) (demo_link n)" for n
  proof -
    have "(lk_server (demo_link (Suc n)))\<lparr>sc_scheduled := sc_scheduled (lk_server (demo_link (Suc n))) - 1\<rparr> =
        lk_server (demo_link n)"
      by (simp add: demo_link_def demo_server_def)
    moreover have "sendData demo_accept (lk_server (demo_link n)) = Some (lk_server (demo_link n))"
      by (simp add: demo_link_def demo_server_steps)
    ultimately have "?step (demo_link (Suc n)) ((demo_link (Suc n))\<lparr>lk_server := lk_server (demo_link n)\<rparr>)"
      by (intro link_step.send) (simp_all add: demo_link_def demo_server_def)
    then show ?thesis by (simp add: demo_link_def)
  qed
  moreover have "?step (demo_link 2) (demo_link 1)" using send [of 1] by (simp add: numeral_2_eq_2)
  moreover have "?step (demo_link 1) (demo_link 0)" using send [of 0] by simp
  moreover have "n = 0 \<or> n = 1 \<or> n = 2" using that by auto
  ultimately show ?thesis by (meson r_into_rtranclp rtranclp_trans)
qed


section \<open>Flow control\<close>









section \<open>Where the flow stops\<close>

text \<open>An acknowledgement does not make the connection send: when no call of \<open>sendData\<close> is scheduled, the frames
  in the queue stay there until another frame is queued, whatever arrives.\<close>

theorem queue_waits_for_next_frame:
  assumes "(link_step accept put get)\<^sup>*\<^sup>* (link_start lossless mq mf) l"
    and "0 \<le> mq" and "1 \<le> mf" and "variant_codec put get" and "accepts_all accept"
    and "sc_scheduled (lk_server l) = 0"
    and "(\<lambda>l l'. link_step accept put get l l' \<and> lk_queued l' = lk_queued l)\<^sup>*\<^sup>* l l'"
  shows "m_frameQueue (lk_server l') = m_frameQueue (lk_server l)"
  using quiet_steps [OF assms(7,6) inv_reachable [OF assms(1-5)] assms(4,5)] by simp

theorem queue_waits_for_next_frame_witness:
  "\<exists>l'. (\<lambda>l l'. link_step demo_accept demo_put demo_get l l' \<and> lk_queued l' = lk_queued l)\<^sup>*\<^sup>* (demo_link 0) l' \<and>
     m_frameNumbersInFlight (lk_server l') = [] \<and> m_frameQueue (lk_server l') \<noteq> []"
proof -
  obtain as bs cs qs where st: "link_state demo_put as bs cs qs (demo_link 0)" and lim: "limits (lk_server (demo_link 0))"
    using inv_reachable [OF demo_link_reached [of 0] _ _ demo_codec demo_accept_all] by (auto simp: link_inv_def)
  from drain [OF st lim demo_codec demo_accept_all] obtain l' where
    l': "(\<lambda>l l'. link_step demo_accept demo_put demo_get l l' \<and> lk_queued l' = lk_queued l)\<^sup>*\<^sup>* (demo_link 0) l'"
    "link_state demo_put (as @ bs @ cs) [] [] qs l'" by blast
  have "sc_scheduled (lk_server (demo_link 0)) = 0" "m_frameQueue (lk_server (demo_link 0)) \<noteq> []"
    by (simp_all add: demo_link_def demo_server_def)
  with queue_waits_for_next_frame [OF demo_link_reached [of 0] _ _ demo_codec demo_accept_all _ l'(1)]
  have "m_frameQueue (lk_server l') \<noteq> []" by simp
  moreover have "m_frameNumbersInFlight (lk_server l') = []" using l'(2) by (simp add: link_state_def)
  ultimately show ?thesis using l'(1) by blast
qed

text \<open>A connection that is not lossless and fails to write once waits for ever: it writes nothing more, whatever
  it is called with and whatever its socket would accept.\<close>

theorem failed_write_stalls:
  assumes "\<not> m_lossless c" and "sc_open c" and "sc_connected c" and "\<not> m_waiting c"
    and "int (length (m_frameNumbersInFlight c)) < m_maxFramesInFlight c"
    and "m_frameQueue c = f # fs" and "f_sent f = 0" and "accept (sc_out c) (f_bytes f) = - 1"
    and "sendData accept c = Some c1" and "(conn_op accept')\<^sup>*\<^sup>* c1 c2"
  shows "m_waiting c2 \<and> sc_out c2 = sc_out c"
proof -
  have "stalled c1" "sc_out c1 = sc_out c"
    using assms(1-9) by (auto simp: sendData_def sendLoop.simps [of accept c] sendFirst_def socketWrite_def stalled_def)
  with conn_ops_stalled [OF assms(10)] show ?thesis by (simp add: stalled_def)
qed

theorem failed_write_stalls_witness:
  "\<exists>c1. sendData (\<lambda>out bs. - 1) ((demo_server [] [] [\<lparr>f_serial = 1, f_bytes = [7], f_sent = 0\<rparr>] 1)\<lparr>m_lossless := False\<rparr>) = Some c1 \<and>
     Collect ((conn_op demo_accept)\<^sup>*\<^sup>* c1) \<subseteq> {c2. m_waiting c2 \<and> sc_out c2 = []}"
proof -
  let ?c = "(demo_server [] [] [\<lparr>f_serial = 1, f_bytes = [7], f_sent = 0\<rparr>] 1)\<lparr>m_lossless := False\<rparr>"
  have "\<exists>c1. sendData (\<lambda>out bs. - 1) ?c = Some c1"
    by (simp add: demo_server_def sendData_def sendLoop.simps sendFirst_def socketWrite_def)
  then obtain c1 where c1: "sendData (\<lambda>out bs. - 1) ?c = Some c1" by blast
  have "m_waiting c2 \<and> sc_out c2 = []" if "(conn_op demo_accept)\<^sup>*\<^sup>* c1 c2" for c2
    using failed_write_stalls [OF _ _ _ _ _ _ _ _ c1 that, of "\<lparr>f_serial = 1, f_bytes = [7], f_sent = 0\<rparr>" "[]"]
    by (simp add: demo_server_def)
  with c1 show ?thesis by blast
qed

text \<open>A server without a connected pin sends frames with no argument.  The client does not acknowledge such a frame
  and skips four bytes too many, the size of the next message: it loses its place in the stream, so that the
  next frame, here one with an argument, is not received either.\<close>

definition empty_then_frame :: "byte list" where
  "empty_then_frame = frameBlock demo_put 7 (frameData id 0 False [\<lparr>sp_connected = False, sp_typeId = 2, sp_variant = 1\<rparr>]) @
     frameBlock demo_put 8 [20]"

theorem empty_frame_loses_next:
  "case readData demo_accept demo_get (TCPClientProducer_new\<lparr>cl_in := empty_then_frame\<rparr>) of
     None \<Rightarrow> False
   | Some c \<Rightarrow> m_frameList c = [] \<and> cl_out c = [] \<and> cl_blockSize c = 20"
  by code_simp

end
