(* ===== verification/Qt_Dom.thy ===== *)
theory Qt_Dom
  imports Main
begin

text \<open>
  What the pipeline loader uses of Qt's XML documents: elements with attributes and children, text nodes, the
  search for tags, and the text of an element.
\<close>

datatype Dom = Elem string "(string \<times> string) list" "Dom list" | Text string

fun nodeName :: "Dom \<Rightarrow> string" where
  "nodeName (Elem t as ds) = t"
| "nodeName (Text s) = ''#text''"

fun childNodes :: "Dom \<Rightarrow> Dom list" where
  "childNodes (Elem t as ds) = ds"
| "childNodes (Text s) = []"

text \<open>The value of an attribute that is missing is a null string.\<close>

fun namedItem :: "string \<Rightarrow> Dom \<Rightarrow> string" where
  "namedItem a (Elem t as ds) = (case map_of as a of None \<Rightarrow> '''' | Some v \<Rightarrow> v)"
| "namedItem a (Text s) = ''''"

text \<open>\<open>QDomElement::text\<close>: the text of the element and of all elements in it.\<close>

fun dom_text :: "Dom \<Rightarrow> string" where
  "dom_text (Elem t as ds) = concat (map dom_text ds)"
| "dom_text (Text s) = s"

definition is_elem :: "string \<Rightarrow> Dom \<Rightarrow> bool" where
  "is_elem tag d = (case d of Elem t as ds \<Rightarrow> t = tag | Text s \<Rightarrow> False)"

text \<open>A null element is an element without name, attributes and children here.\<close>

definition null_elem :: Dom where
  "null_elem = Elem '''' [] []"

definition firstChildElement :: "string \<Rightarrow> Dom \<Rightarrow> Dom" where
  "firstChildElement tag d = (case filter (is_elem tag) (childNodes d) of [] \<Rightarrow> null_elem | c # cs \<Rightarrow> c)"

text \<open>All elements with the tag, in the order of the document, wherever they are.\<close>

fun elementsByTagName :: "string \<Rightarrow> Dom \<Rightarrow> Dom list" where
  "elementsByTagName tag (Elem t as ds) =
     (if t = tag then [Elem t as ds] else []) @ concat (map (elementsByTagName tag) ds)"
| "elementsByTagName tag (Text s) = []"

section \<open>Tags that do not occur\<close>

fun tags :: "Dom \<Rightarrow> string set" where
  "tags (Elem t as ds) = {t} \<union> \<Union> (set (map tags ds))"
| "tags (Text s) = {}"

lemma no_tag: "tag \<notin> tags d \<Longrightarrow> elementsByTagName tag d = []"
  by (induction tag d rule: elementsByTagName.induct) auto

lemma no_tags: "tag \<notin> \<Union> (tags ` set ds) \<Longrightarrow> concat (map (elementsByTagName tag) ds) = []"
  by (auto simp: no_tag)

text \<open>The elements with a tag that are the children of a node and have no such element inside.\<close>

lemma children_with_tag:
  assumes "\<forall>d \<in> set ds. is_elem tag d \<and> (\<forall>c \<in> set (childNodes d). tag \<notin> tags c)"
  shows "concat (map (elementsByTagName tag) ds) = ds"
  using assms
proof (induction ds)
  case (Cons d ds)
  then obtain as cs where d: "d = Elem tag as cs" by (cases d) (auto simp: is_elem_def)
  have "concat (map (elementsByTagName tag) cs) = []" using Cons.prems d by (intro no_tags) auto
  with Cons d show ?case by simp
qed simp

end
