(* ===== verification/Element_Factory.thy ===== *)
theory Element_Factory
  imports Plv_Prelude
begin

text \<open>
  The factory of pipeline elements (\<open>PipelineElementFactory.cpp\<close>): constructors by id and ids by class name.  A
  constructor is represented by the name of its class; the entry of one that was unregistered is null.
\<close>

record Factory =
  m_elementConstructors :: "string option list"
  m_nameIdMapping :: "string \<rightharpoonup> nat"

definition factory_new :: Factory where
  "factory_new = \<lparr>m_elementConstructors = [], m_nameIdMapping = (\<lambda>_. None)\<rparr>"

text \<open>For a name that is in use the answer is \<open>false\<close>, which is converted to the id 0.\<close>

definition registerElement :: "string \<Rightarrow> Factory \<Rightarrow> int \<times> Factory" where
  "registerElement name f =
     (if m_nameIdMapping f name \<noteq> None then (0, f)
      else
        let i = length (m_elementConstructors f) in
        (int i, f\<lparr>m_nameIdMapping := (m_nameIdMapping f)(name \<mapsto> i),
                  m_elementConstructors := m_elementConstructors f @ [Some name]\<rparr>))"

definition unregisterElement :: "string \<Rightarrow> Factory \<Rightarrow> Factory" where
  "unregisterElement name f =
     (case m_nameIdMapping f name of
        None \<Rightarrow> f
      | Some i \<Rightarrow> f\<lparr>m_elementConstructors := (m_elementConstructors f)[i := None]\<rparr>)"

definition elementId :: "string \<Rightarrow> Factory \<Rightarrow> int" where
  "elementId name f =
     (case m_nameIdMapping f name of
        None \<Rightarrow> - 1
      | Some i \<Rightarrow> if m_elementConstructors f ! i \<noteq> None then int i else - 1)"

text \<open>
  The class of the object that \<open>construct\<close> makes, or \<open>None\<close> for its null pointer.  An id that is the size of the
  list passes the check; \<open>QList::at\<close> asserts that it is in range.
\<close>

definition construct_id :: "int \<Rightarrow> Factory \<Rightarrow> plv_exn + string option" where
  "construct_id i f =
     (if i < 0 \<or> int (length (m_elementConstructors f)) < i then Inr None
      else if nat i = length (m_elementConstructors f) then Inl AssertFailed
      else Inr (m_elementConstructors f ! nat i))"

text \<open>By name a constructor that was unregistered is a null pointer that is used.\<close>

definition construct_name :: "string \<Rightarrow> Factory \<Rightarrow> plv_exn + string option" where
  "construct_name name f =
     (case m_nameIdMapping f name of
        None \<Rightarrow> Inr None
      | Some i \<Rightarrow> (case m_elementConstructors f ! i of None \<Rightarrow> Inl NullPointer | Some c \<Rightarrow> Inr (Some c)))"

section \<open>Invariant\<close>

definition factory_inv :: "Factory \<Rightarrow> bool" where
  "factory_inv f \<longleftrightarrow>
     (\<forall>name i. m_nameIdMapping f name = Some i \<longrightarrow>
        i < length (m_elementConstructors f) \<and> m_elementConstructors f ! i \<in> {None, Some name}) \<and>
     inj_on (m_nameIdMapping f) (dom (m_nameIdMapping f))"

lemma factory_inv_new: "factory_inv factory_new"
  by (simp add: factory_inv_def factory_new_def)

lemma factory_inv_range: "factory_inv f \<Longrightarrow> m_nameIdMapping f name = Some i \<Longrightarrow> i < length (m_elementConstructors f)"
  by (simp add: factory_inv_def)

lemma register_inv:
  assumes "factory_inv f"
  shows "factory_inv (snd (registerElement name f))"
proof (cases "m_nameIdMapping f name")
  case None
  have "m_nameIdMapping f n \<noteq> Some (length (m_elementConstructors f))" for n
    using factory_inv_range [OF assms, of n "length (m_elementConstructors f)"] by auto
  then have "inj_on ((m_nameIdMapping f)(name \<mapsto> length (m_elementConstructors f)))
      (dom ((m_nameIdMapping f)(name \<mapsto> length (m_elementConstructors f))))"
    using assms by (auto simp: factory_inv_def inj_on_def)
  moreover have "i < length (m_elementConstructors f)" if "m_nameIdMapping f n = Some i" for n i
    using factory_inv_range [OF assms that] .
  ultimately show ?thesis
    using assms None by (auto simp: registerElement_def factory_inv_def Let_def nth_append less_SucI)
qed (simp add: registerElement_def assms)

lemma unregister_inv:
  assumes "factory_inv f"
  shows "factory_inv (unregisterElement name f)"
  using assms by (auto simp: unregisterElement_def factory_inv_def nth_list_update split: option.splits)

text \<open>A type that was registered is found and made.\<close>

lemma register_found:
  assumes "m_nameIdMapping f name = None"
  shows "elementId name (snd (registerElement name f)) = fst (registerElement name f)"
    and "construct_id (fst (registerElement name f)) (snd (registerElement name f)) = Inr (Some name)"
  using assms by (simp_all add: registerElement_def elementId_def construct_id_def Let_def)

text \<open>An id that \<open>elementId\<close> answers is one that \<open>construct\<close> makes the class for.\<close>

lemma elementId_construct:
  assumes "factory_inv f" and "elementId name f \<noteq> - 1"
  shows "construct_id (elementId name f) f = Inr (Some name)"
proof -
  obtain i where i: "m_nameIdMapping f name = Some i" "m_elementConstructors f ! i \<noteq> None"
    using assms(2) by (auto simp: elementId_def split: option.splits if_splits)
  with assms(1) have "i < length (m_elementConstructors f)" "m_elementConstructors f ! i = Some name"
    unfolding factory_inv_def by (metis, metis insertE singletonD)
  with i show ?thesis by (simp add: elementId_def construct_id_def)
qed

text \<open>A type that was unregistered cannot be registered again.\<close>

lemma unregister_is_final:
  assumes "factory_inv f" and "m_nameIdMapping f name \<noteq> None"
  shows "registerElement name (unregisterElement name f) = (0, unregisterElement name f)"
    and "elementId name (unregisterElement name f) = - 1"
  using assms factory_inv_range [OF assms(1), of name]
  by (auto simp: registerElement_def unregisterElement_def elementId_def)

end
