(* ===== verification/Pipeline_Loader.thy ===== *)
theory Pipeline_Loader
  imports Qt_Dom Element_Factory Plv_Enum Pipeline_Edit
begin

text \<open>
  Saving and loading of pipelines (\<open>PipelineLoader.cpp\<close>).  A document is a tree (\<open>Dom\<close>); its text format is Qt's.

  The state has the store of the pipeline and, for each element, what Qt's meta object system knows of it: its class
  name, the properties that its class declares and those of the base classes, with their types, and the
  values of all properties, also of dynamic ones.  The parameters \<open>qv\<close> stand for Qt: how it prints and
  reads values of types that the model leaves opaque (\<open>'d\<close>).
\<close>

section \<open>Values\<close>

datatype QVariantType =
    QInvalidType | QBoolType | QCharType | QByteArrayType | QDateType | QDateTimeType | QDoubleType | QIntType
  | QLongLongType | QTimeType | QUIntType | QULongLongType | QUrlType | QStringType | QUserType

datatype 'd QVariant =
    QInvalid
  | QBool bool
  | QChar "char option"
  | QByteArray string
  | QInt int
  | QUInt int
  | QLongLong int
  | QULongLong int
  | QString string
  | QOpaque QVariantType 'd
  | QEnum Enum
  | QUser 'd

record 'd Qv =
  qv_show :: "QVariantType \<Rightarrow> 'd \<Rightarrow> string"
  qv_read :: "QVariantType \<Rightarrow> string \<Rightarrow> 'd"

fun typeOf :: "'d QVariant \<Rightarrow> QVariantType" where
  "typeOf QInvalid = QInvalidType"
| "typeOf (QBool b) = QBoolType"
| "typeOf (QChar c) = QCharType"
| "typeOf (QByteArray s) = QByteArrayType"
| "typeOf (QInt i) = QIntType"
| "typeOf (QUInt i) = QUIntType"
| "typeOf (QLongLong i) = QLongLongType"
| "typeOf (QULongLong i) = QULongLongType"
| "typeOf (QString s) = QStringType"
| "typeOf (QOpaque t d) = t"
| "typeOf (QEnum e) = QUserType"
| "typeOf (QUser d) = QUserType"

text \<open>\<open>QVariant::toString\<close> of the types that can be converted; a user type yields an empty string.\<close>

fun qv_toString :: "'d Qv \<Rightarrow> 'd QVariant \<Rightarrow> string" where
  "qv_toString qv QInvalid = ''''"
| "qv_toString qv (QBool b) = (if b then ''true'' else ''false'')"
| "qv_toString qv (QChar c) = (case c of None \<Rightarrow> [char_of (0 :: nat)] | Some x \<Rightarrow> [x])"
| "qv_toString qv (QByteArray s) = s"
| "qv_toString qv (QInt i) = qs_number i"
| "qv_toString qv (QUInt i) = qs_number i"
| "qv_toString qv (QLongLong i) = qs_number i"
| "qv_toString qv (QULongLong i) = qs_number i"
| "qv_toString qv (QString s) = s"
| "qv_toString qv (QOpaque t d) = qv_show qv t d"
| "qv_toString qv (QEnum e) = ''''"
| "qv_toString qv (QUser d) = ''''"

text \<open>A number that does not fit yields 0.\<close>

definition toIntRange :: "int \<Rightarrow> int \<Rightarrow> string \<Rightarrow> int" where
  "toIntRange lo hi s = (let i = qs_toInt s in if lo \<le> i \<and> i \<le> hi then i else 0)"

definition qs_lower :: "string \<Rightarrow> string" where
  "qs_lower s = map (\<lambda>c. if 65 \<le> (of_char c :: nat) \<and> (of_char c :: nat) \<le> 90 then char_of ((of_char c :: nat) + 32) else c) s"

text \<open>For a date the program reads a date with time.\<close>

definition convertData :: "'d Qv \<Rightarrow> QVariantType \<Rightarrow> string \<Rightarrow> 'd QVariant" where
  "convertData qv type data =
     (case type of
        QBoolType \<Rightarrow> QBool (qs_lower data = ''true'' \<or> data = ''1'')
      | QCharType \<Rightarrow> QChar (case data of [] \<Rightarrow> None | c # cs \<Rightarrow> Some c)
      | QByteArrayType \<Rightarrow> QByteArray data
      | QDateType \<Rightarrow> QOpaque QDateTimeType (qv_read qv QDateTimeType data)
      | QDoubleType \<Rightarrow> QOpaque QDoubleType (qv_read qv QDoubleType data)
      | QIntType \<Rightarrow> QInt (toIntRange (- (2 ^ 31)) (2 ^ 31 - 1) data)
      | QLongLongType \<Rightarrow> QLongLong (toIntRange (- (2 ^ 63)) (2 ^ 63 - 1) data)
      | QTimeType \<Rightarrow> QOpaque QTimeType (qv_read qv QTimeType data)
      | QUIntType \<Rightarrow> QUInt (toIntRange 0 (2 ^ 32 - 1) data)
      | QULongLongType \<Rightarrow> QULongLong (toIntRange 0 (2 ^ 64 - 1) data)
      | QUrlType \<Rightarrow> QOpaque QUrlType (qv_read qv QUrlType data)
      | _ \<Rightarrow> QString data)"

section \<open>The meta objects of the elements\<close>

record 'd MetaObject =
  mo_className :: string
  mo_own :: "(string \<times> QVariantType) list"
  mo_inherited :: "(string \<times> QVariantType) list"
  mo_values :: "string \<rightharpoonup> 'd QVariant"

record ('v, 'd) loader =
  ld_plv :: "'v plv"
  ld_meta :: "ref \<Rightarrow> 'd MetaObject"

text \<open>\<open>QObject::property\<close>: a property that does not exist is invalid.\<close>

definition obj_property :: "'d MetaObject \<Rightarrow> string \<Rightarrow> 'd QVariant" where
  "obj_property m n = (case mo_values m n of None \<Rightarrow> QInvalid | Some v \<Rightarrow> v)"

text \<open>The type of the property with the index that \<open>indexOfProperty\<close> finds, or invalid.\<close>

definition propertyType :: "'d MetaObject \<Rightarrow> string \<Rightarrow> QVariantType" where
  "propertyType m n = (case map_of (mo_own m @ mo_inherited m) n of None \<Rightarrow> QInvalidType | Some t \<Rightarrow> t)"

section \<open>Saving\<close>

fun mapE :: "('a \<Rightarrow> plv_exn + 'b) \<Rightarrow> 'a list \<Rightarrow> plv_exn + 'b list" where
  "mapE f [] = Inr []"
| "mapE f (x # xs) =
     (case f x of
        Inl e \<Rightarrow> Inl e
      | Inr y \<Rightarrow> (case mapE f xs of Inl e \<Rightarrow> Inl e | Inr ys \<Rightarrow> Inr (y # ys)))"

definition textElem :: "string \<Rightarrow> string \<Rightarrow> Dom" where
  "textElem tag s = Elem tag [] [Text s]"

definition propertyString :: "'d Qv \<Rightarrow> 'd MetaObject \<Rightarrow> string \<times> QVariantType \<Rightarrow> plv_exn + string" where
  "propertyString qv m p =
     (case p of (name, type) \<Rightarrow>
        if type = QUserType then
          (case obj_property m name of QEnum e \<Rightarrow> getSelectedItemName e | _ \<Rightarrow> Inr '''')
        else Inr (qv_toString qv (obj_property m name)))"

definition serializeProperty :: "'d Qv \<Rightarrow> 'd MetaObject \<Rightarrow> string \<times> QVariantType \<Rightarrow> plv_exn + Dom" where
  "serializeProperty qv m p = map_sum id (textElem (fst p)) (propertyString qv m p)"

definition sceneCoords :: "'d Qv \<Rightarrow> 'd MetaObject \<Rightarrow> Dom list" where
  "sceneCoords qv m =
     (let xVal = obj_property m ''sceneCoordX''; yVal = obj_property m ''sceneCoordY'' in
      if typeOf xVal \<noteq> QInvalidType \<and> typeOf yVal \<noteq> QInvalidType
      then [textElem ''sceneCoordX'' (qv_toString qv xVal), textElem ''sceneCoordY'' (qv_toString qv yVal)]
      else [])"

definition serializeElement :: "'d Qv \<Rightarrow> ('v, 'd) loader \<Rightarrow> int \<times> ref \<Rightarrow> plv_exn + Dom" where
  "serializeElement qv s ie =
     (let e = snd ie; m = ld_meta s e in
      map_sum id
        (\<lambda>ps. Elem ''element'' [(''id'', qs_number (el_id (elems (ld_plv s) e))), (''name'', mo_className m)]
                [Elem ''properties'' [] (ps @ sceneCoords qv m)])
        (mapE (serializeProperty qv m) (mo_own m)))"

definition serializeEnd :: "string \<Rightarrow> int \<Rightarrow> int \<Rightarrow> Dom" where
  "serializeEnd tag pinId processorId =
     Elem tag [] [textElem ''pinId'' (qs_number pinId), textElem ''processorId'' (qs_number processorId)]"

definition serializeConnection :: "'v plv \<Rightarrow> int \<times> ref \<Rightarrow> plv_exn + Dom" where
  "serializeConnection w ic =
     (case (c_producer (conns w (snd ic)), c_consumer (conns w (snd ic))) of
        (Some p, Some q) \<Rightarrow>
          Inr (Elem ''connection'' []
            [serializeEnd ''sink'' (ip_id (ipins w q)) (el_id (elems w (ip_owner (ipins w q)))),
             serializeEnd ''source'' (op_id (opins w p)) (el_id (elems w (op_owner (opins w p))))])
      | _ \<Rightarrow> Inl NullPointer)"

definition serialize :: "'d Qv \<Rightarrow> ('v, 'd) loader \<Rightarrow> plv_exn + Dom" where
  "serialize qv s =
     (case mapE (serializeElement qv s) (children (ld_plv s)) of
        Inl x \<Rightarrow> Inl x
      | Inr es \<Rightarrow>
          (case mapE (serializeConnection (ld_plv s)) (connections (ld_plv s)) of
             Inl x \<Rightarrow> Inl x
           | Inr cs \<Rightarrow> Inr (Elem ''pipeline'' [] [Elem ''elements'' [] es, Elem ''connections'' [] cs])))"

section \<open>Loading\<close>

text \<open>What the loader reads of the node of an element: id, class name, and the properties with their texts.\<close>

definition readElement :: "Dom \<Rightarrow> int \<times> string \<times> (string \<times> string) list" where
  "readElement d =
     (toIntRange (- (2 ^ 31)) (2 ^ 31 - 1) (namedItem ''id'' d), namedItem ''name'' d,
      map (\<lambda>c. (nodeName c, dom_text c)) (childNodes (firstChildElement ''properties'' d)))"

text \<open>Source element and pin, sink element and pin.\<close>

definition readEnd :: "Dom \<Rightarrow> int \<times> int" where
  "readEnd d =
     (toIntRange (- (2 ^ 31)) (2 ^ 31 - 1) (dom_text (firstChildElement ''processorId'' d)),
      toIntRange (- (2 ^ 31)) (2 ^ 31 - 1) (dom_text (firstChildElement ''pinId'' d)))"

definition readConnection :: "Dom \<Rightarrow> (int \<times> int) \<times> (int \<times> int)" where
  "readConnection d = (readEnd (firstChildElement ''source'' d), readEnd (firstChildElement ''sink'' d))"

text \<open>The value that is written to a property.\<close>

definition propertyValue :: "'d Qv \<Rightarrow> 'd MetaObject \<Rightarrow> string \<Rightarrow> string \<Rightarrow> 'd QVariant" where
  "propertyValue qv m name txt =
     (if propertyType m name = QUserType then
        (case obj_property m name of QEnum e \<Rightarrow> QEnum (setSelected txt e) | v \<Rightarrow> v)
      else convertData qv (propertyType m name) txt)"

text \<open>
  The plug-ins are parameters: \<open>construct\<close> makes an object of a class, \<open>setProperty\<close> writes a property, with the
  method that the class declares for it, or as a dynamic property.
\<close>

record ('v, 'd) plugins =
  pg_construct :: "string \<Rightarrow> ('v, 'd) loader \<Rightarrow> ref \<times> ('v, 'd) loader"
  pg_setProperty :: "string \<Rightarrow> 'd QVariant \<Rightarrow> 'd MetaObject \<Rightarrow> 'd MetaObject"

definition loadProperty ::
    "'d Qv \<Rightarrow> ('v, 'd) plugins \<Rightarrow> ref \<Rightarrow> string \<times> string \<Rightarrow> ('v, 'd) loader \<Rightarrow> ('v, 'd) loader" where
  "loadProperty qv pg e p s =
     s\<lparr>ld_meta := (ld_meta s)(e := pg_setProperty pg (fst p) (propertyValue qv (ld_meta s e) (fst p) (snd p)) (ld_meta s e))\<rparr>"

definition parseElement ::
    "'d Qv \<Rightarrow> ('v, 'd) plugins \<Rightarrow> Factory \<Rightarrow> Dom \<Rightarrow> (('v, 'd) loader, unit) plvM" where
  "parseElement qv pg f d s =
     (case readElement d of (i, name, props) \<Rightarrow>
        if elementId name f = - 1
        then (Inl (StdRuntimeError (''XML document contains unknown processor type '' @ name)), s)
        else case construct_id (elementId name f) f of
          Inl x \<Rightarrow> (Inl x, s)
        | Inr None \<Rightarrow> (Inl NullPointer, s)
        | Inr (Some cls) \<Rightarrow>
            (case pg_construct pg cls s of (e, s1) \<Rightarrow>
               let s2 = s1\<lparr>ld_plv := upd_elem e (\<lambda>el. el\<lparr>el_id := i\<rparr>) (ld_plv s1)\<rparr> in
               if \<not> canAddElement e (ld_plv s2)
               then (Inl (StdRuntimeError (''XML parsing failed. PipelineElement with name '' @ name @
                            '' has invalid or used id '')), s2)
               else (Inr (), fold (loadProperty qv pg e) props (s2\<lparr>ld_plv := snd (addElement e (ld_plv s2))\<rparr>))))"

definition parseElements ::
    "'d Qv \<Rightarrow> ('v, 'd) plugins \<Rightarrow> Factory \<Rightarrow> Dom list \<Rightarrow> (('v, 'd) loader, unit) plvM" where
  "parseElements qv pg f ds = forM (parseElement qv pg f) ds"

definition parseConnection :: "QMetaType \<Rightarrow> Dom \<Rightarrow> ('v plv, unit) plvM" where
  "parseConnection qt d w =
     (case readConnection d of ((sourceProcId, sourcePinId), (sinkProcId, sinkPinId)) \<Rightarrow>
        case getElement sourceProcId w of
          None \<Rightarrow> (Inl (StdRuntimeError ''Connection specified with invalid source id''), w)
        | Some source \<Rightarrow>
        (case getElement sinkProcId w of
          None \<Rightarrow> (Inl (StdRuntimeError ''Connection specified with invalid sink id''), w)
        | Some sink \<Rightarrow>
          if el_class (elems w sink) = PipelineProducer
          then (Inl (StdRuntimeError ''Sink element is not a DataConsumer''), w)
          else
            (case getOutputPin source sourcePinId w of
               None \<Rightarrow> (Inl (StdRuntimeError (''No output pin with id '' @ qs_number sourcePinId)), w)
             | Some iop \<Rightarrow>
               (case getInputPin sink sinkPinId w of
                  None \<Rightarrow> (Inl (StdRuntimeError (''No input pin with id '' @ qs_number sinkPinId)), w)
                | Some iip \<Rightarrow>
                    (case canConnectPins qt iop iip w of
                       ((False, errstr), w1) \<Rightarrow>
                         (Inl (StdRuntimeError (''Cannot connect pins because : '' @ errstr)), w1)
                     | ((True, errstr), w1) \<Rightarrow>
                         (case connectPins qt iop iip w1 of
                            (Inl x, w2) \<Rightarrow> (Inl x, w2)
                          | (Inr i, w2) \<Rightarrow> (Inr (), w2)))))))"

definition parseConnections :: "QMetaType \<Rightarrow> Dom list \<Rightarrow> ('v plv, unit) plvM" where
  "parseConnections qt ds = forM (parseConnection qt) ds"

definition deserialize ::
    "'d Qv \<Rightarrow> ('v, 'd) plugins \<Rightarrow> Factory \<Rightarrow> QMetaType \<Rightarrow> Dom \<Rightarrow> (('v, 'd) loader, unit) plvM" where
  "deserialize qv pg f qt doc s =
     (case parseElements qv pg f (elementsByTagName ''element'' doc) s of
        (Inl x, s1) \<Rightarrow> (Inl x, s1)
      | (Inr u, s1) \<Rightarrow>
          (case parseConnections qt (elementsByTagName ''connection'' doc) (ld_plv s1) of
             (r, w) \<Rightarrow> (r, s1\<lparr>ld_plv := w\<rparr>)))"

section \<open>Reading what was written\<close>

lemma mapE_Inr: "mapE f xs = Inr ys \<longleftrightarrow> list_all2 (\<lambda>x y. f x = Inr y) xs ys"
proof (induction xs arbitrary: ys)
  case (Cons x xs)
  show ?case
  proof (cases ys)
    case Nil
    then show ?thesis by (simp split: sum.splits)
  next
    case c: (Cons y ys')
    show ?thesis using Cons.IH [of ys'] unfolding c by (cases "f x"; cases "mapE f xs") auto
  qed
qed auto

lemma map_sum_Inr: "map_sum f g x = Inr y \<longleftrightarrow> (\<exists>z. x = Inr z \<and> y = g z)"
  by (cases x) auto

lemma list_all2_map:
  "list_all2 R xs ys \<Longrightarrow> (\<And>x y. x \<in> set xs \<Longrightarrow> R x y \<Longrightarrow> g y = h x) \<Longrightarrow> map g ys = map h xs"
  by (induction rule: list_all2_induct) auto

lemma list_all2_in:
  "list_all2 R xs ys \<Longrightarrow> y \<in> set ys \<Longrightarrow> \<exists>x \<in> set xs. R x y"
  by (induction rule: list_all2_induct) auto

definition in_int :: "int \<Rightarrow> bool" where
  "in_int i \<longleftrightarrow> - (2 ^ 31) \<le> i \<and> i \<le> 2 ^ 31 - 1"

lemma toIntRange_number: "lo \<le> i \<Longrightarrow> i \<le> hi \<Longrightarrow> toIntRange lo hi (qs_number i) = i"
  by (simp add: toIntRange_def qs_toInt_number)

lemma textElem_simps [simp]:
  "nodeName (textElem t s) = t" "dom_text (textElem t s) = s" "tags (textElem t s) = {t}"
  "is_elem tag (textElem t s) = (t = tag)"
  by (simp_all add: textElem_def is_elem_def)

lemma is_elem_Elem [simp]: "is_elem tag (Elem t as ds) = (t = tag)"
  by (simp add: is_elem_def)

text \<open>The properties of an element as they are saved.\<close>

definition savedProperties :: "'d Qv \<Rightarrow> 'd MetaObject \<Rightarrow> (string \<times> string) list" where
  "savedProperties qv m =
     map (\<lambda>p. (fst p, case propertyString qv m p of Inl x \<Rightarrow> '''' | Inr s \<Rightarrow> s)) (mo_own m) @
     map (\<lambda>c. (nodeName c, dom_text c)) (sceneCoords qv m)"

definition plain_names :: "'d MetaObject \<Rightarrow> bool" where
  "plain_names m \<longleftrightarrow> (\<forall>p \<in> set (mo_own m). fst p \<noteq> ''element'' \<and> fst p \<noteq> ''connection'')"

lemma sceneCoords_tags: "c \<in> set (sceneCoords qv m) \<Longrightarrow> tags c \<subseteq> {''sceneCoordX'', ''sceneCoordY''}"
  by (auto simp: sceneCoords_def Let_def split: if_splits)

lemma serializeProperty_text:
  "serializeProperty qv m p = Inr y \<Longrightarrow> \<exists>str. propertyString qv m p = Inr str \<and> y = textElem (fst p) str"
  by (auto simp: serializeProperty_def map_sum_Inr)

lemma serializeElement_read:
  assumes "serializeElement qv s ie = Inr d" and "in_int (el_id (elems (ld_plv s) (snd ie)))"
  shows "readElement d = (el_id (elems (ld_plv s) (snd ie)), mo_className (ld_meta s (snd ie)),
           savedProperties qv (ld_meta s (snd ie)))"
    and "is_elem ''element'' d"
    and "plain_names (ld_meta s (snd ie)) \<Longrightarrow> c \<in> set (childNodes d) \<Longrightarrow>
      ''element'' \<notin> tags c \<and> ''connection'' \<notin> tags c"
proof -
  let ?m = "ld_meta s (snd ie)"
  obtain ps where ps: "list_all2 (\<lambda>p y. serializeProperty qv ?m p = Inr y) (mo_own ?m) ps"
    and d: "d = Elem ''element'' [(''id'', qs_number (el_id (elems (ld_plv s) (snd ie)))), (''name'', mo_className ?m)]
                  [Elem ''properties'' [] (ps @ sceneCoords qv ?m)]"
    using assms(1) by (auto simp: serializeElement_def Let_def map_sum_Inr mapE_Inr)
  have "map (\<lambda>c. (nodeName c, dom_text c)) ps =
      map (\<lambda>p. (fst p, case propertyString qv ?m p of Inl x \<Rightarrow> '''' | Inr s \<Rightarrow> s)) (mo_own ?m)"
    by (rule list_all2_map [OF ps]) (auto dest!: serializeProperty_text)
  then show "readElement d = (el_id (elems (ld_plv s) (snd ie)), mo_className ?m, savedProperties qv ?m)"
    using assms(2) by (simp add: readElement_def d firstChildElement_def savedProperties_def
        toIntRange_number in_int_def)
  show "is_elem ''element'' d" by (simp add: d is_elem_def)
  have "tags y \<subseteq> fst ` set (mo_own ?m)" if "y \<in> set ps" for y
    using list_all2_in [OF ps that] by (force dest!: serializeProperty_text)
  then show "''element'' \<notin> tags c \<and> ''connection'' \<notin> tags c"
    if "plain_names ?m" "c \<in> set (childNodes d)"
    using that sceneCoords_tags [of _ qv ?m] by (fastforce simp: d plain_names_def)
qed

definition ends_ok :: "'v plv \<Rightarrow> ref \<Rightarrow> bool" where
  "ends_ok w c \<longleftrightarrow>
     (\<forall>p. c_producer (conns w c) = Some p \<longrightarrow> in_int (op_id (opins w p)) \<and> in_int (el_id (elems w (op_owner (opins w p))))) \<and>
     (\<forall>q. c_consumer (conns w c) = Some q \<longrightarrow> in_int (ip_id (ipins w q)) \<and> in_int (el_id (elems w (ip_owner (ipins w q)))))"

text \<open>The ends of a connection: ids of the source element and pin, of the sink element and pin.\<close>

definition connEnds :: "'v plv \<Rightarrow> ref \<Rightarrow> (int \<times> int) \<times> (int \<times> int)" where
  "connEnds w c =
     (let p = the (c_producer (conns w c)); q = the (c_consumer (conns w c)) in
      ((el_id (elems w (op_owner (opins w p))), op_id (opins w p)),
       (el_id (elems w (ip_owner (ipins w q))), ip_id (ipins w q))))"

lemma serializeConnection_read:
  assumes "serializeConnection w ic = Inr d" and "ends_ok w (snd ic)"
  shows "readConnection d = connEnds w (snd ic)" and "is_elem ''connection'' d"
    and "c \<in> set (childNodes d) \<Longrightarrow> ''element'' \<notin> tags c \<and> ''connection'' \<notin> tags c"
proof -
  obtain p q where pq: "c_producer (conns w (snd ic)) = Some p" "c_consumer (conns w (snd ic)) = Some q"
    and d: "d = Elem ''connection'' []
            [serializeEnd ''sink'' (ip_id (ipins w q)) (el_id (elems w (ip_owner (ipins w q)))),
             serializeEnd ''source'' (op_id (opins w p)) (el_id (elems w (op_owner (opins w p))))]"
    using assms(1) by (auto simp: serializeConnection_def split: option.splits)
  have "in_int (op_id (opins w p))" "in_int (el_id (elems w (op_owner (opins w p))))"
    "in_int (ip_id (ipins w q))" "in_int (el_id (elems w (ip_owner (ipins w q))))"
    using assms(2) pq by (simp_all add: ends_ok_def)
  then show "readConnection d = connEnds w (snd ic)"
    by (simp add: d readConnection_def readEnd_def firstChildElement_def serializeEnd_def connEnds_def pq
        toIntRange_number in_int_def)
  show "is_elem ''connection'' d" by (simp add: d is_elem_def)
  show "''element'' \<notin> tags c \<and> ''connection'' \<notin> tags c" if "c \<in> set (childNodes d)"
    using that by (auto simp: d serializeEnd_def)
qed

lemma serialize_read:
  assumes "serialize qv s = Inr doc"
    and "\<forall>(i, e) \<in> set (children (ld_plv s)). in_int (el_id (elems (ld_plv s) e)) \<and> plain_names (ld_meta s e)"
    and "\<forall>(i, c) \<in> set (connections (ld_plv s)). ends_ok (ld_plv s) c"
  shows "map readElement (elementsByTagName ''element'' doc) =
      map (\<lambda>(i, e). (el_id (elems (ld_plv s) e), mo_className (ld_meta s e), savedProperties qv (ld_meta s e)))
        (children (ld_plv s))"
    and "map readConnection (elementsByTagName ''connection'' doc) =
      map (\<lambda>(i, c). connEnds (ld_plv s) c) (connections (ld_plv s))"
proof -
  obtain es cs where es: "list_all2 (\<lambda>ie d. serializeElement qv s ie = Inr d) (children (ld_plv s)) es"
    and cs: "list_all2 (\<lambda>ic d. serializeConnection (ld_plv s) ic = Inr d) (connections (ld_plv s)) cs"
    and doc: "doc = Elem ''pipeline'' [] [Elem ''elements'' [] es, Elem ''connections'' [] cs]"
    using assms(1) by (auto simp: serialize_def mapE_Inr split: sum.splits)
  have e: "is_elem ''element'' d \<and> (\<forall>c \<in> set (childNodes d). ''element'' \<notin> tags c \<and> ''connection'' \<notin> tags c)"
    if "d \<in> set es" for d
    using list_all2_in [OF es that] assms(2) serializeElement_read(2,3) by fastforce
  have c: "is_elem ''connection'' d \<and> (\<forall>c \<in> set (childNodes d). ''element'' \<notin> tags c \<and> ''connection'' \<notin> tags c)"
    if "d \<in> set cs" for d
    using list_all2_in [OF cs that] assms(3) serializeConnection_read(2,3) by fastforce
  have other: "t \<notin> tags d" if "is_elem t' d" "t \<noteq> t'" "\<forall>c \<in> set (childNodes d). t \<notin> tags c" for t t' d
    using that by (cases d) (auto simp: is_elem_def)
  have "concat (map (elementsByTagName ''element'') es) = es" using e by (intro children_with_tag) blast
  moreover have "concat (map (elementsByTagName ''element'') cs) = []"
    using c other [of "''connection''" _ "''element''"] by (intro no_tags) auto
  moreover have "concat (map (elementsByTagName ''connection'') cs) = cs" using c by (intro children_with_tag) blast
  moreover have "concat (map (elementsByTagName ''connection'') es) = []"
    using e other [of "''element''" _ "''connection''"] by (intro no_tags) auto
  ultimately have tags: "elementsByTagName ''element'' doc = es" "elementsByTagName ''connection'' doc = cs"
    by (simp_all add: doc)
  show "map readElement (elementsByTagName ''element'' doc) =
      map (\<lambda>(i, e). (el_id (elems (ld_plv s) e), mo_className (ld_meta s e), savedProperties qv (ld_meta s e)))
        (children (ld_plv s))"
    unfolding tags by (rule list_all2_map [OF es]) (use assms(2) serializeElement_read(1) in fastforce)
  show "map readConnection (elementsByTagName ''connection'' doc) =
      map (\<lambda>(i, c). connEnds (ld_plv s) c) (connections (ld_plv s))"
    unfolding tags by (rule list_all2_map [OF cs]) (use assms(3) serializeConnection_read(1) in fastforce)
qed

section \<open>Values that survive\<close>

lemma findName_positions:
  "distinct (map m_name ps) \<Longrightarrow> j < length ps \<Longrightarrow> findName (m_name (ps ! j)) 0 ps = Some (int j)"
  using findName_nth [of ps j 0] by simp

lemma setSelected_restores:
  assumes "enum_inv e" and "distinct (map m_name (map snd (m_items e)))" and "getSelectedItemName e = Inr n"
    and "m_items e' = m_items e"
  shows "setSelected n e' = e"
proof -
  have "map_of (m_items e) (m_selectedIndex e) = Some p \<Longrightarrow> n = m_name p" for p
    using assms(3) by (simp add: getSelectedItemName_def getItemName_def)
  moreover have "map_of (m_items e) (m_selectedIndex e) \<noteq> None"
    using assms(3) by (auto simp: getSelectedItemName_def getItemName_def split: option.splits)
  ultimately have i: "0 \<le> m_selectedIndex e" "nat (m_selectedIndex e) < length (m_items e)"
    "n = m_name (map snd (m_items e) ! nat (m_selectedIndex e))"
    using map_of_items [OF assms(1), of "m_selectedIndex e"] by (auto split: if_splits)
  then have "findName n 0 (map snd (m_items e')) = Some (m_selectedIndex e)"
    using findName_positions [OF assms(2), of "nat (m_selectedIndex e)"] assms(4) by simp
  then show ?thesis using assms(4) by (cases e; cases e') (simp add: setSelected_def)
qed

text \<open>
  The values that the loader restores, where \<open>old\<close> is the value of the property in a new object: an opaque value
  that Qt reads back as it printed it, and any other value of a type that the program knows, in the
  range of its type.
\<close>

fun restorable :: "'d Qv \<Rightarrow> 'd QVariant \<Rightarrow> 'd QVariant \<Rightarrow> bool" where
  "restorable qv old (QBool b) = True"
| "restorable qv old (QChar c) = (c \<noteq> None)"
| "restorable qv old (QByteArray s) = True"
| "restorable qv old (QInt i) = in_int i"
| "restorable qv old (QUInt i) = (0 \<le> i \<and> i \<le> 2 ^ 32 - 1)"
| "restorable qv old (QLongLong i) = (- (2 ^ 63) \<le> i \<and> i \<le> 2 ^ 63 - 1)"
| "restorable qv old (QULongLong i) = (0 \<le> i \<and> i \<le> 2 ^ 64 - 1)"
| "restorable qv old (QString s) = True"
| "restorable qv old (QOpaque t d) =
     (t \<in> {QDoubleType, QTimeType, QUrlType} \<and> qv_read qv t (qv_show qv t d) = d)"
| "restorable qv old (QEnum e) =
     (enum_inv e \<and> distinct (map m_name (map snd (m_items e))) \<and>
      (case old of QEnum e' \<Rightarrow> m_items e' = m_items e | _ \<Rightarrow> False))"
| "restorable qv old v = False"

lemma lower_true: "qs_lower ''true'' = ''true''" "qs_lower ''false'' = ''false''"
  by (simp_all add: qs_lower_def)

lemma propertyValue_restores:
  assumes "propertyString qv m (n, t) = Inr str" and "typeOf (obj_property m n) = t" and "propertyType m' n = t"
    and "restorable qv (obj_property m' n) (obj_property m n)"
  shows "propertyValue qv m' n str = obj_property m n"
proof (cases "obj_property m n")
  case (QEnum e)
  then obtain e' where e': "obj_property m' n = QEnum e'" "m_items e' = m_items e"
    using assms(4) by (auto split: QVariant.splits)
  have "t = QUserType" using QEnum assms(2) by simp
  moreover from this have "getSelectedItemName e = Inr str" using QEnum assms(1) by (simp add: propertyString_def)
  moreover have "enum_inv e" "distinct (map m_name (map snd (m_items e)))" using assms(4) QEnum by simp_all
  ultimately show ?thesis
    using QEnum e' assms(3) setSelected_restores by (simp add: propertyValue_def)
qed (use assms in \<open>auto simp: propertyString_def propertyValue_def convertData_def lower_true toIntRange_number in_int_def
      split: option.splits if_splits\<close>)

text \<open>The type of what \<open>convertData\<close> makes, also of a string that is not a value of the type.\<close>

lemma typeOf_convertData:
  "typeOf (convertData qv t s) =
    (if t = QDateType then QDateTimeType
     else if t \<in> {QInvalidType, QDateTimeType, QStringType, QUserType} then QStringType else t)"
  by (cases t) (simp_all add: convertData_def)

end
