(* ===== verification/Loader_Properties.thy ===== *)
theory Loader_Properties
  imports Pipeline_Loader Sample_Pipeline
begin

text \<open>
  What saving and loading a pipeline promises, with the sample pipeline, whose elements have a number, a switch
  and an enumeration as properties, as example.
\<close>

section \<open>An example\<close>

definition demo_qv :: "unit Qv" where
  "demo_qv = \<lparr>qv_show = (\<lambda>t d. ''1.5''), qv_read = (\<lambda>t s. ())\<rparr>"

definition demo_mode :: "int \<Rightarrow> Enum" where
  "demo_mode i = (enum_add ''fast'' 7 (enum_add ''exact'' 3 (enum_new 0)))\<lparr>m_selectedIndex := i\<rparr>"

definition demo_meta :: "int \<Rightarrow> unit MetaObject" where
  "demo_meta i =
     \<lparr>mo_className = ''plv::Filter'',
      mo_own = [(''threshold'', QIntType), (''enabled'', QBoolType), (''mode'', QUserType)], mo_inherited = [],
      mo_values = [''threshold'' \<mapsto> QInt (- 12), ''enabled'' \<mapsto> QBool True, ''mode'' \<mapsto> QEnum (demo_mode i),
                   ''sceneCoordX'' \<mapsto> QString ''40'', ''sceneCoordY'' \<mapsto> QString ''80'']\<rparr>"

definition demo_loader :: "(nat, unit) loader" where
  "demo_loader = \<lparr>ld_plv = demo, ld_meta = (\<lambda>e. demo_meta 1)\<rparr>"

lemma demo_plain: "plain_names (demo_meta i)"
  by (simp add: plain_names_def demo_meta_def)

lemma demo_class: "mo_className (demo_meta i) = ''plv::Filter''"
  by (simp add: demo_meta_def)


section \<open>Documents\<close>

text \<open>C38. From the document of a saved pipeline the loader reads the elements with their ids, class names and
  properties, and the connections with the ids of their ends, all in the order in which they were saved,
  provided that no property is called \<open>element\<close> or \<open>connection\<close>, the tags by which the loader searches.\<close>

theorem loader_reads_what_was_saved:
  assumes "serialize qv s = Inr doc"
    and "\<forall>(i, e) \<in> set (children (ld_plv s)). in_int (el_id (elems (ld_plv s) e)) \<and> plain_names (ld_meta s e)"
    and "\<forall>(i, c) \<in> set (connections (ld_plv s)). ends_ok (ld_plv s) c"
  shows "map readElement (elementsByTagName ''element'' doc) =
      map (\<lambda>(i, e). (el_id (elems (ld_plv s) e), mo_className (ld_meta s e), savedProperties qv (ld_meta s e)))
        (children (ld_plv s)) \<and>
    map readConnection (elementsByTagName ''connection'' doc) =
      map (\<lambda>(i, c). connEnds (ld_plv s) c) (connections (ld_plv s))"
  using serialize_read [OF assms] by blast

theorem loader_reads_what_was_saved_witness:
  "\<exists>doc. serialize demo_qv demo_loader = Inr doc \<and>
     map readConnection (elementsByTagName ''connection'' doc) = [((0, 0), (1, 0)), ((0, 0), (2, 0)), ((1, 0), (2, 1))] \<and>
     map fst (map readElement (elementsByTagName ''element'' doc)) = [0, 1, 2]"
proof -
  have "isl (serialize demo_qv demo_loader) = False" by code_simp
  then obtain doc where doc: "serialize demo_qv demo_loader = Inr doc" by (cases "serialize demo_qv demo_loader") auto
  have ids: "children demo = [(0, 0), (1, 1), (2, 2)]" "connections demo = [(0, 0), (1, 1), (2, 2)]"
    "el_id (elems demo 0) = 0" "el_id (elems demo 1) = 1" "el_id (elems demo 2) = 2" by code_simp+
  have ends: "connEnds demo 0 = ((0, 0), (1, 0))" "connEnds demo 1 = ((0, 0), (2, 0))" "connEnds demo 2 = ((1, 0), (2, 1))"
    by code_simp+
  have e: "ends_ok demo 0" "ends_ok demo 1" "ends_ok demo 2"
    by (simp_all add: ends_ok_def demo_def demo_world_def demo_conn_def demo_opin_def demo_ipin_def demo_elem_def in_int_def)
  have fields: "ld_plv demo_loader = demo" "ld_meta demo_loader = (\<lambda>e. demo_meta 1)" by (simp_all add: demo_loader_def)
  have h: "\<forall>(i, e) \<in> set (children (ld_plv demo_loader)).
      in_int (el_id (elems (ld_plv demo_loader) e)) \<and> plain_names (ld_meta demo_loader e)"
    "\<forall>(i, c) \<in> set (connections (ld_plv demo_loader)). ends_ok (ld_plv demo_loader) c"
    unfolding fields ids(1,2) by (simp_all add: demo_plain ids in_int_def e del: One_nat_def)
  note read = loader_reads_what_was_saved [OF doc h, unfolded fields ids(1,2) list.map prod.case ids(3-5) ends demo_class]
  have "map fst (map readElement (elementsByTagName ''element'' doc)) = [0, 1, 2]"
    unfolding conjunct1 [OF read] by simp
  with doc conjunct2 [OF read] show ?thesis by (intro exI [of _ doc]) (simp only: simp_thms)
qed





section \<open>A failed load\<close>

text \<open>When a later element cannot be made, the elements before it stay in the pipeline.\<close>

lemma addElement_not_empty [simp]: "\<not> isEmpty (snd (addElement e w))"
proof -
  have "qm_insert i e m \<noteq> []" for i :: int and m by (induction i e m rule: qm_insert.induct) auto
  then show ?thesis by (simp add: addElement_def isEmpty_def Let_def)
qed

lemma fold_loadProperty: "ld_plv (fold (loadProperty qv pg e) ps s) = ld_plv s"
  by (induction ps arbitrary: s) (simp_all add: loadProperty_def)

lemma unknown_type_leaves_elements:
  assumes "parseElement qv pg f d s = (Inr (), s1)" and "elementId (namedItem ''name'' d') f = - 1"
  shows "fst (parseElements qv pg f (d # d' # ds) s) =
      Inl (StdRuntimeError (''XML document contains unknown processor type '' @ namedItem ''name'' d')) \<and>
    \<not> isEmpty (ld_plv (snd (parseElements qv pg f (d # d' # ds) s)))"
proof -
  have "\<not> isEmpty (ld_plv s1)"
    using assms(1) addElement_not_empty
    by (auto simp: parseElement_def Let_def fold_loadProperty split: prod.splits if_splits sum.splits option.splits)
  then show ?thesis using assms by (simp add: parseElements_def parseElement_def readElement_def)
qed

end
