(* ===== verification/Plugin_Io.thy ===== *)
theory Plugin_Io
  imports Delivery
begin

text \<open>
  Plug-ins with a state of their own.  The \<open>process()\<close> and \<open>produce()\<close> methods of the processors in the repository
  read and write their members and call their pins; \<open>plugin_io\<close> is the tree of the calls with a result of any type
  at the leaves, and \<open>proc\<close> the monad in which the methods are written: a state, the exceptions, and the
  calls.  \<open>io_code\<close> forgets the state and gives the \<open>plugin_code\<close> that the pipeline runs.

  \<open>play\<close> runs a method against a description of its pins instead of the store of the pipeline; \<open>exec_play\<close> says that
  both agree.
\<close>

section \<open>Trees of calls\<close>

datatype ('v, 'a) plugin_io =
    Done 'a
  | IoError PlvErrorType string "('v, 'a) plugin_io"
  | IoConnected ref "bool \<Rightarrow> ('v, 'a) plugin_io"
  | IoHasItems ref "bool \<Rightarrow> ('v, 'a) plugin_io"
  | IoGet ref "plv_exn + 'v option \<Rightarrow> ('v, 'a) plugin_io"
  | IoPut ref 'v "plv_exn + unit \<Rightarrow> ('v, 'a) plugin_io"

primrec io_bind :: "('v, 'a) plugin_io \<Rightarrow> ('a \<Rightarrow> ('v, 'b) plugin_io) \<Rightarrow> ('v, 'b) plugin_io" where
  "io_bind (Done a) f = f a"
| "io_bind (IoError t msg k) f = IoError t msg (io_bind k f)"
| "io_bind (IoConnected q k) f = IoConnected q (\<lambda>b. io_bind (k b) f)"
| "io_bind (IoHasItems q k) f = IoHasItems q (\<lambda>b. io_bind (k b) f)"
| "io_bind (IoGet q k) f = IoGet q (\<lambda>r. io_bind (k r) f)"
| "io_bind (IoPut p v k) f = IoPut p v (\<lambda>r. io_bind (k r) f)"

primrec io_code :: "('v, (plv_exn + bool) \<times> 's) plugin_io \<Rightarrow> 'v plugin_code" where
  "io_code (Done r) = (case fst r of Inl x \<Rightarrow> Throw x | Inr b \<Rightarrow> Return b)"
| "io_code (IoError t msg k) = SetError t msg (io_code k)"
| "io_code (IoConnected q k) = IsConnected q (\<lambda>b. io_code (k b))"
| "io_code (IoHasItems q k) = HasDataItems q (\<lambda>b. io_code (k b))"
| "io_code (IoGet q k) = Get q (\<lambda>r. io_code (k r))"
| "io_code (IoPut p v k) = Put p v (\<lambda>r. io_code (k r))"

primrec exec_io :: "('v, 'a) plugin_io \<Rightarrow> ref \<Rightarrow> ('v plv, 'a) plvM" where
  "exec_io (Done a) e = returnM a"
| "exec_io (IoError t msg k) e = seqM (modifyM (setError e t msg)) (exec_io k e)"
| "exec_io (IoConnected q k) e = bindM (getM (ipin_isConnected q)) (\<lambda>b. exec_io (k b) e)"
| "exec_io (IoHasItems q k) e = bindM (getM (ipin_hasDataItems q)) (\<lambda>b. exec_io (k b) e)"
| "exec_io (IoGet q k) e = attempt (getVariant q) (\<lambda>r. exec_io (k r) e)"
| "exec_io (IoPut p v k) e = attempt (opin_put p v) (\<lambda>r. exec_io (k r) e)"

primrec io_pins :: "ref set \<Rightarrow> ref set \<Rightarrow> ('v, 'a) plugin_io \<Rightarrow> bool" where
  "io_pins ins outs (Done a) = True"
| "io_pins ins outs (IoError t msg k) = io_pins ins outs k"
| "io_pins ins outs (IoConnected q k) = (q \<in> ins \<and> (\<forall>b. io_pins ins outs (k b)))"
| "io_pins ins outs (IoHasItems q k) = (q \<in> ins \<and> (\<forall>b. io_pins ins outs (k b)))"
| "io_pins ins outs (IoGet q k) = (q \<in> ins \<and> (\<forall>r. io_pins ins outs (k r)))"
| "io_pins ins outs (IoPut p v k) = (p \<in> outs \<and> (\<forall>r. io_pins ins outs (k r)))"

section \<open>The methods of plug-ins\<close>

type_synonym ('v, 's, 'a) proc = "'s \<Rightarrow> ('v, (plv_exn + 'a) \<times> 's) plugin_io"

definition retP :: "'a \<Rightarrow> ('v, 's, 'a) proc" where
  "retP x s = Done (Inr x, s)"

definition throwP :: "plv_exn \<Rightarrow> ('v, 's, 'a) proc" where
  "throwP x s = Done (Inl x, s)"

definition bindP :: "('v, 's, 'a) proc \<Rightarrow> ('a \<Rightarrow> ('v, 's, 'b) proc) \<Rightarrow> ('v, 's, 'b) proc" where
  "bindP m f s = io_bind (m s) (\<lambda>(r, s'). case r of Inl x \<Rightarrow> Done (Inl x, s') | Inr a \<Rightarrow> f a s')"

definition seqP :: "('v, 's, unit) proc \<Rightarrow> ('v, 's, 'b) proc \<Rightarrow> ('v, 's, 'b) proc" where
  "seqP m n = bindP m (\<lambda>_. n)"

definition getP :: "('s \<Rightarrow> 'a) \<Rightarrow> ('v, 's, 'a) proc" where
  "getP f s = Done (Inr (f s), s)"

definition modifyP :: "('s \<Rightarrow> 's) \<Rightarrow> ('v, 's, unit) proc" where
  "modifyP f s = Done (Inr (), f s)"

definition assertP :: "bool \<Rightarrow> ('v, 's, unit) proc" where
  "assertP b s = Done (if b then Inr () else Inl AssertFailed, s)"

definition liftP :: "plv_exn + 'a \<Rightarrow> ('v, 's, 'a) proc" where
  "liftP r s = Done (r, s)"

definition setErrorP :: "PlvErrorType \<Rightarrow> string \<Rightarrow> ('v, 's, unit) proc" where
  "setErrorP t msg s = IoError t msg (Done (Inr (), s))"

definition isConnectedP :: "ref \<Rightarrow> ('v, 's, bool) proc" where
  "isConnectedP q s = IoConnected q (\<lambda>b. Done (Inr b, s))"

definition hasDataItemsP :: "ref \<Rightarrow> ('v, 's, bool) proc" where
  "hasDataItemsP q s = IoHasItems q (\<lambda>b. Done (Inr b, s))"

definition getVariantP :: "ref \<Rightarrow> ('v, 's, 'v option) proc" where
  "getVariantP q s = IoGet q (\<lambda>r. Done (r, s))"

definition putP :: "ref \<Rightarrow> 'v \<Rightarrow> ('v, 's, unit) proc" where
  "putP p v s = IoPut p v (\<lambda>r. Done (r, s))"

lemmas proc_defs = retP_def throwP_def bindP_def seqP_def getP_def modifyP_def assertP_def liftP_def
  setErrorP_def isConnectedP_def hasDataItemsP_def getVariantP_def putP_def

lemma io_bind_pins:
  "io_pins ins outs m \<Longrightarrow> (\<And>a. io_pins ins outs (f a)) \<Longrightarrow> io_pins ins outs (io_bind m f)"
  by (induction m) simp_all

text \<open>The code that the pipeline runs does the calls of the method and returns its result.\<close>

lemma exec_io_code:
  "exec (io_code p) e w =
     (case exec_io p e w of (Inl x, w') \<Rightarrow> (Inl x, w') | (Inr (r, s), w') \<Rightarrow> (r, w'))"
proof (induction p arbitrary: w)
  case (Done a)
  then show ?case by (cases a) (auto simp: monad_defs split: sum.splits)
qed (auto simp: monad_defs attempt_def split: prod.splits sum.splits)

lemma own_pins_io_code: "own_pins ins outs (io_code p) = io_pins ins outs p"
  by (induction p) (auto split: sum.splits)

section \<open>Running a method on its own\<close>

text \<open>What a method sees of an input pin, and the value it has put on each output pin.\<close>

record 'v pin_view =
  pv_connected :: bool
  pv_called :: bool
  pv_queue :: "'v Data list"

record 'v rig =
  rg_in :: "ref \<Rightarrow> 'v pin_view"
  rg_out :: "ref \<Rightarrow> 'v option"

text \<open>The exceptions of \<open>get()\<close> and \<open>put()\<close> name the pins.\<close>

record pin_errors =
  pe_twice :: "ref \<Rightarrow> plv_exn"
  pe_empty :: "ref \<Rightarrow> plv_exn"
  pe_null :: "ref \<Rightarrow> plv_exn"
  pe_put :: "ref \<Rightarrow> plv_exn"

definition view_get :: "pin_errors \<Rightarrow> ref \<Rightarrow> 'v rig \<Rightarrow> (plv_exn + 'v option) \<times> 'v rig" where
  "view_get er q rg =
     (let v = rg_in rg q; called = (\<lambda>ds. rg\<lparr>rg_in := (rg_in rg)(q := v\<lparr>pv_called := True, pv_queue := ds\<rparr>)\<rparr>) in
      if pv_called v then (Inl (pe_twice er q), rg)
      else (case pv_queue v of
          [] \<Rightarrow> (Inl (pe_empty er q), called [])
        | d # ds \<Rightarrow> (if d_null d then Inl (pe_null er q) else Inr (d_payload d), called ds)))"

definition view_put :: "pin_errors \<Rightarrow> ref \<Rightarrow> 'v \<Rightarrow> 'v rig \<Rightarrow> (plv_exn + unit) \<times> 'v rig" where
  "view_put er p v rg =
     (case rg_out rg p of
        Some u \<Rightarrow> (Inl (pe_put er p), rg)
      | None \<Rightarrow> (Inr (), rg\<lparr>rg_out := (rg_out rg)(p := Some v)\<rparr>))"

primrec play :: "pin_errors \<Rightarrow> ('v, 'a) plugin_io \<Rightarrow> 'v rig \<Rightarrow> 'a \<times> 'v rig" where
  "play er (Done a) rg = (a, rg)"
| "play er (IoError t msg k) rg = play er k rg"
| "play er (IoConnected q k) rg = play er (k (pv_connected (rg_in rg q))) rg"
| "play er (IoHasItems q k) rg = play er (k (pv_queue (rg_in rg q) \<noteq> [])) rg"
| "play er (IoGet q k) rg = (case view_get er q rg of (r, rg') \<Rightarrow> play er (k r) rg')"
| "play er (IoPut p v k) rg = (case view_put er p v rg of (r, rg') \<Rightarrow> play er (k r) rg')"

lemma play_bind: "play er (io_bind m f) rg = (case play er m rg of (a, rg') \<Rightarrow> play er (f a) rg')"
  by (induction m arbitrary: rg) (auto split: prod.splits)

named_theorems play_simps "what the calls of a method do to the rig"

lemma play_bindP [play_simps]:
  "play er (bindP m f s) rg =
     (case play er (m s) rg of ((r, s'), rg') \<Rightarrow>
        (case r of Inl x \<Rightarrow> ((Inl x, s'), rg') | Inr a \<Rightarrow> play er (f a s') rg'))"
  by (auto simp: bindP_def play_bind split: prod.splits sum.splits)

lemma play_seqP [play_simps]:
  "play er (seqP m n s) rg =
     (case play er (m s) rg of ((r, s'), rg') \<Rightarrow>
        (case r of Inl x \<Rightarrow> ((Inl x, s'), rg') | Inr a \<Rightarrow> play er (n s') rg'))"
  by (simp add: seqP_def play_bindP)

lemma play_calls [play_simps]:
  "play er (retP x s) rg = ((Inr x, s), rg)"
  "play er (throwP e s) rg = ((Inl e, s), rg)"
  "play er (getP f s) rg = ((Inr (f s), s), rg)"
  "play er (modifyP g s) rg = ((Inr (), g s), rg)"
  "play er (assertP b s) rg = ((if b then Inr () else Inl AssertFailed, s), rg)"
  "play er (liftP r s) rg = ((r, s), rg)"
  "play er (setErrorP t msg s) rg = ((Inr (), s), rg)"
  "play er (isConnectedP q s) rg = ((Inr (pv_connected (rg_in rg q)), s), rg)"
  "play er (hasDataItemsP q s) rg = ((Inr (pv_queue (rg_in rg q) \<noteq> []), s), rg)"
  "play er (getVariantP q s) rg = (case view_get er q rg of (r, rg') \<Rightarrow> ((r, s), rg'))"
  "play er (putP p v s) rg = (case view_put er p v rg of (r, rg') \<Rightarrow> ((r, s), rg'))"
  by (simp_all add: proc_defs split: prod.split)

text \<open>The pins a method uses.\<close>

definition pinsP :: "ref set \<Rightarrow> ref set \<Rightarrow> ('v, 's, 'a) proc \<Rightarrow> bool" where
  "pinsP ins outs m \<longleftrightarrow> (\<forall>s. io_pins ins outs (m s))"

lemma pinsP_bind: "pinsP ins outs m \<Longrightarrow> (\<And>a. pinsP ins outs (f a)) \<Longrightarrow> pinsP ins outs (bindP m f)"
  unfolding pinsP_def bindP_def by (intro allI io_bind_pins) (auto split: sum.splits prod.splits)

lemma pinsP_seq: "pinsP ins outs m \<Longrightarrow> pinsP ins outs n \<Longrightarrow> pinsP ins outs (seqP m n)"
  by (simp add: seqP_def pinsP_bind)

lemma pinsP_calls:
  "pinsP ins outs (retP x)" "pinsP ins outs (throwP e)" "pinsP ins outs (getP g)" "pinsP ins outs (modifyP h)"
  "pinsP ins outs (assertP b)" "pinsP ins outs (liftP r)" "pinsP ins outs (setErrorP t msg)"
  "pinsP ins outs (isConnectedP q) = (q \<in> ins)" "pinsP ins outs (hasDataItemsP q) = (q \<in> ins)"
  "pinsP ins outs (getVariantP q) = (q \<in> ins)" "pinsP ins outs (putP p v) = (p \<in> outs)"
  by (simp_all add: pinsP_def proc_defs)

text \<open>The rig of a frame: on each pin at most one value, no pin called yet.\<close>

definition frame_rig :: "serial \<Rightarrow> (ref \<Rightarrow> 'v option option) \<Rightarrow> 'v rig" where
  "frame_rig s val =
     \<lparr>rg_in = (\<lambda>q. case val q of
         None \<Rightarrow> \<lparr>pv_connected = False, pv_called = False, pv_queue = []\<rparr>
       | Some None \<Rightarrow> \<lparr>pv_connected = True, pv_called = False, pv_queue = []\<rparr>
       | Some (Some v) \<Rightarrow> \<lparr>pv_connected = True, pv_called = False, pv_queue = [Data_payload s v]\<rparr>),
      rg_out = (\<lambda>p. None)\<rparr>"

text \<open>A sequence of frames: what is put on one output pin in each of them.\<close>

fun drive ::
    "pin_errors \<Rightarrow> ('v, 's, bool) proc \<Rightarrow> ref \<Rightarrow> 's \<Rightarrow> 'v rig list \<Rightarrow> (plv_exn + 'v option list) \<times> 's" where
  "drive er m p s [] = (Inr [], s)"
| "drive er m p s (r # rs) =
     (case play er (m s) r of
        ((Inl x, s'), rg) \<Rightarrow> (Inl x, s')
      | ((Inr b, s'), rg) \<Rightarrow>
          (case drive er m p s' rs of (res, s'') \<Rightarrow> (map_sum id ((#) (rg_out rg p)) res, s'')))"

lemma drive_append:
  "drive er m p s rs = (Inr os, s') \<Longrightarrow>
    drive er m p s (rs @ rs') = (case drive er m p s' rs' of (res, s'') \<Rightarrow> (map_sum id ((@) os) res, s''))"
proof (induction rs arbitrary: s os)
  case Nil
  then show ?case by (cases "drive er m p s' rs'"; cases "fst (drive er m p s' rs')") auto
next
  case (Cons r rs)
  then obtain b s1 rg os1 where "play er (m s) r = ((Inr b, s1), rg)" "drive er m p s1 rs = (Inr os1, s')"
    "os = rg_out rg p # os1"
    by (auto split: prod.splits sum.splits simp: map_sum_def)
  with Cons.IH [of s1 os1] show ?case
    by (cases "drive er m p s' rs'"; cases "fst (drive er m p s' rs')") auto
qed

section \<open>The pins of an element in the store\<close>

definition in_queue :: "ref \<Rightarrow> 'v plv \<Rightarrow> 'v Data list" where
  "in_queue q w = (case ip_connection (ipins w q) of None \<Rightarrow> [] | Some c \<Rightarrow> c_queue (conns w c))"

definition view_of :: "'v plv \<Rightarrow> ref \<Rightarrow> 'v pin_view" where
  "view_of w q = \<lparr>pv_connected = ipin_isConnected q w, pv_called = ip_called (ipins w q), pv_queue = in_queue q w\<rparr>"

definition rig_of :: "'v plv \<Rightarrow> 'v rig" where
  "rig_of w = \<lparr>rg_in = view_of w, rg_out = (\<lambda>p. None)\<rparr>"

definition errors_of :: "'v plv \<Rightarrow> pin_errors" where
  "errors_of w =
     \<lparr>pe_twice = (\<lambda>q. pinError ''Illegal: method get() called twice during process() on InputPin '' q w),
      pe_empty = (\<lambda>q. pinError ''Illegal: method get() called on InputPin which has no data available. Pin name is '' q w),
      pe_null = (\<lambda>q. pinError ''Illegal: method get() called on InputPin which has a NULL data item available. Pin name is '' q w),
      pe_put = (\<lambda>p. RuntimeError (''Illegal: method put() called twice during process() on OutputPin. Pin name is '' @ dquote @
              op_name (opins w p) @ dquote @ '' of processor '' @ dquote @
              el_name (elems w (op_owner (opins w p))) @ dquote))\<rparr>"

text \<open>\<open>at_pins\<close>: the store stands behind the rig; \<open>w0\<close> is the store before the method was called.\<close>

definition at_pins :: "ref \<Rightarrow> serial \<Rightarrow> 'v plv \<Rightarrow> 'v plv \<Rightarrow> 'v rig \<Rightarrow> bool" where
  "at_pins e s w0 w rg \<longleftrightarrow>
     (\<forall>q \<in> set (inputPins e w0). rg_in rg q = view_of w q) \<and>
     (\<forall>p \<in> set (outputPins e w0).
        op_called (opins w p) = (rg_out rg p \<noteq> None) \<and>
        (\<forall>c \<in> set (op_connections (opins w0 p)).
           c_queue (conns w c) = c_queue (conns w0 c) @
             (case rg_out rg p of None \<Rightarrow> [] | Some v \<Rightarrow> [Data_payload s v])))"

definition own_inputs :: "ref \<Rightarrow> 'v plv \<Rightarrow> bool" where
  "own_inputs e w \<longleftrightarrow>
     (\<forall>q \<in> set (inputPins e w). \<forall>q' \<in> set (inputPins e w).
        ip_connection (ipins w q) \<noteq> None \<longrightarrow> ip_connection (ipins w q) = ip_connection (ipins w q') \<longrightarrow> q = q')"

lemma own_inputsD:
  "own_inputs e w \<Longrightarrow> q \<in> set (inputPins e w) \<Longrightarrow> q' \<in> set (inputPins e w) \<Longrightarrow>
    ip_connection (ipins w q) = Some c \<Longrightarrow> ip_connection (ipins w q') = Some c \<Longrightarrow> q = q'"
  by (simp add: own_inputs_def)

lemma el_fixed_name: "el_fixed a b \<Longrightarrow> el_name a = el_name b"
  by (cases a; cases b) (simp add: el_fixed_def)

lemma opin_called_name: "a\<lparr>op_called := False\<rparr> = b\<lparr>op_called := False\<rparr> \<Longrightarrow> op_name a = op_name b"
  by (cases a; cases b) simp

lemma frame_names:
  assumes "pin_frame w w'"
  shows "el_name (elems w' x) = el_name (elems w x)" "ip_name (ipins w' q) = ip_name (ipins w q)"
    "op_name (opins w' p) = op_name (opins w p)"
  using assms by (auto simp: pin_frame_def dest: spec ipin_called_eqD el_fixed_name opin_called_name)

lemma errors_of_frame: "pin_frame w w' \<Longrightarrow> errors_of w' = errors_of w"
  using frame_names [of w w'] by (auto simp: errors_of_def pinError_def pin_frameD)

section \<open>Both semantics agree\<close>

lemma getVariant_view:
  assumes g: "getVariant q w = (r, w')" and v: "rg_in rg q = view_of w q"
  shows "r = fst (view_get (errors_of w) q rg)" (is ?r)
    and "rg_in (snd (view_get (errors_of w) q rg)) = (rg_in rg)(q := view_of w' q)" (is ?v)
    and "rg_out (snd (view_get (errors_of w) q rg)) = rg_out rg" (is ?o)
    and "q' \<noteq> q \<Longrightarrow> ip_called (ipins w' q') = ip_called (ipins w q')"
    and "r = Inl x \<Longrightarrow> catchable x"
proof -
  have "?r \<and> ?v \<and> ?o \<and> (q' \<noteq> q \<longrightarrow> ip_called (ipins w' q') = ip_called (ipins w q')) \<and> (\<forall>x. r = Inl x \<longrightarrow> catchable x)"
  proof (cases "ip_called (ipins w q)")
    case True
    then show ?thesis
      using g v by (auto simp: getVariant_def view_get_def view_of_def errors_of_def pinError_def catchable_def fun_eq_iff)
  next
    case False
    let ?w1 = "upd_ipin q (\<lambda>qi. qi\<lparr>ip_called := True\<rparr>) w"
    have err: "pinError m q ?w1 = pinError m q w" for m by (simp add: pinError_def)
    show ?thesis
    proof (cases "ip_connection (ipins w q)")
      case None
      then show ?thesis
        using g v False err by (auto simp: getVariant_def view_get_def view_of_def in_queue_def errors_of_def
            pinError_def catchable_def ipin_isConnected_def fun_eq_iff)
    next
      case (Some c)
      show ?thesis
      proof (cases "c_queue (conns w c)")
        case Nil
        then show ?thesis
          using g v False err Some by (auto simp: getVariant_def view_get_def view_of_def in_queue_def errors_of_def
              pinError_def catchable_def ipin_isConnected_def conn_hasDataItems_def fun_eq_iff)
      next
        case (Cons d ds)
        then show ?thesis
          using g v False err Some by (auto simp: getVariant_def view_get_def view_of_def in_queue_def errors_of_def
              pinError_def catchable_def ipin_isConnected_def conn_hasDataItems_def conn_get_def conn_front_def
              conn_pop_def bindM_def throwM_def returnM_def fun_eq_iff)
      qed
    qed
  qed
  then show ?r ?v ?o "q' \<noteq> q \<Longrightarrow> ip_called (ipins w' q') = ip_called (ipins w q')" "r = Inl x \<Longrightarrow> catchable x"
    by blast+
qed

lemma at_pinsD:
  assumes "at_pins e s w0 w rg"
  shows "q \<in> set (inputPins e w0) \<Longrightarrow> rg_in rg q = view_of w q"
    and "p \<in> set (outputPins e w0) \<Longrightarrow> op_called (opins w p) = (rg_out rg p \<noteq> None)"
    and "p \<in> set (outputPins e w0) \<Longrightarrow> c \<in> set (op_connections (opins w0 p)) \<Longrightarrow>
      c_queue (conns w c) = c_queue (conns w0 c) @
        (case rg_out rg p of None \<Rightarrow> [] | Some v \<Rightarrow> [Data_payload s v])"
  using assms by (simp_all add: at_pins_def)

lemma at_pins_get:
  assumes at: "at_pins e s w0 w rg" and fr: "pin_frame w0 w" and own: "own_inputs e w0"
    and lw: "local_wiring e w0" and q: "q \<in> set (inputPins e w0)" and g: "getVariant q w = (r, w')"
  shows "r = fst (view_get (errors_of w0) q rg) \<and> at_pins e s w0 w' (snd (view_get (errors_of w0) q rg)) \<and>
    pin_frame w0 w' \<and> (\<forall>x. r = Inl x \<longrightarrow> catchable x)"
proof -
  note st = getVariant_step [OF g]
  note vw = getVariant_view [OF g at_pinsD(1) [OF at q], unfolded errors_of_frame [OF fr]]
  have fr': "pin_frame w0 w'" using fr st by (blast intro: pin_frame_trans)
  have other: "view_of w' q' = view_of w q'" if q': "q' \<in> set (inputPins e w0)" "q' \<noteq> q" for q'
  proof -
    have "conns w' c = conns w c" if "ip_connection (ipins w q') = Some c" for c
    proof -
      have "ip_connection (ipins w0 q') = Some c" using that by (simp add: pin_frameD(3) [OF fr])
      with own_inputsD [OF own q q'(1)] q'(2) have "ip_connection (ipins w0 q) \<noteq> Some c" by auto
      then show ?thesis using st by (simp add: pin_frameD(3) [OF fr])
    qed
    then have "in_queue q' w' = in_queue q' w"
      by (simp add: in_queue_def pin_frameD(3) [OF fr] pin_frameD(3) [OF fr'] split: option.splits)
    then show ?thesis
      using vw(4) [OF q'(2)] by (simp add: view_of_def pin_frame_connected(1) [OF fr] pin_frame_connected(1) [OF fr'])
  qed
  have outs: "c_queue (conns w' c) = c_queue (conns w c)"
    if "p \<in> set (outputPins e w0)" "c \<in> set (op_connections (opins w0 p))" for p c
  proof -
    have "c \<notin> set (inputConnections e w0)"
      using lw outputConnections_mem [OF that] by (auto simp: local_wiring_def)
    then have "ip_connection (ipins w q) \<noteq> Some c"
      using inputConnections_mem [OF q] fr by (auto simp: pin_frameD)
    with st show ?thesis by simp
  qed
  have "at_pins e s w0 w' (snd (view_get (errors_of w0) q rg))"
    unfolding at_pins_def using vw(2,3) other at outs st by (auto simp: at_pins_def)
  with vw(1,5) fr' show ?thesis by blast
qed

lemma opin_put_twice: "op_called (opins w p) \<Longrightarrow> opin_put p v w = (Inl (pe_put (errors_of w) p), w)"
  by (simp add: opin_put_def putVariant_def errors_of_def)

lemma sendAll_ipins: "forM (\<lambda>c. conn_put c d) cs w = (r, w') \<Longrightarrow> ipins w' = ipins w"
proof (induction cs arbitrary: w)
  case (Cons c cs)
  obtain r1 w1 where put: "conn_put c d w = (r1, w1)" by fastforce
  from Cons.prems put conn_put_frame(2) [OF put] Cons.IH [of w1] show ?case by (cases r1) auto
qed simp

lemma at_pins_put:
  assumes at: "at_pins e s w0 w rg" and fr: "pin_frame w0 w"
    and lw: "local_wiring e w0" and p: "p \<in> set (outputPins e w0)" and s: "el_serial (elems w0 e) = s"
    and put: "opin_put p v w = (r, w')" and r: "\<And>x. r = Inl x \<Longrightarrow> catchable x"
  shows "r = fst (view_put (errors_of w0) p v rg) \<and> at_pins e s w0 w' (snd (view_put (errors_of w0) p v rg)) \<and>
    pin_frame w0 w'"
proof (cases "op_called (opins w p)")
  case True
  then obtain u where u: "rg_out rg p = Some u" using at_pinsD(2) [OF at p] by auto
  have "(r, w') = (Inl (pe_put (errors_of w) p), w)" using put opin_put_twice [OF True, of v] by (rule subst)
  then have "r = Inl (pe_put (errors_of w) p)" "w' = w" by blast+
  with u at fr show ?thesis by (simp add: view_put_def errors_of_frame)
next
  case False
  then have u: "rg_out rg p = None" using at_pinsD(2) [OF at p] by auto
  note own = local_wiring_pins [OF lw p]
  let ?cs = "op_connections (opins w0 p)"
  let ?w1 = "emit (viewerData p s) (upd_opin p (\<lambda>po. po\<lparr>op_called := True\<rparr>) w)"
  have "el_serial (elems w (op_owner (opins w p))) = s" using fr own s by (simp add: pin_frameD)
  then have send: "forM (\<lambda>c. conn_put c (Data_payload s v)) ?cs ?w1 = (r, w')"
    using put False fr by (simp add: opin_put_def putVariant_def Let_def pin_frameD)
  from sendAll [OF this own(1)] r
  have all: "pin_frame ?w1 w'" "opins w' = opins ?w1" "r = Inr ()"
    "conns w' = (\<lambda>c. if c \<in> set ?cs then conn_push (Data_payload s v) (conns ?w1 c) else conns ?w1 c)"
    by (cases r; auto)+
  have fr': "pin_frame w0 w'"
    by (rule pin_frame_trans [OF fr pin_frame_trans [OF _ all(1)]])
      (rule pin_frame_trans [OF pin_frame_updates(2) pin_frame_updates(5)])
  have "in_queue q w' = in_queue q w" if q: "q \<in> set (inputPins e w0)" for q
  proof (cases "ip_connection (ipins w0 q)")
    case (Some c)
    have "c \<notin> set ?cs"
      using lw inputConnections_mem [OF q Some] outputConnections_mem [OF p] by (auto simp: local_wiring_def)
    with Some show ?thesis by (simp add: in_queue_def pin_frameD(3) [OF fr] pin_frameD(3) [OF fr'] all(4))
  qed (simp add: in_queue_def pin_frameD(3) [OF fr] pin_frameD(3) [OF fr'])
  then have views: "view_of w' q = view_of w q" if "q \<in> set (inputPins e w0)" for q
    using sendAll_ipins [OF send] that
    by (simp add: view_of_def pin_frame_connected(1) [OF fr] pin_frame_connected(1) [OF fr'])
  have queues: "c_queue (conns w' c) = c_queue (conns w c) @ (if p' = p then [Data_payload s v] else [])"
    if "p' \<in> set (outputPins e w0)" "c \<in> set (op_connections (opins w0 p'))" for p' c
    using own(3) [OF that(1)] that(2) by (auto simp: all(4) conn_push_def)
  have "at_pins e s w0 w' (rg\<lparr>rg_out := (rg_out rg)(p := Some v)\<rparr>)"
    unfolding at_pins_def using at_pinsD [OF at] views queues u by (auto simp: all(2))
  then show ?thesis using fr' u all(3) by (simp add: view_put_def)
qed

text \<open>A run of the calls in the store does what \<open>play\<close> does with the views of the pins.\<close>

lemma exec_play:
  assumes lw: "local_wiring e w0" and own: "own_inputs e w0" and s: "el_serial (elems w0 e) = s"
  shows "at_pins e s w0 w rg \<Longrightarrow> pin_frame w0 w \<Longrightarrow>
    io_pins (set (inputPins e w0)) (set (outputPins e w0)) m \<Longrightarrow> exec_io m e w = (Inr a, w') \<Longrightarrow>
    \<exists>rg'. play (errors_of w0) m rg = (a, rg') \<and> at_pins e s w0 w' rg' \<and> pin_frame w0 w'"
proof (induction m arbitrary: w rg)
  case (IoError t msg k)
  have "at_pins e s w0 (setError e t msg w) rg"
    using IoError.prems(1) by (simp add: at_pins_def view_of_def in_queue_def ipin_isConnected_def setError_def
        setState_def upd_elem_def split: option.splits)
  moreover have "pin_frame w0 (setError e t msg w)"
    using IoError.prems(2) by (rule pin_frame_trans) (rule pin_frame_updates)
  ultimately show ?case using IoError.IH IoError.prems by (simp add: monad_defs)
next
  case (IoConnected q k)
  have "pv_connected (rg_in rg q) = ipin_isConnected q w"
    using at_pinsD(1) [OF IoConnected.prems(1)] IoConnected.prems(3) by (simp add: view_of_def)
  with IoConnected show ?case by (simp add: monad_defs)
next
  case (IoHasItems q k)
  have "(pv_queue (rg_in rg q) \<noteq> []) = ipin_hasDataItems q w"
    using at_pinsD(1) [OF IoHasItems.prems(1)] IoHasItems.prems(3)
    by (simp add: view_of_def in_queue_def ipin_hasDataItems_def conn_hasDataItems_def split: option.splits)
  with IoHasItems show ?case by (simp add: monad_defs)
next
  case (IoGet q k)
  obtain r w1 where g: "getVariant q w = (r, w1)" by fastforce
  obtain r' rg1 where v: "view_get (errors_of w0) q rg = (r', rg1)" by fastforce
  from at_pins_get [OF IoGet.prems(1,2) own lw _ g] IoGet.prems(3) v
  have "r' = r" "at_pins e s w0 w1 rg1" "pin_frame w0 w1" "\<forall>x. r = Inl x \<longrightarrow> catchable x" by auto
  with IoGet g v show ?case by (cases r) (auto simp: attempt_def)
next
  case (IoPut p v k)
  obtain r w1 where g: "opin_put p v w = (r, w1)" by fastforce
  have c: "catchable x" if "r = Inl x" for x
    using IoPut.prems(4) g that by (auto simp: attempt_def split: if_splits)
  obtain r' rg1 where v: "view_put (errors_of w0) p v rg = (r', rg1)" by fastforce
  from at_pins_put [OF IoPut.prems(1,2) lw _ s g c] IoPut.prems(3) v
  have "r' = r" "at_pins e s w0 w1 rg1" "pin_frame w0 w1" by auto
  with IoPut g v c show ?case by (cases r) (auto simp: attempt_def)
qed (auto simp: monad_defs)

end
