(* ===== verification/Plugin_Run.thy ===== *)
theory Plugin_Run
  imports Plugin_Io Pipeline_Wiring
begin

text \<open>
  The run of an element of a pipeline whose plug-in is a method of \<open>Plugin_Io\<close>: the items that appear on the
  connections of the output pins are those that the method puts when it is played against the queues of the
  input pins.  With this lemma the properties of a processor that are proved with \<open>play\<close> hold in every pipeline.
\<close>

definition fresh_view :: "'v plv \<Rightarrow> ref \<Rightarrow> 'v pin_view" where
  "fresh_view w q = \<lparr>pv_connected = ipin_isConnected q w, pv_called = False, pv_queue = in_queue q w\<rparr>"

definition fresh_rig :: "'v plv \<Rightarrow> 'v rig" where
  "fresh_rig w = \<lparr>rg_in = fresh_view w, rg_out = (\<lambda>p. None)\<rparr>"

text \<open>What a run adds to a connection: the value that was put, or a null item on a synchronous connection.\<close>

definition posted :: "serial \<Rightarrow> 'v option \<Rightarrow> plv_exn + bool \<Rightarrow> 'v Data list" where
  "posted s out sync =
     (case out of Some v \<Rightarrow> [Data_payload s v] | None \<Rightarrow> if sync = Inr True then [Data_null s] else [])"

lemma wired_own_inputs:
  assumes "wired w" "is_child w e"
  shows "own_inputs e w"
proof -
  have "q = q'" if "q \<in> set (inputPins e w)" "q' \<in> set (inputPins e w)"
    "ip_connection (ipins w q) = Some c" "ip_connection (ipins w q') = Some c" for q q' c
    using wired_input_connection(2) [OF assms that(1,3)] wired_input_connection(2) [OF assms that(2,4)] by simp
  then show ?thesis unfolding own_inputs_def by (metis option.exhaust)
qed

lemma own_inputs_serial: "own_inputs e' (setProcessingSerial e s w) = own_inputs e' w"
  by (simp add: own_inputs_def serial_static) (simp add: setProcessingSerial_def)

lemma fold_opin_pre_ipins: "ipins (fold opin_pre ps w) = ipins w"
  by (induction ps arbitrary: w) (simp_all add: opin_pre_def)

lemma method_start:
  assumes fr: "pin_frame w0 w" and cs: "conns w = conns w0"
    and called: "\<And>q. q \<in> set (inputPins e w0) \<Longrightarrow> \<not> ip_called (ipins w q)"
  shows "at_pins e s w0 (preOutput e w) (fresh_rig w0)"
proof -
  let ?w = "preOutput e w"
  have fr': "pin_frame w0 ?w" by (rule pin_frame_trans [OF fr preOutput_step(1)])
  have ip: "ipins ?w = ipins w" by (simp add: preOutput_def fold_opin_pre_ipins)
  have q: "in_queue q ?w = in_queue q w0" for q
    by (simp add: in_queue_def pin_frameD(3) [OF fr'] preOutput_step(2) cs split: option.split)
  have "view_of ?w q = fresh_view w0 q" if "q \<in> set (inputPins e w0)" for q
    using called [OF that] q [of q] by (simp add: view_of_def fresh_view_def ip pin_frame_connected(1) [OF fr'])
  moreover have "\<not> op_called (opins ?w p)" if "p \<in> set (outputPins e w0)" for p
    using that pin_frameD(16) [OF fr] by (intro preOutput_step(3)) simp
  ultimately show ?thesis by (simp add: at_pins_def fresh_rig_def preOutput_step(2) cs)
qed

lemma method_posted:
  assumes at: "at_pins e s w0 w rg" and fr: "pin_frame w0 w" and post: "postOutput e w = (Inr (), w')"
    and lw: "local_wiring e w0" and s: "el_serial (elems w0 e) = s"
    and p: "p \<in> set (outputPins e w0)" and c: "c \<in> set (op_connections (opins w0 p))"
  shows "c_queue (conns w' c) = c_queue (conns w0 c) @ posted s (rg_out rg p) (conn_isSynchronous c w0)"
proof -
  have own: "\<forall>p \<in> set (outputPins e w). el_serial (elems w (op_owner (opins w p))) = s"
    using fr lw s by (simp add: pin_frameD local_wiring_def list_all_iff)
  have d: "distinct (outputPins e w)" "distinct (concat (map (\<lambda>p. op_connections (opins w p)) (outputPins e w)))"
    using lw fr by (simp_all add: local_wiring_def outputConnections_def pin_frameD)
  have "conns w' c = (if conn_isSynchronous c w0 = Inr True \<and> \<not> op_called (opins w p)
      then conn_push (Data_null s) (conns w c) else conns w c)"
    using postOutput_loop [OF post [unfolded postOutput_def] d own] p c fr
    by (simp add: pin_frameD pin_frame_sync)
  with at_pinsD(2,3) [OF at p] c show ?thesis
    by (auto simp: posted_def conn_push_def split: option.splits)
qed

section \<open>Runs of processors and producers\<close>

text \<open>\<open>method_run\<close>: the method, played on the queues of the inputs, ends with the answer of the run, and each
  connection of an output pin has got what it put there.\<close>

definition method_run ::
    "ref \<Rightarrow> serial \<Rightarrow> ('v, (plv_exn + bool) \<times> 's) plugin_io \<Rightarrow> 'v plv \<Rightarrow> bool \<Rightarrow> 'v plv \<Rightarrow> bool" where
  "method_run e s m w b w' \<longleftrightarrow>
     (\<exists>st rg. play (errors_of w) m (fresh_rig w) = ((Inr b, st), rg) \<and>
        (\<forall>p \<in> set (outputPins e w). \<forall>c \<in> set (op_connections (opins w p)).
           c_queue (conns w' c) = c_queue (conns w c) @ posted s (rg_out rg p) (conn_isSynchronous c w)))"

lemma serial_views:
  "fresh_rig (setProcessingSerial e s w) = fresh_rig w"
  "errors_of (setProcessingSerial e s w) = errors_of w"
  "conns (setProcessingSerial e s w) = conns w" "opins (setProcessingSerial e s w) = opins w"
proof -
  show "fresh_rig (setProcessingSerial e s w) = fresh_rig w"
    by (simp add: fresh_rig_def fresh_view_def fun_eq_iff in_queue_def ipin_isConnected_def setProcessingSerial_def
        split: option.split)
  have "el_name (elems (setProcessingSerial e s w) x) = el_name (elems w x)" for x
    by (simp add: setProcessingSerial_def upd_elem_def)
  then show "errors_of (setProcessingSerial e s w) = errors_of w"
    by (simp add: errors_of_def pinError_def) (simp add: setProcessingSerial_def)
qed (simp_all add: setProcessingSerial_def)

lemma method_exec:
  assumes lw: "local_wiring e w" and own: "own_inputs e w"
    and pins: "io_pins (set (inputPins e w)) (set (outputPins e w)) m"
    and fr: "pin_frame (setProcessingSerial e s w) w1" and cs: "conns w1 = conns w"
    and called: "\<And>q. q \<in> set (inputPins e w) \<Longrightarrow> \<not> ip_called (ipins w1 q)"
    and ex: "exec (io_code m) e (preOutput e w1) = (Inr b, w3)" and post: "postOutput e w3 = (Inr (), w')"
  shows "method_run e s m w b w'"
proof -
  let ?w0 = "setProcessingSerial e s w"
  have s: "el_serial (elems ?w0 e) = s" by (simp add: setProcessingSerial_def)
  have lw0: "local_wiring e ?w0" and own0: "own_inputs e ?w0"
    using lw own by (simp_all add: serial_static own_inputs_serial)
  from ex obtain st where io: "exec_io m e (preOutput e w1) = (Inr (Inr b, st), w3)"
    by (auto simp: exec_io_code split: prod.splits sum.splits)
  have at: "at_pins e s ?w0 (preOutput e w1) (fresh_rig ?w0)"
    by (rule method_start [OF fr]) (simp_all add: cs serial_views serial_static called)
  have "pin_frame ?w0 (preOutput e w1)" by (rule pin_frame_trans [OF fr preOutput_step(1)])
  from exec_play [OF lw0 own0 s at this _ io] pins obtain rg where
    rg: "play (errors_of w) m (fresh_rig w) = ((Inr b, st), rg)" "at_pins e s ?w0 w3 rg" "pin_frame ?w0 w3"
    by (auto simp: serial_static serial_views)
  have "c_queue (conns w' c) = c_queue (conns w c) @ posted s (rg_out rg p) (conn_isSynchronous c w)"
    if "p \<in> set (outputPins e w)" "c \<in> set (op_connections (opins w p))" for p c
    using method_posted [OF rg(2,3) post lw0 s, of p c] that
    by (simp add: serial_static serial_views conn_isSynchronous_serial)
  with rg(1) show ?thesis by (auto simp: method_run_def)
qed

lemma processor_method_run:
  assumes w: "wired w" and e: "is_child w e"
    and pins: "io_pins (set (inputPins e w)) (set (outputPins e w)) m"
    and data: "fst (preInput e (setProcessingSerial e s w)) = Inr False"
    and run: "processor_process e (io_code m) s w = (Inr b, w')"
  shows "method_run e s m w b w'"
proof -
  let ?w0 = "setProcessingSerial e s w"
  from run data obtain w1 w3 where pre: "preInput e ?w0 = (Inr False, w1)"
    and ex: "exec (io_code m) e (preOutput e w1) = (Inr b, w3)" and po: "postOutput e w3 = (Inr (), w')"
    by (auto simp: processor_process_def run_simps)
  note st = preInputLoop_step [OF pre [unfolded preInput_def]]
  have "\<not> ip_called (ipins w1 q)" if "q \<in> set (inputPins e w)" for q
    using preInputLoop_called [OF pre [unfolded preInput_def], of q] that by (simp add: serial_static)
  with st show ?thesis
    by (intro method_exec [OF wired_local [OF w e] wired_own_inputs [OF w e] pins _ _ _ ex po]) (auto simp: serial_views)
qed

lemma producer_method_run:
  assumes w: "wired w" and e: "is_child w e" and ins: "inputPins e w = []"
    and pins: "io_pins {} (set (outputPins e w)) m"
    and run: "producer_process e (io_code m) s w = (Inr b, w')"
  shows "method_run e s m w b w'"
proof -
  let ?w0 = "setProcessingSerial e s w"
  from run obtain w3 w4 where ex: "exec (io_code m) e (preOutput e ?w0) = (Inr b, w3)"
    and po: "postOutput e w3 = (Inr (), w4)"
    and w': "w' = (if b then w4 else setState e PLE_ERROR w4)"
    by (auto simp: producer_process_def run_simps)
  have "method_run e s m w b w4"
    by (rule method_exec [OF wired_local [OF w e] wired_own_inputs [OF w e] _ _ _ _ ex po])
      (use pins ins in \<open>simp_all add: serial_views\<close>)
  moreover have "conns w' = conns w4" by (simp add: w')
  ultimately show ?thesis by (simp add: method_run_def)
qed

end
