(* ===== verification/Cv_Mat.thy ===== *)
theory Cv_Mat
  imports Plugin_Io Cv_Rect Qt_Strings
begin

text \<open>
  Images: \<open>CvMatData\<close> and \<open>CvMatDataProperties\<close> (\<open>CvMatData.h\<close>, \<open>CvMatData.cpp\<close>), the pins that carry them
  (\<open>CvMatDataPin.cpp\<close>) and the values of the other typed pins.  What a matrix contains is a type parameter; the
  functions of OpenCV that compute contents are parameters of the definitions that call them.
\<close>

section \<open>Types of matrices\<close>

text \<open>The depths, in the order of OpenCV's constants.\<close>

definition CV_8U :: int where "CV_8U = 0"
definition CV_8S :: int where "CV_8S = 1"
definition CV_16U :: int where "CV_16U = 2"
definition CV_16S :: int where "CV_16S = 3"
definition CV_32S :: int where "CV_32S = 4"
definition CV_32F :: int where "CV_32F = 5"
definition CV_64F :: int where "CV_64F = 6"

lemmas depth_defs = CV_8U_def CV_8S_def CV_16U_def CV_16S_def CV_32S_def CV_32F_def CV_64F_def

text \<open>\<open>CV_MAT_DEPTH\<close> takes the lowest three bits.\<close>

definition depthToString :: "int \<Rightarrow> string" where
  "depthToString depth =
     (let d = depth mod 8 in
      if d = CV_8U then ''CV_8U'' else if d = CV_8S then ''CV_8S'' else if d = CV_16U then ''CV_16U''
      else if d = CV_16S then ''CV_16S'' else if d = CV_32S then ''CV_32S'' else if d = CV_32F then ''CV_32F''
      else if d = CV_64F then ''CV_64F'' else ''Invalid depth'')"

text \<open>The type of a matrix combines depth and channels; the two accessors are separate members here.\<close>

record CvMatDataProperties =
  mp_width :: int
  mp_height :: int
  mp_depth :: int
  mp_channels :: int

definition setNumChannels :: "int \<Rightarrow> CvMatDataProperties \<Rightarrow> CvMatDataProperties" where
  "setNumChannels n ps = ps\<lparr>mp_channels := n\<rparr>"

definition setDepth :: "int \<Rightarrow> CvMatDataProperties \<Rightarrow> CvMatDataProperties" where
  "setDepth d ps = ps\<lparr>mp_depth := d\<rparr>"

text \<open>\<open>cm_data\<close> is what the matrix holds.  A default constructed \<open>CvMatData\<close> has no rows and no columns.\<close>

record 'd CvMat =
  cm_rows :: int
  cm_cols :: int
  cm_depth :: int
  cm_channels :: int
  cm_data :: 'd

definition mat_isEmpty :: "'d CvMat \<Rightarrow> bool" where
  "mat_isEmpty m \<longleftrightarrow> cm_rows m = 0 \<or> cm_cols m = 0"

definition mat_isValid :: "'d CvMat \<Rightarrow> bool" where
  "mat_isValid m \<longleftrightarrow> \<not> mat_isEmpty m"

definition mat_properties :: "'d CvMat \<Rightarrow> CvMatDataProperties" where
  "mat_properties m =
     \<lparr>mp_width = cm_cols m, mp_height = cm_rows m, mp_depth = cm_depth m, mp_channels = cm_channels m\<rparr>"

text \<open>\<open>fresh\<close>: what memory holds before anything is written to it.\<close>

definition mat_create :: "(CvMatDataProperties \<Rightarrow> 'd) \<Rightarrow> CvMatDataProperties \<Rightarrow> plv_exn + 'd CvMat" where
  "mat_create fresh ps =
     (if \<not> mp_width ps > 0 then Inl AssertFailed
      else if \<not> mp_height ps > 0 then Inl AssertFailed
      else Inr \<lparr>cm_rows = mp_height ps, cm_cols = mp_width ps, cm_depth = mp_depth ps,
                cm_channels = mp_channels ps, cm_data = fresh ps\<rparr>)"

lemma create_properties: "mat_create fresh ps = Inr m \<Longrightarrow> mat_properties m = ps"
  by (auto simp: mat_create_def mat_properties_def split: if_splits)

lemma create_valid: "mat_create fresh ps = Inr m \<Longrightarrow> mat_isValid m"
  by (auto simp: mat_create_def mat_isValid_def mat_isEmpty_def split: if_splits)

lemma create_ok: "mat_isValid m \<Longrightarrow> 0 \<le> cm_rows m \<Longrightarrow> 0 \<le> cm_cols m \<Longrightarrow> \<exists>m'. mat_create fresh (mat_properties m) = Inr m'"
  by (auto simp: mat_create_def mat_properties_def mat_isValid_def mat_isEmpty_def)

section \<open>Values on the pins\<close>

text \<open>The types of the pins of the processors in \<open>plvopencv\<close>, in a \<open>QVariant\<close>.\<close>

datatype 'd pv =
    VMat "'d CvMat"
  | VMats "'d CvMat list"
  | VRects int int "Rect list"
  | VBool bool
  | VInt int
  | VString string

text \<open>\<open>InputPin<T>::get\<close>: a value that \<open>QVariant\<close> cannot convert gives a default constructed \<open>T\<close>, and so does an
  invalid \<open>QVariant\<close>.\<close>

fun to_bool :: "'d pv option \<Rightarrow> bool" where
  "to_bool (Some (VBool b)) = b"
| "to_bool (Some (VInt i)) = (i \<noteq> 0)"
| "to_bool (Some (VString t)) = (t \<noteq> '''' \<and> t \<noteq> ''0'' \<and> t \<noteq> ''false'')"
| "to_bool v = False"

fun to_int :: "'d pv option \<Rightarrow> int" where
  "to_int (Some (VInt i)) = i"
| "to_int (Some (VBool b)) = (if b then 1 else 0)"
| "to_int (Some (VString t)) = qs_toInt t"
| "to_int v = 0"

fun to_string :: "'d pv option \<Rightarrow> string" where
  "to_string (Some (VString t)) = t"
| "to_string (Some (VInt i)) = qs_number i"
| "to_string (Some (VBool b)) = (if b then ''true'' else ''false'')"
| "to_string v = ''''"

fun to_mats :: "'d pv option \<Rightarrow> 'd CvMat list" where
  "to_mats (Some (VMats ms)) = ms"
| "to_mats v = []"

fun to_rects :: "'d pv option \<Rightarrow> Rect list" where
  "to_rects (Some (VRects w h rs)) = rs"
| "to_rects v = []"

definition getBool :: "ref \<Rightarrow> ('d pv, 's, bool) proc" where
  "getBool q = bindP (getVariantP q) (\<lambda>v. retP (to_bool v))"

definition getInt :: "ref \<Rightarrow> ('d pv, 's, int) proc" where
  "getInt q = bindP (getVariantP q) (\<lambda>v. retP (to_int v))"

definition getString :: "ref \<Rightarrow> ('d pv, 's, string) proc" where
  "getString q = bindP (getVariantP q) (\<lambda>v. retP (to_string v))"

section \<open>Pins of images\<close>

text \<open>\<open>CvMatDataInputPin\<close> and \<open>CvMatDataOutputPin\<close> have the same members.  \<open>cp_toList\<close> is the order in which
  \<open>QSet::toList\<close> gives a set.\<close>

record CvPin =
  cp_ref :: ref
  cp_name :: string
  cp_owner :: string
  cp_depths :: "int set"
  cp_channels :: "int set"
  cp_toList :: "int set \<Rightarrow> int list"

definition addSupportedDepth :: "int \<Rightarrow> CvPin \<Rightarrow> CvPin" where
  "addSupportedDepth d p = p\<lparr>cp_depths := insert d (cp_depths p)\<rparr>"

definition addSupportedChannels :: "int \<Rightarrow> CvPin \<Rightarrow> CvPin" where
  "addSupportedChannels c p = p\<lparr>cp_channels := insert c (cp_channels p)\<rparr>"

definition removeSupportedDepth :: "int \<Rightarrow> CvPin \<Rightarrow> CvPin" where
  "removeSupportedDepth d p = p\<lparr>cp_depths := cp_depths p - {d}\<rparr>"

definition removeSupportedChannels :: "int \<Rightarrow> CvPin \<Rightarrow> CvPin" where
  "removeSupportedChannels c p = p\<lparr>cp_channels := cp_channels p - {c}\<rparr>"

definition supportsChannels :: "int \<Rightarrow> CvPin \<Rightarrow> bool" where
  "supportsChannels c p \<longleftrightarrow> c \<in> cp_channels p"

definition supportsDepth :: "int \<Rightarrow> CvPin \<Rightarrow> bool" where
  "supportsDepth d p \<longleftrightarrow> d \<in> cp_depths p"

definition clearDephts :: "CvPin \<Rightarrow> CvPin" where
  "clearDephts p = p\<lparr>cp_depths := {}\<rparr>"

definition clearChannels :: "CvPin \<Rightarrow> CvPin" where
  "clearChannels p = p\<lparr>cp_channels := {}\<rparr>"

definition addAllDepths :: "CvPin \<Rightarrow> CvPin" where
  "addAllDepths p = p\<lparr>cp_depths := cp_depths p \<union> {CV_8U, CV_8S, CV_16U, CV_16S, CV_32S, CV_32F, CV_64F}\<rparr>"

definition addAllChannels :: "CvPin \<Rightarrow> CvPin" where
  "addAllChannels p = p\<lparr>cp_channels := cp_channels p \<union> {1, 2, 3, 4}\<rparr>"

fun join_comma :: "string list \<Rightarrow> string" where
  "join_comma [] = ''''"
| "join_comma [t] = t"
| "join_comma (t # ts) = t @ '','' @ join_comma ts"

definition checkImageFormat :: "CvPin \<Rightarrow> 'd CvMat \<Rightarrow> plv_exn + unit" where
  "checkImageFormat p m =
     (if \<not> supportsDepth (cm_depth m) p then
        Inl (RuntimeError (''Depth '' @ dquote @ depthToString (cm_depth m) @ dquote @ '' unsupported by input pin '' @
          dquote @ cp_name p @ dquote @ '' of processor '' @ cp_owner p))
      else if \<not> supportsChannels (cm_channels m) p then
        Inl (RuntimeError (''Number of channels '' @ qs_number (cm_channels m) @ '' unsupported by input pin '' @
          dquote @ cp_name p @ dquote @ ''. Supports channels ('' @
          join_comma (map qs_number (cp_toList p (cp_channels p))) @ '').''))
      else Inr ())"

definition getMat :: "CvPin \<Rightarrow> ('d pv, 's, 'd CvMat) proc" where
  "getMat p = bindP (getVariantP (cp_ref p)) (\<lambda>v.
     case v of
       Some (VMat m) \<Rightarrow>
         if \<not> mat_isValid m then throwP (RuntimeError ''CvMatDataOutputPin received invalid data'')
         else bindP (liftP (checkImageFormat p m)) (\<lambda>_. retP m)
     | _ \<Rightarrow> throwP (RuntimeError ''CvMatDataOutputPin expected data with type CvMatData''))"

text \<open>The output pin has the same check, but \<open>put\<close> does not call it.\<close>

definition putMat :: "CvPin \<Rightarrow> 'd CvMat \<Rightarrow> ('d pv, 's, unit) proc" where
  "putMat p m = putP (cp_ref p) (VMat m)"

text \<open>What a pin lets pass.\<close>

definition accepts :: "CvPin \<Rightarrow> 'd CvMat \<Rightarrow> bool" where
  "accepts p m \<longleftrightarrow> mat_isValid m \<and> cm_depth m \<in> cp_depths p \<and> cm_channels m \<in> cp_channels p"

lemma checkImageFormat_iff:
  "mat_isValid m \<Longrightarrow> checkImageFormat p m = Inr () \<longleftrightarrow> accepts p m"
  by (simp add: checkImageFormat_def accepts_def supportsDepth_def supportsChannels_def)

text \<open>A frame with one image.\<close>

definition mat_rig :: "ref \<Rightarrow> 'd CvMat \<Rightarrow> 'd pv rig" where
  "mat_rig q m = frame_rig 0 (\<lambda>q'. if q' = q then Some (Some (VMat m)) else None)"

definition read_view :: "bool \<Rightarrow> 'v Data list \<Rightarrow> 'v pin_view" where
  "read_view called ds = \<lparr>pv_connected = True, pv_called = called, pv_queue = ds\<rparr>"

lemma view_get_data:
  assumes "rg_in rg q = read_view False (d # ds)" and "\<not> d_null d"
  shows "view_get er q rg = (Inr (d_payload d), rg\<lparr>rg_in := (rg_in rg)(q := read_view True ds)\<rparr>)"
  using assms by (simp add: view_get_def read_view_def)

lemma play_getMat:
  assumes "rg_in rg (cp_ref p) = read_view False (Data_payload sn (VMat m) # ds)" and "accepts p m"
  shows "play er (getMat p s) rg =
    ((Inr m, s), rg\<lparr>rg_in := (rg_in rg)(cp_ref p := read_view True ds)\<rparr>)"
proof -
  have "mat_isValid m" "checkImageFormat p m = Inr ()"
    using assms(2) by (simp_all add: accepts_def checkImageFormat_def supportsDepth_def supportsChannels_def)
  then show ?thesis
    using view_get_data [OF assms(1)] by (simp add: getMat_def play_simps Data_payload_def)
qed

lemma play_putMat:
  "rg_out rg (cp_ref p) = None \<Longrightarrow>
    play er (putMat p m s) rg = ((Inr (), s), rg\<lparr>rg_out := (rg_out rg)(cp_ref p := Some (VMat m))\<rparr>)"
  by (simp add: putMat_def play_simps view_put_def)

lemma mat_rig_views:
  "rg_in (mat_rig q m) q = read_view False [Data_payload 0 (VMat m)]"
  "q' \<noteq> q \<Longrightarrow> rg_in (mat_rig q m) q' = \<lparr>pv_connected = False, pv_called = False, pv_queue = []\<rparr>"
  "rg_out (mat_rig q m) p = None"
  by (simp_all add: mat_rig_def frame_rig_def read_view_def)

end
