(* ===== verification/Image_Filters.thy ===== *)
theory Image_Filters
  imports Cv_Mat Plv_Enum Complex_Main
begin

text \<open>
  Processors of \<open>plvopencv\<close> that apply a function of OpenCV to the images of a frame: their parameters with the
  checks of the setters, the checks of the images, the matrices they create and what they put.  The functions of
  OpenCV are parameters; they get the sources and the destination and give the new destination, or throw.
\<close>

type_synonym 'd cv1 = "'d CvMat \<Rightarrow> 'd CvMat \<Rightarrow> plv_exn + 'd CvMat"
type_synonym 'd cv2 = "'d CvMat \<Rightarrow> 'd CvMat \<Rightarrow> 'd CvMat \<Rightarrow> plv_exn + 'd CvMat"
type_synonym 'd memory = "CvMatDataProperties \<Rightarrow> 'd"

text \<open>The body that most filters share: read, create a destination, call the function, put.\<close>

definition apply1 ::
    "'d memory \<Rightarrow> (CvMatDataProperties \<Rightarrow> CvMatDataProperties) \<Rightarrow> 'd cv1 \<Rightarrow> CvPin \<Rightarrow> 'd CvMat \<Rightarrow> ('d pv, 's, bool) proc" where
  "apply1 mem ps f outputPin src =
     bindP (liftP (mat_create mem (ps (mat_properties src)))) (\<lambda>dst.
     bindP (liftP (f src dst)) (\<lambda>dst'.
     seqP (putMat outputPin dst') (retP True)))"

definition apply2 :: "'d memory \<Rightarrow> 'd cv2 \<Rightarrow> CvPin \<Rightarrow> 'd CvMat \<Rightarrow> 'd CvMat \<Rightarrow> ('d pv, 's, bool) proc" where
  "apply2 mem f outputPin src1 src2 =
     bindP (liftP (mat_create mem (mat_properties src1))) (\<lambda>dst.
     bindP (liftP (f src1 src2 dst)) (\<lambda>dst'.
     seqP (putMat outputPin dst') (retP True)))"

definition failP :: "string \<Rightarrow> ('d pv, 's, bool) proc" where
  "failP msg = seqP (setErrorP PlvPipelineRuntimeError msg) (retP False)"

section \<open>Smoothing and edges\<close>

text \<open>\<open>Util::isEven\<close>.\<close>

definition isEven :: "int \<Rightarrow> bool" where
  "isEven n \<longleftrightarrow> n mod 2 = 0"

record GaussianSmooth =
  gs_kernelSizeWidth :: int
  gs_kernelSizeHeight :: int
  gs_sigmaOne :: real
  gs_sigmaTwo :: real
  gs_borderType :: Enum

definition setKernelSizeWidth :: "int \<Rightarrow> GaussianSmooth \<Rightarrow> GaussianSmooth" where
  "setKernelSizeWidth i g =
     g\<lparr>gs_kernelSizeWidth :=
        (if i < 1 then 1
         else if isEven i then (if i > gs_kernelSizeWidth g then i + 1 else i - 1)
         else i)\<rparr>"

definition setKernelSizeHeight :: "int \<Rightarrow> GaussianSmooth \<Rightarrow> GaussianSmooth" where
  "setKernelSizeHeight i g =
     g\<lparr>gs_kernelSizeHeight :=
        (if i < 1 then 1
         else if isEven i then (if i > gs_kernelSizeHeight g then i + 1 else i - 1)
         else i)\<rparr>"

definition gs_setBorderType :: "Enum \<Rightarrow> GaussianSmooth \<Rightarrow> GaussianSmooth" where
  "gs_setBorderType bt g = g\<lparr>gs_borderType := bt\<rparr>"

definition setSigmaOne :: "real \<Rightarrow> GaussianSmooth \<Rightarrow> GaussianSmooth" where
  "setSigmaOne s1 g = g\<lparr>gs_sigmaOne := if s1 > 0 then s1 else 0\<rparr>"

definition setSigmaTwo :: "real \<Rightarrow> GaussianSmooth \<Rightarrow> GaussianSmooth" where
  "setSigmaTwo s2 g = g\<lparr>gs_sigmaTwo := if s2 > 0 then s2 else 0\<rparr>"

definition GaussianSmooth_process ::
    "'d memory \<Rightarrow> (int \<Rightarrow> int \<Rightarrow> real \<Rightarrow> real \<Rightarrow> int \<Rightarrow> 'd cv1) \<Rightarrow> CvPin \<Rightarrow> CvPin \<Rightarrow> ('d pv, GaussianSmooth, bool) proc" where
  "GaussianSmooth_process mem GaussianBlur inputPin outputPin =
     bindP (getMat inputPin) (\<lambda>src.
     bindP (getP (\<lambda>g. g)) (\<lambda>g.
       apply1 mem (\<lambda>ps. ps)
         (\<lambda>src dst. case getSelectedValue (gs_borderType g) of
            Inl x \<Rightarrow> Inl x
          | Inr border \<Rightarrow> GaussianBlur (gs_kernelSizeWidth g) (gs_kernelSizeHeight g) (gs_sigmaOne g) (gs_sigmaTwo g)
                              border src dst)
         outputPin src))"

record EdgeDetectorSobel =
  so_xOrder :: bool
  so_yOrder :: bool
  so_kernelSize :: int
  so_scale :: real
  so_delta :: real
  so_borderType :: Enum

definition setXOrder :: "bool \<Rightarrow> EdgeDetectorSobel \<Rightarrow> EdgeDetectorSobel" where
  "setXOrder x e = (if \<not> (\<not> x \<and> \<not> so_yOrder e) then e\<lparr>so_xOrder := x\<rparr> else e)"

definition setYOrder :: "bool \<Rightarrow> EdgeDetectorSobel \<Rightarrow> EdgeDetectorSobel" where
  "setYOrder y e = (if \<not> (\<not> y \<and> \<not> so_xOrder e) then e\<lparr>so_yOrder := y\<rparr> else e)"

definition so_setKernelSize :: "int \<Rightarrow> EdgeDetectorSobel \<Rightarrow> EdgeDetectorSobel" where
  "so_setKernelSize i e =
     e\<lparr>so_kernelSize :=
        (if i < 1 then 1 else if i > 7 then 7
         else if isEven i then (if i > so_kernelSize e then i + 1 else i - 1)
         else i)\<rparr>"

definition so_setScale :: "real \<Rightarrow> EdgeDetectorSobel \<Rightarrow> EdgeDetectorSobel" where
  "so_setScale scale e = e\<lparr>so_scale := if scale > 0 then scale else 0\<rparr>"

definition so_setDelta :: "real \<Rightarrow> EdgeDetectorSobel \<Rightarrow> EdgeDetectorSobel" where
  "so_setDelta delta e = e\<lparr>so_delta := delta\<rparr>"

definition so_setBorderType :: "Enum \<Rightarrow> EdgeDetectorSobel \<Rightarrow> EdgeDetectorSobel" where
  "so_setBorderType bt e = e\<lparr>so_borderType := bt\<rparr>"

definition EdgeDetectorSobel_process ::
    "'d memory \<Rightarrow> (int \<Rightarrow> bool \<Rightarrow> bool \<Rightarrow> int \<Rightarrow> real \<Rightarrow> real \<Rightarrow> int \<Rightarrow> 'd cv1) \<Rightarrow> CvPin \<Rightarrow> CvPin \<Rightarrow>
     ('d pv, EdgeDetectorSobel, bool) proc" where
  "EdgeDetectorSobel_process mem Sobel inputPin outputPin =
     bindP (getMat inputPin) (\<lambda>src.
     bindP (liftP (mat_create mem (mat_properties src))) (\<lambda>dst.
     bindP (getP (\<lambda>e. e)) (\<lambda>e.
     seqP (assertP (so_kernelSize e = 1 \<or> so_kernelSize e = 3 \<or> so_kernelSize e = 5 \<or> so_kernelSize e = 7))
     (bindP (liftP (getSelectedValue (so_borderType e))) (\<lambda>border.
      bindP (liftP (Sobel (cm_depth dst) (so_xOrder e) (so_yOrder e) (so_kernelSize e) (so_scale e) (so_delta e) border
                      src dst)) (\<lambda>dst'.
      seqP (putMat outputPin dst') (retP True)))))))"

record EdgeDetectorLaplace =
  la_apertureSize :: int

definition la_setApertureSize :: "int \<Rightarrow> EdgeDetectorLaplace \<Rightarrow> EdgeDetectorLaplace" where
  "la_setApertureSize i e =
     e\<lparr>la_apertureSize :=
        (if i < 1 then 1 else if i > 7 then 7
         else if isEven i then (if i > la_apertureSize e then i + 1 else i - 1)
         else i)\<rparr>"

text \<open>The destination has 16 bits, but the function is asked for the depth of the source.\<close>

definition EdgeDetectorLaplace_process ::
    "'d memory \<Rightarrow> (int \<Rightarrow> int \<Rightarrow> 'd cv1) \<Rightarrow> CvPin \<Rightarrow> CvPin \<Rightarrow> ('d pv, EdgeDetectorLaplace, bool) proc" where
  "EdgeDetectorLaplace_process mem Laplacian inputPin outputPin =
     bindP (getMat inputPin) (\<lambda>src.
     bindP (liftP (mat_create mem
        (let ps = mat_properties src in if mp_depth ps \<noteq> CV_32F then setDepth CV_16S ps else ps))) (\<lambda>dst.
     bindP (getP la_apertureSize) (\<lambda>a.
     seqP (assertP (a = 1 \<or> a = 3 \<or> a = 5 \<or> a = 7))
     (bindP (liftP (Laplacian (cm_depth src) a src dst)) (\<lambda>dst'.
      seqP (putMat outputPin dst') (retP True))))))"

text \<open>\<open>m_l2Gradient\<close> is not initialised by the constructor.\<close>

record EdgeDetectorCanny =
  cn_apertureSize :: int
  cn_thresholdLow :: real
  cn_thresholdHigh :: real
  cn_l2Gradient :: bool

definition cn_setApertureSize :: "int \<Rightarrow> EdgeDetectorCanny \<Rightarrow> EdgeDetectorCanny" where
  "cn_setApertureSize i e =
     e\<lparr>cn_apertureSize :=
        (if i < 3 then 3 else if i > 7 then 7
         else if isEven i then (if i > cn_apertureSize e then i + 1 else i - 1)
         else i)\<rparr>"

definition setThresholdLow :: "real \<Rightarrow> EdgeDetectorCanny \<Rightarrow> EdgeDetectorCanny" where
  "setThresholdLow x e = e\<lparr>cn_thresholdLow := x\<rparr>"

definition setThresholdHigh :: "real \<Rightarrow> EdgeDetectorCanny \<Rightarrow> EdgeDetectorCanny" where
  "setThresholdHigh x e = e\<lparr>cn_thresholdHigh := x\<rparr>"

definition setL2Gradient :: "bool \<Rightarrow> EdgeDetectorCanny \<Rightarrow> EdgeDetectorCanny" where
  "setL2Gradient b e = e\<lparr>cn_l2Gradient := b\<rparr>"

definition EdgeDetectorCanny_process ::
    "'d memory \<Rightarrow> (real \<Rightarrow> real \<Rightarrow> int \<Rightarrow> bool \<Rightarrow> 'd cv1) \<Rightarrow> CvPin \<Rightarrow> CvPin \<Rightarrow> ('d pv, EdgeDetectorCanny, bool) proc" where
  "EdgeDetectorCanny_process mem Canny inputPin outputPin =
     bindP (getMat inputPin) (\<lambda>src.
     bindP (getP (\<lambda>e. e)) (\<lambda>e.
       apply1 mem (\<lambda>ps. ps) (Canny (cn_thresholdLow e) (cn_thresholdHigh e) (cn_apertureSize e) (cn_l2Gradient e))
         outputPin src))"

record ImageCornerHarris =
  ch_kernelSize :: int
  ch_blockSize :: int
  ch_k :: real
  ch_borderType :: Enum

definition setBlockSize :: "int \<Rightarrow> ImageCornerHarris \<Rightarrow> ImageCornerHarris" where
  "setBlockSize i c = c\<lparr>ch_blockSize := if i < 1 then 1 else i\<rparr>"

definition setK :: "real \<Rightarrow> ImageCornerHarris \<Rightarrow> ImageCornerHarris" where
  "setK k c = c\<lparr>ch_k := if k < 0 then 0 else k\<rparr>"

definition ch_setBorderType :: "Enum \<Rightarrow> ImageCornerHarris \<Rightarrow> ImageCornerHarris" where
  "ch_setBorderType bt c = c\<lparr>ch_borderType := bt\<rparr>"

definition ch_setKernelSize :: "int \<Rightarrow> ImageCornerHarris \<Rightarrow> ImageCornerHarris" where
  "ch_setKernelSize i c =
     c\<lparr>ch_kernelSize :=
        (if i < 1 then 1 else if i > 7 then 7
         else if isEven i then (if i > ch_kernelSize c then i + 1 else i - 1)
         else i)\<rparr>"

definition ImageCornerHarris_process ::
    "'d memory \<Rightarrow> (int \<Rightarrow> int \<Rightarrow> real \<Rightarrow> int \<Rightarrow> 'd cv1) \<Rightarrow> CvPin \<Rightarrow> CvPin \<Rightarrow> ('d pv, ImageCornerHarris, bool) proc" where
  "ImageCornerHarris_process mem cornerHarris inputPin outputPin =
     bindP (getMat inputPin) (\<lambda>src.
     bindP (liftP (mat_create mem
        \<lparr>mp_width = cm_cols src, mp_height = cm_rows src, mp_depth = CV_32F, mp_channels = 1\<rparr>)) (\<lambda>dst.
     bindP (getP (\<lambda>c. c)) (\<lambda>c.
     bindP (liftP (getSelectedValue (ch_borderType c))) (\<lambda>border.
     bindP (liftP (cornerHarris (ch_blockSize c) (ch_kernelSize c) (ch_k c) border src dst)) (\<lambda>dst'.
     seqP (putMat outputPin dst') (retP True))))))"

text \<open>The sizes that OpenCV accepts are the ones the setters leave behind.\<close>

definition odd_in :: "int \<Rightarrow> int \<Rightarrow> int \<Rightarrow> bool" where
  "odd_in lo hi i \<longleftrightarrow> lo \<le> i \<and> i \<le> hi \<and> odd i"

lemma sobel_sizes: "odd_in 1 7 i \<Longrightarrow> i = 1 \<or> i = 3 \<or> i = 5 \<or> i = 7"
  unfolding odd_in_def by presburger

lemma aperture_setters:
  "odd_in 1 7 (so_kernelSize (so_setKernelSize i e))"
  "odd_in 1 7 (la_apertureSize (la_setApertureSize i l))"
  "odd_in 3 7 (cn_apertureSize (cn_setApertureSize i c))"
  "odd_in 1 7 (ch_kernelSize (ch_setKernelSize i h))"
  "0 < gs_kernelSizeWidth (setKernelSizeWidth i g) \<and> odd (gs_kernelSizeWidth (setKernelSizeWidth i g))"
  "0 < gs_kernelSizeHeight (setKernelSizeHeight i g) \<and> odd (gs_kernelSizeHeight (setKernelSizeHeight i g))"
  by (simp_all add: so_setKernelSize_def la_setApertureSize_def cn_setApertureSize_def ch_setKernelSize_def
      setKernelSizeWidth_def setKernelSizeHeight_def odd_in_def isEven_def) presburger+

definition sobel_inv :: "EdgeDetectorSobel \<Rightarrow> bool" where
  "sobel_inv e \<longleftrightarrow> (so_xOrder e \<or> so_yOrder e) \<and> odd_in 1 7 (so_kernelSize e) \<and> 0 \<le> so_scale e"

lemma sobel_setters:
  assumes "sobel_inv e"
  shows "sobel_inv (setXOrder b e)" "sobel_inv (setYOrder b e)" "sobel_inv (so_setKernelSize i e)"
    "sobel_inv (so_setScale x e)" "sobel_inv (so_setDelta x e)" "sobel_inv (so_setBorderType bt e)"
  using assms aperture_setters(1) [of i e]
  by (auto simp: sobel_inv_def setXOrder_def setYOrder_def so_setKernelSize_def so_setScale_def so_setDelta_def
      so_setBorderType_def)

end
