(* ===== verification/Image_Arith.thy ===== *)
theory Image_Arith
  imports Image_Filters
begin

text \<open>
  Processors of \<open>plvopencv\<close> on one or two images: \<open>DilateErode.cpp\<close>, \<open>ImageFlip.cpp\<close>, \<open>ImageThreshold.cpp\<close>,
  \<open>Xor.cpp\<close>, \<open>Multiply.cpp\<close>, \<open>Sub.cpp\<close>, \<open>Add.cpp\<close>, \<open>Diff.cpp\<close>, \<open>Split.cpp\<close>, and those that keep images between the frames:
  \<open>Average.cpp\<close>, \<open>RunningAverage.cpp\<close>, \<open>BackgroundSubtractor.cpp\<close>.
\<close>

section \<open>One image\<close>

definition BGDEO_ERODE_DELATE :: int where "BGDEO_ERODE_DELATE = 0"
definition BGDEO_DELATE_ERODE :: int where "BGDEO_DELATE_ERODE = 1"

record DilateErode =
  de_erosionIterations :: int
  de_dilationIterations :: int
  de_order :: Enum

definition setErosionIterations :: "int \<Rightarrow> DilateErode \<Rightarrow> DilateErode" where
  "setErosionIterations e d = (if e \<ge> 0 then d\<lparr>de_erosionIterations := e\<rparr> else d)"

definition setDilationIterations :: "int \<Rightarrow> DilateErode \<Rightarrow> DilateErode" where
  "setDilationIterations i d = (if i \<ge> 0 then d\<lparr>de_dilationIterations := i\<rparr> else d)"

definition setOrder :: "Enum \<Rightarrow> DilateErode \<Rightarrow> DilateErode" where
  "setOrder order d = d\<lparr>de_order := order\<rparr>"

definition DilateErode_process ::
    "'d memory \<Rightarrow> (int \<Rightarrow> 'd cv1) \<Rightarrow> (int \<Rightarrow> 'd cv1) \<Rightarrow> CvPin \<Rightarrow> CvPin \<Rightarrow> ('d pv, DilateErode, bool) proc" where
  "DilateErode_process mem erode dilate inputPin outputPin =
     bindP (getMat inputPin) (\<lambda>img.
     bindP (liftP (mat_create mem (mat_properties img))) (\<lambda>out.
     bindP (liftP (mat_create mem (mat_properties img))) (\<lambda>out2.
     bindP (getP (\<lambda>d. d)) (\<lambda>d.
     bindP (liftP (getSelectedValue (de_order d))) (\<lambda>order.
     bindP (if order = BGDEO_ERODE_DELATE then
              bindP (liftP (erode (de_erosionIterations d) img out)) (\<lambda>out.
              liftP (dilate (de_dilationIterations d) out out2))
            else if order = BGDEO_DELATE_ERODE then
              bindP (liftP (dilate (de_dilationIterations d) img out)) (\<lambda>out.
              liftP (erode (de_erosionIterations d) out out2))
            else retP out2) (\<lambda>out2.
     seqP (putMat outputPin out2) (retP True)))))))"

record ImageFlip =
  fl_method :: Enum

definition ImageFlip_new :: "Enum \<Rightarrow> ImageFlip" where
  "ImageFlip_new e =
     \<lparr>fl_method = enum_add ''flip around y-axis'' 1 (enum_add ''flip around x-axis'' 0
        (enum_add ''flip around x and y-axis'' (- 1) e))\<rparr>"

definition fl_setMethod :: "Enum \<Rightarrow> ImageFlip \<Rightarrow> ImageFlip" where
  "fl_setMethod e f = f\<lparr>fl_method := e\<rparr>"

definition ImageFlip_process :: "'d memory \<Rightarrow> (int \<Rightarrow> 'd cv1) \<Rightarrow> CvPin \<Rightarrow> CvPin \<Rightarrow> ('d pv, ImageFlip, bool) proc" where
  "ImageFlip_process mem flip inputPin outputPin =
     bindP (getMat inputPin) (\<lambda>src.
     bindP (getP fl_method) (\<lambda>e.
       apply1 mem (\<lambda>ps. ps)
         (\<lambda>src dst. case getSelectedValue e of Inl x \<Rightarrow> Inl x | Inr code \<Rightarrow> flip code src dst) outputPin src))"

record ImageThreshold =
  th_method :: Enum
  th_threshold :: real
  th_maxValue :: real

definition th_setMethod :: "Enum \<Rightarrow> ImageThreshold \<Rightarrow> ImageThreshold" where
  "th_setMethod m t = t\<lparr>th_method := m\<rparr>"

definition th_setThreshold :: "real \<Rightarrow> ImageThreshold \<Rightarrow> ImageThreshold" where
  "th_setThreshold d t = t\<lparr>th_threshold := d\<rparr>"

definition th_setMaxValue :: "real \<Rightarrow> ImageThreshold \<Rightarrow> ImageThreshold" where
  "th_setMaxValue d t = t\<lparr>th_maxValue := d\<rparr>"

definition ImageThreshold_process ::
    "'d memory \<Rightarrow> (real \<Rightarrow> real \<Rightarrow> int \<Rightarrow> 'd cv1) \<Rightarrow> CvPin \<Rightarrow> CvPin \<Rightarrow> ('d pv, ImageThreshold, bool) proc" where
  "ImageThreshold_process mem threshold inputPin outputPin =
     bindP (getMat inputPin) (\<lambda>src.
     bindP (getP (\<lambda>t. t)) (\<lambda>t.
       apply1 mem (\<lambda>ps. ps)
         (\<lambda>src dst. case getSelectedValue (th_method t) of
            Inl x \<Rightarrow> Inl x
          | Inr m \<Rightarrow> threshold (th_threshold t) (th_maxValue t) m src dst) outputPin src))"

section \<open>Two images\<close>

definition Xor_process :: "'d memory \<Rightarrow> 'd cv2 \<Rightarrow> CvPin \<Rightarrow> CvPin \<Rightarrow> CvPin \<Rightarrow> ('d pv, unit, bool) proc" where
  "Xor_process mem bitwise_xor inputPin1 inputPin2 outputPin =
     bindP (getMat inputPin1) (\<lambda>img1.
     bindP (getMat inputPin2) (\<lambda>img2.
       if mat_properties img1 \<noteq> mat_properties img2 then failP ''Input images do not have equal in properties''
       else apply2 mem bitwise_xor outputPin img1 img2))"

definition setScale :: "real \<Rightarrow> real \<Rightarrow> real" where
  "setScale d old = d"

text \<open>The state of \<open>Multiply\<close> is its scale.\<close>

definition Multiply_process ::
    "'d memory \<Rightarrow> (real \<Rightarrow> 'd cv2) \<Rightarrow> CvPin \<Rightarrow> CvPin \<Rightarrow> CvPin \<Rightarrow> ('d pv, real, bool) proc" where
  "Multiply_process mem multiply inputPin1 inputPin2 outputPin =
     bindP (getMat inputPin1) (\<lambda>img1.
     bindP (getMat inputPin2) (\<lambda>img2.
       if mat_properties img1 \<noteq> mat_properties img2 then failP ''Input images do not have equal in properties''
       else bindP (getP (\<lambda>scale. scale)) (\<lambda>scale. apply2 mem (multiply scale) outputPin img1 img2)))"

definition Diff_process :: "'d memory \<Rightarrow> 'd cv2 \<Rightarrow> CvPin \<Rightarrow> CvPin \<Rightarrow> CvPin \<Rightarrow> ('d pv, unit, bool) proc" where
  "Diff_process mem absdiff inputPin1 inputPin2 outputPin =
     bindP (getMat inputPin1) (\<lambda>img1.
     bindP (getMat inputPin2) (\<lambda>img2. apply2 mem absdiff outputPin img1 img2))"

definition depthMsg :: "'d CvMat \<Rightarrow> 'd CvMat \<Rightarrow> string" where
  "depthMsg in1 in2 = ''Input images are not of the same depth. Input 1 has depth '' @ depthToString (cm_depth in1) @
     '' and input 2 has depth '' @ depthToString (cm_depth in2) @ ''. ''"

definition Sub_process ::
    "'d memory \<Rightarrow> ('d CvMat option \<Rightarrow> 'd cv2) \<Rightarrow> CvPin \<Rightarrow> CvPin \<Rightarrow> CvPin \<Rightarrow> CvPin \<Rightarrow> ('d pv, unit, bool) proc" where
  "Sub_process mem subtract inputPin1 inputPin2 inputPin3 outputPin =
     bindP (getMat inputPin1) (\<lambda>in1.
     bindP (getMat inputPin2) (\<lambda>in2.
     bindP (isConnectedP (cp_ref inputPin3)) (\<lambda>c.
     bindP (if c then bindP (getMat inputPin3) (\<lambda>m. retP (Some m)) else retP None) (\<lambda>mask.
       if cm_channels in1 \<noteq> cm_channels in2 then failP ''Images do not have same number of channels.''
       else if cm_depth in1 \<noteq> cm_depth in2 then failP (depthMsg in1 in2)
       else apply2 mem (subtract mask) outputPin in1 in2))))"

record Add =
  ad_alpha :: real
  ad_beta :: real
  ad_gamma :: real

definition setAlpha :: "real \<Rightarrow> Add \<Rightarrow> Add" where
  "setAlpha a s = s\<lparr>ad_alpha := a\<rparr>"
definition setBeta :: "real \<Rightarrow> Add \<Rightarrow> Add" where
  "setBeta b s = s\<lparr>ad_beta := b\<rparr>"
definition setGamma :: "real \<Rightarrow> Add \<Rightarrow> Add" where
  "setGamma g s = s\<lparr>ad_gamma := g\<rparr>"

definition Add_process ::
    "'d memory \<Rightarrow> (real \<Rightarrow> real \<Rightarrow> real \<Rightarrow> 'd cv2) \<Rightarrow> CvPin \<Rightarrow> CvPin \<Rightarrow> CvPin \<Rightarrow> ('d pv, Add, bool) proc" where
  "Add_process mem addWeighted inputPin1 inputPin2 outputPin =
     bindP (getMat inputPin1) (\<lambda>in1.
     bindP (getMat inputPin2) (\<lambda>in2.
       if cm_channels in1 \<noteq> cm_channels in2 then failP ''Images do not have same number of channels.''
       else if cm_depth in1 \<noteq> cm_depth in2 then failP (depthMsg in1 in2)
       else if cm_cols in1 \<noteq> cm_cols in2 \<or> cm_rows in1 \<noteq> cm_rows in2 then
         failP (''Input images are not of the same size. Input 1 has size '' @ qs_number (cm_cols in1) @ '' '' @
           qs_number (cm_rows in1) @ '' and input 2 has size '' @ qs_number (cm_cols in2) @ '' '' @
           qs_number (cm_rows in2) @ ''. '')
       else bindP (getP (\<lambda>s. s)) (\<lambda>s.
         apply2 mem (addWeighted (ad_alpha s) (ad_beta s) (ad_gamma s)) outputPin in1 in2)))"

text \<open>\<open>cv_split\<close> fills one matrix per channel.\<close>

fun createAll :: "'d memory \<Rightarrow> CvMatDataProperties \<Rightarrow> nat \<Rightarrow> plv_exn + 'd CvMat list" where
  "createAll mem ps 0 = Inr []"
| "createAll mem ps (Suc n) =
     (case mat_create mem ps of Inl x \<Rightarrow> Inl x | Inr m \<Rightarrow> map_sum id ((#) m) (createAll mem ps n))"

definition Split_process ::
    "'d memory \<Rightarrow> ('d CvMat \<Rightarrow> 'd CvMat list \<Rightarrow> plv_exn + 'd CvMat list) \<Rightarrow> CvPin \<Rightarrow> CvPin \<Rightarrow> CvPin \<Rightarrow> CvPin \<Rightarrow> CvPin \<Rightarrow>
     ('d pv, unit, bool) proc" where
  "Split_process mem cv_split inputPin out0 out1 out2 out3 =
     bindP (getMat inputPin) (\<lambda>inImg.
       let n = cm_channels inImg in
       if n < 2 then failP ''Input image is single channel, expected a multi channel image.''
       else
         bindP (liftP (createAll mem (setNumChannels 1 (mat_properties inImg)) (nat n))) (\<lambda>outImgs.
         bindP (liftP (cv_split inImg outImgs)) (\<lambda>outs.
         seqP (if n = 4 then putMat out3 (outs ! 3) else retP ())
         (seqP (if n = 4 \<or> n = 3 then putMat out2 (outs ! 2) else retP ())
         (seqP (if n = 4 \<or> n = 3 \<or> n = 2 then putMat out1 (outs ! 1) else retP ())
         (seqP (putMat out0 (outs ! 0)) (retP True)))))))"

section \<open>Averages\<close>

text \<open>\<open>convertTo depth scale\<close> and \<open>accumulate\<close> are OpenCV's.  A default constructed image is \<open>None\<close>.\<close>

record 'd Average =
  av_numFrames :: int
  av_total :: int
  av_avg :: "'d CvMat option"

definition Average_new :: "'d Average" where
  "Average_new = \<lparr>av_numFrames = 10, av_total = 0, av_avg = None\<rparr>"

definition Average_start :: "'d Average \<Rightarrow> bool \<times> 'd Average" where
  "Average_start a = (True, a\<lparr>av_total := 0\<rparr>)"

definition setNumFrames :: "int \<Rightarrow> 'd Average \<Rightarrow> 'd Average" where
  "setNumFrames f a = (if f > 0 then a\<lparr>av_numFrames := f\<rparr> else a)"

definition other_shape :: "'d CvMat option \<Rightarrow> 'd CvMat \<Rightarrow> bool" where
  "other_shape avg img =
     (case avg of
        None \<Rightarrow> True
      | Some m \<Rightarrow> cm_cols m \<noteq> cm_cols img \<or> cm_rows m \<noteq> cm_rows img \<or> cm_channels m \<noteq> cm_channels img)"

definition Average_process ::
    "(int \<Rightarrow> real \<Rightarrow> 'd CvMat \<Rightarrow> 'd CvMat) \<Rightarrow> ('d CvMat \<Rightarrow> 'd CvMat \<Rightarrow> 'd CvMat) \<Rightarrow> ref \<Rightarrow> CvPin \<Rightarrow> CvPin \<Rightarrow>
     ('d pv, 'd Average, bool) proc" where
  "Average_process convertTo accumulate inputFrames inputPin outputPin =
     seqP (bindP (isConnectedP inputFrames) (\<lambda>c. if \<not> c then retP () else
           bindP (hasDataItemsP inputFrames) (\<lambda>h. if \<not> h then retP () else
           bindP (getInt inputFrames) (\<lambda>frames.
             modifyP (\<lambda>a. if av_numFrames a \<noteq> frames then setNumFrames frames a else a)))))
     (bindP (getMat inputPin) (\<lambda>src.
      seqP (modifyP (\<lambda>a. if other_shape (av_avg a) src then a\<lparr>av_avg := Some (convertTo CV_32F 1 src)\<rparr> else a))
      (seqP (modifyP (\<lambda>a. a\<lparr>av_avg := map_option (accumulate src) (av_avg a)\<rparr>))
      (bindP (getP (\<lambda>a. a)) (\<lambda>a.
        seqP (if av_total a \<ge> av_numFrames a then
                seqP (putMat outputPin (convertTo CV_8U (1 / real_of_int (av_total a)) (the (av_avg a))))
                  (modifyP (\<lambda>a. a\<lparr>av_avg := Some (convertTo CV_32F 1 src), av_total := 0\<rparr>))
              else retP ())
        (seqP (modifyP (\<lambda>a. a\<lparr>av_total := av_total a + 1\<rparr>)) (retP True)))))))"

record 'd RunningAverage =
  ra_weight :: real
  ra_conversionFactor :: real
  ra_avg :: "'d CvMat option"
  ra_outDepth :: int
  ra_outChannels :: int

definition setWeight :: "real \<Rightarrow> 'd RunningAverage \<Rightarrow> 'd RunningAverage" where
  "setWeight w r = (if w \<ge> 0 \<and> w \<le> 1 then r\<lparr>ra_weight := w\<rparr> else r)"

text \<open>\<open>m_tmp\<close> is overwritten in every frame, and so is \<open>m_out\<close>, of which the type is kept.\<close>

definition RunningAverage_process ::
    "(int \<Rightarrow> real \<Rightarrow> 'd CvMat \<Rightarrow> 'd CvMat) \<Rightarrow> (real \<Rightarrow> 'd CvMat \<Rightarrow> 'd CvMat \<Rightarrow> 'd CvMat) \<Rightarrow> CvPin \<Rightarrow> CvPin \<Rightarrow>
     ('d pv, 'd RunningAverage, bool) proc" where
  "RunningAverage_process convertTo accumulateWeighted inputPin outputPin =
     bindP (getMat inputPin) (\<lambda>src.
     seqP (modifyP (\<lambda>r.
        if (case ra_avg r of None \<Rightarrow> True | Some m \<Rightarrow> cm_cols m \<noteq> cm_cols src \<or> cm_rows m \<noteq> cm_rows src) \<or>
           cm_depth src \<noteq> ra_outDepth r \<or> cm_channels src \<noteq> ra_outChannels r
        then (if cm_depth src = CV_8U then
                r\<lparr>ra_conversionFactor := 255, ra_avg := Some (convertTo CV_32F (1 / 255) src),
                  ra_outDepth := cm_depth src, ra_outChannels := cm_channels src\<rparr>
              else if cm_depth src = CV_16U then
                r\<lparr>ra_conversionFactor := 65535, ra_avg := Some (convertTo CV_32F (1 / 65535) src),
                  ra_outDepth := cm_depth src, ra_outChannels := cm_channels src\<rparr>
              else
                r\<lparr>ra_conversionFactor := 1, ra_avg := Some src,
                  ra_outDepth := cm_depth src, ra_outChannels := cm_channels src\<rparr>)
        else r))
     (seqP (modifyP (\<lambda>r. r\<lparr>ra_avg :=
        map_option (accumulateWeighted (ra_weight r) (convertTo CV_32F (1 / ra_conversionFactor r) src)) (ra_avg r)\<rparr>))
     (bindP (getP (\<lambda>r. r)) (\<lambda>r.
      seqP (putMat outputPin (convertTo (ra_outDepth r) (ra_conversionFactor r) (the (ra_avg r)))) (retP True)))))"

section \<open>Background subtraction\<close>

definition BGSM_GRAYSCALE :: int where "BGSM_GRAYSCALE = 0"
definition BGSM_COLOR_TO_GRAY :: int where "BGSM_COLOR_TO_GRAY = 1"

record 'd BackgroundSubtractor =
  bs_threshold :: int
  bs_replacement :: int
  bs_reset :: bool
  bs_method :: Enum
  bs_background :: "'d CvMat option"
  bs_backgroundGray :: "'d CvMat option"

definition bs_setThreshold :: "int \<Rightarrow> 'd BackgroundSubtractor \<Rightarrow> 'd BackgroundSubtractor" where
  "bs_setThreshold t b = (if t \<ge> 0 \<and> t \<le> 255 then b\<lparr>bs_threshold := t\<rparr> else b)"

definition setReplacement :: "int \<Rightarrow> 'd BackgroundSubtractor \<Rightarrow> 'd BackgroundSubtractor" where
  "setReplacement r b = (if r \<ge> 0 \<and> r \<le> 255 then b\<lparr>bs_replacement := r\<rparr> else b)"

definition setReset :: "bool \<Rightarrow> 'd BackgroundSubtractor \<Rightarrow> 'd BackgroundSubtractor" where
  "setReset r b = b\<lparr>bs_reset := r\<rparr>"

definition bs_setMethod :: "Enum \<Rightarrow> 'd BackgroundSubtractor \<Rightarrow> 'd BackgroundSubtractor" where
  "bs_setMethod m b = b\<lparr>bs_method := m\<rparr>"

text \<open>\<open>rgb2gray src dst\<close> is \<open>cvtColor\<close> with the code \<open>CV_RGB2GRAY\<close>.\<close>

type_synonym 'd gray = "'d CvMat \<Rightarrow> plv_exn + 'd CvMat"

definition setBackground :: "'d gray \<Rightarrow> 'd CvMat \<Rightarrow> ('d pv, 'd BackgroundSubtractor, unit) proc" where
  "setBackground rgb2gray m =
     seqP (modifyP (\<lambda>b. b\<lparr>bs_background := Some m\<rparr>))
       (if cm_channels m = 3 then
          bindP (liftP (rgb2gray m)) (\<lambda>g. modifyP (\<lambda>b. b\<lparr>bs_backgroundGray := Some g\<rparr>))
        else modifyP (\<lambda>b. b\<lparr>bs_backgroundGray := Some m\<rparr>))"

text \<open>The foreground for the selected method.\<close>

definition bs_foreground ::
    "'d gray \<Rightarrow> ('d CvMat \<Rightarrow> 'd CvMat \<Rightarrow> plv_exn + 'd CvMat) \<Rightarrow> (int \<Rightarrow> int \<Rightarrow> 'd CvMat \<Rightarrow> 'd CvMat) \<Rightarrow>
     'd BackgroundSubtractor \<Rightarrow> 'd CvMat \<Rightarrow> ('d pv, 'd BackgroundSubtractor, 'd CvMat) proc" where
  "bs_foreground rgb2gray absdiff threshold b img =
     bindP (liftP (getSelectedValue (bs_method b))) (\<lambda>method.
       let cut = threshold (bs_threshold b) (bs_replacement b) in
       if method = BGSM_GRAYSCALE then
         bindP (liftP (if cm_channels img = 3 then rgb2gray img else Inr img)) (\<lambda>srcGray.
         bindP (liftP (absdiff srcGray (the (bs_backgroundGray b)))) (\<lambda>outGray. retP (cut outGray)))
       else if method = BGSM_COLOR_TO_GRAY then
         bindP (liftP (absdiff img (the (bs_background b)))) (\<lambda>tmp.
         bindP (liftP (rgb2gray (cut tmp))) (\<lambda>outGray. retP (cut outGray)))
       else bindP (liftP (absdiff img (the (bs_background b)))) (\<lambda>out. retP (cut out)))"

definition BackgroundSubtractor_process ::
    "'d gray \<Rightarrow> ('d CvMat \<Rightarrow> 'd CvMat \<Rightarrow> plv_exn + 'd CvMat) \<Rightarrow> (int \<Rightarrow> int \<Rightarrow> 'd CvMat \<Rightarrow> 'd CvMat) \<Rightarrow>
     CvPin \<Rightarrow> CvPin \<Rightarrow> ref \<Rightarrow> CvPin \<Rightarrow> CvPin \<Rightarrow> ('d pv, 'd BackgroundSubtractor, bool) proc" where
  "BackgroundSubtractor_process rgb2gray absdiff threshold inInput inBackground inReset outForeground outBackground =
     bindP (getMat inInput) (\<lambda>img.
     seqP (bindP (getP bs_reset) (\<lambda>reset.
            if reset then seqP (setBackground rgb2gray img) (modifyP (setReset False)) else retP ()))
     (seqP (bindP (isConnectedP (cp_ref inBackground)) (\<lambda>c. if \<not> c then retP () else
            bindP (hasDataItemsP (cp_ref inBackground)) (\<lambda>h. if \<not> h then retP () else
            bindP (getMat inBackground) (setBackground rgb2gray))))
     (seqP (bindP (isConnectedP inReset) (\<lambda>c. if \<not> c then retP () else
            bindP (hasDataItemsP inReset) (\<lambda>h. if \<not> h then retP () else
            bindP (getBool inReset) (\<lambda>r. if r then setBackground rgb2gray img else retP ()))))
     (bindP (getP (\<lambda>b. b)) (\<lambda>b.
        case bs_background b of
          None \<Rightarrow> seqP (putMat outForeground img) (retP True)
        | Some bg \<Rightarrow>
            if cm_cols img \<noteq> cm_cols bg \<or> cm_rows img \<noteq> cm_rows bg
            then failP ''Images do not have same number of channels.''
            else bindP (bs_foreground rgb2gray absdiff threshold b img) (\<lambda>fg.
              seqP (putMat outForeground fg) (seqP (putMat outBackground bg) (retP True))))))))"

section \<open>What the averages compute\<close>

text \<open>What OpenCV documents of the two functions, for a measure \<open>v\<close> of the contents such as the value of one pixel:
  a conversion to floating point keeps it, \<open>accumulate\<close> adds, the conversion to 8 bits scales and then rounds and cuts
  off (\<open>sat\<close>).\<close>

definition averaging_ops ::
    "('d CvMat \<Rightarrow> real) \<Rightarrow> (real \<Rightarrow> real) \<Rightarrow> (int \<Rightarrow> real \<Rightarrow> 'd CvMat \<Rightarrow> 'd CvMat) \<Rightarrow>
     ('d CvMat \<Rightarrow> 'd CvMat \<Rightarrow> 'd CvMat) \<Rightarrow> bool" where
  "averaging_ops v sat convertTo accumulate \<longleftrightarrow>
     (\<forall>m. v (convertTo CV_32F 1 m) = v m) \<and> (\<forall>m k. v (convertTo CV_8U k m) = sat (v m * k)) \<and>
     (\<forall>s m. v (accumulate s m) = v s + v m) \<and>
     (\<forall>m d k. cm_cols (convertTo d k m) = cm_cols m \<and> cm_rows (convertTo d k m) = cm_rows m \<and>
        cm_channels (convertTo d k m) = cm_channels m) \<and>
     (\<forall>s m. cm_cols (accumulate s m) = cm_cols m \<and> cm_rows (accumulate s m) = cm_rows m \<and>
        cm_channels (accumulate s m) = cm_channels m)"

definition same_shape :: "'d CvMat \<Rightarrow> 'd CvMat \<Rightarrow> bool" where
  "same_shape a b \<longleftrightarrow> cm_cols a = cm_cols b \<and> cm_rows a = cm_rows b \<and> cm_channels a = cm_channels b"

lemma other_shape_Some: "other_shape (Some m) img \<longleftrightarrow> \<not> same_shape m img"
  by (auto simp: other_shape_def same_shape_def)

lemma average_frame:
  assumes "accepts inp m" and "cp_ref inp \<noteq> fr"
  shows "\<exists>rg. play er (Average_process conv acc fr inp out a) (mat_rig (cp_ref inp) m) =
     ((Inr True,
       let avg = acc m (if other_shape (av_avg a) m then conv CV_32F 1 m else the (av_avg a)) in
       if av_total a \<ge> av_numFrames a then a\<lparr>av_avg := Some (conv CV_32F 1 m), av_total := 1\<rparr>
       else a\<lparr>av_avg := Some avg, av_total := av_total a + 1\<rparr>), rg) \<and>
     rg_out rg (cp_ref out) =
       (if av_total a \<ge> av_numFrames a then
          Some (VMat (conv CV_8U (1 / real_of_int (av_total a))
            (acc m (if other_shape (av_avg a) m then conv CV_32F 1 m else the (av_avg a)))))
        else None)"
proof -
  have "\<not> other_shape (av_avg a) m \<Longrightarrow> \<exists>x. av_avg a = Some x" by (cases "av_avg a") (auto simp: other_shape_def)
  then show ?thesis
    using assms
    by (auto simp: Average_process_def play_simps play_getMat [OF mat_rig_views(1)] play_putMat mat_rig_views Let_def)
qed

text \<open>One period: the sum of the frames since the last output, and that frame once more, divided by one less.\<close>

lemma average_period:
  fixes conv acc
  assumes ops: "averaging_ops v sat conv acc" and fr: "cp_ref inp \<noteq> fr"
  shows "int (length ms) = N - t \<Longrightarrow> 1 \<le> t \<Longrightarrow> av_numFrames a = N \<Longrightarrow> av_total a = t \<Longrightarrow> av_avg a = Some m \<Longrightarrow>
    (\<And>i. i \<in> set (ms @ [x]) \<Longrightarrow> accepts inp i \<and> same_shape m i) \<Longrightarrow>
    \<exists>img m'. drive er (Average_process conv acc fr inp out) (cp_ref out) a (map (mat_rig (cp_ref inp)) (ms @ [x])) =
       (Inr (replicate (length ms) None @ [Some (VMat img)]), a\<lparr>av_total := 1, av_avg := Some m'\<rparr>) \<and>
      v img = sat ((v m + sum_list (map v ms) + v x) / N) \<and> v m' = v x \<and> same_shape m' x"
proof (induction ms arbitrary: a m t)
  case Nil
  from Nil.prems(6) [of x] have ok: "accepts inp x" "same_shape m x" by simp_all
  from average_frame [OF ok(1) fr, of er conv acc out a] Nil ok obtain rg where
    "play er (Average_process conv acc fr inp out a) (mat_rig (cp_ref inp) x) =
       ((Inr True, a\<lparr>av_avg := Some (conv CV_32F 1 x), av_total := 1\<rparr>), rg)"
    "rg_out rg (cp_ref out) = Some (VMat (conv CV_8U (1 / real_of_int N) (acc x m)))"
    by (auto simp: other_shape_Some)
  moreover have "v (conv CV_8U (1 / real_of_int N) (acc x m)) = sat ((v m + v x) / N)"
    "v (conv CV_32F 1 x) = v x" "same_shape (conv CV_32F 1 x) x"
    using ops by (simp_all add: averaging_ops_def same_shape_def add.commute)
  ultimately show ?case
    by (intro exI [of _ "conv CV_8U (1 / real_of_int N) (acc x m)"] exI [of _ "conv CV_32F 1 x"]) simp
next
  case (Cons i ms)
  from Cons.prems(6) [of i] have ok: "accepts inp i" "same_shape m i" by simp_all
  have lt: "\<not> av_total a \<ge> av_numFrames a" using Cons.prems by auto
  let ?a = "a\<lparr>av_avg := Some (acc i m), av_total := t + 1\<rparr>"
  from average_frame [OF ok(1) fr, of er conv acc out a] Cons.prems ok lt obtain rg where
    pl: "play er (Average_process conv acc fr inp out a) (mat_rig (cp_ref inp) i) = ((Inr True, ?a), rg)"
    and no: "rg_out rg (cp_ref out) = None"
    by (auto simp: other_shape_Some Let_def)
  have vals: "v (acc i m) = v i + v m" and shape: "same_shape (acc i m) j = same_shape m j" for j
    using ops by (simp_all add: averaging_ops_def same_shape_def)
  have "\<exists>img m'. drive er (Average_process conv acc fr inp out) (cp_ref out) ?a (map (mat_rig (cp_ref inp)) (ms @ [x])) =
       (Inr (replicate (length ms) None @ [Some (VMat img)]), ?a\<lparr>av_total := 1, av_avg := Some m'\<rparr>) \<and>
      v img = sat ((v (acc i m) + sum_list (map v ms) + v x) / N) \<and> v m' = v x \<and> same_shape m' x"
    by (rule Cons.IH [of "t + 1"]) (use Cons.prems shape in auto)
  then show ?case by (auto simp: pl no vals algebra_simps)
qed

lemma average_running:
  assumes ops: "averaging_ops v sat conv acc" and fr: "cp_ref inp \<noteq> fr" and len: "1 \<le> N" "length ms = nat (N - 1)"
    and ok: "\<And>i. i \<in> set (ms @ [x]) \<Longrightarrow> accepts inp i \<and> same_shape m i"
  obtains img m' where
    "drive er (Average_process conv acc fr inp out) (cp_ref out) \<lparr>av_numFrames = N, av_total = 1, av_avg = Some m\<rparr>
        (map (mat_rig (cp_ref inp)) (ms @ [x])) =
      (Inr (replicate (length ms) None @ [Some (VMat img)]), \<lparr>av_numFrames = N, av_total = 1, av_avg = Some m'\<rparr>)"
    "v img = sat ((v m + sum_list (map v ms) + v x) / N)" "v m' = v x" "same_shape m' x"
proof -
  let ?a = "\<lparr>av_numFrames = N, av_total = 1, av_avg = Some m\<rparr>"
  have "int (length ms) = N - 1" using len by simp
  from average_period [where a = ?a and m = m and x = x and er = er and out = out, OF ops fr this _ _ _ _ ok]
  obtain img m' where "drive er (Average_process conv acc fr inp out) (cp_ref out) ?a (map (mat_rig (cp_ref inp)) (ms @ [x])) =
      (Inr (replicate (length ms) None @ [Some (VMat img)]), ?a\<lparr>av_total := 1, av_avg := Some m'\<rparr>)"
    "v img = sat ((v m + sum_list (map v ms) + v x) / N) \<and> v m' = v x \<and> same_shape m' x"
    by fastforce
  then show ?thesis by (intro that [of img m']) simp_all
qed

lemma average_first:
  assumes ops: "averaging_ops v sat conv acc" and fr: "cp_ref inp \<noteq> fr" and x: "accepts inp x" and N: "1 \<le> N"
  shows "\<exists>rg m. play er (Average_process conv acc fr inp out (Average_new\<lparr>av_numFrames := N\<rparr>)) (mat_rig (cp_ref inp) x) =
      ((Inr True, \<lparr>av_numFrames = N, av_total = 1, av_avg = Some m\<rparr>), rg) \<and>
    rg_out rg (cp_ref out) = None \<and> v m = 2 * v x \<and> same_shape m x"
  using average_frame [OF x fr, of er conv acc out "Average_new\<lparr>av_numFrames := N\<rparr>"] N ops
  by (auto simp: Average_new_def other_shape_def averaging_ops_def same_shape_def Let_def)

end
