(* ===== verification/Image_Stitch.thy ===== *)
theory Image_Stitch
  imports Cv_Mat
begin

text \<open>
  The processor \<open>Stitch\<close> (\<open>Stitch.cpp\<close>), which pastes up to four images of 16 bit words into one.  The contents of
  a matrix are its words: \<open>cm_data m (y, x)\<close> is the word number \<open>x\<close> of row \<open>y\<close>, which for an image with one channel
  is the pixel.
\<close>

type_synonym word_image = "(int \<times> int \<Rightarrow> 16 word) CvMat"

section \<open>Parameters\<close>

record Stitch =
  st_destinationWidth :: int
  st_destinationHeight :: int
  st_in0 :: "int \<times> int"
  st_in1 :: "int \<times> int"
  st_in2 :: "int \<times> int"
  st_in3 :: "int \<times> int"
  st_blend :: bool

definition Stitch_new :: Stitch where
  "Stitch_new =
     \<lparr>st_destinationWidth = 640 * 2, st_destinationHeight = 480 * 2, st_in0 = (0, 0), st_in1 = (0, 0),
      st_in2 = (0, 0), st_in3 = (0, 0), st_blend = False\<rparr>"

definition STITCH_DESTINATION_WIDTH_MAX :: int where "STITCH_DESTINATION_WIDTH_MAX = 1920 * 2"
definition STITCH_DESTINATION_HEIGHT_MAX :: int where "STITCH_DESTINATION_HEIGHT_MAX = 1080 * 2"

definition setDestinationWidth :: "int \<Rightarrow> Stitch \<Rightarrow> Stitch" where
  "setDestinationWidth width s =
     (let w = (if width < 0 then 0 else width);
          w = (if w > STITCH_DESTINATION_WIDTH_MAX then STITCH_DESTINATION_WIDTH_MAX else w)
      in s\<lparr>st_destinationWidth := w\<rparr>)"

definition setDestinationHeight :: "int \<Rightarrow> Stitch \<Rightarrow> Stitch" where
  "setDestinationHeight height s =
     (let h = (if height < 0 then 0 else height);
          h = (if h > STITCH_DESTINATION_HEIGHT_MAX then STITCH_DESTINATION_HEIGHT_MAX else h)
      in s\<lparr>st_destinationHeight := h\<rparr>)"

definition setIn0X :: "int \<Rightarrow> Stitch \<Rightarrow> Stitch" where "setIn0X v s = s\<lparr>st_in0 := (v, snd (st_in0 s))\<rparr>"
definition setIn0Y :: "int \<Rightarrow> Stitch \<Rightarrow> Stitch" where "setIn0Y v s = s\<lparr>st_in0 := (fst (st_in0 s), v)\<rparr>"
definition setIn1X :: "int \<Rightarrow> Stitch \<Rightarrow> Stitch" where "setIn1X v s = s\<lparr>st_in1 := (v, snd (st_in1 s))\<rparr>"
definition setIn1Y :: "int \<Rightarrow> Stitch \<Rightarrow> Stitch" where "setIn1Y v s = s\<lparr>st_in1 := (fst (st_in1 s), v)\<rparr>"
definition setIn2X :: "int \<Rightarrow> Stitch \<Rightarrow> Stitch" where "setIn2X v s = s\<lparr>st_in2 := (v, snd (st_in2 s))\<rparr>"
definition setIn2Y :: "int \<Rightarrow> Stitch \<Rightarrow> Stitch" where "setIn2Y v s = s\<lparr>st_in2 := (fst (st_in2 s), v)\<rparr>"
definition setIn3X :: "int \<Rightarrow> Stitch \<Rightarrow> Stitch" where "setIn3X v s = s\<lparr>st_in3 := (v, snd (st_in3 s))\<rparr>"
definition setIn3Y :: "int \<Rightarrow> Stitch \<Rightarrow> Stitch" where "setIn3Y v s = s\<lparr>st_in3 := (fst (st_in3 s), v)\<rparr>"

definition setBlend :: "bool \<Rightarrow> Stitch \<Rightarrow> Stitch" where
  "setBlend b s = s\<lparr>st_blend := b\<rparr>"

section \<open>Pasting\<close>

text \<open>The value that is stored for a word of the source and one of the destination.  The cast in
  \<open>(unsigned short) (inval + outval) * 0.5f\<close> applies to the sum, which loses its highest bit.\<close>

definition blendValue :: "bool \<Rightarrow> 16 word \<Rightarrow> 16 word \<Rightarrow> 16 word" where
  "blendValue blend inval outval =
     (if \<not> blend then inval
      else if outval > 0 then word_of_int (uint (inval + outval) div 2)
      else inval)"

definition copyRange :: "int \<Rightarrow> int \<Rightarrow> int \<Rightarrow> int list" where
  "copyRange displacement inSize outSize =
     (let start = (if displacement < 0 then - displacement else 0);
          stop = (if inSize + displacement > outSize then inSize - ((inSize + displacement) - outSize) else inSize)
      in [start..stop - 1])"

definition copyImgInto :: "bool \<Rightarrow> word_image \<Rightarrow> int \<Rightarrow> int \<Rightarrow> word_image \<Rightarrow> word_image" where
  "copyImgInto blend img posX posY out =
     out\<lparr>cm_data :=
       fold (\<lambda>(y, x) d. d((y + posY, x + posX) := blendValue blend (cm_data img (y, x)) (d (y + posY, x + posX))))
         (List.product (copyRange posY (cm_rows img) (cm_rows out)) (copyRange posX (cm_cols img) (cm_cols out)))
         (cm_data out)\<rparr>"

definition stitchInto ::
    "(CvMatDataProperties \<Rightarrow> int \<times> int \<Rightarrow> 16 word) \<Rightarrow> Stitch \<Rightarrow> word_image \<Rightarrow> word_image \<Rightarrow> word_image \<Rightarrow> word_image \<Rightarrow>
     plv_exn + word_image" where
  "stitchInto mem s in0 in1 in2 in3 =
     map_sum id (\<lambda>out.
       copyImgInto (st_blend s) in3 (fst (st_in3 s) + cm_cols in0) (snd (st_in3 s) + cm_rows in0)
         (copyImgInto (st_blend s) in2 (fst (st_in2 s)) (snd (st_in2 s) + cm_rows in0)
           (copyImgInto (st_blend s) in1 (fst (st_in1 s) + cm_cols in0) (snd (st_in1 s))
             (copyImgInto (st_blend s) in0 (fst (st_in0 s)) (snd (st_in0 s)) (out\<lparr>cm_data := (\<lambda>_. 0)\<rparr>)))))
       (mat_create mem \<lparr>mp_width = st_destinationWidth s, mp_height = st_destinationHeight s,
                       mp_depth = cm_depth in0, mp_channels = cm_channels in0\<rparr>)"

text \<open>An input that is not connected is replaced by a new matrix, of which the contents are not initialised.\<close>

definition optionalImage ::
    "(CvMatDataProperties \<Rightarrow> 'd) \<Rightarrow> CvPin \<Rightarrow> 'd CvMat \<Rightarrow> ('d pv, 's, 'd CvMat) proc" where
  "optionalImage mem pin like =
     bindP (isConnectedP (cp_ref pin)) (\<lambda>c.
       if c then getMat pin else liftP (mat_create mem (mat_properties like)))"

definition Stitch_process ::
    "(CvMatDataProperties \<Rightarrow> int \<times> int \<Rightarrow> 16 word) \<Rightarrow> CvPin \<Rightarrow> CvPin \<Rightarrow> CvPin \<Rightarrow> CvPin \<Rightarrow> CvPin \<Rightarrow>
     ((int \<times> int \<Rightarrow> 16 word) pv, Stitch, bool) proc" where
  "Stitch_process mem inputPin0 inputPin1 inputPin2 inputPin3 outputPin =
     bindP (getMat inputPin0) (\<lambda>in0.
     bindP (getMat inputPin1) (\<lambda>in1.
     bindP (optionalImage mem inputPin2 in1) (\<lambda>in2.
     bindP (optionalImage mem inputPin3 in1) (\<lambda>in3.
       if cm_depth in0 \<noteq> cm_depth in1 \<or> cm_depth in0 \<noteq> cm_depth in2 \<or> cm_depth in0 \<noteq> cm_depth in3 then
         seqP (setErrorP PlvPipelineRuntimeError ''Not all images have equal depth'') (retP False)
       else if cm_channels in0 \<noteq> cm_channels in1 \<or> cm_channels in0 \<noteq> cm_channels in2 \<or>
               cm_channels in0 \<noteq> cm_channels in3 then
         seqP (setErrorP PlvPipelineRuntimeError ''Not all images have an equal number of channels'') (retP False)
       else bindP (getP (\<lambda>s. stitchInto mem s in0 in1 in2 in3)) (\<lambda>r.
         bindP (liftP r) (\<lambda>outImg. seqP (putMat outputPin outImg) (retP True)))))))"

section \<open>What is pasted\<close>

definition covers :: "word_image \<Rightarrow> int \<Rightarrow> int \<Rightarrow> int \<times> int \<Rightarrow> bool" where
  "covers img posX posY p \<longleftrightarrow>
     0 \<le> fst p - posY \<and> fst p - posY < cm_rows img \<and> 0 \<le> snd p - posX \<and> snd p - posX < cm_cols img"

definition in_bounds :: "'d CvMat \<Rightarrow> int \<times> int \<Rightarrow> bool" where
  "in_bounds out p \<longleftrightarrow> 0 \<le> fst p \<and> fst p < cm_rows out \<and> 0 \<le> snd p \<and> snd p < cm_cols out"

lemma copyRange_iff: "i \<in> set (copyRange d n m) \<longleftrightarrow> 0 \<le> i \<and> i < n \<and> 0 \<le> i + d \<and> i + d < m"
  by (auto simp: copyRange_def Let_def)

lemma copyRange_distinct: "distinct (copyRange d n m)"
  by (simp add: copyRange_def Let_def)

text \<open>An update of different places, each from its old value.\<close>

lemma fold_update_places:
  "distinct (map f ps) \<Longrightarrow>
    fold (\<lambda>p d. d(f p := g p (d (f p)))) ps d a =
      (case find (\<lambda>p. f p = a) ps of None \<Rightarrow> d a | Some p \<Rightarrow> g p (d a))"
proof (induction ps arbitrary: d)
  case (Cons p ps)
  have "find (\<lambda>q. f q = f p) ps = None" using Cons.prems by (auto simp: find_None_iff image_iff)
  with Cons show ?case by (auto split: option.splits)
qed simp

text \<open>Every word inside the destination that the source covers gets the new value, and no other word changes; the
  loops read and write inside the two matrices.\<close>

lemma copyImgInto_words:
  "cm_data (copyImgInto blend img posX posY out) p =
     (if in_bounds out p \<and> covers img posX posY p
      then blendValue blend (cm_data img (fst p - posY, snd p - posX)) (cm_data out p)
      else cm_data out p)"
proof -
  let ?ps = "List.product (copyRange posY (cm_rows img) (cm_rows out)) (copyRange posX (cm_cols img) (cm_cols out))"
  let ?f = "\<lambda>(y, x). (y + posY, x + posX)"
  have d: "distinct (map ?f ?ps)"
    by (auto simp: distinct_map distinct_product copyRange_distinct inj_on_def)
  have cell: "(y, x) \<in> set ?ps \<longleftrightarrow> in_bounds out (y + posY, x + posX) \<and> covers img posX posY (y + posY, x + posX)" for y x
    by (auto simp: copyRange_iff in_bounds_def covers_def)
  have up: "(\<lambda>(y, x) d. d((y + posY, x + posX) := blendValue blend (cm_data img (y, x)) (d (y + posY, x + posX)))) =
      (\<lambda>q d. d(?f q := (\<lambda>q v. blendValue blend (cm_data img q) v) q (d (?f q))))"
    by (auto simp: fun_eq_iff)
  have "find (\<lambda>q. ?f q = p) ?ps =
      (if in_bounds out p \<and> covers img posX posY p then Some (fst p - posY, snd p - posX) else None)"
  proof (cases "find (\<lambda>q. ?f q = p) ?ps")
    case None
    moreover have "?f (fst p - posY, snd p - posX) = p" by simp
    ultimately have "(fst p - posY, snd p - posX) \<notin> set ?ps" unfolding find_None_iff by blast
    with None cell [of "fst p - posY" "snd p - posX"] show ?thesis by auto
  next
    case (Some q)
    then have "q \<in> set ?ps" "?f q = p" by (auto dest!: find_SomeD)
    with Some cell [of "fst q" "snd q"] show ?thesis by (cases q) auto
  qed
  then show ?thesis
    unfolding copyImgInto_def up using fold_update_places [OF d, of "\<lambda>q v. blendValue blend (cm_data img q) v"]
    by auto
qed

lemma copyImgInto_header [simp]:
  "cm_rows (copyImgInto blend img posX posY out) = cm_rows out"
  "cm_cols (copyImgInto blend img posX posY out) = cm_cols out"
  "cm_depth (copyImgInto blend img posX posY out) = cm_depth out"
  "cm_channels (copyImgInto blend img posX posY out) = cm_channels out"
  "in_bounds (copyImgInto blend img posX posY out) = in_bounds out"
  by (simp_all add: copyImgInto_def in_bounds_def fun_eq_iff)

text \<open>The layers in the order in which they are pasted.\<close>

definition layers :: "Stitch \<Rightarrow> word_image \<Rightarrow> word_image \<Rightarrow> word_image \<Rightarrow> word_image \<Rightarrow> (word_image \<times> int \<times> int) list" where
  "layers s in0 in1 in2 in3 =
     [(in0, fst (st_in0 s), snd (st_in0 s)),
      (in1, fst (st_in1 s) + cm_cols in0, snd (st_in1 s)),
      (in2, fst (st_in2 s), snd (st_in2 s) + cm_rows in0),
      (in3, fst (st_in3 s) + cm_cols in0, snd (st_in3 s) + cm_rows in0)]"

definition layer :: "bool \<Rightarrow> int \<times> int \<Rightarrow> word_image \<times> int \<times> int \<Rightarrow> 16 word \<Rightarrow> 16 word" where
  "layer blend p l v =
     (case l of (img, posX, posY) \<Rightarrow>
        if covers img posX posY p then blendValue blend (cm_data img (fst p - posY, snd p - posX)) v else v)"

lemma copyImgInto_layer:
  "in_bounds out p \<Longrightarrow> cm_data (copyImgInto blend img posX posY out) p = layer blend p (img, posX, posY) (cm_data out p)"
  by (simp add: copyImgInto_words layer_def)

lemma stitchInto_words:
  assumes "stitchInto mem s in0 in1 in2 in3 = Inr out"
  shows "cm_cols out = st_destinationWidth s" "cm_rows out = st_destinationHeight s"
    and "in_bounds out p \<Longrightarrow> cm_data out p = fold (layer (st_blend s) p) (layers s in0 in1 in2 in3) 0"
proof -
  let ?ps = "\<lparr>mp_width = st_destinationWidth s, mp_height = st_destinationHeight s,
                       mp_depth = cm_depth in0, mp_channels = cm_channels in0\<rparr>"
  from assms obtain o0 where c: "mat_create mem ?ps = Inr o0"
    by (cases "mat_create mem ?ps") (auto simp: stitchInto_def)
  from c have size: "cm_cols o0 = st_destinationWidth s" "cm_rows o0 = st_destinationHeight s"
    by (auto simp: mat_create_def split: if_splits)
  have out: "out = copyImgInto (st_blend s) in3 (fst (st_in3 s) + cm_cols in0) (snd (st_in3 s) + cm_rows in0)
         (copyImgInto (st_blend s) in2 (fst (st_in2 s)) (snd (st_in2 s) + cm_rows in0)
           (copyImgInto (st_blend s) in1 (fst (st_in1 s) + cm_cols in0) (snd (st_in1 s))
             (copyImgInto (st_blend s) in0 (fst (st_in0 s)) (snd (st_in0 s)) (o0\<lparr>cm_data := (\<lambda>_. 0)\<rparr>))))"
    using assms by (simp add: stitchInto_def c)
  show "cm_cols out = st_destinationWidth s" "cm_rows out = st_destinationHeight s"
    by (simp_all add: out size)
  assume "in_bounds out p"
  then have "in_bounds (o0\<lparr>cm_data := (\<lambda>_. 0)\<rparr>) p" by (simp add: out)
  then show "cm_data out p = fold (layer (st_blend s) p) (layers s in0 in1 in2 in3) 0"
    by (simp add: out layers_def copyImgInto_layer)
qed

text \<open>Without blending the last layer that covers a word gives its value.\<close>

definition topmost :: "int \<times> int \<Rightarrow> (word_image \<times> int \<times> int) list \<Rightarrow> 16 word" where
  "topmost p ls =
     (case find (\<lambda>(img, posX, posY). covers img posX posY p) (rev ls) of
        None \<Rightarrow> 0
      | Some (img, posX, posY) \<Rightarrow> cm_data img (fst p - posY, snd p - posX))"

lemma find_rev_snoc: "find P (rev (ls @ [l])) = (if P l then Some l else find P (rev ls))"
  by simp

lemma fold_layer_topmost: "fold (layer False p) ls 0 = topmost p ls"
proof (induction ls rule: rev_induct)
  case Nil
  then show ?case by (simp add: topmost_def)
next
  case (snoc l ls)
  then show ?case
    by (cases l) (auto simp: topmost_def layer_def blendValue_def split: option.splits)
qed

end
