(* ===== verification/Image_Files.thy ===== *)
theory Image_Files
  imports Cv_Mat Plv_Enum
begin

text \<open>
  Images in files: \<open>SaveImageToFile.cpp\<close>, \<open>ImageDirectoryProducer.cpp\<close> and \<open>ImageProducer.cpp\<close>.  The file system is a map
  from names to contents; which directories exist, which files can be opened, and OpenCV's reading and writing of
  image files are parameters.  The names that \<open>QString::arg\<close> builds are written as concatenations, which they are
  for paths and names without place markers.
\<close>

section \<open>Paths\<close>

definition slashes :: "string \<Rightarrow> string" where
  "slashes path = map (\<lambda>c. if c = CHR 0x5C then CHR ''/'' else c) path"

definition endsWith :: "char \<Rightarrow> string \<Rightarrow> bool" where
  "endsWith c t \<longleftrightarrow> t \<noteq> [] \<and> last t = c"

definition directoryPath :: "string \<Rightarrow> string" where
  "directoryPath path = (let p = slashes path in if \<not> endsWith (CHR ''/'') p then p @ ''/'' else p)"

text \<open>\<open>split(".").at(0)\<close>.\<close>

definition beforeDot :: "string \<Rightarrow> string" where
  "beforeDot t = takeWhile (\<lambda>c. c \<noteq> CHR ''.'') t"

section \<open>Saving\<close>

datatype 'd image_file = EmptyFile | ImageFile "'d CvMat" | OtherFile

record 'd SaveImageToFile =
  sf_directory :: string
  sf_fileExt :: string
  sf_fileFormat :: Enum
  sf_files :: "string \<Rightarrow> 'd image_file option"
  sf_warnings :: "string list"

definition formatExtension :: "int \<Rightarrow> string" where
  "formatExtension i =
     (if i = 1 then ''.jpg'' else if i = 2 then ''.png'' else if i = 3 then ''.pbm''
      else if i = 4 then ''.sr'' else if i = 5 then ''.tiff'' else ''.bmp'')"

definition setFileFormat :: "Enum \<Rightarrow> 'd SaveImageToFile \<Rightarrow> 'd SaveImageToFile" where
  "setFileFormat e s = s\<lparr>sf_fileFormat := e, sf_fileExt := formatExtension (m_selectedIndex e)\<rparr>"

definition sf_setDirectory :: "State \<Rightarrow> string \<Rightarrow> 'd SaveImageToFile \<Rightarrow> 'd SaveImageToFile" where
  "sf_setDirectory st d s = (if st > PLE_UNDEFINED then s else s\<lparr>sf_directory := d\<rparr>)"

definition sf_init :: "(string \<Rightarrow> bool) \<Rightarrow> 'd SaveImageToFile \<Rightarrow> bool \<times> 'd SaveImageToFile" where
  "sf_init dirExists s =
     (let d = directoryPath (sf_directory s) in (dirExists d, s\<lparr>sf_directory := d\<rparr>))"

text \<open>One image of the loop.  \<open>success\<close> is declared before the loop.  \<open>imwrite\<close> tells whether it has written the file.\<close>

definition saveOne ::
    "(string \<Rightarrow> bool) \<Rightarrow> (string \<Rightarrow> 'd CvMat \<Rightarrow> bool) \<Rightarrow> string \<Rightarrow> 'd CvMat \<Rightarrow> bool \<Rightarrow> 'd SaveImageToFile \<Rightarrow>
     bool \<times> 'd SaveImageToFile" where
  "saveOne openable imwrite filename m success s =
     (let (success, s) =
        (if sf_files s filename = None \<and> openable filename then
           (let s1 = s\<lparr>sf_files := (sf_files s)(filename := Some EmptyFile)\<rparr> in
            if imwrite filename m then (True, s1\<lparr>sf_files := (sf_files s1)(filename := Some (ImageFile m))\<rparr>)
            else (False, s1))
         else (success, s))
      in (success, if \<not> success then s\<lparr>sf_warnings := sf_warnings s @ [filename]\<rparr> else s))"

definition imageName :: "bool \<Rightarrow> string \<Rightarrow> string \<Rightarrow> int \<Rightarrow> string \<Rightarrow> string" where
  "imageName multi path begin i ext =
     (if multi then path @ begin @ ''_'' @ qs_number i @ ext else path @ begin @ ext)"

fun saveLoop ::
    "(string \<Rightarrow> bool) \<Rightarrow> (string \<Rightarrow> 'd CvMat \<Rightarrow> bool) \<Rightarrow> (int \<Rightarrow> string) \<Rightarrow> int \<Rightarrow> 'd CvMat list \<Rightarrow> bool \<Rightarrow>
     'd SaveImageToFile \<Rightarrow> 'd SaveImageToFile" where
  "saveLoop openable imwrite nm i [] success s = s"
| "saveLoop openable imwrite nm i (m # ms) success s =
     (case saveOne openable imwrite (nm i) m success s of
        (success', s') \<Rightarrow> saveLoop openable imwrite nm (i + 1) ms success' s')"

definition saveImages ::
    "(string \<Rightarrow> bool) \<Rightarrow> (string \<Rightarrow> 'd CvMat \<Rightarrow> bool) \<Rightarrow> string \<Rightarrow> string \<Rightarrow> 'd CvMat list \<Rightarrow> 'd SaveImageToFile \<Rightarrow>
     'd SaveImageToFile" where
  "saveImages openable imwrite path begin images s =
     saveLoop openable imwrite (\<lambda>i. imageName (length images > 1) path begin i (sf_fileExt s)) 0 images False s"

text \<open>The path, or nothing when it does not exist; the beginning of the names; and whether to save.\<close>

definition savePath :: "(string \<Rightarrow> bool) \<Rightarrow> ref \<Rightarrow> ('d pv, 'd SaveImageToFile, string option) proc" where
  "savePath dirExists inputPath =
     bindP (isConnectedP inputPath) (\<lambda>c.
       if c then
         bindP (getString inputPath) (\<lambda>p.
           let path = directoryPath p in
           if \<not> dirExists path then retP None else retP (Some path))
       else bindP (getP sf_directory) (\<lambda>d. retP (Some d)))"

definition saveName :: "string \<Rightarrow> ref \<Rightarrow> ('d pv, 'd SaveImageToFile, string) proc" where
  "saveName serial inputFilename =
     bindP (isConnectedP inputFilename) (\<lambda>c.
       if c then bindP (getString inputFilename) (\<lambda>n. retP (if n \<noteq> '''' then beforeDot n else serial))
       else retP serial)"

definition saveTriggered :: "ref \<Rightarrow> ('d pv, 'd SaveImageToFile, bool) proc" where
  "saveTriggered inputTrigger =
     bindP (isConnectedP inputTrigger) (\<lambda>c.
       if \<not> c then retP True else
       bindP (hasDataItemsP inputTrigger) (\<lambda>h. if \<not> h then retP False else getBool inputTrigger))"

text \<open>\<open>getImage\<close> reads the pin \<open>image\<close>, an \<open>InputPin<CvMatData>\<close> without the checks of an image pin.\<close>

definition getImage :: "'d CvMat \<Rightarrow> ref \<Rightarrow> ('d pv, 's, 'd CvMat) proc" where
  "getImage noImage q = bindP (getVariantP q) (\<lambda>v. retP (case v of Some (VMat m) \<Rightarrow> m | _ \<Rightarrow> noImage))"

definition SaveImageToFile_process ::
    "(string \<Rightarrow> bool) \<Rightarrow> (string \<Rightarrow> bool) \<Rightarrow> (string \<Rightarrow> 'd CvMat \<Rightarrow> bool) \<Rightarrow> 'd CvMat \<Rightarrow> serial \<Rightarrow>
     ref \<Rightarrow> ref \<Rightarrow> ref \<Rightarrow> ref \<Rightarrow> ref \<Rightarrow> ('d pv, 'd SaveImageToFile, bool) proc" where
  "SaveImageToFile_process dirExists openable imwrite noImage serial inputImage inputImages inputFilename inputPath inputTrigger =
     bindP (isConnectedP inputImage) (\<lambda>c1.
     bindP (if c1 then bindP (getImage noImage inputImage) (\<lambda>m. retP [m]) else retP []) (\<lambda>images1.
     bindP (isConnectedP inputImages) (\<lambda>c2.
     bindP (if c2 then bindP (getVariantP inputImages) (\<lambda>v. retP (to_mats v)) else retP []) (\<lambda>images2.
     bindP (savePath dirExists inputPath) (\<lambda>path.
       case path of
         None \<Rightarrow> retP True
       | Some path \<Rightarrow>
           bindP (saveName (qs_number (uint serial)) inputFilename) (\<lambda>begin.
           bindP (saveTriggered inputTrigger) (\<lambda>go.
             if go then seqP (modifyP (saveImages openable imwrite path begin (images1 @ images2))) (retP True)
             else retP True)))))))"

section \<open>Reading a directory\<close>

record FileInfo =
  fi_name :: string
  fi_path :: string

record ImageDirectoryProducer =
  id_directory :: string
  id_entries :: "FileInfo list"
  id_idx :: int

definition id_setDirectory :: "(string \<Rightarrow> bool) \<Rightarrow> string \<Rightarrow> ImageDirectoryProducer \<Rightarrow> ImageDirectoryProducer" where
  "id_setDirectory dirExists directory p =
     (if dirExists directory then p\<lparr>id_directory := slashes directory\<rparr> else p)"

text \<open>\<open>entries\<close> lists a directory with the filters, sorted by name.\<close>

definition id_init ::
    "(string \<Rightarrow> bool) \<Rightarrow> (string \<Rightarrow> FileInfo list) \<Rightarrow> ImageDirectoryProducer \<Rightarrow> bool \<times> ImageDirectoryProducer" where
  "id_init dirExists entries p =
     (if \<not> dirExists (id_directory p) then (False, p)
      else (True, p\<lparr>id_entries := entries (id_directory p), id_idx := 0\<rparr>))"

definition id_deinit :: "ImageDirectoryProducer \<Rightarrow> bool \<times> ImageDirectoryProducer" where
  "id_deinit p = (True, p\<lparr>id_entries := [], id_idx := 0\<rparr>)"

definition id_readyToProduce :: "ImageDirectoryProducer \<Rightarrow> bool" where
  "id_readyToProduce p \<longleftrightarrow> id_idx p < int (length (id_entries p))"

text \<open>\<open>QList::at\<close> asserts that the index is in range.\<close>

definition ImageDirectoryProducer_produce ::
    "(string \<Rightarrow> 'd CvMat option) \<Rightarrow> CvPin \<Rightarrow> ref \<Rightarrow> ref \<Rightarrow> ('d pv, ImageDirectoryProducer, bool) proc" where
  "ImageDirectoryProducer_produce imread imgOutputPin fileNameOutputPin filePathOutputPin =
     bindP (getP (\<lambda>p. p)) (\<lambda>p.
     if \<not> (0 \<le> id_idx p \<and> id_idx p < int (length (id_entries p))) then throwP AssertFailed
     else
       let fileInfo = id_entries p ! nat (id_idx p) in
       case imread (fi_path fileInfo @ ''/'' @ fi_name fileInfo) of
         None \<Rightarrow> seqP (setErrorP PlvPipelineRuntimeError (''Failed to load image '' @ fi_path fileInfo @ ''.'')) (retP False)
       | Some img \<Rightarrow>
           seqP (putMat imgOutputPin img)
           (seqP (putP fileNameOutputPin (VString (fi_name fileInfo)))
           (seqP (putP filePathOutputPin (VString (fi_path fileInfo)))
           (seqP (modifyP (\<lambda>p. p\<lparr>id_idx := id_idx p + 1\<rparr>)) (retP True)))))"

section \<open>Reading one image\<close>

definition toLower :: "char \<Rightarrow> char" where
  "toLower c = (if of_char c \<ge> (65::nat) \<and> of_char c \<le> (90::nat) then char_of (of_char c + (32::nat)) else c)"

definition midRef :: "nat \<Rightarrow> string \<Rightarrow> string" where
  "midRef n t = map toLower (drop (length t - n) t)"

definition imageExtensions :: "string list" where
  "imageExtensions = [''.bmp'', ''.dib'', ''.jpg'', ''.jpe'', ''.png'', ''.pbm'', ''.pgm'', ''.ppm'', ''.ras'', ''.tif'']"

definition validateExtension :: "string \<Rightarrow> bool" where
  "validateExtension filename =
     (if midRef 3 filename = ''.sr'' then True
      else if length filename < 5 then False
      else if midRef 4 filename \<in> set imageExtensions then True
      else if length filename < 6 then False
      else midRef 5 filename = ''.jpeg'' \<or> midRef 5 filename = ''.tiff'')"

record 'd ImageProducer =
  im_filename :: string
  im_directory :: string
  im_loaded :: "'d CvMat option"
  im_putImage :: bool

definition setFilename :: "string \<Rightarrow> 'd ImageProducer \<Rightarrow> 'd ImageProducer" where
  "setFilename filename p =
     (if length filename < 4 \<or> \<not> validateExtension filename then p else p\<lparr>im_filename := filename\<rparr>)"

definition im_setDirectory :: "(string \<Rightarrow> bool) \<Rightarrow> string \<Rightarrow> 'd ImageProducer \<Rightarrow> 'd ImageProducer" where
  "im_setDirectory dirExists directory p =
     (if dirExists directory then p\<lparr>im_directory := slashes directory\<rparr> else p)"

definition im_init :: "(string \<Rightarrow> 'd CvMat option) \<Rightarrow> 'd ImageProducer \<Rightarrow> bool \<times> 'd ImageProducer" where
  "im_init imread p =
     (let path = (if \<not> endsWith (CHR ''/'') (im_directory p) then im_directory p @ ''/'' else im_directory p)
                   @ im_filename p
      in case imread path of
           None \<Rightarrow> (False, p)
         | Some img \<Rightarrow> (True, p\<lparr>im_loaded := Some img, im_putImage := True\<rparr>))"

definition im_deinit :: "'d ImageProducer \<Rightarrow> bool \<times> 'd ImageProducer" where
  "im_deinit p = (True, p\<lparr>im_loaded := None\<rparr>)"

definition im_readyToProduce :: "'d ImageProducer \<Rightarrow> bool" where
  "im_readyToProduce p \<longleftrightarrow> (case im_loaded p of None \<Rightarrow> False | Some m \<Rightarrow> mat_isValid m)"

definition ImageProducer_produce :: "CvPin \<Rightarrow> ('d pv, 'd ImageProducer, bool) proc" where
  "ImageProducer_produce outputPin =
     bindP (getP (\<lambda>p. p)) (\<lambda>p.
       case (im_putImage p, im_loaded p) of
         (True, Some m) \<Rightarrow> seqP (putMat outputPin m) (seqP (modifyP (\<lambda>p. p\<lparr>im_putImage := False\<rparr>)) (retP True))
       | _ \<Rightarrow> retP True)"

section \<open>Properties of saving\<close>

text \<open>A file that is there is never changed.\<close>

lemma saveOne_keeps: "sf_files s f = Some c \<Longrightarrow> sf_files (snd (saveOne openable imwrite n m success s)) f = Some c"
  by (auto simp: saveOne_def Let_def split: if_splits)

lemma saveLoop_keeps: "sf_files s f = Some c \<Longrightarrow> sf_files (saveLoop openable imwrite nm i ms success s) f = Some c"
proof (induction ms arbitrary: i success s)
  case (Cons m ms)
  then show ?case
    using saveOne_keeps [of s f c openable imwrite "nm i" m success] by (auto split: prod.split)
qed simp

text \<open>When every name is free and can be written, every image is in its file.\<close>

lemma saveLoop_writes:
  assumes "\<And>n m. imwrite n m" "\<And>n. openable n" "inj nm"
  shows "(\<And>k. i \<le> k \<Longrightarrow> sf_files s (nm k) = None) \<Longrightarrow> k < length ms \<Longrightarrow>
    sf_files (saveLoop openable imwrite nm i ms success s) (nm (i + int k)) = Some (ImageFile (ms ! k))"
proof (induction ms arbitrary: i success s k)
  case (Cons m ms)
  let ?s = "s\<lparr>sf_files := (sf_files s)(nm i := Some (ImageFile m))\<rparr>"
  have one: "saveOne openable imwrite (nm i) m success s = (True, ?s)"
    using Cons.prems(1) [of i] assms(1,2) by (simp add: saveOne_def Let_def)
  have free: "sf_files ?s (nm k) = None" if "i + 1 \<le> k" for k
    using Cons.prems(1) [of k] that injD [OF assms(3), of k i] by auto
  show ?case
  proof (cases k)
    case 0
    then show ?thesis by (simp add: one saveLoop_keeps)
  next
    case (Suc j)
    then show ?thesis using Cons.IH [of "i + 1" ?s j True] free Cons.prems(2) by (simp add: one algebra_simps)
  qed
qed simp

lemma imageName_inj: "inj (\<lambda>i. imageName True path name i ext)"
  by (rule injI) (simp add: imageName_def qs_number_inject)

lemma saveImages_writes:
  assumes "\<And>n m. imwrite n m" "\<And>n. openable n"
    and free: "\<And>i. sf_files s (imageName (length images > 1) path name i (sf_fileExt s)) = None"
    and k: "k < length images"
  shows "sf_files (saveImages openable imwrite path name images s)
      (imageName (length images > 1) path name (int k) (sf_fileExt s)) = Some (ImageFile (images ! k))"
proof (cases "length images > 1")
  case True
  then have free': "sf_files s (imageName True path name i (sf_fileExt s)) = None" for i using free [of i] by simp
  from True show ?thesis
    using saveLoop_writes [where nm = "\<lambda>i. imageName True path name i (sf_fileExt s)" and i = 0 and success = False,
        OF assms(1,2) imageName_inj free' k]
    by (simp add: saveImages_def)
next
  case False
  with k obtain m where "images = [m]" "k = 0" by (cases images) auto
  with free [of 0] assms(1,2) show ?thesis
    by (simp add: saveImages_def saveOne_def imageName_def Let_def)
qed

text \<open>A failure after the first success is not reported: the name of a file that is there is passed over in silence.\<close>

lemma second_failure_is_silent:
  assumes "imwrite (nm 0) m" "openable (nm 0)" "sf_files s (nm 0) = None" "sf_files s (nm 1) = Some OtherFile" "nm 0 \<noteq> nm 1"
  shows "sf_warnings (saveLoop openable imwrite nm 0 [m, m'] False s) = sf_warnings s"
  using assms by (simp add: saveOne_def Let_def)

section \<open>The names of image files\<close>

lemma midRef_suffix:
  assumes "length e = n" "n \<le> length t"
  shows "midRef n t = e \<longleftrightarrow> (\<exists>b x. t = b @ x \<and> map toLower x = e)"
proof
  assume "midRef n t = e"
  then have "t = take (length t - n) t @ drop (length t - n) t \<and> map toLower (drop (length t - n) t) = e"
    by (simp add: midRef_def)
  then show "\<exists>b x. t = b @ x \<and> map toLower x = e" by blast
next
  assume "\<exists>b x. t = b @ x \<and> map toLower x = e"
  then obtain b x where bx: "t = b @ x" "map toLower x = e" by blast
  then have "length x = n" using assms(1) by (metis length_map)
  then show "midRef n t = e" using bx by (simp add: midRef_def)
qed

lemma extension_lengths: "e \<in> set imageExtensions \<Longrightarrow> length e = 4"
  by (auto simp: imageExtensions_def)

text \<open>A name is taken exactly when it is a non-empty base with one of the extensions, in any case.\<close>

lemma setFilename_accepts:
  "4 \<le> length f \<and> validateExtension f \<longleftrightarrow>
     (\<exists>b x. f = b @ x \<and> b \<noteq> [] \<and> map toLower x \<in> set (''.sr'' # ''.jpeg'' # ''.tiff'' # imageExtensions))"
  (is "?l \<longleftrightarrow> ?r")
proof
  assume l: ?l
  have split: ?r if "midRef n f = e" "length e = n" "n < length f" "e \<in> set (''.sr'' # ''.jpeg'' # ''.tiff'' # imageExtensions)" for n e
  proof -
    have "f = take (length f - n) f @ drop (length f - n) f" "take (length f - n) f \<noteq> []" using that(3) by auto
    moreover have "map toLower (drop (length f - n) f) \<in> set (''.sr'' # ''.jpeg'' # ''.tiff'' # imageExtensions)"
      using that(1,4) by (simp only: midRef_def)
    ultimately show ?thesis by blast
  qed
  from l consider "midRef 3 f = ''.sr''" | "5 \<le> length f" "midRef 4 f \<in> set imageExtensions"
    | "6 \<le> length f" "midRef 5 f = ''.jpeg'' \<or> midRef 5 f = ''.tiff''"
    by (auto simp: validateExtension_def split: if_splits)
  then show ?r
  proof cases
    case 1 then show ?thesis using split [OF 1] l by auto
  next
    case 2 then show ?thesis using split [of 4 "midRef 4 f"] extension_lengths [OF 2(2)] by auto
  next
    case 3 then show ?thesis using split [of 5 "midRef 5 f"] by auto
  qed
next
  assume ?r
  then obtain b x where f: "f = b @ x" "b \<noteq> []" and x: "map toLower x \<in> set (''.sr'' # ''.jpeg'' # ''.tiff'' # imageExtensions)"
    by blast
  have b: "1 \<le> length b" using f(2) by (cases b) auto
  have m: "midRef (length x) f = map toLower x" by (simp add: f(1) midRef_def)
  from x consider "map toLower x = ''.sr''" | "map toLower x \<in> set imageExtensions"
    | "map toLower x = ''.jpeg'' \<or> map toLower x = ''.tiff''" by auto
  then show ?l
  proof cases
    case 1
    then have "length x = 3" by (metis length_map length_Cons list.size(3) numeral_3_eq_3)
    then show ?thesis using m 1 b f by (simp add: validateExtension_def)
  next
    case 2
    then have "length x = 4" by (metis extension_lengths length_map)
    then show ?thesis using m 2 b f by (simp add: validateExtension_def)
  next
    case 3
    then have "length x = 5" using length_map [of toLower x] by auto
    then show ?thesis using m 3 b f by (auto simp: validateExtension_def)
  qed
qed

end
