(* ===== verification/Image_Control.thy ===== *)
theory Image_Control
  imports Cv_Mat
begin

text \<open>
  Processors of \<open>plvopencv\<close> that pass images on or count them: \<open>Trigger.cpp\<close>, \<open>DelayImage.cpp\<close>, \<open>Snapshot.cpp\<close>,
  \<open>Crop.cpp\<close>, \<open>CropSubImage.cpp\<close>, and the buffer of \<open>CameraProducer.cpp\<close>.  Cutting a region out of a matrix is
  OpenCV's: the parameter \<open>roi\<close>.  The methods run between the locks of the property mutex; signals to the user
  interface are left out.
\<close>

section \<open>Trigger\<close>

record Trigger =
  tg_activate :: bool
  tg_continuous :: bool
  tg_count :: int
  tg_received :: int

text \<open>The constructor does not initialise \<open>m_received\<close>.\<close>

definition Trigger_new :: "int \<Rightarrow> Trigger" where
  "Trigger_new garbage = \<lparr>tg_activate = False, tg_continuous = False, tg_count = 1, tg_received = garbage\<rparr>"

definition setActivate :: "bool \<Rightarrow> Trigger \<Rightarrow> Trigger" where
  "setActivate b t = t\<lparr>tg_activate := b\<rparr>"

definition setContinuous :: "bool \<Rightarrow> Trigger \<Rightarrow> Trigger" where
  "setContinuous b t = t\<lparr>tg_continuous := b\<rparr>"

definition setCount :: "int \<Rightarrow> Trigger \<Rightarrow> Trigger" where
  "setCount i t = (if i > 0 then t\<lparr>tg_count := i\<rparr> else t)"

definition tg_receive :: "Trigger \<Rightarrow> Trigger" where
  "tg_receive t =
     (if tg_received t + 1 \<ge> tg_count t then t\<lparr>tg_activate := True, tg_received := 0\<rparr>
      else t\<lparr>tg_received := tg_received t + 1\<rparr>)"

definition Trigger_process :: "ref \<Rightarrow> ref \<Rightarrow> ref \<Rightarrow> ('d pv, Trigger, bool) proc" where
  "Trigger_process inputPin inputCount outputPin =
     bindP (getVariantP inputPin) (\<lambda>v.
     seqP (modifyP tg_receive)
     (seqP (bindP (isConnectedP inputCount) (\<lambda>c. if \<not> c then retP () else
            bindP (hasDataItemsP inputCount) (\<lambda>h. if \<not> h then retP () else
            bindP (getInt inputCount) (\<lambda>num. modifyP (\<lambda>t. if num \<noteq> tg_count t then t\<lparr>tg_count := num\<rparr> else t)))))
     (bindP (getP tg_activate) (\<lambda>a.
        if a then
          seqP (putP outputPin (VBool True))
          (seqP (modifyP (\<lambda>t. if \<not> tg_continuous t then setActivate False t else t)) (retP True))
        else seqP (putP outputPin (VBool False)) (retP True)))))"

section \<open>Delay\<close>

definition MAX_STEPS :: int where "MAX_STEPS = 100"

record 'd DelayImage =
  dl_images :: "'d CvMat list"
  dl_steps :: int

definition DelayImage_new :: "'d DelayImage" where
  "DelayImage_new = \<lparr>dl_images = [], dl_steps = 5\<rparr>"

definition DelayImage_start :: "'d DelayImage \<Rightarrow> plv_exn + bool" where
  "DelayImage_start d = (if \<not> dl_images d = [] then Inl AssertFailed else Inr True)"

definition DelayImage_stop :: "'d DelayImage \<Rightarrow> bool \<times> 'd DelayImage" where
  "DelayImage_stop d = (True, d\<lparr>dl_images := []\<rparr>)"

definition DelayImage_process :: "CvPin \<Rightarrow> CvPin \<Rightarrow> ('d pv, 'd DelayImage, bool) proc" where
  "DelayImage_process inputPin delayedOutputPin =
     bindP (getMat inputPin) (\<lambda>imgIn.
     seqP (modifyP (\<lambda>d. d\<lparr>dl_images := dl_images d @ [imgIn]\<rparr>))
     (bindP (getP (\<lambda>d. d)) (\<lambda>d.
        if int (length (dl_images d)) \<ge> dl_steps d then
          seqP (putMat delayedOutputPin (hd (dl_images d)))
          (seqP (modifyP (\<lambda>d. d\<lparr>dl_images := tl (dl_images d)\<rparr>)) (retP True))
        else retP True)))"

definition setSteps :: "int \<Rightarrow> 'd DelayImage \<Rightarrow> 'd DelayImage" where
  "setSteps i d = d\<lparr>dl_steps := (if i < 0 then 0 else if i > MAX_STEPS then MAX_STEPS else i)\<rparr>"

section \<open>Snapshot\<close>

record 'd Snapshot =
  sn_snapshot :: "'d CvMat option"
  sn_makeSnapshot :: bool
  sn_keepSending :: bool

text \<open>\<open>None\<close> is the empty image.\<close>

definition Snapshot_new :: "'d Snapshot" where
  "Snapshot_new = \<lparr>sn_snapshot = None, sn_makeSnapshot = True, sn_keepSending = False\<rparr>"

definition setMakeSnapshot :: "bool \<Rightarrow> 'd Snapshot \<Rightarrow> 'd Snapshot" where
  "setMakeSnapshot b s = s\<lparr>sn_makeSnapshot := b\<rparr>"

definition setKeepSending :: "bool \<Rightarrow> 'd Snapshot \<Rightarrow> 'd Snapshot" where
  "setKeepSending b s = s\<lparr>sn_keepSending := b\<rparr>"

definition Snapshot_process :: "CvPin \<Rightarrow> ref \<Rightarrow> CvPin \<Rightarrow> ('d pv, 'd Snapshot, bool) proc" where
  "Snapshot_process inputPin inputTrigger outputPin =
     bindP (getMat inputPin) (\<lambda>img.
     seqP (bindP (isConnectedP inputTrigger) (\<lambda>c. if \<not> c then retP () else
           bindP (hasDataItemsP inputTrigger) (\<lambda>h. if \<not> h then retP () else
           bindP (getBool inputTrigger) (\<lambda>trigger.
             modifyP (\<lambda>s. s\<lparr>sn_makeSnapshot := trigger \<or> sn_makeSnapshot s\<rparr>)))))
     (bindP (getP (\<lambda>s. s)) (\<lambda>s.
        if sn_makeSnapshot s then
          seqP (modifyP (\<lambda>s. s\<lparr>sn_snapshot := Some img, sn_makeSnapshot := False\<rparr>))
          (seqP (putMat outputPin img) (retP True))
        else
          (case sn_snapshot s of
             Some sn \<Rightarrow> if sn_keepSending s then seqP (putMat outputPin sn) (retP True) else retP True
           | None \<Rightarrow> retP True))))"

section \<open>Crop\<close>

text \<open>\<open>roi\<close> is the operator of \<open>cv::Mat\<close> that selects a rectangle; it throws for one that is not inside.\<close>

type_synonym 'd roi = "'d CvMat \<Rightarrow> Rect \<Rightarrow> plv_exn + 'd CvMat"

record CropImage =
  cr_x1 :: int
  cr_x2 :: int
  cr_y1 :: int
  cr_y2 :: int

definition CropImage_new :: CropImage where
  "CropImage_new = \<lparr>cr_x1 = 0, cr_x2 = 0, cr_y1 = 0, cr_y2 = 0\<rparr>"

definition setX1 :: "int \<Rightarrow> CropImage \<Rightarrow> CropImage" where
  "setX1 x c = c\<lparr>cr_x1 := if x < 0 then 0 else x\<rparr>"
definition setX2 :: "int \<Rightarrow> CropImage \<Rightarrow> CropImage" where
  "setX2 x c = c\<lparr>cr_x2 := if x < 0 then 0 else x\<rparr>"
definition setY1 :: "int \<Rightarrow> CropImage \<Rightarrow> CropImage" where
  "setY1 y c = c\<lparr>cr_y1 := if y < 0 then 0 else y\<rparr>"
definition setY2 :: "int \<Rightarrow> CropImage \<Rightarrow> CropImage" where
  "setY2 y c = c\<lparr>cr_y2 := if y < 0 then 0 else y\<rparr>"

text \<open>Sums and differences of values of type \<open>int\<close>: out of range they wrap around on the supported platforms.\<close>

definition add_int :: "int \<Rightarrow> int \<Rightarrow> int" where
  "add_int a b = sint (word_of_int (a + b) :: 32 word)"

definition sub_int :: "int \<Rightarrow> int \<Rightarrow> int" where
  "sub_int a b = sint (word_of_int (a - b) :: 32 word)"

definition crop_rect :: "CropImage \<Rightarrow> 'd CvMat \<Rightarrow> Rect option" where
  "crop_rect c img =
     (let w = add_int (cr_x1 c) (cr_x2 c); h = add_int (cr_y1 c) (cr_y2 c) in
      if w \<ge> cm_cols img \<or> h \<ge> cm_rows img then None
      else Some \<lparr>r_x = cr_x1 c, r_y = cr_y1 c, r_width = sub_int (cm_cols img) w, r_height = sub_int (cm_rows img) h\<rparr>)"

definition CropImage_process :: "'d roi \<Rightarrow> CvPin \<Rightarrow> CvPin \<Rightarrow> ('d pv, CropImage, bool) proc" where
  "CropImage_process roi inp out =
     bindP (getMat inp) (\<lambda>img.
     bindP (getP (\<lambda>c. crop_rect c img)) (\<lambda>r.
       case r of
         None \<Rightarrow> retP True
       | Some r \<Rightarrow> bindP (liftP (roi img r)) (\<lambda>subregion. seqP (putMat out subregion) (retP True))))"

fun subregionsOf :: "'d roi \<Rightarrow> 'd CvMat \<Rightarrow> Rect list \<Rightarrow> plv_exn + 'd CvMat list" where
  "subregionsOf roi img [] = Inr []"
| "subregionsOf roi img (r # rs) =
     (case roi img r of
        Inl x \<Rightarrow> Inl x
      | Inr m \<Rightarrow> map_sum id ((#) m) (subregionsOf roi img rs))"

definition CropSubImage_process :: "'d roi \<Rightarrow> CvPin \<Rightarrow> ref \<Rightarrow> ref \<Rightarrow> ('d pv, unit, bool) proc" where
  "CropSubImage_process roi imageInput regions imagesOutput =
     bindP (getMat imageInput) (\<lambda>img.
     bindP (getVariantP regions) (\<lambda>v.
     bindP (liftP (subregionsOf roi img (to_rects v))) (\<lambda>ms.
     seqP (putP imagesOutput (VMats ms)) (retP True))))"

section \<open>The buffer of the camera producer\<close>

record 'd CameraProducer =
  ca_frames :: "'d CvMat list"
  ca_maxBufferSize :: int

definition newFrame :: "'d CvMat \<Rightarrow> 'd CameraProducer \<Rightarrow> 'd CameraProducer" where
  "newFrame frame c =
     (let fs = ca_frames c @ [frame] in
      c\<lparr>ca_frames := if int (length fs) > ca_maxBufferSize c then tl fs else fs\<rparr>)"

definition camera_readyToProduce :: "'d CameraProducer \<Rightarrow> bool" where
  "camera_readyToProduce c \<longleftrightarrow> ca_frames c \<noteq> []"

text \<open>\<open>takeFirst\<close> of an empty list fails an assertion of Qt.\<close>

definition camera_produce :: "CvPin \<Rightarrow> ('d pv, 'd CameraProducer, bool) proc" where
  "camera_produce outputPin =
     bindP (getP ca_frames) (\<lambda>fs.
       case fs of
         [] \<Rightarrow> throwP AssertFailed
       | f # rest \<Rightarrow> seqP (modifyP (\<lambda>c. c\<lparr>ca_frames := rest\<rparr>)) (seqP (putMat outputPin f) (retP True)))"

section \<open>What they do with a sequence of frames\<close>

lemma delay_frame:
  assumes "accepts inp m"
  shows "\<exists>rg. play er (DelayImage_process inp out d) (mat_rig (cp_ref inp) m) =
      ((Inr True, d\<lparr>dl_images := if int (length (dl_images d)) + 1 \<ge> dl_steps d
                                  then tl (dl_images d @ [m]) else dl_images d @ [m]\<rparr>), rg) \<and>
    rg_out rg (cp_ref out) = (if int (length (dl_images d)) + 1 \<ge> dl_steps d
                              then Some (VMat (hd (dl_images d @ [m]))) else None)"
  using assms
  by (simp add: DelayImage_process_def play_simps play_getMat [OF mat_rig_views(1)] play_putMat mat_rig_views)

text \<open>
  With the buffer \<open>b\<close> the delay is \<open>steps - 1\<close> frames, or the length of the buffer when that is longer: lowering
  the number of steps does not shorten it.
\<close>

lemma delay_frames:
  assumes "\<And>m. m \<in> set ms \<Longrightarrow> accepts inp m"
  defines "delay d \<equiv> max (nat (dl_steps d - 1)) (length (dl_images d)) - length (dl_images d)"
  shows "drive er (DelayImage_process inp out) (cp_ref out) d (map (mat_rig (cp_ref inp)) ms) =
    (Inr (replicate (min (delay d) (length ms)) None @
          map (\<lambda>m. Some (VMat m)) (take (length ms - delay d) (dl_images d @ ms))),
     d\<lparr>dl_images := drop (length ms - delay d) (dl_images d @ ms)\<rparr>)"
  using assms(1)
proof (induction ms arbitrary: d)
  case Nil
  then show ?case by simp
next
  case (Cons m ms)
  from delay_frame [of inp m er out d] Cons.prems obtain rg where
    pl: "play er (DelayImage_process inp out d) (mat_rig (cp_ref inp) m) =
      ((Inr True, d\<lparr>dl_images := if int (length (dl_images d)) + 1 \<ge> dl_steps d
                                  then tl (dl_images d @ [m]) else dl_images d @ [m]\<rparr>), rg)"
    and out: "rg_out rg (cp_ref out) = (if int (length (dl_images d)) + 1 \<ge> dl_steps d
                              then Some (VMat (hd (dl_images d @ [m]))) else None)"
    by auto
  show ?case
  proof (cases "int (length (dl_images d)) + 1 \<ge> dl_steps d")
    case True
    let ?d = "d\<lparr>dl_images := tl (dl_images d @ [m])\<rparr>"
    have z: "delay d = 0" "delay ?d = 0" using True by (auto simp: delay_def)
    have e: "dl_images d @ m # ms = hd (dl_images d @ [m]) # tl (dl_images d @ [m]) @ ms"
      by (cases "dl_images d") auto
    show ?thesis using Cons.IH [of ?d] Cons.prems pl out True z by (simp add: e)
  next
    case False
    let ?d = "d\<lparr>dl_images := dl_images d @ [m]\<rparr>"
    have z: "delay d = Suc (delay ?d)" using False by (auto simp: delay_def)
    show ?thesis using Cons.IH [of ?d] Cons.prems pl out False z by simp
  qed
qed

definition value_rig :: "ref \<Rightarrow> 'v \<Rightarrow> 'v rig" where
  "value_rig q v = frame_rig 0 (\<lambda>q'. if q' = q then Some (Some v) else None)"

lemma trigger_frame:
  assumes "inp \<noteq> cnt"
  shows "\<exists>rg. play er (Trigger_process inp cnt out t) (value_rig inp v) =
      ((Inr True, let t' = tg_receive t in if tg_activate t' \<and> \<not> tg_continuous t' then setActivate False t' else t'), rg) \<and>
    rg_out rg out = Some (VBool (tg_activate (tg_receive t)))"
proof -
  have v: "rg_in (value_rig inp v) inp = read_view False [Data_payload 0 v]"
    "rg_in (value_rig inp v) cnt = \<lparr>pv_connected = False, pv_called = False, pv_queue = []\<rparr>"
    "rg_out (value_rig inp v) out = None"
    using assms by (simp_all add: value_rig_def frame_rig_def read_view_def)
  from assms show ?thesis
    by (simp add: Trigger_process_def play_simps view_get_data [OF v(1)] v(2,3) view_put_def Data_payload_def Let_def)
qed

text \<open>Every \<open>n\<close>-th frame triggers.\<close>

lemma trigger_frames:
  assumes "inp \<noteq> cnt" and "0 < n"
  shows "0 \<le> r \<Longrightarrow> r < n \<Longrightarrow>
    drive er (Trigger_process inp cnt out) out
      \<lparr>tg_activate = False, tg_continuous = False, tg_count = n, tg_received = r\<rparr> (map (value_rig inp) vs) =
    (Inr (map (\<lambda>k. Some (VBool ((r + int k + 1) mod n = 0))) [0..<length vs]),
     \<lparr>tg_activate = False, tg_continuous = False, tg_count = n, tg_received = (r + int (length vs)) mod n\<rparr>)"
proof (induction vs arbitrary: r)
  case Nil
  then show ?case by simp
next
  case (Cons v vs)
  let ?t = "\<lambda>r. \<lparr>tg_activate = False, tg_continuous = False, tg_count = n, tg_received = r\<rparr>"
  let ?r = "if r + 1 = n then 0 else r + 1"
  have r: "0 \<le> ?r" "?r < n" "(r + 1) mod n = ?r" using Cons.prems by auto
  obtain rg where pl: "play er (Trigger_process inp cnt out (?t r)) (value_rig inp v) = ((Inr True, ?t ?r), rg)"
    and out: "rg_out rg out = Some (VBool (r + 1 = n))"
    using trigger_frame [OF assms(1), of er out "?t r" v] Cons.prems
    by (auto simp: tg_receive_def setActivate_def Let_def split: if_splits)
  have m: "(?r + k) mod n = (r + 1 + k) mod n" for k
    by (subst r(3) [symmetric]) (rule mod_add_left_eq)
  have tail: "(?r + int k + 1) mod n = (r + int (Suc k) + 1) mod n" for k
  proof -
    have 1: "?r + int k + 1 = ?r + (int k + 1)" by (rule add.assoc)
    have 2: "r + 1 + (int k + 1) = r + int (Suc k) + 1" by simp
    show ?thesis by (simp only: 1 2 m)
  qed
  have total: "(?r + int (length vs)) mod n = (r + int (length (v # vs))) mod n"
  proof -
    have "r + 1 + int (length vs) = r + int (length (v # vs))" by simp
    then show ?thesis by (simp only: m)
  qed
  have up: "[0..<length (v # vs)] = 0 # map Suc [0..<length vs]"
    by (simp add: map_Suc_upt upt_conv_Cons del: upt_Suc)
  have first: "(r + 1 = n) = ((r + int 0 + 1) mod n = 0)" using r Cons.prems by auto
  show ?case
    unfolding list.map(2) [of "value_rig inp"] drive.simps pl prod.case sum.case Cons.IH [OF r(1,2)] up out
    by (simp only: map_sum.simps list.map list.map_comp o_def tail total prod.case) (simp only: first)
qed

lemma newFrame_keeps_last:
  assumes "int (length (ca_frames c)) \<le> ca_maxBufferSize c"
  shows "ca_frames (fold newFrame fs c) =
      drop (length (ca_frames c @ fs) - nat (ca_maxBufferSize c)) (ca_frames c @ fs) \<and>
    ca_maxBufferSize (fold newFrame fs c) = ca_maxBufferSize c"
  using assms
proof (induction fs arbitrary: c)
  case Nil
  then show ?case by simp
next
  case (Cons f fs)
  let ?c = "newFrame f c"
  have len: "int (length (ca_frames ?c)) \<le> ca_maxBufferSize ?c" "ca_maxBufferSize ?c = ca_maxBufferSize c"
    using Cons.prems by (auto simp: newFrame_def Let_def)
  have "drop (length (ca_frames ?c @ fs) - nat (ca_maxBufferSize c)) (ca_frames ?c @ fs) =
    drop (length (ca_frames c @ f # fs) - nat (ca_maxBufferSize c)) (ca_frames c @ f # fs)"
    using Cons.prems by (cases "ca_frames c") (auto simp: newFrame_def Let_def drop_Cons' split: if_splits)
  with Cons.IH [OF len(1)] len(2) show ?case by simp
qed

text \<open>The rectangle of a crop lies inside the image and leaves the margins, when their sums are in range.\<close>

lemma s32_id: "- (2 ^ 31) \<le> x \<Longrightarrow> x < 2 ^ 31 \<Longrightarrow> sint (word_of_int x :: 32 word) = x"
  by (simp add: signed_of_int signed_take_bit_int_eq_self)

lemma add_int_id: "- (2 ^ 31) \<le> a + b \<Longrightarrow> a + b < 2 ^ 31 \<Longrightarrow> add_int a b = a + b"
  unfolding add_int_def by (rule s32_id)

lemma sub_int_id: "- (2 ^ 31) \<le> a - b \<Longrightarrow> a - b < 2 ^ 31 \<Longrightarrow> sub_int a b = a - b"
  unfolding sub_int_def by (rule s32_id)

definition crop_inv :: "CropImage \<Rightarrow> bool" where
  "crop_inv c \<longleftrightarrow> 0 \<le> cr_x1 c \<and> 0 \<le> cr_x2 c \<and> 0 \<le> cr_y1 c \<and> 0 \<le> cr_y2 c"

lemma crop_setters:
  "crop_inv CropImage_new" "crop_inv c \<Longrightarrow> crop_inv (setX1 x c)" "crop_inv c \<Longrightarrow> crop_inv (setX2 x c)"
  "crop_inv c \<Longrightarrow> crop_inv (setY1 x c)" "crop_inv c \<Longrightarrow> crop_inv (setY2 x c)"
  by (simp_all add: crop_inv_def CropImage_new_def setX1_def setX2_def setY1_def setY2_def)

lemma crop_rect_inside:
  assumes inv: "crop_inv c" and r: "cr_x1 c + cr_x2 c < 2 ^ 31" "cr_y1 c + cr_y2 c < 2 ^ 31"
    and img: "0 \<le> cm_cols img" "cm_cols img < 2 ^ 31" "0 \<le> cm_rows img" "cm_rows img < 2 ^ 31"
  shows "crop_rect c img =
    (if cr_x1 c + cr_x2 c < cm_cols img \<and> cr_y1 c + cr_y2 c < cm_rows img
     then Some \<lparr>r_x = cr_x1 c, r_y = cr_y1 c, r_width = cm_cols img - cr_x1 c - cr_x2 c,
                r_height = cm_rows img - cr_y1 c - cr_y2 c\<rparr>
     else None)"
proof -
  have w: "add_int (cr_x1 c) (cr_x2 c) = cr_x1 c + cr_x2 c" "add_int (cr_y1 c) (cr_y2 c) = cr_y1 c + cr_y2 c"
    using inv r by (auto intro!: add_int_id simp: crop_inv_def)
  have d: "sub_int (cm_cols img) (cr_x1 c + cr_x2 c) = cm_cols img - (cr_x1 c + cr_x2 c)"
    "sub_int (cm_rows img) (cr_y1 c + cr_y2 c) = cm_rows img - (cr_y1 c + cr_y2 c)"
    using inv r img by (auto intro!: sub_int_id simp: crop_inv_def)
  show ?thesis unfolding crop_rect_def Let_def w d by auto
qed

text \<open>Beyond that range the sum is negative, and the guard lets a rectangle pass that is outside the image.\<close>

lemma crop_rect_overflow:
  "crop_rect \<lparr>cr_x1 = 2 ^ 31 - 1, cr_x2 = 1, cr_y1 = 0, cr_y2 = 0\<rparr>
     \<lparr>cm_rows = 1, cm_cols = 1, cm_depth = CV_8U, cm_channels = 1, cm_data = ()\<rparr> =
   Some \<lparr>r_x = 2147483647, r_y = 0, r_width = - 2147483647, r_height = 1\<rparr>"
  by (simp add: crop_rect_def add_int_def sub_int_def)

end
