(* ===== verification/Cv_Stream.thy ===== *)
theory Cv_Stream
  imports Image_Control Qt_Stream
begin

text \<open>
  Images and rectangles in a \<open>QDataStream\<close> (\<open>CvMatData.cpp\<close>, \<open>Types.cpp\<close>): the format in which a frame goes from the
  server to the client.  The contents of a matrix are the memory from \<open>datastart\<close> to \<open>dataend\<close> and the place of
  the first element in it, which differ for a matrix that is a region of another one.
\<close>

section \<open>Memory of a matrix\<close>

record Buffer =
  bf_bytes :: "byte list"
  bf_offset :: nat

text \<open>The number in which OpenCV codes depth and channels.\<close>

definition CV_MAKETYPE :: "int \<Rightarrow> int \<Rightarrow> int" where
  "CV_MAKETYPE depth cn = depth mod 8 + 8 * (cn - 1)"

definition CV_MAT_DEPTH :: "int \<Rightarrow> int" where
  "CV_MAT_DEPTH t = t mod 8"

definition CV_MAT_CN :: "int \<Rightarrow> int" where
  "CV_MAT_CN t = (t div 8) mod 512 + 1"

definition mat_type :: "'d CvMat \<Rightarrow> int" where
  "mat_type m = CV_MAKETYPE (cm_depth m) (cm_channels m)"

text \<open>What \<open>memcpy\<close> finds behind the end of the memory of the matrix is \<open>beyond\<close>.\<close>

definition memory_at :: "(nat \<Rightarrow> byte) \<Rightarrow> Buffer \<Rightarrow> nat \<Rightarrow> byte list" where
  "memory_at beyond b n =
     map (\<lambda>i. let j = bf_offset b + i in
              if j < length (bf_bytes b) then bf_bytes b ! j else beyond (j - length (bf_bytes b))) [0..<n]"

section \<open>Writing and reading\<close>

definition put_i32 :: "int \<Rightarrow> byte list" where
  "put_i32 x = put_u32 (word_of_int x)"

text \<open>\<open>writeBytes\<close> puts the number of bytes before the bytes: the length is in the stream twice.\<close>

definition write_mat :: "(nat \<Rightarrow> byte) \<Rightarrow> Buffer CvMat \<Rightarrow> plv_exn + byte list" where
  "write_mat beyond m =
     (let len = sint (word_of_int (int (length (bf_bytes (cm_data m)))) :: 32 word) in
      if \<not> len > 0 then Inl AssertFailed
      else Inr (put_i32 (mat_type m) @ put_i32 (cm_rows m) @ put_i32 (cm_cols m) @ put_i32 len @
             put_i32 len @ memory_at beyond (cm_data m) (nat len)))"

text \<open>\<open>QDataStream::readBytes\<close>: fewer bytes than announced give none.\<close>

definition readBytes :: "byte list \<Rightarrow> byte list \<times> byte list" where
  "readBytes bs =
     (case get_u32 bs of (w, bs') \<Rightarrow>
        if unat w \<le> length bs' then (take (unat w) bs', drop (unat w) bs') else ([], []))"

text \<open>\<open>alloc rows cols type\<close> is the constructor of \<open>cv::Mat\<close>.\<close>

definition read_mat :: "(int \<Rightarrow> int \<Rightarrow> int \<Rightarrow> plv_exn + Buffer) \<Rightarrow> byte list \<Rightarrow> plv_exn + Buffer CvMat \<times> byte list" where
  "read_mat alloc bs =
     (case get_i32 bs of (t, bs1) \<Rightarrow>
      case get_i32 bs1 of (rows, bs2) \<Rightarrow>
      case get_i32 bs2 of (cols, bs3) \<Rightarrow>
      case get_i32 bs3 of (len, bs4) \<Rightarrow>
      case readBytes bs4 of (data, bs5) \<Rightarrow>
      case alloc rows cols t of
        Inl x \<Rightarrow> Inl x
      | Inr b \<Rightarrow>
          if \<not> length (bf_bytes b) = length data then Inl AssertFailed
          else Inr (\<lparr>cm_rows = rows, cm_cols = cols, cm_depth = CV_MAT_DEPTH t, cm_channels = CV_MAT_CN t,
                     cm_data = b\<lparr>bf_bytes := data\<rparr>\<rparr>, bs5))"

text \<open>\<open>RectangleData\<close>: a \<open>QRect\<close> is stored by its corners, of which the second is the last point inside.\<close>

definition put_rect :: "Rect \<Rightarrow> byte list" where
  "put_rect r = put_i32 (r_x r) @ put_i32 (r_y r) @ put_i32 (r_x r + r_width r - 1) @ put_i32 (r_y r + r_height r - 1)"

definition get_rect :: "byte list \<Rightarrow> Rect \<times> byte list" where
  "get_rect bs =
     (case get_i32 bs of (x1, bs1) \<Rightarrow> case get_i32 bs1 of (y1, bs2) \<Rightarrow>
      case get_i32 bs2 of (x2, bs3) \<Rightarrow> case get_i32 bs3 of (y2, bs4) \<Rightarrow>
        (\<lparr>r_x = x1, r_y = y1, r_width = x2 - x1 + 1, r_height = y2 - y1 + 1\<rparr>, bs4))"

fun get_rects :: "nat \<Rightarrow> byte list \<Rightarrow> Rect list \<times> byte list" where
  "get_rects 0 bs = ([], bs)"
| "get_rects (Suc n) bs =
     (case get_rect bs of (r, bs') \<Rightarrow>
        if bs' = [] then ([r], []) else (case get_rects n bs' of (rs, bs'') \<Rightarrow> (r # rs, bs'')))"

definition write_rects :: "int \<Rightarrow> int \<Rightarrow> Rect list \<Rightarrow> byte list" where
  "write_rects w h rs = put_i32 w @ put_i32 h @ put_i32 (int (length rs)) @ concat (map put_rect rs)"

definition read_rects :: "byte list \<Rightarrow> (int \<times> int \<times> Rect list) \<times> byte list" where
  "read_rects bs =
     (case get_i32 bs of (w, bs1) \<Rightarrow> case get_i32 bs1 of (h, bs2) \<Rightarrow> case get_u32 bs2 of (n, bs3) \<Rightarrow>
      case get_rects (unat n) bs3 of (rs, bs4) \<Rightarrow> ((w, h, rs), bs4))"

section \<open>Round trips\<close>

definition in_i32 :: "int \<Rightarrow> bool" where
  "in_i32 x \<longleftrightarrow> - (2 ^ 31) \<le> x \<and> x < 2 ^ 31"

lemma get_put_i32' [simp]: "in_i32 x \<Longrightarrow> get_i32 (put_i32 x @ bs) = (x, bs)"
  unfolding put_i32_def in_i32_def by (simp only: get_put_i32 s32_id)

lemma unat_of_i32: "0 \<le> x \<Longrightarrow> x < 2 ^ 31 \<Longrightarrow> unat (word_of_int x :: u32) = nat x"
  by (simp add: unsigned_of_int nat_take_bit_eq take_bit_nat_eq_self_iff)

lemma readBytes_put:
  "0 \<le> x \<Longrightarrow> x < 2 ^ 31 \<Longrightarrow> length ds = nat x \<Longrightarrow> readBytes (put_i32 x @ ds @ bs) = (ds, bs)"
  by (simp add: readBytes_def put_i32_def unat_of_i32)

lemma length_memory_at [simp]: "length (memory_at beyond b n) = n"
  by (simp add: memory_at_def)

lemma memory_at_all: "bf_offset b = 0 \<Longrightarrow> memory_at beyond b (length (bf_bytes b)) = bf_bytes b"
  by (auto simp: memory_at_def Let_def intro: nth_equalityI)

lemma type_code:
  assumes "0 \<le> d" "d < 8" "1 \<le> c" "c \<le> 512"
  shows "CV_MAT_DEPTH (CV_MAKETYPE d c) = d" "CV_MAT_CN (CV_MAKETYPE d c) = c" "in_i32 (CV_MAKETYPE d c)"
proof -
  have m: "d mod 8 = d" using assms by simp
  have q: "(d + 8 * (c - 1)) div 8 = c - 1" "(d + 8 * (c - 1)) mod 8 = d" using assms by presburger+
  show "CV_MAT_DEPTH (CV_MAKETYPE d c) = d" unfolding CV_MAT_DEPTH_def CV_MAKETYPE_def m by (rule q)
  show "CV_MAT_CN (CV_MAKETYPE d c) = c" unfolding CV_MAT_CN_def CV_MAKETYPE_def m q using assms by simp
  show "in_i32 (CV_MAKETYPE d c)" unfolding in_i32_def CV_MAKETYPE_def m using assms by simp
qed

text \<open>What the constructor of \<open>cv::Mat\<close> documents: memory for all elements, the first at its start.\<close>

definition allocates :: "(int \<Rightarrow> nat) \<Rightarrow> (int \<Rightarrow> int \<Rightarrow> int \<Rightarrow> plv_exn + Buffer) \<Rightarrow> bool" where
  "allocates elemSize alloc \<longleftrightarrow>
     (\<forall>rows > 0. \<forall>cols > 0. \<forall>t. \<exists>g. alloc rows cols t = Inr \<lparr>bf_bytes = g, bf_offset = 0\<rparr> \<and>
        length g = nat (rows * cols) * elemSize t)"

definition header_ok :: "'d CvMat \<Rightarrow> bool" where
  "header_ok m \<longleftrightarrow> 0 < cm_rows m \<and> cm_rows m < 2 ^ 31 \<and> 0 < cm_cols m \<and> cm_cols m < 2 ^ 31 \<and>
     0 \<le> cm_depth m \<and> cm_depth m < 8 \<and> 1 \<le> cm_channels m \<and> cm_channels m \<le> 512"

lemma read_written:
  assumes ok: "header_ok m" and al: "allocates elemSize alloc"
    and len: "length (bf_bytes (cm_data m)) < 2 ^ 31" "bf_bytes (cm_data m) \<noteq> []"
  shows "\<exists>bs. write_mat beyond m = Inr bs \<and>
    read_mat alloc (bs @ rest) =
      (if nat (cm_rows m * cm_cols m) * elemSize (mat_type m) = length (bf_bytes (cm_data m))
       then Inr (m\<lparr>cm_data := \<lparr>bf_bytes = memory_at beyond (cm_data m) (length (bf_bytes (cm_data m))), bf_offset = 0\<rparr>\<rparr>,
                 rest)
       else Inl AssertFailed)"
proof -
  let ?n = "length (bf_bytes (cm_data m))"
  let ?ds = "memory_at beyond (cm_data m) ?n"
  have s: "sint (word_of_int (int ?n) :: 32 word) = int ?n" using len by (intro s32_id) auto
  have w: "write_mat beyond m = Inr (put_i32 (mat_type m) @ put_i32 (cm_rows m) @ put_i32 (cm_cols m) @ put_i32 (int ?n) @
             put_i32 (int ?n) @ ?ds)"
    unfolding write_mat_def Let_def s using len by simp
  from al ok obtain g where g: "alloc (cm_rows m) (cm_cols m) (mat_type m) = Inr \<lparr>bf_bytes = g, bf_offset = 0\<rparr>"
    "length g = nat (cm_rows m * cm_cols m) * elemSize (mat_type m)"
    unfolding allocates_def header_ok_def by blast
  have t: "CV_MAT_DEPTH (mat_type m) = cm_depth m" "CV_MAT_CN (mat_type m) = cm_channels m" "in_i32 (mat_type m)"
    using ok type_code [of "cm_depth m" "cm_channels m"] by (simp_all add: header_ok_def mat_type_def)
  have i: "in_i32 (cm_rows m)" "in_i32 (cm_cols m)" "in_i32 (int ?n)"
    using ok len by (simp_all add: header_ok_def in_i32_def)
  have rb: "readBytes (put_i32 (int ?n) @ ?ds @ rest) = (?ds, rest)"
    using len by (intro readBytes_put) auto
  show ?thesis
    by (rule exI, rule conjI, rule w) (simp add: read_mat_def t i rb g)
qed

text \<open>A matrix with memory of its own.\<close>

definition owns_memory :: "(int \<Rightarrow> nat) \<Rightarrow> Buffer CvMat \<Rightarrow> bool" where
  "owns_memory elemSize m \<longleftrightarrow>
     header_ok m \<and> bf_offset (cm_data m) = 0 \<and> 0 < elemSize (mat_type m) \<and>
     length (bf_bytes (cm_data m)) = nat (cm_rows m * cm_cols m) * elemSize (mat_type m) \<and>
     length (bf_bytes (cm_data m)) < 2 ^ 31"

lemma owns_memory_nonempty: "owns_memory elemSize m \<Longrightarrow> bf_bytes (cm_data m) \<noteq> []"
proof -
  assume m: "owns_memory elemSize m"
  then have "0 < nat (cm_rows m * cm_cols m) * elemSize (mat_type m)"
    by (simp add: owns_memory_def header_ok_def)
  with m show ?thesis unfolding owns_memory_def by (metis length_greater_0_conv)
qed

lemma stream_round_trip:
  assumes m: "owns_memory elemSize m" and al: "allocates elemSize alloc"
  shows "\<exists>bs. write_mat beyond m = Inr bs \<and> read_mat alloc (bs @ rest) = Inr (m, rest)"
proof -
  have own: "header_ok m" "length (bf_bytes (cm_data m)) < 2 ^ 31" "bf_offset (cm_data m) = 0"
    "nat (cm_rows m * cm_cols m) * elemSize (mat_type m) = length (bf_bytes (cm_data m))"
    using m by (simp_all add: owns_memory_def)
  have "m\<lparr>cm_data := \<lparr>bf_bytes = memory_at beyond (cm_data m) (length (bf_bytes (cm_data m))), bf_offset = 0\<rparr>\<rparr> = m"
    using memory_at_all [OF own(3)] own(3) by (cases m; cases "cm_data m") simp
  with read_written [OF own(1) al own(2) owns_memory_nonempty [OF m], of beyond rest] own(4) show ?thesis by simp
qed

text \<open>What OpenCV documents of a region: it has the size of the rectangle, and the memory is that of the whole matrix.\<close>

definition inside :: "Rect \<Rightarrow> 'd CvMat \<Rightarrow> bool" where
  "inside r m \<longleftrightarrow> 0 \<le> r_x r \<and> 0 < r_width r \<and> r_x r + r_width r \<le> cm_cols m \<and>
     0 \<le> r_y r \<and> 0 < r_height r \<and> r_y r + r_height r \<le> cm_rows m"

definition shares_memory :: "Buffer roi \<Rightarrow> bool" where
  "shares_memory roi \<longleftrightarrow>
     (\<forall>m r. inside r m \<longrightarrow>
        (\<exists>off. roi m r = Inr (m\<lparr>cm_rows := r_height r, cm_cols := r_width r,
                               cm_data := (cm_data m)\<lparr>bf_offset := off\<rparr>\<rparr>)))"

lemma region_not_readable:
  assumes m: "owns_memory elemSize m" and al: "allocates elemSize alloc" and sh: "shares_memory roi"
    and r: "inside r m" "r_width r * r_height r < cm_cols m * cm_rows m"
  shows "\<exists>m' bs. roi m r = Inr m' \<and> write_mat beyond m' = Inr bs \<and> read_mat alloc (bs @ rest) = Inl AssertFailed"
proof -
  from sh r(1) obtain off where roi: "roi m r = Inr (m\<lparr>cm_rows := r_height r, cm_cols := r_width r,
      cm_data := (cm_data m)\<lparr>bf_offset := off\<rparr>\<rparr>)" (is "_ = Inr ?m'")
    unfolding shares_memory_def by blast
  have own: "header_ok m" "0 < elemSize (mat_type m)"
    "length (bf_bytes (cm_data m)) = nat (cm_rows m * cm_cols m) * elemSize (mat_type m)"
    "length (bf_bytes (cm_data m)) < 2 ^ 31"
    using m by (simp_all add: owns_memory_def)
  have h: "header_ok ?m'" using own(1) r(1) by (auto simp: header_ok_def inside_def)
  have t: "mat_type ?m' = mat_type m" by (simp add: mat_type_def)
  have "nat (r_height r * r_width r) < nat (cm_rows m * cm_cols m)"
    using r own(1) by (simp add: header_ok_def inside_def mult.commute)
  then have "nat (r_height r * r_width r) \<noteq> nat (cm_rows m * cm_cols m)" by (rule less_imp_neq)
  with own(2,3) have "nat (r_height r * r_width r) * elemSize (mat_type m) \<noteq> length (bf_bytes (cm_data m))"
    by (simp only: mult_right_cancel [OF less_imp_neq [OF own(2), symmetric]] simp_thms)
  with read_written [OF h al, of beyond rest] own(4) owns_memory_nonempty [OF m] roi t show ?thesis by simp
qed

text \<open>Rectangles.\<close>

definition rect_ok :: "Rect \<Rightarrow> bool" where
  "rect_ok r \<longleftrightarrow> in_i32 (r_x r) \<and> in_i32 (r_y r) \<and> in_i32 (r_x r + r_width r - 1) \<and> in_i32 (r_y r + r_height r - 1)"

lemma put_rect_nonempty: "put_rect r \<noteq> []"
  by (simp add: put_rect_def put_i32_def put_u32_def)

lemma get_put_rect: "rect_ok r \<Longrightarrow> get_rect (put_rect r @ bs) = (r, bs)"
  by (cases r) (simp add: get_rect_def put_rect_def rect_ok_def)

lemma get_put_rects:
  "list_all rect_ok rs \<Longrightarrow> get_rects (length rs) (concat (map put_rect rs)) = (rs, [])"
proof (induction rs)
  case (Cons r rs)
  then show ?case
    using put_rect_nonempty by (cases rs) (auto simp: get_put_rect get_put_rect [of _ "[]", simplified])
qed simp

lemma rects_round_trip:
  assumes "in_i32 w" "in_i32 h" "list_all rect_ok rs" "length rs < 2 ^ 31"
  shows "read_rects (write_rects w h rs) = ((w, h, rs), [])"
proof -
  have "unat (word_of_int (int (length rs)) :: u32) = length rs" using assms(4) by (subst unat_of_i32) auto
  with assms(1-3) get_put_rects [OF assms(3)] show ?thesis
    unfolding read_rects_def write_rects_def by (simp add: put_i32_def [of "int (length rs)"])
qed

end
