(* ===== verification/Camera_Thread.thy ===== *)
theory Camera_Thread
  imports Plv_Prelude
begin

text \<open>
  \<open>OpenCVCamera.cpp\<close>: a thread that grabs frames, and the calls by which \<open>CameraProducer\<close> starts, pauses and releases
  it.  The steps of the two threads interleave; the unit of a step is what no other thread can see the inside of: a read
  of \<open>m_state\<close>, a call between the locks of \<open>m_mutex\<close>, taking a mutex, a wait on the condition.  Whether the device
  opens and whether a frame can be grabbed is left open.
\<close>

section \<open>State\<close>

datatype CameraState = CAM_UNINITIALIZED | CAM_INITIALIZED | CAM_RUNNING | CAM_PAUSED

text \<open>
  Where the camera thread is: not running; at the assertions of \<open>run\<close>; at the test of the loop; before \<open>getFrame\<close>; at
  the test for \<open>CAM_PAUSED\<close>; before \<open>m_mutex.lock()\<close>; before \<open>wait\<close>, with the mutex; waiting; woken, but without the mutex
  that \<open>wait\<close> takes again before it returns; before \<open>m_mutex.unlock()\<close>.  \<open>RunAborted\<close> is a failed assertion.
\<close>

datatype run_pc = RunOff | RunBegin | RunLoop | RunGrab | RunTest | RunLock | RunEnter | RunWait | RunWoken | RunUnlock | RunAborted

text \<open>Where the calling thread is: in none of the methods, in \<open>release\<close> between \<open>unlock\<close> and \<open>lock\<close>, or in its
  \<open>QThread::wait\<close>.\<close>

datatype call_pc = CallIdle | ReleaseRelock | ReleaseWait

datatype holder = CameraHolds | CallerHolds

record OpenCVCamera =
  oc_state :: CameraState
  oc_device :: bool
  oc_imgCount :: u32
  oc_mutex :: "holder option"
  oc_run :: run_pc
  oc_call :: call_pc

definition OpenCVCamera_new :: OpenCVCamera where
  "OpenCVCamera_new =
     \<lparr>oc_state = CAM_UNINITIALIZED, oc_device = False, oc_imgCount = 0, oc_mutex = None, oc_run = RunOff, oc_call = CallIdle\<rparr>"

section \<open>The methods\<close>

definition oc_init :: "bool \<Rightarrow> OpenCVCamera \<Rightarrow> bool \<times> OpenCVCamera" where
  "oc_init opened c =
     (if \<not> opened then (False, c) else (True, c\<lparr>oc_device := True, oc_state := CAM_INITIALIZED\<rparr>))"

text \<open>\<open>QThread::start\<close> does nothing when the thread runs.\<close>

definition wakeOne :: "OpenCVCamera \<Rightarrow> OpenCVCamera" where
  "wakeOne c = (if oc_run c = RunWait then c\<lparr>oc_run := RunWoken\<rparr> else c)"

definition oc_start :: "OpenCVCamera \<Rightarrow> OpenCVCamera" where
  "oc_start c =
     (case oc_state c of
        CAM_UNINITIALIZED \<Rightarrow> c
      | CAM_INITIALIZED \<Rightarrow> c\<lparr>oc_state := CAM_RUNNING, oc_run := (if oc_run c = RunOff then RunBegin else oc_run c)\<rparr>
      | CAM_RUNNING \<Rightarrow> c
      | CAM_PAUSED \<Rightarrow> wakeOne (c\<lparr>oc_state := CAM_RUNNING\<rparr>))"

definition oc_pause :: "OpenCVCamera \<Rightarrow> OpenCVCamera" where
  "oc_pause c = (if oc_state c = CAM_RUNNING then c\<lparr>oc_state := CAM_PAUSED\<rparr> else c)"

definition releaseCapture :: "OpenCVCamera \<Rightarrow> OpenCVCamera" where
  "releaseCapture c = c\<lparr>oc_device := False\<rparr>"

text \<open>\<open>release\<close> up to the point where it lets another thread run: the whole call, or up to the call of \<open>unlock\<close> or
  of \<open>QThread::wait\<close>, which it makes with the mutex locked.\<close>

definition oc_release :: "OpenCVCamera \<Rightarrow> OpenCVCamera" where
  "oc_release c =
     (let c' = c\<lparr>oc_state := CAM_UNINITIALIZED\<rparr> in
      case oc_state c of
        CAM_PAUSED \<Rightarrow> (wakeOne c')\<lparr>oc_call := ReleaseRelock\<rparr>
      | CAM_RUNNING \<Rightarrow> c'\<lparr>oc_mutex := Some CallerHolds, oc_call := ReleaseWait\<rparr>
      | CAM_INITIALIZED \<Rightarrow> releaseCapture c'
      | CAM_UNINITIALIZED \<Rightarrow> c')"

text \<open>\<open>getFrame\<close>: \<open>ok\<close> tells whether OpenCV grabs and retrieves a frame.  Using the device without having one would
  be an access through a null pointer.\<close>

definition getFrame :: "bool \<Rightarrow> OpenCVCamera \<Rightarrow> plv_exn + bool \<times> OpenCVCamera" where
  "getFrame ok c =
     (if oc_state c = CAM_UNINITIALIZED then Inr (False, c)
      else if \<not> oc_device c then Inl NullPointer
      else if \<not> ok then Inr (False, c)
      else Inr (True, c\<lparr>oc_imgCount := oc_imgCount c + 1\<rparr>))"

section \<open>Steps\<close>

inductive camera_step :: "OpenCVCamera \<Rightarrow> OpenCVCamera \<Rightarrow> bool" where
  enter_run: "oc_run c = RunBegin \<Longrightarrow>
    camera_step c (c\<lparr>oc_run := if oc_state c \<noteq> CAM_UNINITIALIZED \<and> oc_device c then RunLoop else RunAborted\<rparr>)"
| loop: "oc_run c = RunLoop \<Longrightarrow>
    camera_step c (c\<lparr>oc_run := if oc_state c = CAM_RUNNING \<or> oc_state c = CAM_PAUSED then RunGrab else RunOff\<rparr>)"
| grab: "oc_run c = RunGrab \<Longrightarrow> getFrame ok c = Inr (b, c') \<Longrightarrow>
    camera_step c (c'\<lparr>oc_run := if b then RunTest else RunOff\<rparr>)"
| grab_null: "oc_run c = RunGrab \<Longrightarrow> getFrame ok c = Inl x \<Longrightarrow> camera_step c (c\<lparr>oc_run := RunAborted\<rparr>)"
| test: "oc_run c = RunTest \<Longrightarrow>
    camera_step c (c\<lparr>oc_run := if oc_state c = CAM_PAUSED then RunLock else RunLoop\<rparr>)"
| lock: "oc_run c = RunLock \<Longrightarrow> oc_mutex c = None \<Longrightarrow>
    camera_step c (c\<lparr>oc_mutex := Some CameraHolds, oc_run := RunEnter\<rparr>)"
| wait: "oc_run c = RunEnter \<Longrightarrow> camera_step c (c\<lparr>oc_mutex := None, oc_run := RunWait\<rparr>)"
| woken: "oc_run c = RunWoken \<Longrightarrow> oc_mutex c = None \<Longrightarrow>
    camera_step c (c\<lparr>oc_mutex := Some CameraHolds, oc_run := RunUnlock\<rparr>)"
| unlock: "oc_run c = RunUnlock \<Longrightarrow> camera_step c (c\<lparr>oc_mutex := None, oc_run := RunLoop\<rparr>)"

text \<open>The calls of \<open>CameraProducer\<close>: \<open>init\<close> only after construction or \<open>release\<close>, the others at any time.\<close>

inductive caller_step :: "OpenCVCamera \<Rightarrow> OpenCVCamera \<Rightarrow> bool" where
  init: "oc_call c = CallIdle \<Longrightarrow> oc_state c = CAM_UNINITIALIZED \<Longrightarrow> caller_step c (snd (oc_init opened c))"
| start: "oc_call c = CallIdle \<Longrightarrow> oc_mutex c = None \<Longrightarrow> caller_step c (oc_start c)"
| pause: "oc_call c = CallIdle \<Longrightarrow> oc_mutex c = None \<Longrightarrow> caller_step c (oc_pause c)"
| release: "oc_call c = CallIdle \<Longrightarrow> oc_mutex c = None \<Longrightarrow> caller_step c (oc_release c)"
| relock: "oc_call c = ReleaseRelock \<Longrightarrow> oc_mutex c = None \<Longrightarrow>
    caller_step c (c\<lparr>oc_mutex := Some CallerHolds, oc_call := ReleaseWait\<rparr>)"
| waited: "oc_call c = ReleaseWait \<Longrightarrow> oc_run c = RunOff \<Longrightarrow>
    caller_step c ((releaseCapture c)\<lparr>oc_mutex := None, oc_call := CallIdle\<rparr>)"

definition cam_step :: "OpenCVCamera \<Rightarrow> OpenCVCamera \<Rightarrow> bool" where
  "cam_step c c' \<longleftrightarrow> camera_step c c' \<or> caller_step c c'"

definition cam_reachable :: "OpenCVCamera \<Rightarrow> bool" where
  "cam_reachable c \<longleftrightarrow> cam_step\<^sup>*\<^sup>* OpenCVCamera_new c"

inductive_cases camera_stepE: "camera_step c c'"
inductive_cases caller_stepE: "caller_step c c'"

section \<open>Invariant\<close>

definition cam_inv :: "OpenCVCamera \<Rightarrow> bool" where
  "cam_inv c \<longleftrightarrow>
     (oc_mutex c = Some CameraHolds \<longleftrightarrow> oc_run c = RunEnter \<or> oc_run c = RunUnlock) \<and>
     (oc_mutex c = Some CallerHolds \<longleftrightarrow> oc_call c = ReleaseWait) \<and>
     (oc_run c \<noteq> RunOff \<and> oc_run c \<noteq> RunAborted \<longrightarrow> oc_device c) \<and>
     (oc_state c \<noteq> CAM_UNINITIALIZED \<longrightarrow> oc_device c) \<and>
     (oc_call c \<noteq> CallIdle \<longrightarrow> oc_state c = CAM_UNINITIALIZED) \<and>
     (oc_call c = CallIdle \<longrightarrow> oc_state c = CAM_UNINITIALIZED \<longrightarrow> oc_run c = RunOff \<or> oc_run c = RunAborted) \<and>
     (oc_state c = CAM_INITIALIZED \<longrightarrow> oc_run c = RunOff \<or> oc_run c = RunAborted)"

lemma cam_inv_new: "cam_inv OpenCVCamera_new"
  by (simp add: cam_inv_def OpenCVCamera_new_def)

lemma camera_step_inv: "camera_step c c' \<Longrightarrow> cam_inv c \<Longrightarrow> cam_inv c'"
  by (erule camera_stepE) (auto simp: cam_inv_def getFrame_def split: if_splits)

lemma caller_step_inv: "caller_step c c' \<Longrightarrow> cam_inv c \<Longrightarrow> cam_inv c'"
  by (erule caller_stepE)
    (auto simp: cam_inv_def oc_init_def oc_start_def oc_pause_def oc_release_def wakeOne_def releaseCapture_def Let_def
      split: CameraState.splits if_splits)

lemma cam_reachable_inv: "cam_reachable c \<Longrightarrow> cam_inv c"
  unfolding cam_reachable_def
  by (induction rule: rtranclp_induct)
    (auto simp: cam_inv_new cam_step_def intro: camera_step_inv caller_step_inv)

text \<open>The thread never uses a device that was given back.\<close>

lemma device_there:
  assumes "cam_reachable c" "oc_run c = RunGrab"
  shows "\<exists>r. getFrame ok c = Inr r"
  using cam_reachable_inv [OF assms(1)] assms(2) by (auto simp: cam_inv_def getFrame_def)

section \<open>Release\<close>

lemma release_waiting_steps:
  assumes inv: "cam_inv c" and call: "oc_call c = ReleaseWait" and step: "cam_step c c'"
  shows "oc_run c = RunOff \<and> oc_call c' = CallIdle \<or>
    oc_call c' = ReleaseWait \<and>
      (oc_run c = RunBegin \<and> oc_run c' = RunAborted \<or> oc_run c = RunLoop \<and> oc_run c' = RunOff \<or>
       oc_run c = RunGrab \<and> oc_run c' = RunOff \<or> oc_run c = RunTest \<and> oc_run c' = RunLoop)"
proof -
  have st: "oc_state c = CAM_UNINITIALIZED" "oc_mutex c = Some CallerHolds" "oc_run c \<noteq> RunEnter" "oc_run c \<noteq> RunUnlock"
    using inv call by (auto simp: cam_inv_def)
  from step consider "camera_step c c'" | "caller_step c c'" by (auto simp: cam_step_def)
  then show ?thesis
  proof cases
    case 1
    then show ?thesis using st call by (auto elim!: camera_stepE simp: getFrame_def split: if_splits)
  next
    case 2
    then show ?thesis using st call by (auto elim!: caller_stepE simp: releaseCapture_def)
  qed
qed

text \<open>Once \<open>release\<close> waits, the camera thread ends unless it is at the mutex or at the condition.\<close>

definition blocked :: "OpenCVCamera \<Rightarrow> bool" where
  "blocked c \<longleftrightarrow> oc_run c = RunLock \<or> oc_run c = RunWait \<or> oc_run c = RunWoken"

lemma blocked_no_step:
  assumes "cam_inv c" "oc_call c = ReleaseWait" "blocked c \<or> oc_run c = RunAborted"
  shows "\<not> cam_step c c'"
  using release_waiting_steps [OF assms(1,2), of c'] assms(3) by (auto simp: blocked_def)

lemma release_returns:
  assumes inv: "cam_inv c" and call: "oc_call c = ReleaseWait"
    and run: "oc_run c = RunOff \<or> oc_run c = RunLoop \<or> oc_run c = RunGrab \<or> oc_run c = RunTest"
  shows "\<exists>c'. cam_step\<^sup>*\<^sup>* c c' \<and> oc_call c' = CallIdle \<and> \<not> oc_device c'"
proof -
  have st: "oc_state c = CAM_UNINITIALIZED" using inv call by (auto simp: cam_inv_def)
  have off: "\<exists>c'. cam_step\<^sup>*\<^sup>* d c' \<and> oc_call c' = CallIdle \<and> \<not> oc_device c'"
    if "oc_run d = RunOff" "oc_call d = ReleaseWait" for d
    using caller_step.waited [OF that(2,1)]
    by (intro exI [of _ "(releaseCapture d)\<lparr>oc_mutex := None, oc_call := CallIdle\<rparr>"])
      (auto simp: cam_step_def releaseCapture_def)
  have loop: "\<exists>c'. cam_step\<^sup>*\<^sup>* d c' \<and> oc_call c' = CallIdle \<and> \<not> oc_device c'"
    if "oc_run d = RunLoop" "oc_call d = ReleaseWait" "oc_state d = CAM_UNINITIALIZED" for d
  proof -
    have "cam_step d (d\<lparr>oc_run := RunOff\<rparr>)"
      using camera_step.loop [OF that(1)] that(3) by (simp add: cam_step_def)
    with off [of "d\<lparr>oc_run := RunOff\<rparr>"] that(2) show ?thesis
      by (auto intro: converse_rtranclp_into_rtranclp)
  qed
  from run consider "oc_run c = RunOff" | "oc_run c = RunLoop" | "oc_run c = RunGrab" | "oc_run c = RunTest" by blast
  then show ?thesis
  proof cases
    case 1 then show ?thesis by (rule off [OF _ call])
  next
    case 2 then show ?thesis by (rule loop [OF _ call st])
  next
    case 3
    have "cam_step c (c\<lparr>oc_run := RunOff\<rparr>)"
      using camera_step.grab [OF 3, of True False c] st by (simp add: cam_step_def getFrame_def)
    with off [of "c\<lparr>oc_run := RunOff\<rparr>"] call show ?thesis by (auto intro: converse_rtranclp_into_rtranclp)
  next
    case 4
    have "cam_step c (c\<lparr>oc_run := RunLoop\<rparr>)"
      using camera_step.test [OF 4] st by (simp add: cam_step_def)
    with loop [of "c\<lparr>oc_run := RunLoop\<rparr>"] call st show ?thesis by (auto intro: converse_rtranclp_into_rtranclp)
  qed
qed

section \<open>A deadlock\<close>

text \<open>A camera that was paused and waits: \<open>release\<close> wakes it, unlocks the mutex and locks it again before the thread
  has taken it.\<close>

definition cam_paused :: "run_pc \<Rightarrow> OpenCVCamera" where
  "cam_paused pc =
     \<lparr>oc_state = CAM_PAUSED, oc_device = True, oc_imgCount = 1, oc_mutex = None, oc_run = pc, oc_call = CallIdle\<rparr>"

definition cam_deadlock :: OpenCVCamera where
  "cam_deadlock =
     \<lparr>oc_state = CAM_UNINITIALIZED, oc_device = True, oc_imgCount = 1, oc_mutex = Some CallerHolds, oc_run = RunWoken,
      oc_call = ReleaseWait\<rparr>"

lemma cam_step_cam: "camera_step c c' \<Longrightarrow> cam_step c c'" and cam_step_call: "caller_step c c' \<Longrightarrow> cam_step c c'"
  by (simp_all add: cam_step_def)

lemma reach_step: "cam_reachable c \<Longrightarrow> cam_step c c' \<Longrightarrow> cam_reachable c'"
  by (simp add: cam_reachable_def rtranclp.rtrancl_into_rtrancl)

text \<open>The way there: init, start, a grabbed frame, pause, the wait, release and its second lock.\<close>

lemma cam_waits: "cam_reachable (cam_paused RunWait)"
proof -
  let ?on = "\<lambda>s n m pc. \<lparr>oc_state = s, oc_device = True, oc_imgCount = n, oc_mutex = m, oc_run = pc, oc_call = CallIdle\<rparr>"
  have 1: "cam_reachable (?on CAM_INITIALIZED 0 None RunOff)"
    by (rule reach_step [OF _ cam_step_call, of OpenCVCamera_new])
      (use caller_step.init [of OpenCVCamera_new True] in \<open>simp_all add: cam_reachable_def OpenCVCamera_new_def oc_init_def\<close>)
  have 2: "cam_reachable (?on CAM_RUNNING 0 None RunBegin)"
    using reach_step [OF 1 cam_step_call [OF caller_step.start]] by (simp add: oc_start_def)
  have 3: "cam_reachable (?on CAM_RUNNING 0 None RunLoop)"
    using reach_step [OF 2 cam_step_cam [OF camera_step.enter_run]] by simp
  have 4: "cam_reachable (?on CAM_RUNNING 0 None RunGrab)"
    using reach_step [OF 3 cam_step_cam [OF camera_step.loop]] by simp
  have 5: "cam_reachable (?on CAM_RUNNING 1 None RunTest)"
    using reach_step [OF 4 cam_step_cam [OF camera_step.grab [where ok = True and b = True]]] by (simp add: getFrame_def)
  have 6: "cam_reachable (?on CAM_PAUSED 1 None RunTest)"
    using reach_step [OF 5 cam_step_call [OF caller_step.pause]] by (simp add: oc_pause_def)
  have 7: "cam_reachable (?on CAM_PAUSED 1 None RunLock)"
    using reach_step [OF 6 cam_step_cam [OF camera_step.test]] by simp
  have 8: "cam_reachable (?on CAM_PAUSED 1 (Some CameraHolds) RunEnter)"
    using reach_step [OF 7 cam_step_cam [OF camera_step.lock]] by simp
  show ?thesis
    using reach_step [OF 8 cam_step_cam [OF camera_step.wait]] by (simp add: cam_paused_def)
qed

lemma cam_deadlock_reachable: "cam_reachable cam_deadlock"
proof -
  have "cam_step (cam_paused RunWait) (oc_release (cam_paused RunWait))"
    by (intro cam_step_call caller_step.release) (simp_all add: cam_paused_def)
  moreover have "cam_step (oc_release (cam_paused RunWait)) cam_deadlock"
    using cam_step_call [OF caller_step.relock, of "oc_release (cam_paused RunWait)"]
    by (simp add: oc_release_def cam_paused_def cam_deadlock_def wakeOne_def Let_def)
  ultimately show ?thesis using cam_waits reach_step by blast
qed

lemma cam_deadlock_stuck: "\<not> cam_step cam_deadlock c"
  by (rule blocked_no_step [OF cam_reachable_inv [OF cam_deadlock_reachable]]) (simp_all add: cam_deadlock_def blocked_def)

text \<open>Every way in which a waiting \<open>release\<close> goes on.\<close>

lemma release_waits_blocked:
  assumes "cam_inv c" "oc_call c = ReleaseWait" "cam_step\<^sup>*\<^sup>* c c'"
  shows "blocked c \<or> oc_run c = RunAborted \<Longrightarrow> c' = c"
    and "oc_run c = RunBegin \<Longrightarrow> oc_call c' = ReleaseWait \<and> (oc_run c' = RunBegin \<or> oc_run c' = RunAborted)"
proof -
  show "c' = c" if "blocked c \<or> oc_run c = RunAborted"
    using assms(3) blocked_no_step [OF assms(1,2) that] by (metis converse_rtranclpE)
  have "cam_inv c' \<and> oc_call c' = ReleaseWait \<and> (oc_run c' = RunBegin \<or> oc_run c' = RunAborted)" if "oc_run c = RunBegin"
    using assms(3)
  proof (induction rule: rtranclp_induct)
    case (step a b)
    have "cam_inv b" using step.hyps(2) step.IH camera_step_inv caller_step_inv by (auto simp: cam_step_def)
    with release_waiting_steps [of a b] blocked_no_step [of a b] step show ?case by auto
  qed (use that assms in simp)
  then show "oc_run c = RunBegin \<Longrightarrow> oc_call c' = ReleaseWait \<and> (oc_run c' = RunBegin \<or> oc_run c' = RunAborted)" by blast
qed

lemma release_returns_iff:
  assumes "cam_reachable c" "oc_call c = ReleaseWait"
  shows "(\<exists>c'. cam_step\<^sup>*\<^sup>* c c' \<and> oc_call c' = CallIdle) \<longleftrightarrow>
    \<not> blocked c \<and> oc_run c \<noteq> RunBegin \<and> oc_run c \<noteq> RunAborted"
proof
  note inv = cam_reachable_inv [OF assms(1)]
  assume "\<exists>c'. cam_step\<^sup>*\<^sup>* c c' \<and> oc_call c' = CallIdle"
  then obtain c' where c': "cam_step\<^sup>*\<^sup>* c c'" "oc_call c' = CallIdle" by blast
  with release_waits_blocked [OF inv assms(2) c'(1)] assms(2)
  show "\<not> blocked c \<and> oc_run c \<noteq> RunBegin \<and> oc_run c \<noteq> RunAborted" by auto
next
  note inv = cam_reachable_inv [OF assms(1)]
  assume n: "\<not> blocked c \<and> oc_run c \<noteq> RunBegin \<and> oc_run c \<noteq> RunAborted"
  have "oc_run c \<noteq> RunEnter \<and> oc_run c \<noteq> RunUnlock" using inv assms(2) by (auto simp: cam_inv_def)
  with n have "oc_run c = RunOff \<or> oc_run c = RunLoop \<or> oc_run c = RunGrab \<or> oc_run c = RunTest"
    by (cases "oc_run c") (auto simp: blocked_def)
  from release_returns [OF inv assms(2) this]
  show "\<exists>c'. cam_step\<^sup>*\<^sup>* c c' \<and> oc_call c' = CallIdle" by blast
qed

text \<open>A thread that ended because a frame could not be grabbed is not started again.\<close>

lemma start_after_failed_grab:
  assumes "oc_state c = CAM_RUNNING"
  shows "oc_start c = c" "oc_start (oc_start (oc_pause c)) = c \<or> oc_run c = RunWait"
  using assms by (auto simp: oc_start_def oc_pause_def wakeOne_def)

end
