(* ===== verification/Image_Properties.thy ===== *)
theory Image_Properties
  imports Sample_Pipeline Plugin_Run Image_Arith Image_Stitch Image_Files Cv_Stream Camera_Thread
begin

text \<open>
  The properties of the image processors: what their methods put on the pins in a pipeline, what a sequence of frames
  makes of their state, what arrives of an image on the other side of a connection, and the camera thread.
\<close>

section \<open>Methods in a pipeline\<close>

text \<open>C12. A run of a processor that finds data on its inputs does what its method does when it is played on the queues
  of these inputs: the run returns the answer of the method, and each connection of an output pin gets what the method
  put there, or a null item when it is synchronous and the method put nothing.\<close>

theorem runs_put_what_is_played:
  assumes "wired w" and "is_child w e" and "io_pins (set (inputPins e w)) (set (outputPins e w)) m"
    and "fst (preInput e (setProcessingSerial e s w)) = Inr False"
    and "processor_process e (io_code m) s w = (Inr b, w')"
  shows "\<exists>st rg. play (errors_of w) m (fresh_rig w) = ((Inr b, st), rg) \<and>
    (\<forall>p \<in> set (outputPins e w). \<forall>c \<in> set (op_connections (opins w p)).
       c_queue (conns w' c) = c_queue (conns w c) @ posted s (rg_out rg p) (conn_isSynchronous c w))"
  using processor_method_run [OF assms] by (simp add: method_run_def)

definition successor_method :: "(nat, unit, bool) proc" where
  "successor_method = bindP (getVariantP 1) (\<lambda>v. seqP (putP 1 (case v of Some n \<Rightarrow> Suc n | None \<Rightarrow> 0)) (retP True))"

theorem runs_put_what_is_played_witness:
  "\<exists>w'. processor_process 1 (io_code (successor_method ())) 1 demo_frame = (Inr True, w') \<and>
     c_queue (conns w' 2) = [Data_payload 1 6]"
proof -
  let ?m = "successor_method ()" and ?w' = "snd (processor_process 1 (io_code (successor_method ())) 1 demo_frame)"
  have pins: "pinsP {1} {1} successor_method"
    by (auto simp: successor_method_def pinsP_calls intro!: pinsP_bind pinsP_seq)
  have w: "wired demo_frame" "is_child demo_frame 1" "set (inputPins 1 demo_frame) = {1}" "set (outputPins 1 demo_frame) = {1}"
    "fst (preInput 1 (setProcessingSerial 1 1 demo_frame)) = Inr False"
    "op_connections (opins demo_frame 1) = [2]" "c_queue (conns demo_frame 2) = []"
    by code_simp+
  have "fst (processor_process 1 (io_code ?m) 1 demo_frame) = Inr True" by code_simp
  then have run: "processor_process 1 (io_code ?m) 1 demo_frame = (Inr True, ?w')" by (simp add: prod_eq_iff)
  have "rg_in (fresh_rig demo_frame) 1 = \<lparr>pv_connected = True, pv_called = False, pv_queue = [Data_payload 1 5]\<rparr>"
    by (simp add: fresh_rig_def fresh_view_def in_queue_def ipin_isConnected_def demo_frame_def demo_world_def demo_ipin_def
        demo_conn_def)
  then have "rg_out (snd (play (errors_of demo_frame) ?m (fresh_rig demo_frame))) 1 = Some 6"
    by (simp add: successor_method_def play_simps view_get_def view_put_def fresh_rig_def Data_payload_def)
  moreover have "io_pins (set (inputPins 1 demo_frame)) (set (outputPins 1 demo_frame)) ?m"
    unfolding w(3,4) using pins by (simp only: pinsP_def)
  from runs_put_what_is_played [OF w(1,2) this w(5) run] obtain st rg
    where "play (errors_of demo_frame) ?m (fresh_rig demo_frame) = ((Inr True, st), rg)"
      and "\<forall>p \<in> {1}. \<forall>c \<in> set (op_connections (opins demo_frame p)).
         c_queue (conns ?w' c) = c_queue (conns demo_frame c) @ posted 1 (rg_out rg p) (conn_isSynchronous c demo_frame)"
    unfolding w(4) by blast
  ultimately have "c_queue (conns ?w' 2) = [Data_payload 1 6]"
    by (simp add: w(7) w(6) [simplified] posted_def)
  with run show ?thesis by blast
qed

section \<open>Sequences of frames\<close>

text \<open>The image pin of the examples.\<close>

definition any_pin :: "ref \<Rightarrow> CvPin" where
  "any_pin q = addAllChannels (addAllDepths
     \<lparr>cp_ref = q, cp_name = ''image'', cp_owner = ''demo'', cp_depths = {}, cp_channels = {}, cp_toList = (\<lambda>_. [])\<rparr>)"

definition pixel :: "'d \<Rightarrow> 'd CvMat" where
  "pixel d = \<lparr>cm_rows = 1, cm_cols = 1, cm_depth = CV_8U, cm_channels = 1, cm_data = d\<rparr>"

lemma pixel_accepted: "accepts (any_pin q) (pixel d)" "cp_ref (any_pin q) = q"
  by (simp_all add: accepts_def any_pin_def pixel_def addAllChannels_def addAllDepths_def mat_isValid_def mat_isEmpty_def
      CV_8U_def)

text \<open>C13. A delay of \<open>n\<close> steps holds the images back for \<open>n - 1\<close> frames: a frame gets the image of the \<open>n - 1\<close>-th
  frame before it, and the first \<open>n - 1\<close> frames get none.  Images that are waiting already come first, and their number
  is a lower bound of the delay whatever the property says: it cannot be shortened while the pipeline runs.\<close>

theorem delay_shifts_images:
  assumes "\<And>m. m \<in> set ms \<Longrightarrow> accepts inp m" and "k = nat (dl_steps d - 1) - length (dl_images d)"
  shows "fst (drive er (DelayImage_process inp out) (cp_ref out) d (map (mat_rig (cp_ref inp)) ms)) =
    Inr (map (\<lambda>i. if i < k then None else Some (VMat ((dl_images d @ ms) ! (i - k)))) [0..<length ms])"
proof -
  have k: "max (nat (dl_steps d - 1)) (length (dl_images d)) - length (dl_images d) = k"
    using assms(2) by auto
  have "replicate (min k (length ms)) None @ map (\<lambda>m. Some (VMat m)) (take (length ms - k) (dl_images d @ ms)) =
      map (\<lambda>i. if i < k then None else Some (VMat ((dl_images d @ ms) ! (i - k)))) [0..<length ms]"
    by (rule nth_equalityI) (auto simp: nth_append)
  with delay_frames [of ms inp er out d, OF assms(1)] show ?thesis by (simp only: k fst_conv)
qed

theorem delay_shifts_images_witness:
  "fst (drive (errors_of demo) (DelayImage_process (any_pin 0) (any_pin 0)) 0 (setSteps 3 DelayImage_new)
      (map (mat_rig 0) (map pixel [10, 11, 12, 13 :: nat]))) =
    Inr [None, None, Some (VMat (pixel 10)), Some (VMat (pixel 11))]"
proof -
  have d: "nat (dl_steps (setSteps 3 (DelayImage_new :: nat DelayImage)) - 1) -
      length (dl_images (setSteps 3 (DelayImage_new :: nat DelayImage))) = 2"
    by (simp add: setSteps_def DelayImage_new_def MAX_STEPS_def)
  have "accepts (any_pin 0) m" if "m \<in> set (map pixel [10, 11, 12, 13 :: nat])" for m
    using that by (auto simp: pixel_accepted)
  from delay_shifts_images [where ms = "map pixel [10, 11, 12, 13 :: nat]", OF this d [symmetric],
      where out = "any_pin 0" and er = "errors_of demo"]
  show ?thesis unfolding pixel_accepted(2) by (simp add: upt_rec setSteps_def DelayImage_new_def)
qed

text \<open>An average over \<open>n\<close> frames is \<open>1/n\<close> of the sum of \<open>n + 1\<close> frames: the frame that completes a period is
  added and also starts the next one.  The first period counts its first frame once more still: of \<open>n + 1\<close> equal
  images the average shows \<open>(n + 2)/n\<close> of their values.\<close>

theorem average_counts_frames_twice:
  assumes ops: "averaging_ops v sat conv acc" and fr: "cp_ref inp \<noteq> fr" and n: "1 \<le> n"
    and len: "length ms = nat (n - 1)" "length ms' = nat (n - 1)"
    and ok: "\<And>m. m \<in> set (x # ms @ [y] @ ms' @ [z]) \<Longrightarrow> accepts inp m \<and> same_shape x m"
  shows "\<exists>img img'. fst (drive er (Average_process conv acc fr inp out) (cp_ref out) (Average_new\<lparr>av_numFrames := n\<rparr>)
        (map (mat_rig (cp_ref inp)) (x # ms @ [y] @ ms' @ [z]))) =
      Inr (replicate (nat n) None @ [Some (VMat img)] @ replicate (nat (n - 1)) None @ [Some (VMat img')]) \<and>
    v img = sat ((2 * v x + sum_list (map v ms) + v y) / n) \<and>
    v img' = sat ((v y + sum_list (map v ms') + v z) / n)"
proof -
  let ?proc = "Average_process conv acc fr inp out"
  let ?drive = "\<lambda>a ms. drive er ?proc (cp_ref out) a (map (mat_rig (cp_ref inp)) ms)"
  have shape: "same_shape a c \<Longrightarrow> same_shape b c \<Longrightarrow> same_shape b d \<Longrightarrow> same_shape a d" for a b c d :: "'a CvMat"
    by (simp add: same_shape_def)
  from average_first [OF ops fr _ n, of x er out] ok obtain rg m where
    first: "play er (?proc (Average_new\<lparr>av_numFrames := n\<rparr>)) (mat_rig (cp_ref inp) x) =
      ((Inr True, \<lparr>av_numFrames = n, av_total = 1, av_avg = Some m\<rparr>), rg)" "rg_out rg (cp_ref out) = None"
      "v m = 2 * v x" "same_shape m x"
    by auto
  have "accepts inp i \<and> same_shape m i" if "i \<in> set (ms @ [y])" for i
  proof -
    from that have "i \<in> set (x # ms @ [y] @ ms' @ [z])" by auto
    from ok [OF this] ok [of x] shape [OF first(4)] show ?thesis by auto
  qed
  from average_running [where m = m and x = y and er = er and out = out, OF ops fr n len(1) this] obtain img m' where
    p1: "?drive \<lparr>av_numFrames = n, av_total = 1, av_avg = Some m\<rparr> (ms @ [y]) =
       (Inr (replicate (length ms) None @ [Some (VMat img)]), \<lparr>av_numFrames = n, av_total = 1, av_avg = Some m'\<rparr>)"
      "v img = sat ((v m + sum_list (map v ms) + v y) / n)" "v m' = v y" "same_shape m' y"
    by blast
  have "accepts inp i \<and> same_shape m' i" if "i \<in> set (ms' @ [z])" for i
  proof -
    from that have "i \<in> set (x # ms @ [y] @ ms' @ [z])" by auto
    from ok [OF this] ok [of y] shape [OF p1(4)] show ?thesis by auto
  qed
  from average_running [where m = m' and x = z and er = er and out = out, OF ops fr n len(2) this] obtain img' m'' where
    p2: "?drive \<lparr>av_numFrames = n, av_total = 1, av_avg = Some m'\<rparr> (ms' @ [z]) =
       (Inr (replicate (length ms') None @ [Some (VMat img')]), \<lparr>av_numFrames = n, av_total = 1, av_avg = Some m''\<rparr>)"
      "v img' = sat ((v m' + sum_list (map v ms') + v z) / n)"
    by blast
  have "?drive \<lparr>av_numFrames = n, av_total = 1, av_avg = Some m\<rparr> ((ms @ [y]) @ ms' @ [z]) =
      (Inr (replicate (length ms) None @ [Some (VMat img)] @ replicate (length ms') None @ [Some (VMat img')]),
       \<lparr>av_numFrames = n, av_total = 1, av_avg = Some m''\<rparr>)"
    using drive_append [OF p1(1), of "map (mat_rig (cp_ref inp)) (ms' @ [z])"] p2(1) by simp
  moreover have "replicate (nat n) (None :: 'a pv option) = None # replicate (length ms) None"
    using n len by (metis Suc_nat_eq_nat_zadd1 diff_add_cancel diff_ge_0_iff_ge add.commute replicate_Suc)
  ultimately have "fst (?drive (Average_new\<lparr>av_numFrames := n\<rparr>) (x # ms @ [y] @ ms' @ [z])) =
      Inr (replicate (nat n) None @ [Some (VMat img)] @ replicate (nat (n - 1)) None @ [Some (VMat img')])"
    using first(1,2) len by simp
  with p1(2,3) p2(2) first(3) show ?thesis by auto
qed

definition scaled :: "int \<Rightarrow> real \<Rightarrow> real CvMat \<Rightarrow> real CvMat" where
  "scaled d k m = m\<lparr>cm_depth := d, cm_data := cm_data m * k\<rparr>"

definition summed :: "real CvMat \<Rightarrow> real CvMat \<Rightarrow> real CvMat" where
  "summed s m = m\<lparr>cm_data := cm_data s + cm_data m\<rparr>"

theorem average_counts_frames_twice_witness:
  "\<exists>img img'. fst (drive (errors_of demo) (Average_process scaled summed 1 (any_pin 0) (any_pin 0)) 0
        (Average_new\<lparr>av_numFrames := 2\<rparr>) (map (mat_rig 0) (map pixel [4, 4, 4, 4, 4]))) =
      Inr [None, None, Some (VMat img), None, Some (VMat img')] \<and> cm_data img = 8 \<and> cm_data img' = 6"
proof -
  have ops: "averaging_ops cm_data (\<lambda>x. x) scaled summed"
    by (simp add: averaging_ops_def scaled_def summed_def)
  have ok: "accepts (any_pin 0) m \<and> same_shape (pixel 4) m"
    if "m \<in> set (pixel 4 # [pixel 4] @ [pixel 4] @ [pixel 4] @ [pixel 4])" for m :: "real CvMat"
    using that by (auto simp: pixel_accepted same_shape_def)
  have fr: "cp_ref (any_pin 0) \<noteq> 1" by (simp add: pixel_accepted)
  have le: "(1 :: int) \<le> 2" by simp
  have "length [pixel (4 :: real)] = nat (2 - 1)" by simp
  from average_counts_frames_twice [where er = "errors_of demo" and out = "any_pin 0" and x = "pixel 4" and y = "pixel 4" and z = "pixel 4", OF ops fr le this this ok]
  have "\<exists>img img'. fst (drive (errors_of demo) (Average_process scaled summed 1 (any_pin 0) (any_pin 0)) 0
        (Average_new\<lparr>av_numFrames := 2\<rparr>) (map (mat_rig 0) (pixel 4 # [pixel 4] @ [pixel 4] @ [pixel 4] @ [pixel 4]))) =
      Inr (replicate (nat 2) None @ [Some (VMat img)] @ replicate (nat (2 - 1)) None @ [Some (VMat img')]) \<and>
    cm_data img = (2 * cm_data (pixel (4 :: real)) + sum_list (map cm_data [pixel (4 :: real)]) + cm_data (pixel (4 :: real))) / real_of_int 2 \<and>
    cm_data img' = (cm_data (pixel (4 :: real)) + sum_list (map cm_data [pixel (4 :: real)]) + cm_data (pixel (4 :: real))) / real_of_int 2"
    unfolding pixel_accepted(2) by blast
  then show ?thesis by (simp add: numeral_2_eq_2 pixel_def del: drive.simps)
qed

section \<open>Stitching\<close>






section \<open>Images on their way to another computer\<close>

text \<open>C17. An image that has memory of its own is read back from a data stream as it was written: size, depth, channels
  and contents, whatever comes behind it in the stream.\<close>

theorem image_stream_round_trip:
  assumes "owns_memory elemSize m" and "allocates elemSize alloc"
  shows "\<exists>bs. write_mat beyond m = Inr bs \<and> read_mat alloc (bs @ rest) = Inr (m, rest)"
  by (rule stream_round_trip [OF assms])

text \<open>An allocator, and a 2 x 2 image of bytes.\<close>

definition fresh_memory :: "int \<Rightarrow> int \<Rightarrow> int \<Rightarrow> plv_exn + Buffer" where
  "fresh_memory rows cols t = Inr \<lparr>bf_bytes = replicate (nat (rows * cols)) 0, bf_offset = 0\<rparr>"

definition four_bytes :: "Buffer CvMat" where
  "four_bytes = \<lparr>cm_rows = 2, cm_cols = 2, cm_depth = CV_8U, cm_channels = 1, cm_data = \<lparr>bf_bytes = [1, 2, 3, 4], bf_offset = 0\<rparr>\<rparr>"

lemma four_bytes_facts:
  "allocates (\<lambda>_. 1) fresh_memory" "owns_memory (\<lambda>_. 1) four_bytes" "accepts (any_pin q) four_bytes"
  by (simp_all add: allocates_def fresh_memory_def owns_memory_def header_ok_def four_bytes_def accepts_def any_pin_def
      addAllChannels_def addAllDepths_def mat_isValid_def mat_isEmpty_def CV_8U_def)

theorem image_stream_round_trip_witness:
  "\<exists>bs. write_mat (\<lambda>_. 0) four_bytes = Inr bs \<and> read_mat fresh_memory (bs @ [7]) = Inr (four_bytes, [7])"
  by (rule image_stream_round_trip [OF four_bytes_facts(2,1)])

text \<open>C18. An image that \<open>CropImage\<close> has really cropped cannot be sent: what is put on the output pin shares the memory of
  the whole image, which \<open>operator<<\<close> writes instead of the part, and the assertion of \<open>operator>>\<close> fails on the other
  side.\<close>

theorem cropped_image_breaks_reader:
  assumes c: "crop_inv c" "0 < cr_x1 c + cr_x2 c + cr_y1 c + cr_y2 c"
    and size: "cr_x1 c + cr_x2 c < cm_cols m" "cr_y1 c + cr_y2 c < cm_rows m"
    and m: "owns_memory elemSize m" "accepts inp m"
    and cv: "allocates elemSize alloc" "shares_memory roi"
  shows "\<exists>rg m' bs. play er (CropImage_process roi inp out c) (mat_rig (cp_ref inp) m) = ((Inr True, c), rg) \<and>
    rg_out rg (cp_ref out) = Some (VMat m') \<and> write_mat beyond m' = Inr bs \<and> read_mat alloc (bs @ rest) = Inl AssertFailed"
proof -
  let ?w = "cm_cols m - cr_x1 c - cr_x2 c" and ?h = "cm_rows m - cr_y1 c - cr_y2 c"
  let ?r = "\<lparr>r_x = cr_x1 c, r_y = cr_y1 c, r_width = ?w, r_height = ?h\<rparr>"
  have hd: "0 < cm_cols m" "cm_cols m < 2 ^ 31" "0 < cm_rows m" "cm_rows m < 2 ^ 31"
    using m(1) by (simp_all add: owns_memory_def header_ok_def)
  have rect: "crop_rect c m = Some ?r"
    using crop_rect_inside [OF c(1), of m] size hd by simp
  have pos: "0 < ?w" "0 < ?h" "?w \<le> cm_cols m" "?h \<le> cm_rows m" "?w < cm_cols m \<or> ?h < cm_rows m"
    using c size by (auto simp: crop_inv_def)
  have ins: "inside ?r m" using c(1) pos by (auto simp: inside_def crop_inv_def)
  have "?w * ?h < cm_cols m * cm_rows m"
    using pos(5)
  proof
    assume "?w < cm_cols m"
    then have "?w * ?h < cm_cols m * ?h" using pos(2) by (rule mult_strict_right_mono)
    also have "\<dots> \<le> cm_cols m * cm_rows m" using pos(4) hd(1) by (intro mult_left_mono) auto
    finally show ?thesis .
  next
    assume "?h < cm_rows m"
    then have "?w * ?h < ?w * cm_rows m" using pos(1) by (rule mult_strict_left_mono)
    also have "\<dots> \<le> cm_cols m * cm_rows m" using pos(3) hd(3) by (intro mult_right_mono) auto
    finally show ?thesis .
  qed
  then have small: "r_width ?r * r_height ?r < cm_cols m * cm_rows m" by simp
  from region_not_readable [OF m(1) cv ins small, of beyond rest] obtain m' bs where
    m': "roi m ?r = Inr m'" "write_mat beyond m' = Inr bs" "read_mat alloc (bs @ rest) = Inl AssertFailed" by blast
  have "\<exists>rg. play er (CropImage_process roi inp out c) (mat_rig (cp_ref inp) m) = ((Inr True, c), rg) \<and>
      rg_out rg (cp_ref out) = Some (VMat m')"
    by (simp add: CropImage_process_def play_simps play_getMat [OF mat_rig_views(1) m(2)] rect m'(1) play_putMat mat_rig_views)
  with m'(2,3) show ?thesis by blast
qed

definition share_memory :: "Buffer roi" where
  "share_memory m r = Inr (m\<lparr>cm_rows := r_height r, cm_cols := r_width r,
     cm_data := (cm_data m)\<lparr>bf_offset := nat (r_y r * cm_cols m + r_x r)\<rparr>\<rparr>)"

theorem cropped_image_breaks_reader_witness:
  "\<exists>rg m' bs. play (errors_of demo) (CropImage_process share_memory (any_pin 0) (any_pin 0) (setX1 1 CropImage_new))
       (mat_rig 0 four_bytes) = ((Inr True, setX1 1 CropImage_new), rg) \<and>
     rg_out rg 0 = Some (VMat m') \<and> write_mat (\<lambda>_. 0) m' = Inr bs \<and> read_mat fresh_memory (bs @ []) = Inl AssertFailed"
proof -
  have c: "crop_inv (setX1 1 CropImage_new)" by (intro crop_setters)
  have x: "cr_x1 (setX1 1 CropImage_new) = 1" "cr_x2 (setX1 1 CropImage_new) = 0"
    "cr_y1 (setX1 1 CropImage_new) = 0" "cr_y2 (setX1 1 CropImage_new) = 0"
    by (simp_all add: setX1_def CropImage_new_def)
  have "shares_memory share_memory" by (auto simp: shares_memory_def share_memory_def)
  moreover have "0 < cr_x1 (setX1 1 CropImage_new) + cr_x2 (setX1 1 CropImage_new) + cr_y1 (setX1 1 CropImage_new) +
      cr_y2 (setX1 1 CropImage_new)"
    "cr_x1 (setX1 1 CropImage_new) + cr_x2 (setX1 1 CropImage_new) < cm_cols four_bytes"
    "cr_y1 (setX1 1 CropImage_new) + cr_y2 (setX1 1 CropImage_new) < cm_rows four_bytes"
    by (simp_all add: x four_bytes_def)
  ultimately show ?thesis
    using cropped_image_breaks_reader [where inp = "any_pin 0" and er = "errors_of demo" and out = "any_pin 0" and
        beyond = "\<lambda>_. 0" and rest = "[]", OF c _ _ _ four_bytes_facts(2,3,1)]
    by (simp only: pixel_accepted(2))
qed

section \<open>The camera thread\<close>

text \<open>C22. While \<open>release\<close> waits for the camera thread to end it has the mutex of the camera.  It can return exactly
  when the thread is neither at the mutex nor at the condition, and has passed the assertions at the beginning of
  \<open>run\<close>; otherwise the call never returns.\<close>

theorem release_returns_unless_blocked:
  assumes "cam_reachable c" and "oc_call c = ReleaseWait"
  shows "(\<exists>c'. cam_step\<^sup>*\<^sup>* c c' \<and> oc_call c' = CallIdle) \<longleftrightarrow>
    oc_run c \<notin> {RunLock, RunWait, RunWoken, RunBegin, RunAborted}"
  using release_returns_iff [OF assms] by (simp add: blocked_def)

theorem release_returns_unless_blocked_witness:
  "\<exists>c. cam_reachable c \<and> oc_call c = ReleaseWait \<and> \<not> (\<exists>c'. cam_step\<^sup>*\<^sup>* c c' \<and> oc_call c' = CallIdle)"
proof -
  have d: "oc_call cam_deadlock = ReleaseWait" "oc_run cam_deadlock = RunWoken" by (simp_all add: cam_deadlock_def)
  from release_returns_unless_blocked [OF cam_deadlock_reachable d(1)] d(2)
  have "\<not> (\<exists>c'. cam_step\<^sup>*\<^sup>* cam_deadlock c' \<and> oc_call c' = CallIdle)" by simp
  with cam_deadlock_reachable d(1) show ?thesis by blast
qed

text \<open>Releasing a paused camera can end in a deadlock: \<open>release\<close> wakes the thread, but locks the mutex again before
  the thread has it, and then waits for the thread to end.\<close>

theorem release_of_paused_camera_deadlocks:
  "\<exists>c c'. cam_reachable c \<and> oc_state c = CAM_PAUSED \<and> oc_run c = RunWait \<and> oc_call c = CallIdle \<and>
     cam_step\<^sup>*\<^sup>* (oc_release c) c' \<and> oc_call c' = ReleaseWait \<and> (\<nexists>c''. cam_step c' c'')"
proof (intro exI conjI)
  show "cam_reachable (cam_paused RunWait)" by (rule cam_waits)
  show "cam_step\<^sup>*\<^sup>* (oc_release (cam_paused RunWait)) cam_deadlock"
    using cam_step_call [OF caller_step.relock, of "oc_release (cam_paused RunWait)"]
    by (simp add: oc_release_def cam_paused_def cam_deadlock_def wakeOne_def Let_def r_into_rtranclp)
qed (simp_all add: cam_deadlock_stuck, simp_all add: cam_paused_def cam_deadlock_def)

section \<open>Files\<close>




end
