(* ===== verification/Image_Convert.thy ===== *)
theory Image_Convert
  imports Cv_Stream
begin

unbundle bit_operations_syntax

text \<open>
  The viewers of \<open>plvgui\<close>: \<open>ImageConverter.cpp\<close>, which makes a \<open>QImage\<close> of an image, and the flag of
  \<open>OpenCVImageRenderer.cpp\<close> that keeps at most one conversion under way.  The contents of a matrix are the bytes from
  \<open>mat.data\<close> on and the distance \<open>mat.step\<close> of two rows.  A read behind the last byte is the result \<open>OutOfBounds\<close>;
  the machine is little-endian.
\<close>

section \<open>Images of Qt\<close>

datatype ImageFormat = Format_Indexed8 | Format_RGB32

record QImage =
  qi_width :: int
  qi_height :: int
  qi_format :: ImageFormat
  qi_scanlines :: "u32 list list"
  qi_colorTable :: "u32 list"

definition qRgb :: "u32 \<Rightarrow> u32 \<Rightarrow> u32 \<Rightarrow> u32" where
  "qRgb r g b = 0xFF000000 OR push_bit 16 (r AND 255) OR push_bit 8 (g AND 255) OR (b AND 255)"

datatype convert_exn = ImageConversionException string | OutOfBounds

record PixelData =
  pd_bytes :: "byte list"
  pd_step :: nat

section \<open>Reading the memory of a matrix\<close>

definition byte_at :: "PixelData \<Rightarrow> nat \<Rightarrow> byte option" where
  "byte_at d i = (if i < length (pd_bytes d) then Some (pd_bytes d ! i) else None)"

definition le16 :: "byte \<Rightarrow> byte \<Rightarrow> 16 word" where
  "le16 lo hi = ucast lo OR push_bit 8 (ucast hi)"

definition word_at :: "PixelData \<Rightarrow> nat \<Rightarrow> 16 word option" where
  "word_at d i =
     (case (byte_at d (2 * i), byte_at d (2 * i + 1)) of
        (Some lo, Some hi) \<Rightarrow> Some (le16 lo hi) | _ \<Rightarrow> None)"

text \<open>\<open>fl\<close> gives \<open>(int)(x * 255.0f)\<close> for the four bytes of the float \<open>x\<close>.\<close>

definition float_at :: "(byte list \<Rightarrow> int) \<Rightarrow> PixelData \<Rightarrow> nat \<Rightarrow> int option" where
  "float_at fl d i = map_option fl (those (map (\<lambda>k. byte_at d (4 * i + k)) [0..<4]))"

section \<open>Conversion\<close>

text \<open>The two loops over a picture: \<open>px y x\<close> is the value that is written at \<open>x\<close> of the scan line \<open>y\<close>.\<close>

definition scan :: "int \<Rightarrow> int \<Rightarrow> (nat \<Rightarrow> nat \<Rightarrow> u32 option) \<Rightarrow> u32 list list option" where
  "scan rows cols px = those (map (\<lambda>y. those (map (px y) [0..<nat cols])) [0..<nat rows])"

definition filled :: "ImageFormat \<Rightarrow> PixelData CvMat \<Rightarrow> (nat \<Rightarrow> nat \<Rightarrow> u32 option) \<Rightarrow> convert_exn + QImage" where
  "filled format m px =
     (case scan (cm_rows m) (cm_cols m) px of
        None \<Rightarrow> Inl OutOfBounds
      | Some lines \<Rightarrow> Inr \<lparr>qi_width = cm_cols m, qi_height = cm_rows m, qi_format = format, qi_scanlines = lines,
                         qi_colorTable = []\<rparr>)"

text \<open>OpenCV's BGR to Qt's RGB, for the three values from the index \<open>i\<close> on.\<close>

definition bgr_at :: "(nat \<Rightarrow> u32 option) \<Rightarrow> nat \<Rightarrow> u32 option" where
  "bgr_at val i =
     (case (val i, val (i + 1), val (i + 2)) of
        (Some blue, Some green, Some red) \<Rightarrow> Some (qRgb red green blue) | _ \<Rightarrow> None)"

definition grey_table :: "u32 list" where
  "grey_table = map (\<lambda>i. qRgb (of_nat i) (of_nat i) (of_nat i)) [0..<256]"

text \<open>The cases of the \<open>switch\<close>.  \<open>step\<close> is divided by the size of a value, and a float is cut to its lowest byte.\<close>

definition from_8UC1 :: "PixelData CvMat \<Rightarrow> convert_exn + QImage" where
  "from_8UC1 m =
     filled Format_Indexed8 m (\<lambda>y x. map_option ucast (byte_at (cm_data m) (y * pd_step (cm_data m) + x)))"

definition from_8UC3 :: "PixelData CvMat \<Rightarrow> convert_exn + QImage" where
  "from_8UC3 m =
     filled Format_RGB32 m
       (\<lambda>y x. bgr_at (\<lambda>i. map_option ucast (byte_at (cm_data m) i)) (y * pd_step (cm_data m) + 3 * x))"

definition from_16UC1 :: "PixelData CvMat \<Rightarrow> convert_exn + QImage" where
  "from_16UC1 m =
     filled Format_Indexed8 m
       (\<lambda>y x. map_option (\<lambda>v. ucast (drop_bit 8 v)) (word_at (cm_data m) (y * (pd_step (cm_data m) div 2) + x)))"

definition from_16UC3 :: "PixelData CvMat \<Rightarrow> convert_exn + QImage" where
  "from_16UC3 m =
     filled Format_RGB32 m
       (\<lambda>y x. bgr_at (\<lambda>i. map_option ucast (word_at (cm_data m) i)) (y * (pd_step (cm_data m) div 2) + 3 * x))"

text \<open>The lowest byte of \<open>v >> 8\<close> does not depend on the sign.\<close>

definition from_16SC1 :: "PixelData CvMat \<Rightarrow> convert_exn + QImage" where
  "from_16SC1 m =
     filled Format_Indexed8 m
       (\<lambda>y x. map_option (\<lambda>v. ucast (drop_bit 8 v)) (word_at (cm_data m) (y * (pd_step (cm_data m) div 2) + x)))"

definition from_16SC3 :: "PixelData CvMat \<Rightarrow> convert_exn + QImage" where
  "from_16SC3 m =
     filled Format_RGB32 m
       (\<lambda>y x. bgr_at (\<lambda>i. map_option scast (word_at (cm_data m) i)) (y * (pd_step (cm_data m) div 2) + 3 * x))"

definition from_32FC1 :: "(byte list \<Rightarrow> int) \<Rightarrow> PixelData CvMat \<Rightarrow> convert_exn + QImage" where
  "from_32FC1 fl m =
     filled Format_Indexed8 m
       (\<lambda>y x. map_option (\<lambda>v. word_of_int v AND 255) (float_at fl (cm_data m) (y * (pd_step (cm_data m) div 4) + x)))"

definition from_32FC3 :: "(byte list \<Rightarrow> int) \<Rightarrow> PixelData CvMat \<Rightarrow> convert_exn + QImage" where
  "from_32FC3 fl m =
     filled Format_RGB32 m
       (\<lambda>y x. bgr_at (\<lambda>i. map_option word_of_int (float_at fl (cm_data m) i)) (y * (pd_step (cm_data m) div 4) + 3 * x))"

lemmas from_defs = from_8UC1_def from_8UC3_def from_16UC1_def from_16UC3_def from_16SC1_def from_16SC3_def
  from_32FC1_def from_32FC3_def

text \<open>The \<open>case\<close> of \<open>CV_16S\<close> has no \<open>break\<close>: what it made is replaced by what the next case makes of the same data.\<close>

definition switchType :: "(byte list \<Rightarrow> int) \<Rightarrow> PixelData CvMat \<Rightarrow> convert_exn + QImage" where
  "switchType fl m =
     (let t = mat_type m in
      if t = CV_MAKETYPE CV_8U 1 then from_8UC1 m
      else if t = CV_MAKETYPE CV_8U 3 then from_8UC3 m
      else if t = CV_MAKETYPE CV_16U 1 then from_16UC1 m
      else if t = CV_MAKETYPE CV_16U 3 then from_16UC3 m
      else if t = CV_MAKETYPE CV_16S 1 then (case from_16SC1 m of Inl e \<Rightarrow> Inl e | Inr _ \<Rightarrow> from_16SC3 m)
      else if t = CV_MAKETYPE CV_16S 3 then from_16SC3 m
      else if t = CV_MAKETYPE CV_32F 1 then from_32FC1 fl m
      else if t = CV_MAKETYPE CV_32F 3 then from_32FC3 fl m
      else Inl (ImageConversionException (''Conversion not supported: depth '' @ depthToString (cm_depth m) @
             ''and number of channels is '' @ qs_number (cm_channels m))))"

definition cvMatToQImage :: "(byte list \<Rightarrow> int) \<Rightarrow> PixelData CvMat \<Rightarrow> convert_exn + QImage" where
  "cvMatToQImage fl m =
     map_sum id (\<lambda>q. if cm_channels m = 1 then q\<lparr>qi_colorTable := grey_table\<rparr> else q) (switchType fl m)"

text \<open>\<open>errorImage\<close> paints a message on white.\<close>

definition cvMatToQImageNoThrow ::
    "(int \<Rightarrow> int \<Rightarrow> string \<Rightarrow> QImage) \<Rightarrow> (byte list \<Rightarrow> int) \<Rightarrow> PixelData CvMat \<Rightarrow> convert_exn + QImage" where
  "cvMatToQImageNoThrow errorImage fl m =
     (case cvMatToQImage fl m of
        Inl (ImageConversionException msg) \<Rightarrow> Inr (errorImage (cm_cols m) (cm_rows m)
          (''plvgui::ImageConverter failed to convert cv::Mat to QImage with error: '' @ msg))
      | r \<Rightarrow> r)"

fun convertList ::
    "(int \<Rightarrow> int \<Rightarrow> string \<Rightarrow> QImage) \<Rightarrow> (byte list \<Rightarrow> int) \<Rightarrow> PixelData CvMat list \<Rightarrow> convert_exn + QImage list" where
  "convertList errorImage fl [] = Inr []"
| "convertList errorImage fl (m # ms) =
     (case cvMatToQImageNoThrow errorImage fl m of
        Inl e \<Rightarrow> Inl e | Inr q \<Rightarrow> map_sum id ((#) q) (convertList errorImage fl ms))"

section \<open>The viewer of images\<close>

text \<open>\<open>OpenCVImageRenderer::newData\<close>: the flag \<open>m_busy\<close>, and the image that is given to the converter.  The flag is
  set before the type of the value is looked at.\<close>

definition renderer_newData :: "bool \<Rightarrow> 'd pv \<Rightarrow> bool \<Rightarrow> 'd CvMat option \<times> bool" where
  "renderer_newData visible v busy =
     (if busy \<or> \<not> visible then (None, busy)
      else (case v of VMat m \<Rightarrow> (Some m, True) | _ \<Rightarrow> (None, True)))"

definition renderer_updateImage :: "bool \<Rightarrow> bool" where
  "renderer_updateImage busy = False"

lemma busy_after_other_value:
  "(\<And>m. v \<noteq> VMat m) \<Longrightarrow> renderer_newData True v False = (None, True)"
  "fst (renderer_newData visible v True) = None" "snd (renderer_newData visible v True)"
  by (auto simp: renderer_newData_def split: pv.split)

section \<open>What is shown\<close>

definition shown :: "QImage \<Rightarrow> nat \<Rightarrow> nat \<Rightarrow> u32" where
  "shown q y x =
     (let v = qi_scanlines q ! y ! x in
      case qi_format q of Format_RGB32 \<Rightarrow> v | Format_Indexed8 \<Rightarrow> qi_colorTable q ! unat v)"

text \<open>The byte \<open>k\<close> of channel \<open>c\<close> of the pixel at \<open>x\<close> of row \<open>y\<close>, in an image with \<open>sz\<close> bytes per value.\<close>

definition sample_byte :: "nat \<Rightarrow> PixelData CvMat \<Rightarrow> nat \<Rightarrow> nat \<Rightarrow> nat \<Rightarrow> nat \<Rightarrow> byte" where
  "sample_byte sz m k y x c =
     pd_bytes (cm_data m) ! (y * pd_step (cm_data m) + sz * (nat (cm_channels m) * x + c) + k)"

definition has_pixels :: "nat \<Rightarrow> PixelData CvMat \<Rightarrow> bool" where
  "has_pixels sz m \<longleftrightarrow> 0 \<le> cm_channels m \<and>
     (nat (cm_rows m) - 1) * pd_step (cm_data m) + sz * (nat (cm_channels m) * nat (cm_cols m))
       \<le> length (pd_bytes (cm_data m))"

lemma pixel_index:
  assumes "has_pixels sz m" "y < nat (cm_rows m)" "x < nat (cm_cols m)" "c < nat (cm_channels m)" "k < sz"
  shows "y * pd_step (cm_data m) + sz * (nat (cm_channels m) * x + c) + k < length (pd_bytes (cm_data m))"
proof -
  let ?ch = "nat (cm_channels m)"
  have "y * pd_step (cm_data m) \<le> (nat (cm_rows m) - 1) * pd_step (cm_data m)"
    using assms(2) by (intro mult_le_mono1) auto
  moreover have "sz * (?ch * x + c) + k < sz * (?ch * nat (cm_cols m))"
  proof -
    have "?ch * x + c < ?ch * nat (cm_cols m)"
    proof -
      have "?ch * x + c < ?ch * (x + 1)" using assms(4) by simp
      also have "\<dots> \<le> ?ch * nat (cm_cols m)" using assms(3) by (intro mult_le_mono2) auto
      finally show ?thesis .
    qed
    then have "sz * (?ch * x + c + 1) \<le> sz * (?ch * nat (cm_cols m))" by (intro mult_le_mono2) auto
    with assms(5) show ?thesis by simp
  qed
  moreover have "(nat (cm_rows m) - 1) * pd_step (cm_data m) + sz * (?ch * nat (cm_cols m)) \<le> length (pd_bytes (cm_data m))"
    using assms(1) by (simp only: has_pixels_def)
  ultimately show ?thesis by linarith
qed

lemma byte_at_pixel:
  assumes "has_pixels 1 m" "y < nat (cm_rows m)" "x < nat (cm_cols m)" "c < nat (cm_channels m)"
  shows "byte_at (cm_data m) (y * pd_step (cm_data m) + (nat (cm_channels m) * x + c)) = Some (sample_byte 1 m 0 y x c)"
  using pixel_index [OF assms, of 0] by (simp add: byte_at_def sample_byte_def add.assoc)

lemma word_at_pixel:
  assumes "has_pixels 2 m" "y < nat (cm_rows m)" "x < nat (cm_cols m)" "c < nat (cm_channels m)"
    and "even (pd_step (cm_data m))"
  shows "word_at (cm_data m) (y * (pd_step (cm_data m) div 2) + (nat (cm_channels m) * x + c)) =
    Some (le16 (sample_byte 2 m 0 y x c) (sample_byte 2 m 1 y x c))"
proof -
  have i: "2 * (y * (pd_step (cm_data m) div 2) + (nat (cm_channels m) * x + c)) =
      y * pd_step (cm_data m) + 2 * (nat (cm_channels m) * x + c)"
    using assms(5) by (auto elim!: evenE simp: algebra_simps)
  show ?thesis
    using pixel_index [OF assms(1-4), of 0] pixel_index [OF assms(1-4), of 1]
    unfolding word_at_def i by (simp add: byte_at_def sample_byte_def)
qed

lemma those_map_Some: "(\<And>x. x \<in> set xs \<Longrightarrow> f x = Some (g x)) \<Longrightarrow> those (map f xs) = Some (map g xs)"
  by (induction xs) auto

lemma those_map_None: "x \<in> set xs \<Longrightarrow> f x = None \<Longrightarrow> those (map f xs) = None"
  by (induction xs) (auto split: option.split)

lemma filled_all:
  assumes "\<And>y x. y < nat (cm_rows m) \<Longrightarrow> x < nat (cm_cols m) \<Longrightarrow> px y x = Some (v y x)"
  shows "\<exists>q. filled format m px = Inr q \<and> qi_format q = format \<and>
    (\<forall>y < nat (cm_rows m). \<forall>x < nat (cm_cols m). qi_scanlines q ! y ! x = v y x)"
proof -
  have "those (map (px y) [0..<nat (cm_cols m)]) = Some (map (v y) [0..<nat (cm_cols m)])" if "y < nat (cm_rows m)" for y
    using assms that by (intro those_map_Some) auto
  then have "scan (cm_rows m) (cm_cols m) px = Some (map (\<lambda>y. map (v y) [0..<nat (cm_cols m)]) [0..<nat (cm_rows m)])"
    unfolding scan_def by (intro those_map_Some [of _ "\<lambda>y. those (map (px y) [0..<nat (cm_cols m)])"]) auto
  then show ?thesis by (simp add: filled_def)
qed

lemma filled_out_of_bounds:
  assumes "y < nat (cm_rows m)" "x < nat (cm_cols m)" "px y x = None"
  shows "filled format m px = Inl OutOfBounds"
proof -
  have "those (map (px y) [0..<nat (cm_cols m)]) = None" 
    using assms(2,3) by (intro those_map_None [of x]) auto
  then have "scan (cm_rows m) (cm_cols m) px = None"
    unfolding scan_def using assms(1) by (intro those_map_None [of y _ "\<lambda>y. those (map (px y) [0..<nat (cm_cols m)])"]) auto
  then show ?thesis by (simp add: filled_def)
qed

lemma grey_table_nth: "i < 256 \<Longrightarrow> grey_table ! i = qRgb (of_nat i) (of_nat i) (of_nat i)"
  by (simp add: grey_table_def)

lemma grey_index: "grey_table ! unat (ucast (b :: byte) :: u32) = qRgb (ucast b) (ucast b) (ucast b)"
proof -
  have "unat (ucast b :: u32) = unat b" by transfer (simp add: take_bit_nat_def [symmetric] min_def)
  moreover have "unat b < 256" using unsigned_less [of b, where ?'a = nat] by simp
  ultimately show ?thesis by (simp add: grey_table_nth)
qed

lemma type_codes [simp]:
  "CV_MAKETYPE CV_8U 1 = 0" "CV_MAKETYPE CV_8U 3 = 16" "CV_MAKETYPE CV_16U 1 = 2" "CV_MAKETYPE CV_16U 3 = 18"
  "CV_MAKETYPE CV_16S 1 = 3" "CV_MAKETYPE CV_16S 3 = 19" "CV_MAKETYPE CV_32F 1 = 5" "CV_MAKETYPE CV_32F 3 = 21"
  by (simp_all add: CV_MAKETYPE_def CV_8U_def CV_16U_def CV_16S_def CV_32F_def)

lemma indexed_grey:
  assumes "cm_channels m = 1"
    and sw: "switchType fl m = filled Format_Indexed8 m px"
    and px: "\<And>y x. y < nat (cm_rows m) \<Longrightarrow> x < nat (cm_cols m) \<Longrightarrow> px y x = Some (ucast (v y x :: byte))"
    and at: "y < nat (cm_rows m)" "x < nat (cm_cols m)"
  shows "\<exists>q. cvMatToQImage fl m = Inr q \<and> shown q y x = qRgb (ucast (v y x)) (ucast (v y x)) (ucast (v y x))"
  using filled_all [of m px "\<lambda>y x. ucast (v y x)" Format_Indexed8, OF px] at assms(1)
  by (auto simp: cvMatToQImage_def sw shown_def Let_def grey_index)

lemma rgb_colour:
  assumes "cm_channels m = 3"
    and sw: "switchType fl m = filled Format_RGB32 m px"
    and px: "\<And>y x. y < nat (cm_rows m) \<Longrightarrow> x < nat (cm_cols m) \<Longrightarrow> px y x = Some (c y x)"
    and at: "y < nat (cm_rows m)" "x < nat (cm_cols m)"
  shows "\<exists>q. cvMatToQImage fl m = Inr q \<and> shown q y x = c y x"
  using filled_all [of m px c Format_RGB32, OF px] at assms(1)
  by (auto simp: cvMatToQImage_def sw shown_def)

lemma convert_8U1:
  assumes m: "cm_depth m = CV_8U" "cm_channels m = 1" "has_pixels 1 m"
    and at: "y < nat (cm_rows m)" "x < nat (cm_cols m)"
  shows "\<exists>q. cvMatToQImage fl m = Inr q \<and>
    shown q y x = qRgb (ucast (sample_byte 1 m 0 y x 0)) (ucast (sample_byte 1 m 0 y x 0)) (ucast (sample_byte 1 m 0 y x 0))"
proof (rule indexed_grey [OF m(2) _ _ at])
  show "switchType fl m = filled Format_Indexed8 m (\<lambda>y x. map_option ucast (byte_at (cm_data m) (y * pd_step (cm_data m) + x)))"
    using m by (simp add: switchType_def from_defs mat_type_def Let_def)
  show "map_option ucast (byte_at (cm_data m) (y * pd_step (cm_data m) + x)) = Some (ucast (sample_byte 1 m 0 y x 0) :: u32)"
    if "y < nat (cm_rows m)" "x < nat (cm_cols m)" for y x
    using byte_at_pixel [OF m(3) that, of 0] m(2) by simp
qed

lemma convert_8U3:
  assumes m: "cm_depth m = CV_8U" "cm_channels m = 3" "has_pixels 1 m"
    and at: "y < nat (cm_rows m)" "x < nat (cm_cols m)"
  shows "\<exists>q. cvMatToQImage fl m = Inr q \<and>
    shown q y x = qRgb (ucast (sample_byte 1 m 0 y x 2)) (ucast (sample_byte 1 m 0 y x 1)) (ucast (sample_byte 1 m 0 y x 0))"
proof (rule rgb_colour [OF m(2) _ _ at])
  show "switchType fl m = filled Format_RGB32 m
      (\<lambda>y x. bgr_at (\<lambda>i. map_option ucast (byte_at (cm_data m) i)) (y * pd_step (cm_data m) + 3 * x))"
    using m by (simp add: switchType_def from_defs mat_type_def Let_def)
  show "bgr_at (\<lambda>i. map_option ucast (byte_at (cm_data m) i)) (y * pd_step (cm_data m) + 3 * x) =
      Some (qRgb (ucast (sample_byte 1 m 0 y x 2)) (ucast (sample_byte 1 m 0 y x 1)) (ucast (sample_byte 1 m 0 y x 0)))"
    if "y < nat (cm_rows m)" "x < nat (cm_cols m)" for y x
    using byte_at_pixel [OF m(3) that, of 0] byte_at_pixel [OF m(3) that, of 1] byte_at_pixel [OF m(3) that, of 2] m(2)
    by (simp add: bgr_at_def numeral_2_eq_2)
qed

lemma high_byte: "ucast (drop_bit 8 (le16 a b)) = (ucast b :: u32)"
  unfolding le16_def by (rule bit_word_eqI) (auto simp: bit_simps dest: bit_imp_le_length)

lemma mask_byte: "(v :: u32) AND 255 = take_bit 8 v"
proof -
  have "(255 :: u32) = mask 8" by (simp add: mask_eq_exp_minus_1)
  then show ?thesis by (simp only: take_bit_eq_mask)
qed

lemma low_byte: "ucast (le16 a b) AND 255 = (ucast a AND 255 :: u32)"
  unfolding mask_byte le16_def by (rule bit_word_eqI) (auto simp: bit_simps dest: bit_imp_le_length)

lemma qRgb_low: "qRgb (ucast (le16 r r')) (ucast (le16 g g')) (ucast (le16 b b')) = qRgb (ucast r) (ucast g) (ucast b)"
  by (simp only: qRgb_def low_byte)

lemma convert_16U1:
  assumes m: "cm_depth m = CV_16U" "cm_channels m = 1" "has_pixels 2 m" "even (pd_step (cm_data m))"
    and at: "y < nat (cm_rows m)" "x < nat (cm_cols m)"
  shows "\<exists>q. cvMatToQImage fl m = Inr q \<and>
    shown q y x = qRgb (ucast (sample_byte 2 m 1 y x 0)) (ucast (sample_byte 2 m 1 y x 0)) (ucast (sample_byte 2 m 1 y x 0))"
proof (rule indexed_grey [OF m(2) _ _ at])
  show "switchType fl m = filled Format_Indexed8 m
      (\<lambda>y x. map_option (\<lambda>v. ucast (drop_bit 8 v)) (word_at (cm_data m) (y * (pd_step (cm_data m) div 2) + x)))"
    using m by (simp add: switchType_def from_defs mat_type_def Let_def)
  show "map_option (\<lambda>v. ucast (drop_bit 8 v)) (word_at (cm_data m) (y * (pd_step (cm_data m) div 2) + x)) =
      Some (ucast (sample_byte 2 m 1 y x 0) :: u32)"
    if "y < nat (cm_rows m)" "x < nat (cm_cols m)" for y x
    using word_at_pixel [OF m(3) that _ m(4), of 0] m(2) by (simp add: high_byte)
qed

lemma convert_16U3:
  assumes m: "cm_depth m = CV_16U" "cm_channels m = 3" "has_pixels 2 m" "even (pd_step (cm_data m))"
    and at: "y < nat (cm_rows m)" "x < nat (cm_cols m)"
  shows "\<exists>q. cvMatToQImage fl m = Inr q \<and>
    shown q y x = qRgb (ucast (sample_byte 2 m 0 y x 2)) (ucast (sample_byte 2 m 0 y x 1)) (ucast (sample_byte 2 m 0 y x 0))"
proof (rule rgb_colour [OF m(2) _ _ at])
  show "switchType fl m = filled Format_RGB32 m
      (\<lambda>y x. bgr_at (\<lambda>i. map_option ucast (word_at (cm_data m) i)) (y * (pd_step (cm_data m) div 2) + 3 * x))"
    using m by (simp add: switchType_def from_defs mat_type_def Let_def)
  show "bgr_at (\<lambda>i. map_option ucast (word_at (cm_data m) i)) (y * (pd_step (cm_data m) div 2) + 3 * x) =
      Some (qRgb (ucast (sample_byte 2 m 0 y x 2)) (ucast (sample_byte 2 m 0 y x 1)) (ucast (sample_byte 2 m 0 y x 0)))"
    if "y < nat (cm_rows m)" "x < nat (cm_cols m)" for y x
    using word_at_pixel [OF m(3) that _ m(4), of 0] word_at_pixel [OF m(3) that _ m(4), of 1]
      word_at_pixel [OF m(3) that _ m(4), of 2] m(2)
    by (simp add: bgr_at_def numeral_2_eq_2 qRgb_low)
qed

text \<open>The missing \<open>break\<close>: an image of one channel of 16 bit signed values whose rows follow each other without a gap is
  read beyond its memory.\<close>

lemma convert_16S1_reads_beyond:
  assumes m: "cm_depth m = CV_16S" "cm_channels m = 1" "0 < cm_rows m" "0 < cm_cols m"
    and mem: "pd_step (cm_data m) = 2 * nat (cm_cols m)"
      "length (pd_bytes (cm_data m)) = nat (cm_rows m) * pd_step (cm_data m)"
  shows "cvMatToQImage fl m = Inl OutOfBounds"
proof -
  let ?r = "nat (cm_rows m)" and ?c = "nat (cm_cols m)"
  let ?px = "\<lambda>y x. bgr_at (\<lambda>i. map_option scast (word_at (cm_data m) i)) (y * (pd_step (cm_data m) div 2) + 3 * x)"
  have "?r * ?c \<le> (?r - 1) * ?c + 3 * (?c - 1) + 2"
    using m(3,4) by (cases ?r) auto
  then have "word_at (cm_data m) ((?r - 1) * (pd_step (cm_data m) div 2) + 3 * (?c - 1) + 2) = None"
    using mem by (simp add: word_at_def byte_at_def)
  then have px: "?px (?r - 1) (?c - 1) = None" by (simp add: bgr_at_def split: option.split)
  have "filled Format_RGB32 m ?px = Inl OutOfBounds"
    by (rule filled_out_of_bounds [where y = "?r - 1" and x = "?c - 1"]) (use px m(3,4) in auto)
  with m(1,2) have "switchType fl m = Inl OutOfBounds"
    by (auto simp: switchType_def from_defs mat_type_def Let_def filled_def split: option.split sum.split)
  then show ?thesis by (simp add: cvMatToQImage_def)
qed

end
