(* ===== verification/Kinect_Thread.thy ===== *)
theory Kinect_Thread
  imports Plv_Prelude
begin

text \<open>
  \<open>mskinectdevice.cpp\<close>: the states of a Kinect, its thread and the calls of \<open>MSKinectProducer\<close>.  The steps of the two
  threads interleave.  Whether the device opens, and which of the three events wakes the thread, is left open.
\<close>

section \<open>State\<close>

datatype KinectState = KINECT_UNINITIALIZED | KINECT_INITIALIZED | KINECT_RUNNING | KINECT_STOP_REQUESTED

text \<open>Where the thread is: not running; before \<open>setState(KINECT_RUNNING)\<close>; in \<open>WaitForMultipleObjects\<close>; at the handling
  of an event; before \<open>setState(KINECT_INITIALIZED)\<close>.\<close>

datatype kinect_pc = KinectOff | KinectBegin | KinectLoop | KinectAlert | KinectEnd

datatype kinect_call = KinectIdle | StopWait

record KinectDevice =
  kd_state :: KinectState
  kd_instance :: bool
  kd_run :: kinect_pc
  kd_call :: kinect_call

definition KinectDevice_new :: KinectDevice where
  "KinectDevice_new = \<lparr>kd_state = KINECT_UNINITIALIZED, kd_instance = False, kd_run = KinectOff, kd_call = KinectIdle\<rparr>"

section \<open>The methods\<close>

text \<open>\<open>zero()\<close> sets the members to their defaults; \<open>created\<close> and \<open>opened\<close> tell whether the instance is made and whether
  all that comes after that succeeds.\<close>

definition kd_zero :: "KinectDevice \<Rightarrow> KinectDevice" where
  "kd_zero k = k\<lparr>kd_state := KINECT_UNINITIALIZED, kd_instance := False\<rparr>"

definition kd_init :: "bool \<Rightarrow> bool \<Rightarrow> KinectDevice \<Rightarrow> plv_exn + bool \<times> KinectDevice" where
  "kd_init created opened k =
     (if kd_state k \<noteq> KINECT_UNINITIALIZED then Inl AssertFailed
      else let k1 = kd_zero k in
        if \<not> created then Inr (False, k1)
        else let k2 = k1\<lparr>kd_instance := True\<rparr> in
          if \<not> opened then Inr (False, k2) else Inr (True, k2\<lparr>kd_state := KINECT_INITIALIZED\<rparr>))"

text \<open>\<open>deinit\<close> gives the instance back but keeps the pointer to it, so that a second call gives it back again.\<close>

definition kd_deinit :: "KinectDevice \<Rightarrow> bool \<times> KinectDevice" where
  "kd_deinit k = (True, k\<lparr>kd_state := KINECT_UNINITIALIZED\<rparr>)"

definition kd_start :: "KinectDevice \<Rightarrow> KinectDevice" where
  "kd_start k =
     (case kd_state k of
        KINECT_INITIALIZED \<Rightarrow> if kd_run k = KinectOff then k\<lparr>kd_run := KinectBegin\<rparr> else k
      | _ \<Rightarrow> k)"

text \<open>\<open>stop\<close>: the whole call, or up to the call of \<open>QThread::wait\<close>.\<close>

definition kd_stop :: "KinectDevice \<Rightarrow> KinectDevice" where
  "kd_stop k =
     (case kd_state k of
        KINECT_RUNNING \<Rightarrow> k\<lparr>kd_state := KINECT_STOP_REQUESTED, kd_call := StopWait\<rparr>
      | _ \<Rightarrow> k)"

section \<open>Steps\<close>

inductive kinect_run :: "KinectDevice \<Rightarrow> KinectDevice \<Rightarrow> bool" where
  running: "kd_run k = KinectBegin \<Longrightarrow> kinect_run k (k\<lparr>kd_state := KINECT_RUNNING, kd_run := KinectLoop\<rparr>)"
| woken: "kd_run k = KinectLoop \<Longrightarrow>
    kinect_run k (k\<lparr>kd_run := if kd_state k = KINECT_STOP_REQUESTED then KinectEnd else KinectAlert\<rparr>)"
| alert: "kd_run k = KinectAlert \<Longrightarrow> kinect_run k (k\<lparr>kd_run := KinectLoop\<rparr>)"
| ended: "kd_run k = KinectEnd \<Longrightarrow> kinect_run k (k\<lparr>kd_state := KINECT_INITIALIZED, kd_run := KinectOff\<rparr>)"

text \<open>The calls: \<open>MSKinectProducer\<close> initialises before it starts, and deinitialises after it has stopped.\<close>

inductive kinect_caller :: "KinectDevice \<Rightarrow> KinectDevice \<Rightarrow> bool" where
  init: "kd_call k = KinectIdle \<Longrightarrow> kd_init created opened k = Inr (b, k') \<Longrightarrow> kinect_caller k k'"
| start: "kd_call k = KinectIdle \<Longrightarrow> kinect_caller k (kd_start k)"
| stop: "kd_call k = KinectIdle \<Longrightarrow> kinect_caller k (kd_stop k)"
| stopped: "kd_call k = StopWait \<Longrightarrow> kd_run k = KinectOff \<Longrightarrow> kinect_caller k (k\<lparr>kd_call := KinectIdle\<rparr>)"
| deinit: "kd_call k = KinectIdle \<Longrightarrow> kinect_caller k (snd (kd_deinit k))"

definition kinect_step :: "KinectDevice \<Rightarrow> KinectDevice \<Rightarrow> bool" where
  "kinect_step k k' \<longleftrightarrow> kinect_run k k' \<or> kinect_caller k k'"

definition kinect_reachable :: "KinectDevice \<Rightarrow> bool" where
  "kinect_reachable k \<longleftrightarrow> kinect_step\<^sup>*\<^sup>* KinectDevice_new k"

inductive_cases kinect_runE: "kinect_run k k'"
inductive_cases kinect_callerE: "kinect_caller k k'"

section \<open>Stopping\<close>

text \<open>While no \<open>stop\<close> waits nobody has asked the thread to stop; while one waits the thread was asked, or has ended.\<close>

definition kinect_inv :: "KinectDevice \<Rightarrow> bool" where
  "kinect_inv k \<longleftrightarrow>
     (kd_call k = KinectIdle \<longrightarrow> kd_state k \<noteq> KINECT_STOP_REQUESTED \<and> kd_run k \<noteq> KinectEnd) \<and>
     (kd_call k = StopWait \<longrightarrow> kd_run k = KinectOff \<or>
        kd_state k = KINECT_STOP_REQUESTED \<and> kd_run k \<noteq> KinectBegin) \<and>
     (kd_state k = KINECT_RUNNING \<longrightarrow> kd_run k = KinectLoop \<or> kd_run k = KinectAlert) \<and>
     (kd_run k = KinectOff \<longrightarrow> kd_state k \<noteq> KINECT_STOP_REQUESTED)"

lemma kinect_inv_new: "kinect_inv KinectDevice_new"
  by (simp add: kinect_inv_def KinectDevice_new_def)

lemma kinect_run_inv: "kinect_run k k' \<Longrightarrow> kinect_inv k \<Longrightarrow> kinect_inv k'"
  by (erule kinect_runE) (auto simp: kinect_inv_def)

lemma kinect_caller_inv: "kinect_caller k k' \<Longrightarrow> kinect_inv k \<Longrightarrow> kinect_inv k'"
  by (erule kinect_callerE)
    (auto simp: kinect_inv_def kd_init_def kd_zero_def kd_start_def kd_stop_def kd_deinit_def Let_def
      split: KinectState.splits if_splits)

lemma kinect_reachable_inv: "kinect_reachable k \<Longrightarrow> kinect_inv k"
  unfolding kinect_reachable_def
  by (induction rule: rtranclp_induct)
    (auto simp: kinect_inv_new kinect_step_def intro: kinect_run_inv kinect_caller_inv)

definition stop_can_return :: "KinectDevice \<Rightarrow> bool" where
  "stop_can_return k \<longleftrightarrow> (\<exists>k'. kinect_step\<^sup>*\<^sup>* k k' \<and> kd_call k' = KinectIdle \<and> kd_run k' = KinectOff)"

lemma stop_can_return_step: "kinect_run k k1 \<Longrightarrow> stop_can_return k1 \<Longrightarrow> stop_can_return k"
  unfolding stop_can_return_def by (meson converse_rtranclp_into_rtranclp kinect_step_def)

lemma stop_returns:
  assumes "kinect_inv k" "kd_call k = StopWait"
  shows "stop_can_return k"
proof -
  have off: "stop_can_return k" if "kd_call k = StopWait" "kd_run k = KinectOff" for k
  proof -
    have "kinect_step k (k\<lparr>kd_call := KinectIdle\<rparr>)" using kinect_caller.stopped [OF that] by (simp add: kinect_step_def)
    with that(2) show ?thesis unfolding stop_can_return_def by (intro exI [of _ "k\<lparr>kd_call := KinectIdle\<rparr>"]) auto
  qed
  have ending: "stop_can_return k" if "kd_call k = StopWait" "kd_run k = KinectEnd" for k
    by (rule stop_can_return_step [OF kinect_run.ended [OF that(2)] off]) (use that in simp_all)
  have loop: "stop_can_return k"
    if "kd_call k = StopWait" "kd_run k = KinectLoop" "kd_state k = KINECT_STOP_REQUESTED" for k
    by (rule stop_can_return_step [OF kinect_run.woken [OF that(2)] ending]) (use that in simp_all)
  have alert: "stop_can_return k"
    if "kd_call k = StopWait" "kd_run k = KinectAlert" "kd_state k = KINECT_STOP_REQUESTED" for k
    by (rule stop_can_return_step [OF kinect_run.alert [OF that(2)] loop]) (use that in simp_all)
  show ?thesis
    using off [OF assms(2)] ending [OF assms(2)] loop [OF assms(2)] alert [OF assms(2)] assms
    by (cases "kd_run k") (auto simp: kinect_inv_def)
qed

text \<open>A \<open>stop\<close> that comes before the thread has set its state does nothing, and no one stops the thread afterwards.\<close>

definition kinect_starting :: KinectDevice where
  "kinect_starting =
     \<lparr>kd_state = KINECT_INITIALIZED, kd_instance = True, kd_run = KinectBegin, kd_call = KinectIdle\<rparr>"

lemma kinect_starting_reachable: "kinect_reachable kinect_starting"
proof -
  let ?k = "\<lparr>kd_state = KINECT_INITIALIZED, kd_instance = True, kd_run = KinectOff, kd_call = KinectIdle\<rparr>"
  have "kinect_step KinectDevice_new ?k"
    unfolding kinect_step_def
    by (rule disjI2, rule kinect_caller.init [of _ True True True])
      (simp_all add: kd_init_def kd_zero_def KinectDevice_new_def Let_def)
  moreover have "kinect_step ?k kinect_starting"
    unfolding kinect_step_def using kinect_caller.start [of ?k] by (simp add: kd_start_def kinect_starting_def)
  ultimately show ?thesis
    unfolding kinect_reachable_def by (meson converse_rtranclp_into_rtranclp rtranclp.rtrancl_refl)
qed

lemma lost_stop:
  assumes "kinect_run\<^sup>*\<^sup>* k k'" "kd_run k \<noteq> KinectOff" "kd_run k \<noteq> KinectEnd" "kd_state k \<noteq> KINECT_STOP_REQUESTED"
  shows "kd_run k' \<noteq> KinectOff \<and> kd_run k' \<noteq> KinectEnd \<and> kd_state k' \<noteq> KINECT_STOP_REQUESTED"
  using assms by (induction rule: rtranclp_induct) (auto elim!: kinect_runE)

section \<open>All devices of a producer\<close>

text \<open>\<open>MSKinectProducer::init\<close>: \<open>ready\<close> are the devices before the index of the loop.  When one fails those are
  deinitialised; the one that failed is not.\<close>

fun initKinects ::
    "KinectDevice list \<Rightarrow> (KinectDevice \<times> bool \<times> bool) list \<Rightarrow> plv_exn + bool \<times> KinectDevice list" where
  "initKinects ready [] = Inr (True, ready)"
| "initKinects ready ((k, created, opened) # ks) =
     (case kd_init created opened k of
        Inl e \<Rightarrow> Inl e
      | Inr (ok, k') \<Rightarrow>
          if ok then initKinects (ready @ [k']) ks
          else Inr (False, map (\<lambda>d. snd (kd_deinit d)) ready @ k' # map fst ks))"

definition deinitKinects :: "KinectDevice list \<Rightarrow> bool \<times> KinectDevice list" where
  "deinitKinects ks = (True, map (\<lambda>k. snd (kd_deinit k)) ks)"

definition startKinects :: "KinectDevice list \<Rightarrow> bool \<times> KinectDevice list" where
  "startKinects ks = (True, map kd_start ks)"

lemma kd_init_result:
  assumes "kd_state k = KINECT_UNINITIALIZED"
  obtains k' where "kd_init created opened k = Inr (created \<and> opened, k')"
    "kd_state k' = (if created \<and> opened then KINECT_INITIALIZED else KINECT_UNINITIALIZED)"
  using assms by (cases created; cases opened) (auto simp: kd_init_def kd_zero_def Let_def)

definition all_open :: "(KinectDevice \<times> bool \<times> bool) list \<Rightarrow> bool" where
  "all_open ks \<longleftrightarrow> list_all (\<lambda>(k, created, opened). created \<and> opened) ks"

lemma init_all_or_none:
  assumes "\<forall>x \<in> set ks. kd_state (fst x) = KINECT_UNINITIALIZED" "\<forall>k \<in> set ready. kd_state k = KINECT_INITIALIZED"
  shows "\<exists>ks'. initKinects ready ks = Inr (all_open ks, ks') \<and> length ks' = length ready + length ks \<and>
    (\<forall>k \<in> set ks'. kd_state k = (if all_open ks then KINECT_INITIALIZED else KINECT_UNINITIALIZED))"
  using assms
proof (induction ks arbitrary: ready)
  case Nil
  then show ?case by (simp add: all_open_def)
next
  case (Cons x ks)
  obtain k created opened where x: "x = (k, created, opened)" by (cases x)
  obtain k' where k': "kd_init created opened k = Inr (created \<and> opened, k')"
      "kd_state k' = (if created \<and> opened then KINECT_INITIALIZED else KINECT_UNINITIALIZED)"
    using kd_init_result [of k created opened] Cons.prems(1) by (auto simp: x)
  show ?case
  proof (cases "created \<and> opened")
    case True
    then have all: "all_open (x # ks) = all_open ks" by (simp add: all_open_def x)
    have "initKinects ready (x # ks) = initKinects (ready @ [k']) ks" using True k'(1) by (simp add: x)
    moreover have "\<forall>k \<in> set (ready @ [k']). kd_state k = KINECT_INITIALIZED"
      using True k'(2) Cons.prems(2) by simp
    ultimately show ?thesis
      using Cons.IH [of "ready @ [k']"] Cons.prems(1) unfolding all by simp
  next
    case False
    then have "\<not> all_open (x # ks)" by (auto simp: all_open_def x)
    moreover have "initKinects ready (x # ks) =
        Inr (False, map (\<lambda>d. snd (kd_deinit d)) ready @ k' # map fst ks)"
      using False k'(1) by (auto simp: x)
    ultimately show ?thesis
      using k'(2) False Cons.prems(1) by (auto simp: kd_deinit_def)
  qed
qed

end
