(* ===== verification/Kinect_Frames.thy ===== *)
theory Kinect_Frames
  imports Image_Stitch Kinect_Thread
begin

unbundle bit_operations_syntax

text \<open>
  What comes out of a Kinect: the images that \<open>mskinectdevice.cpp\<close> makes of the frames of the driver, the producer that
  puts them (\<open>mskinectproducer.cpp\<close>) and the processor that keeps a range of depths (\<open>kinectthreshold.cpp\<close>).
\<close>

section \<open>Frames of the driver\<close>

datatype nui_type = NUI_IMAGE_TYPE_DEPTH | NUI_IMAGE_TYPE_DEPTH_AND_PLAYER_INDEX | NUI_IMAGE_TYPE_OTHER

record RGBQUAD =
  rgbBlue :: "8 word"
  rgbGreen :: "8 word"
  rgbRed :: "8 word"

text \<open>A frame of the driver; \<open>nf_bits\<close> is the memory from \<open>LockedRect.pBits\<close> on, in units of a pixel.\<close>

record 'p nui_frame =
  nf_small :: bool
  nf_type :: nui_type
  nf_pitch :: int
  nf_bits :: "nat \<Rightarrow> 'p"

type_synonym quad_image = "(int \<times> int \<Rightarrow> RGBQUAD) CvMat"

text \<open>What an alert does: nothing, a signal with an image, or a read through a null pointer.\<close>

datatype alert = NoFrame | NewDepthFrame word_image | NewPlayerFrame quad_image | NewVideoFrame quad_image
  | NewEmptyFrame | NullPointerRead

section \<open>Colours of players\<close>

text \<open>\<open>BYTE\<close> arithmetic is done in \<open>int\<close>, and stored modulo 256.\<close>

definition depth_intensity :: "16 word \<Rightarrow> int" where
  "depth_intensity RealDepth = (255 - (256 * uint RealDepth div 0x0fff) mod 256) mod 256"

definition quad :: "int \<Rightarrow> int \<Rightarrow> int \<Rightarrow> RGBQUAD" where
  "quad r g b = \<lparr>rgbBlue = word_of_int b, rgbGreen = word_of_int g, rgbRed = word_of_int r\<rparr>"

definition Nui_ShortToQuad_DepthAndPlayerIndex :: "16 word \<Rightarrow> RGBQUAD" where
  "Nui_ShortToQuad_DepthAndPlayerIndex s =
     (let RealDepth = drop_bit 3 (s AND 0xfff8); Player = uint (s AND 7); l = depth_intensity RealDepth in
      if Player = 0 then quad (l div 2) (l div 2) (l div 2)
      else if Player = 1 then quad l 0 0
      else if Player = 2 then quad 0 l 0
      else if Player = 3 then quad (l div 4) l l
      else if Player = 4 then quad l l (l div 4)
      else if Player = 5 then quad l (l div 4) l
      else if Player = 6 then quad (l div 2) (l div 2) l
      else if Player = 7 then quad (255 - l div 2) (255 - l div 2) (255 - l div 2)
      else quad 0 0 0)"

section \<open>Alerts\<close>

text \<open>The loops over the pixels; \<open>pBufferRun\<close> moves on by one per pixel.\<close>

definition pixels :: "int \<Rightarrow> int \<Rightarrow> ('p \<Rightarrow> 'q) \<Rightarrow> (nat \<Rightarrow> 'p) \<Rightarrow> int \<times> int \<Rightarrow> 'q" where
  "pixels width height f bits = (\<lambda>(y, x). f (bits (nat (y * width + x))))"

definition depth_image :: "int \<Rightarrow> int \<Rightarrow> (nat \<Rightarrow> 16 word) \<Rightarrow> word_image" where
  "depth_image width height bits =
     \<lparr>cm_rows = height, cm_cols = width, cm_depth = CV_16U, cm_channels = 1,
      cm_data = pixels width height (push_bit 4) bits\<rparr>"

definition player_image :: "int \<Rightarrow> int \<Rightarrow> (nat \<Rightarrow> 16 word) \<Rightarrow> quad_image" where
  "player_image width height bits =
     \<lparr>cm_rows = height, cm_cols = width, cm_depth = CV_8U, cm_channels = 3,
      cm_data = pixels width height Nui_ShortToQuad_DepthAndPlayerIndex bits\<rparr>"

text \<open>\<open>None\<close>: the driver had no frame.  With a pitch of 0 the pointer stays null, and is read all the same.\<close>

definition Nui_GotDepthAlert :: "16 word nui_frame option \<Rightarrow> alert" where
  "Nui_GotDepthAlert f =
     (case f of
        None \<Rightarrow> NoFrame
      | Some fr \<Rightarrow>
          (let width = (if nf_small fr then 320 else 640); height = (if nf_small fr then 240 else 480) in
           if nf_type fr = NUI_IMAGE_TYPE_DEPTH then
             (if nf_pitch fr \<noteq> 0 then NewDepthFrame (depth_image width height (nf_bits fr)) else NullPointerRead)
           else if nf_type fr = NUI_IMAGE_TYPE_DEPTH_AND_PLAYER_INDEX then
             (if nf_pitch fr \<noteq> 0 then NewPlayerFrame (player_image width height (nf_bits fr)) else NullPointerRead)
           else NewEmptyFrame))"

text \<open>The video alert looks at the pitch before it reads; \<open>create(640, 480, CV_8UC3)\<close>.\<close>

definition Nui_GotVideoAlert :: "RGBQUAD nui_frame option \<Rightarrow> alert" where
  "Nui_GotVideoAlert f =
     (case f of
        None \<Rightarrow> NoFrame
      | Some fr \<Rightarrow>
          if nf_pitch fr \<noteq> 0 then
            NewVideoFrame \<lparr>cm_rows = 480, cm_cols = 640, cm_depth = CV_8U, cm_channels = 3,
                           cm_data = pixels 640 480 (\<lambda>quad. quad) (nf_bits fr)\<rparr>
          else NoFrame)"

text \<open>The frame of the skeletons is given on when one of them is tracked, after the driver has smoothed it.\<close>

record 'k SkeletonFrame =
  sf_frame :: 'k
  sf_valid :: bool

definition Nui_GotSkeletonAlert ::
    "('k \<Rightarrow> bool list) \<Rightarrow> ('k \<Rightarrow> 'k) \<Rightarrow> 'k option \<Rightarrow> 'k SkeletonFrame option" where
  "Nui_GotSkeletonAlert tracked smooth f =
     (case f of
        None \<Rightarrow> None
      | Some fr \<Rightarrow> if list_ex id (tracked fr) then Some \<lparr>sf_frame = smooth fr, sf_valid = True\<rparr> else None)"

section \<open>The producer\<close>

datatype ('d, 'k) kinect_value = KMat "'d CvMat" | KSkeleton "'k SkeletonFrame"

record ('d, 'k) MSKinectProducer =
  mk_depthFrames :: "'d CvMat list"
  mk_videoFrames :: "'d CvMat list"
  mk_skeletonFrames :: "'k SkeletonFrame list"

text \<open>The slots; an index beyond the devices is an assertion.\<close>

definition newDepthFrame ::
    "nat \<Rightarrow> 'd CvMat \<Rightarrow> ('d, 'k) MSKinectProducer \<Rightarrow> plv_exn + ('d, 'k) MSKinectProducer" where
  "newDepthFrame i m k =
     (if \<not> i < length (mk_depthFrames k) then Inl AssertFailed
      else Inr (k\<lparr>mk_depthFrames := (mk_depthFrames k)[i := m]\<rparr>))"

definition newVideoFrame ::
    "nat \<Rightarrow> 'd CvMat \<Rightarrow> ('d, 'k) MSKinectProducer \<Rightarrow> plv_exn + ('d, 'k) MSKinectProducer" where
  "newVideoFrame i m k =
     (if \<not> i < length (mk_videoFrames k) then Inl AssertFailed
      else Inr (k\<lparr>mk_videoFrames := (mk_videoFrames k)[i := m]\<rparr>))"

definition newSkeletonFrame ::
    "nat \<Rightarrow> 'k SkeletonFrame \<Rightarrow> ('d, 'k) MSKinectProducer \<Rightarrow> plv_exn + ('d, 'k) MSKinectProducer" where
  "newSkeletonFrame i f k =
     (if \<not> i < length (mk_skeletonFrames k) then Inl AssertFailed
      else Inr (k\<lparr>mk_skeletonFrames := (mk_skeletonFrames k)[i := f]\<rparr>))"

text \<open>The loop of \<open>readyToProduce\<close> over the devices, which all three vectors have one entry for.\<close>

definition mk_readyToProduce :: "('d, 'k) MSKinectProducer \<Rightarrow> bool" where
  "mk_readyToProduce k = list_all2 (\<lambda>d v. mat_isValid d \<and> mat_isValid v) (mk_depthFrames k) (mk_videoFrames k)"

text \<open>The pins of a device: depth, video and skeletons.  \<open>cv::Mat()\<close> has no rows and no columns; what its contents are
  is not looked at.\<close>

type_synonym kinect_pins = "ref \<times> ref \<times> ref"

definition no_mat :: "'d \<Rightarrow> 'd CvMat" where
  "no_mat d = \<lparr>cm_rows = 0, cm_cols = 0, cm_depth = CV_8U, cm_channels = 1, cm_data = d\<rparr>"

definition produce_device ::
    "'d \<Rightarrow> 'k \<Rightarrow> nat \<Rightarrow> kinect_pins \<Rightarrow> (('d, 'k) kinect_value, ('d, 'k) MSKinectProducer, unit) proc" where
  "produce_device nd nk i pins =
     (case pins of (depthPin, videoPin, skeletonPin) \<Rightarrow>
        bindP (getP (\<lambda>k. mk_depthFrames k ! i)) (\<lambda>d.
        seqP (putP depthPin (KMat d))
       (bindP (getP (\<lambda>k. mk_videoFrames k ! i)) (\<lambda>v.
        seqP (putP videoPin (KMat v))
       (seqP (modifyP (\<lambda>k. k\<lparr>mk_depthFrames := (mk_depthFrames k)[i := no_mat nd]\<rparr>))
       (seqP (modifyP (\<lambda>k. k\<lparr>mk_videoFrames := (mk_videoFrames k)[i := no_mat nd]\<rparr>))
       (bindP (getP (\<lambda>k. mk_skeletonFrames k ! i)) (\<lambda>f.
          if sf_valid f then
            seqP (putP skeletonPin (KSkeleton f))
                 (modifyP (\<lambda>k. k\<lparr>mk_skeletonFrames :=
                    (mk_skeletonFrames k)[i := \<lparr>sf_frame = nk, sf_valid = False\<rparr>]\<rparr>))
          else retP ()))))))))"

fun produce_devices ::
    "'d \<Rightarrow> 'k \<Rightarrow> nat \<Rightarrow> kinect_pins list \<Rightarrow> (('d, 'k) kinect_value, ('d, 'k) MSKinectProducer, bool) proc" where
  "produce_devices nd nk i [] = retP True"
| "produce_devices nd nk i (p # ps) = seqP (produce_device nd nk i p) (produce_devices nd nk (i + 1) ps)"

definition mk_produce ::
    "'d \<Rightarrow> 'k \<Rightarrow> kinect_pins list \<Rightarrow> (('d, 'k) kinect_value, ('d, 'k) MSKinectProducer, bool) proc" where
  "mk_produce nd nk pins = produce_devices nd nk 0 pins"

section \<open>A range of depths\<close>

record KinectThreshold =
  kt_threshold :: int
  kt_maxValue :: int

definition KinectThreshold_new :: KinectThreshold where
  "KinectThreshold_new = \<lparr>kt_threshold = 0, kt_maxValue = 5000\<rparr>"

definition kt_setThreshold :: "int \<Rightarrow> KinectThreshold \<Rightarrow> KinectThreshold" where
  "kt_setThreshold d k = k\<lparr>kt_threshold := d\<rparr>"

definition kt_setMaxValue :: "int \<Rightarrow> KinectThreshold \<Rightarrow> KinectThreshold" where
  "kt_setMaxValue d k = k\<lparr>kt_maxValue := d\<rparr>"

text \<open>A pixel is compared as an \<open>unsigned int\<close>.\<close>

definition kt_pixel :: "KinectThreshold \<Rightarrow> 16 word \<Rightarrow> 16 word" where
  "kt_pixel k v =
     (let threshold = push_bit 4 (word_of_int (kt_threshold k) :: u32);
          maxValue = push_bit 4 (word_of_int (kt_maxValue k) :: u32)
      in if ucast v \<ge> threshold then (if ucast v > maxValue then 0 else v) else 0)"

definition KinectThreshold_process ::
    "(CvMatDataProperties \<Rightarrow> int \<times> int \<Rightarrow> 16 word) \<Rightarrow> CvPin \<Rightarrow> CvPin \<Rightarrow>
     ((int \<times> int \<Rightarrow> 16 word) pv, KinectThreshold, bool) proc" where
  "KinectThreshold_process mem inputPin outputPin =
     bindP (getMat inputPin) (\<lambda>src.
     bindP (liftP (mat_create mem (mat_properties src))) (\<lambda>dst.
     bindP (getP kt_pixel) (\<lambda>px.
     seqP (putMat outputPin (dst\<lparr>cm_data := (\<lambda>p. px (cm_data src p))\<rparr>)) (retP True))))"

section \<open>The range that is kept\<close>

lemma uint_shift_4: "uint (push_bit 4 (w :: 'a::len word)) = (uint w * 16) mod 2 ^ LENGTH('a)"
proof -
  have "uint (push_bit 4 w) = take_bit LENGTH('a) (push_bit 4 (uint w))" by (rule unsigned_push_bit_eq)
  also have "\<dots> = (uint w * 2 ^ 4) mod 2 ^ LENGTH('a)" by (simp only: take_bit_eq_mod push_bit_eq_mult)
  finally show ?thesis by simp
qed

lemma depth_bits: "unat (d :: 16 word) < 4096 \<Longrightarrow> uint (push_bit 4 d) = 16 * uint d"
proof -
  assume "unat d < 4096"
  then have "uint d < 4096" unfolding uint_nat by linarith
  then show ?thesis unfolding uint_shift_4 by simp
qed

lemma limit_bits: "uint (push_bit 4 (word_of_int t :: u32)) = (16 * t) mod 2 ^ 32"
  unfolding uint_shift_4 uint_word_of_int by (simp add: mod_mult_left_eq mod_mult_right_eq mult.commute [of t])

lemma uint_ucast_16: "uint (ucast (v :: 16 word) :: u32) = uint v"
  by (rule uint_up_ucast) (simp add: is_up)

lemma kt_pixel_range:
  assumes "unat d < 4096" "0 \<le> kt_threshold k" "kt_threshold k < 2 ^ 28" "0 \<le> kt_maxValue k" "kt_maxValue k < 2 ^ 28"
  shows "kt_pixel k (push_bit 4 d) =
    (if kt_threshold k \<le> uint d \<and> uint d \<le> kt_maxValue k then push_bit 4 d else 0)"
  using assms depth_bits [OF assms(1)]
  by (simp only: kt_pixel_def Let_def word_le_def word_less_def uint_ucast_16 limit_bits) auto

text \<open>A negative threshold is a large number, which no pixel reaches.\<close>

lemma kt_pixel_negative:
  assumes "- (2 ^ 27) \<le> kt_threshold k" "kt_threshold k < 0"
  shows "kt_pixel k v = 0"
proof -
  have "(16 * kt_threshold k) mod 2 ^ 32 = (2 ^ 32 + 16 * kt_threshold k) mod 2 ^ 32" by simp
  also have "\<dots> = 2 ^ 32 + 16 * kt_threshold k" using assms by (intro mod_pos_pos_trivial) auto
  finally have "uint (push_bit 4 (word_of_int (kt_threshold k) :: u32)) = 2 ^ 32 + 16 * kt_threshold k"
    by (simp only: limit_bits)
  moreover have "uint v < 2 ^ 16" using uint_bounded [of v] by simp
  ultimately have "uint v < uint (push_bit 4 (word_of_int (kt_threshold k) :: u32))" using assms by simp
  then show ?thesis by (simp only: kt_pixel_def Let_def word_le_def uint_ucast_16 not_le [symmetric]) simp
qed

text \<open>The processor on a frame of depths.\<close>

lemma play_KinectThreshold:
  assumes rig: "rg_in rg (cp_ref inputPin) = read_view False (Data_payload sn (VMat m) # ds)"
      "rg_out rg (cp_ref outputPin) = None"
    and ok: "accepts inputPin m" "0 < cm_rows m" "0 < cm_cols m"
  shows "\<exists>rg'. play er (KinectThreshold_process mem inputPin outputPin k) rg = ((Inr True, k), rg') \<and>
    rg_out rg' (cp_ref outputPin) = Some (VMat (m\<lparr>cm_data := (\<lambda>p. kt_pixel k (cm_data m p))\<rparr>))"
proof -
  have c: "mat_create mem (mat_properties m) = Inr (m\<lparr>cm_data := mem (mat_properties m)\<rparr>)"
    using ok(2,3) by (simp add: mat_create_def mat_properties_def)
  show ?thesis
    using rig(2) by (simp add: KinectThreshold_process_def play_simps play_getMat [OF rig(1) ok(1)] c play_putMat)
qed

section \<open>Intensities of depths\<close>

text \<open>Nearer is brighter, up to the last depth of 12 bits, which is as bright as the nearest one.\<close>

lemma depth_intensity_nearer:
  "uint d \<le> uint d' \<Longrightarrow> uint d' < 4095 \<Longrightarrow> depth_intensity d' \<le> depth_intensity d"
proof -
  have range: "0 \<le> 256 * uint v div 4095 \<and> 256 * uint v div 4095 < 256" if "uint v < 4095" for v :: "16 word"
  proof -
    have "256 * uint v div 4095 \<le> 1048064 div 4095" using that by (intro zdiv_mono1) auto
    moreover have "0 \<le> 256 * uint v div 4095" by (simp add: pos_imp_zdiv_nonneg_iff)
    ultimately show ?thesis by simp
  qed
  assume "uint d \<le> uint d'" "uint d' < 4095"
  moreover from this have "256 * uint d div 4095 \<le> 256 * uint d' div 4095" by (intro zdiv_mono1) auto
  ultimately show ?thesis
    using range [of d] range [of d'] by (simp add: depth_intensity_def)
qed

lemma depth_intensity_wraps: "depth_intensity 4095 = 255" "depth_intensity 0 = 255" "depth_intensity 4094 = 0"
  by (simp_all add: depth_intensity_def)

section \<open>What is put\<close>

lemma play_produce_device:
  assumes "rg_out rg d = None" "rg_out rg v = None" "rg_out rg sk = None" "d \<noteq> v" "d \<noteq> sk" "v \<noteq> sk"
  shows "\<exists>rg' fs. play er (produce_device nd nk i (d, v, sk) k) rg =
      ((Inr (), k\<lparr>mk_depthFrames := (mk_depthFrames k)[i := no_mat nd],
                 mk_videoFrames := (mk_videoFrames k)[i := no_mat nd], mk_skeletonFrames := fs\<rparr>), rg') \<and>
    length fs = length (mk_skeletonFrames k) \<and>
    rg_out rg' d = Some (KMat (mk_depthFrames k ! i)) \<and> rg_out rg' v = Some (KMat (mk_videoFrames k ! i)) \<and>
    (\<forall>p. p \<notin> {d, v, sk} \<longrightarrow> rg_out rg' p = rg_out rg p)"
proof (cases "sf_valid (mk_skeletonFrames k ! i)")
  case True
  then show ?thesis using assms by (auto simp: produce_device_def play_simps view_put_def)
next
  case False
  then have "k\<lparr>mk_depthFrames := (mk_depthFrames k)[i := no_mat nd], mk_videoFrames := (mk_videoFrames k)[i := no_mat nd]\<rparr> =
    k\<lparr>mk_depthFrames := (mk_depthFrames k)[i := no_mat nd], mk_videoFrames := (mk_videoFrames k)[i := no_mat nd],
      mk_skeletonFrames := mk_skeletonFrames k\<rparr>"
    by simp
  with False assms show ?thesis
    by (intro exI [of _ "rg\<lparr>rg_out := (rg_out rg)(d \<mapsto> KMat (mk_depthFrames k ! i), v \<mapsto> KMat (mk_videoFrames k ! i))\<rparr>"]
        exI [of _ "mk_skeletonFrames k"]) (auto simp: produce_device_def play_simps view_put_def)
qed

text \<open>The devices from index \<open>i\<close> on have a frame on each of their image pins afterwards, and none left.\<close>

definition image_pins :: "kinect_pins list \<Rightarrow> ref list" where
  "image_pins pins = concat (map (\<lambda>(d, v, sk). [d, v, sk]) pins)"

lemma image_pins_simps [simp]:
  "image_pins [] = []" "image_pins ((d, v, sk) # pins) = d # v # sk # image_pins pins"
  by (simp_all add: image_pins_def)

lemma image_pins_nth: "j < length pins \<Longrightarrow> fst (pins ! j) \<in> set (image_pins pins) \<and> fst (snd (pins ! j)) \<in> set (image_pins pins)"
  by (auto simp: image_pins_def case_prod_beta intro!: bexI [OF _ nth_mem])

lemma play_produce_devices:
  assumes "distinct (image_pins pins)" "\<forall>p \<in> set (image_pins pins). rg_out rg p = None"
  shows "\<exists>rg' k'. play er (produce_devices nd nk i pins k) rg = ((Inr True, k'), rg') \<and>
    (\<forall>j < length pins. rg_out rg' (fst (pins ! j)) = Some (KMat (mk_depthFrames k ! (i + j))) \<and>
       rg_out rg' (fst (snd (pins ! j))) = Some (KMat (mk_videoFrames k ! (i + j)))) \<and>
    (\<forall>p. p \<notin> set (image_pins pins) \<longrightarrow> rg_out rg' p = rg_out rg p) \<and>
    length (mk_depthFrames k') = length (mk_depthFrames k) \<and> length (mk_videoFrames k') = length (mk_videoFrames k) \<and>
    (\<forall>j < length (mk_depthFrames k). mk_depthFrames k' ! j =
       (if i \<le> j \<and> j < i + length pins then no_mat nd else mk_depthFrames k ! j))"
  using assms
proof (induction pins arbitrary: i k rg)
  case Nil
  then show ?case by (auto simp: play_simps)
next
  case (Cons pin pins)
  obtain d v sk where pin: "pin = (d, v, sk)" by (cases pin)
  let ?k1 = "\<lambda>fs. k\<lparr>mk_depthFrames := (mk_depthFrames k)[i := no_mat nd],
      mk_videoFrames := (mk_videoFrames k)[i := no_mat nd], mk_skeletonFrames := fs\<rparr>"
  obtain rg1 fs where first: "play er (produce_device nd nk i (d, v, sk) k) rg = ((Inr (), ?k1 fs), rg1)"
      "rg_out rg1 d = Some (KMat (mk_depthFrames k ! i))" "rg_out rg1 v = Some (KMat (mk_videoFrames k ! i))"
      "\<And>p. p \<notin> {d, v, sk} \<Longrightarrow> rg_out rg1 p = rg_out rg p"
    using play_produce_device [of rg d v sk er nd nk i k] Cons.prems by (auto simp: pin)
  have "\<forall>p \<in> set (image_pins pins). rg_out rg1 p = None"
    using Cons.prems first(4) by (auto simp: pin) metis
  then obtain rg' k' where rest: "play er (produce_devices nd nk (i + 1) pins (?k1 fs)) rg1 = ((Inr True, k'), rg')"
      "\<forall>j < length pins. rg_out rg' (fst (pins ! j)) = Some (KMat (mk_depthFrames (?k1 fs) ! (i + 1 + j))) \<and>
         rg_out rg' (fst (snd (pins ! j))) = Some (KMat (mk_videoFrames (?k1 fs) ! (i + 1 + j)))"
      "\<forall>p. p \<notin> set (image_pins pins) \<longrightarrow> rg_out rg' p = rg_out rg1 p"
      "length (mk_depthFrames k') = length (mk_depthFrames k)" "length (mk_videoFrames k') = length (mk_videoFrames k)"
      "\<forall>j < length (mk_depthFrames k). mk_depthFrames k' ! j =
         (if i + 1 \<le> j \<and> j < i + 1 + length pins then no_mat nd else mk_depthFrames (?k1 fs) ! j)"
    using Cons.IH [of rg1 "i + 1" "?k1 fs"] Cons.prems(1) by (auto simp: pin)
  have "play er (produce_devices nd nk i (pin # pins) k) rg = ((Inr True, k'), rg')"
    using first(1) rest(1) by (simp add: pin play_simps)
  moreover have "rg_out rg' (fst ((pin # pins) ! j)) = Some (KMat (mk_depthFrames k ! (i + j))) \<and>
      rg_out rg' (fst (snd ((pin # pins) ! j))) = Some (KMat (mk_videoFrames k ! (i + j)))" if "j < length (pin # pins)" for j
    using that rest(2,3) first(2,3) Cons.prems(1) by (cases j) (auto simp: pin)
  moreover have "\<forall>p. p \<notin> set (image_pins (pin # pins)) \<longrightarrow> rg_out rg' p = rg_out rg p"
    using rest(3) first(4) by (auto simp: pin)
  moreover have "\<forall>j < length (mk_depthFrames k). mk_depthFrames k' ! j =
      (if i \<le> j \<and> j < i + length (pin # pins) then no_mat nd else mk_depthFrames k ! j)"
    using rest(6) by (auto simp: nth_list_update)
  ultimately show ?case using rest(4,5) by blast
qed

section \<open>Frames between two calls of produce\<close>

datatype ('d, 'k) kinect_event = DepthEvent nat "'d CvMat" | VideoEvent nat "'d CvMat" | SkeletonEvent nat "'k SkeletonFrame"

fun kinect_slot :: "('d, 'k) kinect_event \<Rightarrow> ('d, 'k) MSKinectProducer \<Rightarrow> plv_exn + ('d, 'k) MSKinectProducer" where
  "kinect_slot (DepthEvent i m) = newDepthFrame i m"
| "kinect_slot (VideoEvent i m) = newVideoFrame i m"
| "kinect_slot (SkeletonEvent i f) = newSkeletonFrame i f"

fun kinect_slots ::
    "('d, 'k) kinect_event list \<Rightarrow> ('d, 'k) MSKinectProducer \<Rightarrow> plv_exn + ('d, 'k) MSKinectProducer" where
  "kinect_slots [] k = Inr k"
| "kinect_slots (e # es) k = (case kinect_slot e k of Inl x \<Rightarrow> Inl x | Inr k' \<Rightarrow> kinect_slots es k')"

text \<open>The latest depth image and the latest video image of a device.\<close>

fun latest_depth :: "nat \<Rightarrow> ('d, 'k) kinect_event list \<Rightarrow> 'd CvMat \<Rightarrow> 'd CvMat" where
  "latest_depth i [] m = m"
| "latest_depth i (DepthEvent j m' # es) m = latest_depth i es (if i = j then m' else m)"
| "latest_depth i (_ # es) m = latest_depth i es m"

fun latest_video :: "nat \<Rightarrow> ('d, 'k) kinect_event list \<Rightarrow> 'd CvMat \<Rightarrow> 'd CvMat" where
  "latest_video i [] m = m"
| "latest_video i (VideoEvent j m' # es) m = latest_video i es (if i = j then m' else m)"
| "latest_video i (_ # es) m = latest_video i es m"

lemma kinect_slots_latest:
  "kinect_slots es k = Inr k' \<Longrightarrow>
    length (mk_depthFrames k') = length (mk_depthFrames k) \<and> length (mk_videoFrames k') = length (mk_videoFrames k) \<and>
    (\<forall>i < length (mk_depthFrames k). mk_depthFrames k' ! i = latest_depth i es (mk_depthFrames k ! i)) \<and>
    (\<forall>i < length (mk_videoFrames k). mk_videoFrames k' ! i = latest_video i es (mk_videoFrames k ! i))"
proof (induction es arbitrary: k)
  case (Cons e es)
  then show ?case
    by (cases e) (auto simp: newDepthFrame_def newVideoFrame_def newSkeletonFrame_def nth_list_update split: if_splits)
qed simp

lemma mk_ready_iff:
  "length (mk_depthFrames k) = length (mk_videoFrames k) \<Longrightarrow>
    mk_readyToProduce k \<longleftrightarrow>
      (\<forall>i < length (mk_depthFrames k). mat_isValid (mk_depthFrames k ! i) \<and> mat_isValid (mk_videoFrames k ! i))"
  by (simp add: mk_readyToProduce_def list_all2_conv_all_nth)

lemma no_mat_invalid: "\<not> mat_isValid (no_mat d)"
  by (simp add: no_mat_def mat_isValid_def mat_isEmpty_def)

end
