(* ===== verification/View_Properties.thy ===== *)
theory View_Properties
  imports Image_Properties Image_Convert Kinect_Frames
begin

text \<open>
  The properties of the viewers of images and of the Kinect: what is shown of an image, how a Kinect is stopped, and what
  its producer and the range of depths put.
\<close>

section \<open>Viewers\<close>

text \<open>C25. An image of bytes with one channel is shown in the grey of its values, one with three channels in the colours
  of its pixels, blue first, wherever a row starts.\<close>

theorem viewer_shows_pixels:
  assumes "cm_depth m = CV_8U" "cm_channels m = 1 \<or> cm_channels m = 3" "has_pixels 1 m"
    and "y < nat (cm_rows m)" "x < nat (cm_cols m)"
  shows "\<exists>q. cvMatToQImage fl m = Inr q \<and>
    shown q y x =
      (let v = (\<lambda>c. ucast (sample_byte 1 m 0 y x c))
       in if cm_channels m = 1 then qRgb (v 0) (v 0) (v 0) else qRgb (v 2) (v 1) (v 0))"
  using assms(2) convert_8U1 [OF assms(1) _ assms(3-5), of fl] convert_8U3 [OF assms(1) _ assms(3-5), of fl]
  by (auto simp: Let_def)

text \<open>Two rows of one pixel, in memory with a gap of a byte between them.\<close>

definition two_pixels :: "PixelData CvMat" where
  "two_pixels = \<lparr>cm_rows = 2, cm_cols = 1, cm_depth = CV_8U, cm_channels = 3,
     cm_data = \<lparr>pd_bytes = [1, 2, 3, 0, 4, 5, 6], pd_step = 4\<rparr>\<rparr>"

theorem viewer_shows_pixels_witness: "\<exists>q. cvMatToQImage (\<lambda>_. 0) two_pixels = Inr q \<and> shown q 1 0 = qRgb 6 5 4"
proof -
  have m: "cm_depth two_pixels = CV_8U" "cm_channels two_pixels = 1 \<or> cm_channels two_pixels = 3" "has_pixels 1 two_pixels"
    "1 < nat (cm_rows two_pixels)" "0 < nat (cm_cols two_pixels)"
    by (simp_all add: two_pixels_def has_pixels_def)
  from viewer_shows_pixels [OF m] show ?thesis
    by (simp add: two_pixels_def sample_byte_def Let_def)
qed

section \<open>Kinect\<close>

text \<open>C36. A stop that waits for the thread of a Kinect can return, from every reachable state.\<close>

theorem kinect_stop_returns: "kinect_reachable k \<Longrightarrow> kd_call k = StopWait \<Longrightarrow> stop_can_return k"
  by (rule stop_returns [OF kinect_reachable_inv])

definition kinect_stopping :: KinectDevice where
  "kinect_stopping =
     \<lparr>kd_state = KINECT_STOP_REQUESTED, kd_instance = True, kd_run = KinectLoop, kd_call = StopWait\<rparr>"

lemma kinect_stopping_reachable: "kinect_reachable kinect_stopping"
proof -
  let ?k = "\<lparr>kd_state = KINECT_RUNNING, kd_instance = True, kd_run = KinectLoop, kd_call = KinectIdle\<rparr>"
  have "kinect_step kinect_starting ?k"
    unfolding kinect_step_def using kinect_run.running [of kinect_starting] by (simp add: kinect_starting_def)
  moreover have "kinect_step ?k kinect_stopping"
    unfolding kinect_step_def using kinect_caller.stop [of ?k] by (simp add: kd_stop_def kinect_stopping_def)
  ultimately show ?thesis
    using kinect_starting_reachable unfolding kinect_reachable_def by (meson rtranclp.rtrancl_into_rtrancl)
qed

theorem kinect_stop_returns_witness: "stop_can_return kinect_stopping"
  by (rule kinect_stop_returns [OF kinect_stopping_reachable]) (simp add: kinect_stopping_def)

text \<open>A stop that comes after \<open>start\<close> and before the thread has set its state does nothing: however long the
  thread runs after that, it does not end.\<close>

theorem early_kinect_stop_is_lost:
  "kinect_reachable kinect_starting \<and> kd_stop kinect_starting = kinect_starting \<and>
   \<not> (\<exists>k. kinect_run\<^sup>*\<^sup>* kinect_starting k \<and> kd_run k = KinectOff)"
  using kinect_starting_reachable lost_stop [of kinect_starting]
  by (auto simp: kinect_starting_def kd_stop_def)

text \<open>C30. For thresholds and maximal values between 0 and the 28 bits that the shift leaves, the processor puts an
  image that has those depths of 12 bits which lie in the range, in the place where the driver had them, and 0 elsewhere.\<close>

theorem kinect_threshold_keeps_range:
  assumes "rg_in rg (cp_ref inputPin) = read_view False (Data_payload sn (VMat (depth_image width height bits)) # ds)"
      "rg_out rg (cp_ref outputPin) = None"
    and "accepts inputPin (depth_image width height bits)" "0 < width" "0 < height"
    and "\<forall>i. unat (bits i) < 4096"
    and "0 \<le> kt_threshold k" "kt_threshold k < 2 ^ 28" "0 \<le> kt_maxValue k" "kt_maxValue k < 2 ^ 28"
  shows "\<exists>rg' img. play er (KinectThreshold_process mem inputPin outputPin k) rg = ((Inr True, k), rg') \<and>
    rg_out rg' (cp_ref outputPin) = Some (VMat img) \<and> cm_cols img = width \<and> cm_rows img = height \<and>
    (\<forall>y x. let d = bits (nat (y * width + x)) in
       cm_data img (y, x) = (if kt_threshold k \<le> uint d \<and> uint d \<le> kt_maxValue k then push_bit 4 d else 0))"
proof -
  let ?m = "depth_image width height bits"
  obtain rg' where "play er (KinectThreshold_process mem inputPin outputPin k) rg = ((Inr True, k), rg')"
      "rg_out rg' (cp_ref outputPin) = Some (VMat (?m\<lparr>cm_data := (\<lambda>p. kt_pixel k (cm_data ?m p))\<rparr>))"
    using play_KinectThreshold [OF assms(1-3), of er mem k] assms(4,5) by (auto simp: depth_image_def)
  moreover have "kt_pixel k (cm_data ?m (y, x)) =
      (let d = bits (nat (y * width + x)) in
       if kt_threshold k \<le> uint d \<and> uint d \<le> kt_maxValue k then push_bit 4 d else 0)" for y x
    using kt_pixel_range [OF spec [OF assms(6)] assms(7-10)] by (simp add: depth_image_def pixels_def Let_def)
  ultimately show ?thesis
    by (intro exI [of _ rg'] exI [of _ "?m\<lparr>cm_data := (\<lambda>p. kt_pixel k (cm_data ?m p))\<rparr>"])
      (simp add: depth_image_def Let_def)
qed

definition depths_rig :: "(int \<times> int \<Rightarrow> 16 word) pv rig" where
  "depths_rig = mat_rig 0 (depth_image 2 1 (\<lambda>i. if i = 0 then 800 else 2000))"

theorem kinect_threshold_keeps_range_witness:
  "\<exists>rg' img. play (errors_of demo) (KinectThreshold_process (\<lambda>_ _. 0) (any_pin 0) (any_pin 1)
      \<lparr>kt_threshold = 500, kt_maxValue = 1000\<rparr>) depths_rig = ((Inr True, \<lparr>kt_threshold = 500, kt_maxValue = 1000\<rparr>), rg') \<and>
    rg_out rg' 1 = Some (VMat img) \<and> cm_data img (0, 0) = 12800 \<and> cm_data img (0, 1) = 0"
proof -
  let ?bits = "\<lambda>i::nat. if i = 0 then 800 else 2000 :: 16 word" and ?k = "\<lparr>kt_threshold = 500, kt_maxValue = 1000\<rparr>"
  have rig: "rg_in depths_rig (cp_ref (any_pin 0)) = read_view False (Data_payload 0 (VMat (depth_image 2 1 ?bits)) # [])"
    "rg_out depths_rig (cp_ref (any_pin 1)) = None"
    by (simp_all add: depths_rig_def mat_rig_views pixel_accepted(2))
  have acc: "accepts (any_pin 0) (depth_image 2 1 ?bits)"
    by (simp add: accepts_def any_pin_def depth_image_def addAllChannels_def addAllDepths_def mat_isValid_def mat_isEmpty_def)
  have small: "\<forall>i. unat (?bits i) < 4096" by simp
  have k: "0 \<le> kt_threshold ?k" "kt_threshold ?k < 2 ^ 28" "0 \<le> kt_maxValue ?k" "kt_maxValue ?k < 2 ^ 28" by simp_all
  from kinect_threshold_keeps_range [OF rig acc _ _ small k, of "errors_of demo" "\<lambda>_ _. 0"] obtain rg' img where r:
    "play (errors_of demo) (KinectThreshold_process (\<lambda>_ _. 0) (any_pin 0) (any_pin 1) ?k) depths_rig = ((Inr True, ?k), rg')"
    "rg_out rg' 1 = Some (VMat img)"
    "\<forall>y x. let d = ?bits (nat (y * 2 + x)) in
       cm_data img (y, x) = (if kt_threshold ?k \<le> uint d \<and> uint d \<le> kt_maxValue ?k then push_bit 4 d else 0)"
    unfolding pixel_accepted(2) by auto
  have "cm_data img (0, 0) = 12800" "cm_data img (0, 1) = 0"
    using spec [OF spec [OF r(3), of 0], of 0] spec [OF spec [OF r(3), of 0], of 1] by (simp_all add: Let_def)
  with r(1,2) show ?thesis by blast
qed




end
