(* ===== verification/Scene_View.thy ===== *)
theory Scene_View
  imports Pipeline_Connect
begin

text \<open>
  The scene of the editor (\<open>PipelineScene.cpp\<close>), which shows a pipeline: an item for each element and one for each
  connection.  It is told of changes by the signals of the pipeline, whose slots run when the pipeline emits them.  An
  element has one widget, a connection one line, so that both are known by the element or connection they belong to.
  The tables \<open>elementWidgets\<close> and \<open>connectionLines\<close> are keyed by pointers.  Positions are left out.
\<close>

section \<open>State\<close>

datatype scene_item = ElementItem ref | LineItem ref

record PipelineScene =
  sc_elementWidgets :: "ref set"
  sc_connectionLines :: "ref set"
  sc_items :: "scene_item set"
  sc_lines :: "ref \<Rightarrow> ref list"

definition PipelineScene_new :: PipelineScene where
  "PipelineScene_new =
     \<lparr>sc_elementWidgets = {}, sc_connectionLines = {}, sc_items = {}, sc_lines = (\<lambda>_. [])\<rparr>"

datatype scene_error = SceneAssert | NullWidget | NonFatalException string | FromPipeline plv_exn

section \<open>Slots\<close>

text \<open>A duplicate is an assertion.\<close>

definition scene_addElement :: "ref \<Rightarrow> PipelineScene \<Rightarrow> scene_error + PipelineScene" where
  "scene_addElement e sc =
     (if e \<in> sc_elementWidgets sc then Inl SceneAssert
      else Inr (sc\<lparr>sc_elementWidgets := insert e (sc_elementWidgets sc), sc_items := insert (ElementItem e) (sc_items sc)\<rparr>))"

definition addLine :: "ref \<Rightarrow> ref \<Rightarrow> PipelineScene \<Rightarrow> PipelineScene" where
  "addLine e c sc = sc\<lparr>sc_lines := (sc_lines sc)(e := sc_lines sc e @ [c])\<rparr>"

definition removeLine :: "ref \<Rightarrow> ref \<Rightarrow> PipelineScene \<Rightarrow> PipelineScene" where
  "removeLine e c sc = sc\<lparr>sc_lines := (sc_lines sc)(e := removeAll c (sc_lines sc e))\<rparr>"

definition scene_addConnection :: "'v plv \<Rightarrow> ref \<Rightarrow> PipelineScene \<Rightarrow> scene_error + PipelineScene" where
  "scene_addConnection w c sc =
     (case (c_producer (conns w c), c_consumer (conns w c)) of
        (Some p, Some q) \<Rightarrow>
          let e = op_owner (opins w p); e' = ip_owner (ipins w q) in
          if e \<notin> sc_elementWidgets sc \<or> e' \<notin> sc_elementWidgets sc then Inl NullWidget
          else if c \<in> sc_connectionLines sc then Inl SceneAssert
          else Inr (addLine e' c (addLine e c
                 (sc\<lparr>sc_items := insert (LineItem c) (sc_items sc),
                    sc_connectionLines := insert c (sc_connectionLines sc)\<rparr>)))
      | _ \<Rightarrow> Inl NullWidget)"

text \<open>The items are taken off the scene, but the entries of the tables stay.\<close>

definition handleRemoveElement :: "ref \<Rightarrow> PipelineScene \<Rightarrow> PipelineScene" where
  "handleRemoveElement e sc =
     (if e \<in> sc_elementWidgets sc then sc\<lparr>sc_items := sc_items sc - {ElementItem e}\<rparr> else sc)"

definition handleRemoveConnection :: "ref \<Rightarrow> PipelineScene \<Rightarrow> PipelineScene" where
  "handleRemoveConnection c sc =
     (if c \<in> sc_connectionLines sc then sc\<lparr>sc_items := sc_items sc - {LineItem c}\<rparr> else sc)"

section \<open>Signals of the pipeline\<close>

text \<open>The signals that carry objects: an added object is in the pipeline \<open>w'\<close> after the call, a removed one was in the
  pipeline \<open>w\<close> before it.\<close>

definition scene_slot :: "'v plv \<Rightarrow> 'v plv \<Rightarrow> plv_signal \<Rightarrow> PipelineScene \<Rightarrow> scene_error + PipelineScene" where
  "scene_slot w w' sg sc =
     (case sg of
        elementAdded i \<Rightarrow> (case map_of (children w') i of Some e \<Rightarrow> scene_addElement e sc | None \<Rightarrow> Inr sc)
      | connectionAdded i \<Rightarrow> (case map_of (connections w') i of Some c \<Rightarrow> scene_addConnection w' c sc | None \<Rightarrow> Inr sc)
      | elementRemoved i \<Rightarrow> Inr (case map_of (children w) i of Some e \<Rightarrow> handleRemoveElement e sc | None \<Rightarrow> sc)
      | connectionRemoved i \<Rightarrow> Inr (case map_of (connections w) i of Some c \<Rightarrow> handleRemoveConnection c sc | None \<Rightarrow> sc)
      | _ \<Rightarrow> Inr sc)"

fun scene_slots :: "'v plv \<Rightarrow> 'v plv \<Rightarrow> plv_signal list \<Rightarrow> PipelineScene \<Rightarrow> scene_error + PipelineScene" where
  "scene_slots w w' [] sc = Inr sc"
| "scene_slots w w' (sg # sgs) sc =
     (case scene_slot w w' sg sc of Inl x \<Rightarrow> Inl x | Inr sc' \<Rightarrow> scene_slots w w' sgs sc')"

definition notified :: "'v plv \<Rightarrow> 'v plv \<Rightarrow> PipelineScene \<Rightarrow> scene_error + PipelineScene" where
  "notified w w' sc = scene_slots w w' (drop (length (signals w)) (signals w')) sc"

section \<open>Editing\<close>

type_synonym 'v editor = "'v plv \<times> PipelineScene"

definition after_edit :: "'v plv \<Rightarrow> (plv_exn + 'a) \<times> 'v plv \<Rightarrow> PipelineScene \<Rightarrow> scene_error + 'v editor" where
  "after_edit w r sc =
     (case r of
        (Inl x, w') \<Rightarrow> Inl (FromPipeline x)
      | (Inr _, w') \<Rightarrow> map_sum id (Pair w') (notified w w' sc))"

definition scene_removeElement :: "ref \<Rightarrow> 'v editor \<Rightarrow> scene_error + 'v editor" where
  "scene_removeElement e = (\<lambda>(w, sc). after_edit w (removeElement (el_id (elems w e)) w) sc)"

text \<open>The line is deleted last.\<close>

definition scene_removeConnection :: "ref \<Rightarrow> 'v editor \<Rightarrow> scene_error + 'v editor" where
  "scene_removeConnection c =
     (\<lambda>(w, sc).
        if c \<notin> sc_connectionLines sc then Inl SceneAssert
        else
          (case (c_producer (conns w c), c_consumer (conns w c)) of
             (Some p, Some q) \<Rightarrow>
               let sc1 = removeLine (ip_owner (ipins w q)) c (removeLine (op_owner (opins w p)) c
                     (sc\<lparr>sc_connectionLines := sc_connectionLines sc - {c}\<rparr>))
               in map_sum id (\<lambda>(w', sc'). (w', sc'\<lparr>sc_items := sc_items sc' - {LineItem c}\<rparr>))
                    (after_edit w (pinConnectionDisconnect (c_id (conns w c)) w) sc1)
           | _ \<Rightarrow> Inl NullWidget))"

fun deleteItems :: "scene_item list \<Rightarrow> 'v editor \<Rightarrow> scene_error + 'v editor" where
  "deleteItems [] ed = Inr ed"
| "deleteItems (item # items) ed =
     (case (case item of LineItem c \<Rightarrow> scene_removeConnection c ed | ElementItem e \<Rightarrow> scene_removeElement e ed) of
        Inl x \<Rightarrow> Inl x | Inr ed' \<Rightarrow> deleteItems items ed')"

definition deleteSelected :: "scene_item list \<Rightarrow> 'v editor \<Rightarrow> scene_error + 'v editor" where
  "deleteSelected selected ed = (if pl_running (fst ed) then Inr ed else deleteItems selected ed)"

datatype pin_widget = InputPinWidget ref | OutputPinWidget ref

definition handleConnectionCreation ::
    "QMetaType \<Rightarrow> pin_widget \<Rightarrow> pin_widget \<Rightarrow> 'v editor \<Rightarrow> scene_error + 'v editor" where
  "handleConnectionCreation qt src tgt =
     (\<lambda>(w, sc).
        if pl_running w then
          Inl (NonFatalException (''Cannot make new connections while pipeline is running. Stop the pipeline first. ''))
        else (case src of
          InputPinWidget _ \<Rightarrow> Inl (NonFatalException ''Cannot make connection: Source is not an output pin'')
        | OutputPinWidget p \<Rightarrow>
            (case tgt of
               OutputPinWidget _ \<Rightarrow> Inl (NonFatalException ''Cannot make connection: Target is not an input pin'')
             | InputPinWidget q \<Rightarrow>
                 (case canConnectPins qt p q w of ((ok, error), w1) \<Rightarrow>
                    if \<not> ok then Inl (NonFatalException error)
                    else after_edit w1 (connectPins qt p q w1) sc))))"

text \<open>\<open>construct\<close>: what the factory makes for a name.\<close>

definition dropEvent :: "(string \<Rightarrow> ref option) \<Rightarrow> string \<Rightarrow> 'v editor \<Rightarrow> scene_error + 'v editor" where
  "dropEvent construct elementName =
     (\<lambda>(w, sc).
        if pl_running w then Inr (w, sc)
        else (case construct elementName of
          None \<Rightarrow> Inl (FromPipeline (RuntimeError (''Tried to create unknown element '' @ elementName @ ''.'')))
        | Some e \<Rightarrow> (case addElement e w of (i, w') \<Rightarrow> after_edit w (Inr i, w') sc)))"

fun addAll :: "('a \<Rightarrow> PipelineScene \<Rightarrow> scene_error + PipelineScene) \<Rightarrow> 'a list \<Rightarrow> PipelineScene \<Rightarrow> scene_error + PipelineScene" where
  "addAll f [] sc = Inr sc"
| "addAll f (x # xs) sc = (case f x sc of Inl e \<Rightarrow> Inl e | Inr sc' \<Rightarrow> addAll f xs sc')"

definition setPipeline :: "'v plv \<Rightarrow> PipelineScene \<Rightarrow> scene_error + PipelineScene" where
  "setPipeline w sc =
     (case addAll scene_addElement (map snd (children w)) sc of
        Inl x \<Rightarrow> Inl x
      | Inr sc' \<Rightarrow> addAll (scene_addConnection w) (map snd (connections w)) sc')"

definition scene_reset :: "PipelineScene \<Rightarrow> PipelineScene" where
  "scene_reset sc = sc\<lparr>sc_elementWidgets := {}, sc_connectionLines := {}, sc_items := {}\<rparr>"

section \<open>What the pipeline emits\<close>

text \<open>\<open>drops w w'\<close>: a part of the connections is gone, and a signal was emitted for each.\<close>

definition ids_ok :: "'v plv \<Rightarrow> bool" where
  "ids_ok w \<longleftrightarrow> qm_inv (connections w) \<and> (\<forall>(i, c) \<in> set (connections w). c_id (conns w c) = i)"

definition dropped :: "int list \<Rightarrow> 'v plv \<Rightarrow> 'v plv \<Rightarrow> bool" where
  "dropped is w w' \<longleftrightarrow>
     signals w' = signals w @ map connectionRemoved is \<and>
     connections w' = filter (\<lambda>ic. fst ic \<notin> set is) (connections w) \<and>
     set is \<subseteq> fst ` set (connections w) \<and>
     children w' = children w \<and> nextConn w' = nextConn w \<and>
     (\<forall>x. c_id (conns w' x) = c_id (conns w x)) \<and>
     (\<forall>x. c_producer (conns w x) = None \<longrightarrow> c_producer (conns w' x) = None) \<and>
     (\<forall>(i, c) \<in> set (connections w). i \<in> set is \<longrightarrow> c_producer (conns w' c) = None)"

definition drops :: "'v plv \<Rightarrow> 'v plv \<Rightarrow> bool" where
  "drops w w' \<longleftrightarrow> ids_ok w \<longrightarrow> ids_ok w' \<and> (\<exists>is. dropped is w w')"

lemma drops_refl: "drops w w"
  unfolding drops_def dropped_def by (auto intro!: exI [of _ "[]"])

lemma dropped_trans:
  assumes "dropped is w w1" "dropped js w1 w2"
  shows "dropped (is @ js) w w2"
  using assms unfolding dropped_def by (auto simp: filter_filter intro!: filter_cong)

lemma drops_trans: "drops w w1 \<Longrightarrow> drops w1 w2 \<Longrightarrow> drops w w2"
  unfolding drops_def by (meson dropped_trans)

lemma wired_ids_ok: "wired w \<Longrightarrow> ids_ok w"
  using wired_maps(2) [of w] wired_connection(1) [of w] by (auto simp: ids_ok_def)

lemma ids_ok_sub:
  assumes "ids_ok w" "connections w' = filter P (connections w)" "\<forall>x. c_id (conns w' x) = c_id (conns w x)"
  shows "ids_ok w'"
proof -
  have "qm_inv (filter P m)" if "qm_inv m" for m :: "(int, ref) qmap"
    using that by (induction m) auto
  with assms show ?thesis by (auto simp: ids_ok_def)
qed

lemma conn_disconnect_effect:
  assumes "conn_disconnect c w = (Inr (), w')"
  shows "signals w' = signals w" "connections w' = connections w" "children w' = children w" "nextConn w' = nextConn w"
    "c_id (conns w' x) = c_id (conns w x)" "c_producer (conns w' c) = None"
    "c_producer (conns w x) = None \<Longrightarrow> c_producer (conns w' x) = None"
  using assms
  by (auto simp: conn_disconnect_def run_simps opin_removeConnection_def ipin_removeConnection_def
      upd_conn_def upd_ipin_def upd_opin_def split: option.splits if_splits)

lemma threadUnsafeDisconnect_drops:
  assumes "threadUnsafeDisconnect i w = (Inr (), w')"
  shows "drops w w'"
  unfolding drops_def
proof
  assume ids: "ids_ok w"
  from assms obtain c w1 where c: "map_of (connections w) i = Some c" "conn_disconnect c w = (Inr (), w1)"
      "w' = emit (connectionRemoved (c_id (conns w1 c))) (w1\<lparr>connections := qm_remove i (connections w1)\<rparr>)"
    by (auto simp: threadUnsafeDisconnect_def run_simps split: option.splits)
  note e = conn_disconnect_effect [OF c(2)]
  have mem: "(i, c) \<in> set (connections w)" using c(1) by (rule map_of_SomeD)
  with ids have i: "c_id (conns w c) = i" by (auto simp: ids_ok_def)
  have "connections w' = filter (\<lambda>ic. fst ic \<notin> set [i]) (connections w)" by (simp add: c(3) e qm_remove_def)
  moreover have "x = c" if "(i, x) \<in> set (connections w)" for x
  proof -
    have "distinct (map fst (connections w))" using ids qm_inv_distinct by (auto simp: ids_ok_def)
    then show ?thesis using that mem by (rule eq_key_imp_eq_value)
  qed
  moreover have "set [i] \<subseteq> fst ` set (connections w)" using mem by force
  moreover have "signals w' = signals w @ map connectionRemoved [i]" by (simp add: c(3) emit_def e(1,5) i)
  moreover have "children w' = children w" "nextConn w' = nextConn w" "conns w' = conns w1" by (simp_all add: c(3) e)
  ultimately have "dropped [i] w w'"
    unfolding dropped_def using e(5-7) by (intro conjI) auto
  moreover from this have "ids_ok w'"
    using ids_ok_sub [OF ids, of w' "\<lambda>ic. fst ic \<notin> set [i]"] by (simp add: dropped_def)
  ultimately show "ids_ok w' \<and> (\<exists>is. dropped is w w')" by blast
qed

lemma forM_drops:
  assumes "\<And>x t t'. x \<in> set xs \<Longrightarrow> f x t = (Inr (), t') \<Longrightarrow> drops t t'"
    and "forM f xs w = (Inr (), w')"
  shows "drops w w'"
  using assms
proof (induction xs arbitrary: w)
  case Nil
  then show ?case by (simp add: drops_refl)
next
  case (Cons x xs)
  then obtain w1 where "f x w = (Inr (), w1)" "forM f xs w1 = (Inr (), w')"
    by (auto split: prod.splits sum.splits)
  with Cons show ?case by (meson drops_trans list.set_intros)
qed

lemma removeConnectionsForElement_drops:
  assumes "removeConnectionsForElement e w = (Inr (), w')"
  shows "drops w w'"
proof -
  have inp: "disconnectInput q t = (Inr (), t') \<Longrightarrow> drops t t'" for q and t t' :: "'a plv"
    by (auto simp: disconnectInput_def drops_refl split: option.splits intro: threadUnsafeDisconnect_drops)
  have out: "disconnectOutput p t = (Inr (), t') \<Longrightarrow> drops t t'" for p and t t' :: "'a plv"
    unfolding disconnectOutput_def by (erule forM_drops [rotated]) (rule threadUnsafeDisconnect_drops)
  from assms obtain w1 where w1:
      "(if el_class (elems w e) = PipelineProcessor then forM disconnectInput (inputPins e w) else returnM ()) w = (Inr (), w1)"
      "forM disconnectOutput (outputPins e w1) w1 = (Inr (), w')"
    unfolding removeConnectionsForElement_def by (auto simp: seqM_Inr_iff)
  have "drops w w1"
    using w1(1) by (auto simp: returnM_def drops_refl split: if_splits intro: forM_drops inp)
  moreover have "drops w1 w'" using w1(2) by (rule forM_drops [rotated]) (rule out)
  ultimately show ?thesis by (rule drops_trans)
qed

section \<open>The scene shows the pipeline\<close>

definition shown_elements :: "'v plv \<Rightarrow> ref set" where
  "shown_elements w = snd ` set (children w)"

definition shown_connections :: "'v plv \<Rightarrow> ref set" where
  "shown_connections w = snd ` set (connections w)"

definition in_view :: "'v editor \<Rightarrow> bool" where
  "in_view ed \<longleftrightarrow>
     (case ed of (w, sc) \<Rightarrow>
        sc_items sc = ElementItem ` shown_elements w \<union> LineItem ` shown_connections w \<and>
        shown_elements w \<subseteq> sc_elementWidgets sc \<and> shown_connections w \<subseteq> sc_connectionLines sc \<and>
        (\<forall>c \<in> sc_connectionLines sc. c < nextConn w))"

lemma scene_slots_append:
  "scene_slots w w' (xs @ ys) sc =
     (case scene_slots w w' xs sc of Inl x \<Rightarrow> Inl x | Inr sc' \<Rightarrow> scene_slots w w' ys sc')"
  by (induction xs arbitrary: sc) (auto split: sum.split)

definition off_scene :: "ref set \<Rightarrow> PipelineScene \<Rightarrow> PipelineScene" where
  "off_scene cs sc = sc\<lparr>sc_items := sc_items sc - LineItem ` (cs \<inter> sc_connectionLines sc)\<rparr>"

lemma scene_slots_removed:
  assumes "set is \<subseteq> fst ` set (connections w)" "distinct (map fst (connections w))"
  shows "scene_slots w w' (map connectionRemoved is) sc = Inr (off_scene {c. \<exists>i \<in> set is. (i, c) \<in> set (connections w)} sc)"
  using assms(1)
proof (induction "is" arbitrary: sc)
  case Nil
  then show ?case by (simp add: off_scene_def)
next
  case (Cons i "is")
  then obtain c where c: "(i, c) \<in> set (connections w)" by auto
  then have m: "map_of (connections w) i = Some c" using assms(2) by simp
  have only: "(i, x) \<in> set (connections w) \<longleftrightarrow> x = c" for x
    using c eq_key_imp_eq_value [OF assms(2)] by blast
  have "scene_slots w w' (map connectionRemoved (i # is)) sc =
      Inr (off_scene {c. \<exists>i \<in> set is. (i, c) \<in> set (connections w)} (handleRemoveConnection c sc))"
    using Cons by (simp add: scene_slot_def m)
  also have "off_scene {c. \<exists>i \<in> set is. (i, c) \<in> set (connections w)} (handleRemoveConnection c sc) =
      off_scene {x. \<exists>j \<in> set (i # is). (j, x) \<in> set (connections w)} sc"
    by (rule PipelineScene.equality) (auto simp: off_scene_def handleRemoveConnection_def only)
  finally show ?case .
qed

text \<open>Removing connections keeps the view.\<close>

lemma notified_dropped:
  assumes d: "dropped is w w'" and ids: "ids_ok w" and v: "in_view (w, sc)"
  shows "\<exists>sc'. scene_slots w w'' (map connectionRemoved is) sc = Inr sc' \<and> in_view (w', sc') \<and>
    sc_connectionLines sc' = sc_connectionLines sc \<and> sc_elementWidgets sc' = sc_elementWidgets sc"
proof -
  let ?gone = "{c. \<exists>i \<in> set is. (i, c) \<in> set (connections w)}"
  have dist: "distinct (map fst (connections w))" using ids qm_inv_distinct by (auto simp: ids_ok_def)
  have one: "(i, c) \<in> set (connections w) \<Longrightarrow> (j, c) \<in> set (connections w) \<Longrightarrow> i = j" for i j c
  proof -
    have "c_id (conns w c) = k" if "(k, c) \<in> set (connections w)" for k
      using ids that by (auto simp: ids_ok_def)
    then show "(i, c) \<in> set (connections w) \<Longrightarrow> (j, c) \<in> set (connections w) \<Longrightarrow> i = j" by blast
  qed
  have "scene_slots w w'' (map connectionRemoved is) sc = Inr (off_scene ?gone sc)"
    using d dist by (intro scene_slots_removed) (simp_all add: dropped_def)
  moreover have "shown_connections w' = shown_connections w - ?gone"
    using d one unfolding dropped_def shown_connections_def by (auto simp: image_iff) blast+
  moreover have "?gone \<subseteq> shown_connections w" by (force simp: shown_connections_def)
  ultimately show ?thesis
    using v d by (auto simp: in_view_def off_scene_def dropped_def shown_elements_def)
qed

end
