(* ===== verification/Scene_Sync.thy ===== *)
theory Scene_Sync
  imports Scene_View
begin

text \<open>
  The scene of the editor stays in view of its pipeline: whatever is edited through it, its items are those of the
  elements and connections of the pipeline.  What the two tables keep is shown as well, and what happens when an
  element is deleted together with one of its connections.
\<close>

section \<open>Showing a pipeline\<close>

lemma addAll_elements:
  assumes "distinct es" "set es \<inter> sc_elementWidgets sc = {}"
  shows "addAll scene_addElement es sc =
    Inr (sc\<lparr>sc_elementWidgets := sc_elementWidgets sc \<union> set es, sc_items := sc_items sc \<union> ElementItem ` set es\<rparr>)"
  using assms
proof (induction es arbitrary: sc)
  case (Cons e es)
  let ?sc = "sc\<lparr>sc_elementWidgets := insert e (sc_elementWidgets sc), sc_items := insert (ElementItem e) (sc_items sc)\<rparr>"
  have "addAll scene_addElement (e # es) sc = addAll scene_addElement es ?sc"
    using Cons.prems by (simp add: scene_addElement_def)
  also have "\<dots> = Inr (?sc\<lparr>sc_elementWidgets := sc_elementWidgets ?sc \<union> set es,
      sc_items := sc_items ?sc \<union> ElementItem ` set es\<rparr>)"
    using Cons.prems by (intro Cons.IH) auto
  finally show ?case by simp
qed simp

lemma scene_addConnection_ok:
  assumes "conn_between w c p q" "shown_elements w \<subseteq> sc_elementWidgets sc" "c \<notin> sc_connectionLines sc"
  shows "\<exists>sc'. scene_addConnection w c sc = Inr sc' \<and> sc_items sc' = insert (LineItem c) (sc_items sc) \<and>
    sc_elementWidgets sc' = sc_elementWidgets sc \<and> sc_connectionLines sc' = insert c (sc_connectionLines sc)"
proof -
  have "op_owner (opins w p) \<in> shown_elements w" "ip_owner (ipins w q) \<in> shown_elements w"
    using assms(1) by (auto simp: conn_between_def shown_elements_def is_child_def)
  with assms show ?thesis
    by (auto simp: scene_addConnection_def conn_between_def addLine_def Let_def)
qed

lemma addAll_connections:
  assumes "\<forall>c \<in> set cs. \<exists>p q. conn_between w c p q" "distinct cs" "set cs \<inter> sc_connectionLines sc = {}"
    and "shown_elements w \<subseteq> sc_elementWidgets sc"
  shows "\<exists>sc'. addAll (scene_addConnection w) cs sc = Inr sc' \<and> sc_items sc' = sc_items sc \<union> LineItem ` set cs \<and>
    sc_elementWidgets sc' = sc_elementWidgets sc \<and> sc_connectionLines sc' = sc_connectionLines sc \<union> set cs"
  using assms
proof (induction cs arbitrary: sc)
  case (Cons c cs)
  obtain p q where "conn_between w c p q" using Cons.prems(1) by auto
  from scene_addConnection_ok [OF this Cons.prems(4)] Cons.prems(3) obtain sc1 where
    s1: "scene_addConnection w c sc = Inr sc1" "sc_items sc1 = insert (LineItem c) (sc_items sc)"
      "sc_elementWidgets sc1 = sc_elementWidgets sc" "sc_connectionLines sc1 = insert c (sc_connectionLines sc)" by auto
  have "\<exists>sc'. addAll (scene_addConnection w) cs sc1 = Inr sc' \<and> sc_items sc' = sc_items sc1 \<union> LineItem ` set cs \<and>
    sc_elementWidgets sc' = sc_elementWidgets sc1 \<and> sc_connectionLines sc' = sc_connectionLines sc1 \<union> set cs"
    using Cons.prems by (intro Cons.IH) (auto simp: s1)
  with s1 show ?case by auto
qed simp

lemma wired_connection_refs:
  assumes "wired w"
  shows "distinct (map snd (connections w))" "distinct (map snd (children w))"
proof -
  have "i = j" if "(i, c) \<in> set (connections w)" "(j, c) \<in> set (connections w)" for i j c
    using wired_connection(1) [OF assms that(1)] wired_connection(1) [OF assms that(2)] by simp
  then have "inj_on snd (set (connections w))" by (auto simp: inj_on_def)
  moreover have "distinct (connections w)"
    using qm_inv_distinct [OF wired_maps(2) [OF assms]] by (simp add: distinct_map)
  ultimately show "distinct (map snd (connections w))" by (simp add: distinct_map)
  have "i = j" if "(i, e) \<in> set (children w)" "(j, e) \<in> set (children w)" for i j e
    using wired_maps(4) [OF assms that(1)] wired_maps(4) [OF assms that(2)] by simp
  then have "inj_on snd (set (children w))" by (auto simp: inj_on_def)
  moreover have "distinct (children w)"
    using qm_inv_distinct [OF wired_maps(1) [OF assms]] by (simp add: distinct_map)
  ultimately show "distinct (map snd (children w))" by (simp add: distinct_map)
qed

lemma setPipeline_in_view:
  assumes "wired w"
  shows "\<exists>sc. setPipeline w PipelineScene_new = Inr sc \<and> in_view (w, sc)"
proof -
  let ?es = "map snd (children w)" and ?cs = "map snd (connections w)"
  let ?sc = "PipelineScene_new\<lparr>sc_elementWidgets := set ?es, sc_items := ElementItem ` set ?es\<rparr>"
  have "addAll scene_addElement ?es PipelineScene_new = Inr ?sc"
    using addAll_elements [of ?es PipelineScene_new] wired_connection_refs(2) [OF assms] by (simp add: PipelineScene_new_def)
  moreover have "\<exists>sc'. addAll (scene_addConnection w) ?cs ?sc = Inr sc' \<and> sc_items sc' = sc_items ?sc \<union> LineItem ` set ?cs \<and>
      sc_elementWidgets sc' = sc_elementWidgets ?sc \<and> sc_connectionLines sc' = sc_connectionLines ?sc \<union> set ?cs"
    using wired_connection_refs(1) [OF assms] wired_connection(3) [OF assms]
    by (intro addAll_connections) (auto simp: PipelineScene_new_def shown_elements_def)
  moreover have "c < nextConn w" if "c \<in> set ?cs" for c using that wired_connection(2) [OF assms] by auto
  ultimately show ?thesis
    by (auto simp: setPipeline_def in_view_def shown_elements_def shown_connections_def PipelineScene_new_def)
qed

section \<open>Editing keeps the view\<close>

lemma emitted: "signals w' = signals w @ sgs \<Longrightarrow> notified w w' sc = scene_slots w w' sgs sc"
  by (simp add: notified_def)

lemma dropEvent_in_view:
  assumes "wired w" "in_view (w, sc)" "construct name = Some e" "addable w e" "e \<notin> sc_elementWidgets sc"
  shows "\<exists>ed. dropEvent construct name (w, sc) = Inr ed \<and> in_view ed \<and> wired (fst ed)"
proof (cases "pl_running w")
  case True
  with assms show ?thesis by (simp add: dropEvent_def)
next
  case False
  let ?i = "newElementId e w" and ?w = "emit (elementAdded (newElementId e w)) (inserted e w)"
  have can: "canAddElement e w" using assms(4) by (simp add: addable_def)
  note fresh = newElementId_fresh [OF assms(1) can]
  have ch: "children (inserted e w) = qm_insert ?i e (children w)" by (simp add: inserted_simps)
  have m: "map_of (children (inserted e w)) ?i = Some e"
    unfolding ch map_of_qm_insert [OF wired_maps(1) [OF assms(1)]] by simp
  have "signals ?w = signals w @ [elementAdded ?i]" by (simp add: emit_def inserted_def upd_elem_def)
  then have n: "notified w ?w sc = scene_addElement e sc"
    by (simp add: emitted scene_slot_def m split: sum.split)
  have "set (children (inserted e w)) = insert (?i, e) (set (children w))"
    using qm_insert_mem [OF fresh] by (auto simp: ch)
  then have "shown_elements ?w = insert e (shown_elements w)" by (simp add: shown_elements_def)
  moreover have "shown_connections ?w = shown_connections w" "nextConn ?w = nextConn w"
    by (simp_all add: shown_connections_def inserted_simps)
  moreover have "wired ?w" using addElement_wired [OF assms(1,4)] addElement_eq [OF can] by simp
  ultimately show ?thesis
    using False assms(2,3,5)
    by (auto simp: dropEvent_def addElement_eq [OF can] after_edit_def n scene_addElement_def in_view_def)
qed

text \<open>When the test before it allows the connection, \<open>connectPins\<close> does not throw.\<close>

lemma canConnectPins_again:
  "canConnectPins qt p q w = ((True, msg), w1) \<Longrightarrow> fst (fst (canConnectPins qt p q w1))"
  by (auto simp: canConnectPins_def pinObjection_def typeObjection_def setTypeId_def Let_def upd_ipin_def
      ipin_isConnected_def split: if_splits prod.splits option.splits)

lemma canConnectPins_retypes: "\<exists>t. snd (canConnectPins qt p q w) = retyped q t w"
proof -
  obtain t where "snd (pinObjection qt p q w) = retyped q t w" using pinObjection_retypes [of qt p q w] by blast
  then show ?thesis
    using retyped_same [of q w, symmetric]
    by (auto simp: canConnectPins_def Let_def split: prod.splits option.splits)
qed

lemma retyped_fields:
  "children (retyped q t w) = children w" "connections (retyped q t w) = connections w"
  "nextConn (retyped q t w) = nextConn w" "inputPins e (retyped q t w) = inputPins e w"
  "outputPins e (retyped q t w) = outputPins e w" "is_child (retyped q t w) e = is_child w e"
  by (simp_all add: retyped_def inputPins_def outputPins_def is_child_def)

lemma connect_in_view:
  assumes w: "wired w" and v: "in_view (w, sc)"
    and e: "is_child w e" "p \<in> set (outputPins e w)" and e': "is_child w e'" "q \<in> set (inputPins e' w)"
    and r: "connectPins qt p q w = (Inr i, w')"
  shows "\<exists>ed. after_edit w (connectPins qt p q w) sc = Inr ed \<and> in_view ed \<and> wired (fst ed)"
proof -
  from r obtain t where w': "w' = plugged i p q t w"
    by (cases rule: connectPins_cases [OF r]) auto
  have i: "i \<notin> fst ` set (connections w)" by (rule connectPins_fresh [OF w r])
  have wi: "wired w'" using connectPins_wired [OF w e e', of qt] r by simp
  have new: "(i, nextConn w) \<in> set (connections w')" using qm_insert_mem [OF i] by (simp add: w')
  from wired_connection(3) [OF wi new] obtain p' q' where b: "conn_between w' (nextConn w) p' q'" by blast
  have m: "map_of (connections w') i = Some (nextConn w)" by (rule wired_connection(4) [OF wi new])
  have "signals w' = signals w @ [connectionAdded i]"
    by (simp add: w' plugged_def emit_def linked_def addConnection_def retyped_def allocated_def upd_ipin_def upd_opin_def)
  then have n: "notified w w' sc = scene_addConnection w' (nextConn w) sc"
    by (simp add: emitted scene_slot_def m split: sum.split)
  have sub: "shown_elements w' \<subseteq> sc_elementWidgets sc" "nextConn w \<notin> sc_connectionLines sc"
    using v by (auto simp: in_view_def shown_elements_def w')
  from scene_addConnection_ok [OF b sub] obtain sc' where s: "scene_addConnection w' (nextConn w) sc = Inr sc'"
    "sc_items sc' = insert (LineItem (nextConn w)) (sc_items sc)" "sc_elementWidgets sc' = sc_elementWidgets sc"
    "sc_connectionLines sc' = insert (nextConn w) (sc_connectionLines sc)" by blast
  have "set (connections w') = insert (i, nextConn w) (set (connections w))"
    using qm_insert_mem [OF i] by (auto simp: w')
  then have "shown_connections w' = insert (nextConn w) (shown_connections w)" by (simp add: shown_connections_def)
  moreover have "shown_elements w' = shown_elements w" by (simp add: shown_elements_def w')
  moreover have "nextConn w' = Suc (nextConn w)" by (simp add: w')
  ultimately have "in_view (w', sc')" using v by (auto simp: in_view_def s less_Suc_eq)
  with wi show ?thesis by (simp add: after_edit_def r n s(1))
qed

lemma handleConnectionCreation_in_view:
  assumes w: "wired w" and v: "in_view (w, sc)"
    and e: "is_child w e" "p \<in> set (outputPins e w)" and e': "is_child w e'" "q \<in> set (inputPins e' w)"
  shows "case handleConnectionCreation qt (OutputPinWidget p) (InputPinWidget q) (w, sc) of
      Inr ed \<Rightarrow> in_view ed \<and> wired (fst ed) | Inl x \<Rightarrow> (\<exists>msg. x = NonFatalException msg)"
proof -
  obtain ok msg w1 where c: "canConnectPins qt p q w = ((ok, msg), w1)" by (metis prod.collapse)
  show ?thesis
  proof (cases "pl_running w \<or> \<not> ok")
    case True
    with c show ?thesis by (auto simp: handleConnectionCreation_def)
  next
    case False
    obtain t where t: "w1 = retyped q t w" using canConnectPins_retypes [of qt p q w] c by auto
    have w1: "wired w1" unfolding t by (rule wired_same [OF w same_wiring_retyped])
    have v1: "in_view (w1, sc)"
      using v by (simp add: in_view_def t shown_elements_def shown_connections_def retyped_fields)
    from False c canConnectPins_again [of qt p q w msg w1] obtain i w' where "connectPins qt p q w1 = (Inr i, w')"
      by (auto simp: connectPins_iff)
    from connect_in_view [OF w1 v1 _ _ _ _ this, of e e'] e e' obtain ed where
      "after_edit w1 (connectPins qt p q w1) sc = Inr ed" "in_view ed" "wired (fst ed)"
      by (auto simp: t retyped_fields)
    with False c show ?thesis by (simp add: handleConnectionCreation_def)
  qed
qed

text \<open>Removing an element: the connections first, then the element.\<close>

lemma removeElement_run:
  assumes w: "wired w" and e: "is_child w e"
  obtains w1 w' "is" where "removeConnectionsForElement e w = (Inr (), w1)" "wired w1" "fewer w w1" "isolated w1 e"
    "removeElement (el_id (elems w e)) w = (Inr (), w')" "wired w'" "dropped is w w1"
    "signals w' = signals w @ map connectionRemoved is @ [elementRemoved (el_id (elems w e))]"
    "children w' = qm_remove (el_id (elems w e)) (children w1)" "connections w' = connections w1"
    "nextConn w' = nextConn w1" "conns w' = conns w1"
proof -
  let ?i = "el_id (elems w e)"
  from removeConnectionsForElement_wired [OF w e] obtain w1 where
    w1: "removeConnectionsForElement e w = (Inr (), w1)" "wired w1" "fewer w w1" "isolated w1 e" by blast
  from removeConnectionsForElement_drops [OF w1(1)] wired_ids_ok [OF w] obtain "is" where d: "dropped is w w1"
    by (auto simp: drops_def)
  obtain w' where w': "removeElement ?i w = (Inr (), w')" "wired w'" using removeElement_wired [OF w] by blast
  have eq: "w' = emit (elementRemoved ?i) (w1\<lparr>children := qm_remove ?i (children w1),
      producers := (if qm_contains ?i (producers w1) then qm_remove ?i (producers w1) else producers w1),
      processors := (if \<not> qm_contains ?i (producers w1) \<and> qm_contains ?i (processors w1)
                     then qm_remove ?i (processors w1) else processors w1), pl_changed := True\<rparr>)"
    using w'(1) wired_child(2) [OF w e] w1(1) by (simp add: removeElement_def monad_defs)
  show ?thesis
    by (rule that [OF w1 w' d]) (use d in \<open>simp_all add: eq emit_def dropped_def\<close>)
qed

lemma scene_removeElement_run:
  assumes w: "wired w" and v: "in_view (w, sc)" and e: "is_child w e"
  shows "\<exists>w' sc'. scene_removeElement e (w, sc) = Inr (w', sc') \<and> in_view (w', sc') \<and> wired w' \<and>
    sc_connectionLines sc' = sc_connectionLines sc \<and> sc_elementWidgets sc' = sc_elementWidgets sc"
proof -
  let ?i = "el_id (elems w e)"
  from removeElement_run [OF w e] obtain w1 w' "is" where r:
    "wired w1" "removeElement ?i w = (Inr (), w')" "wired w'" "dropped is w w1"
    "signals w' = signals w @ map connectionRemoved is @ [elementRemoved ?i]"
    "children w' = qm_remove ?i (children w1)" "connections w' = connections w1" "nextConn w' = nextConn w1"
    by metis
  from notified_dropped [OF r(4) wired_ids_ok [OF w] v] obtain sc1 where sc1:
    "scene_slots w w' (map connectionRemoved is) sc = Inr sc1" "in_view (w1, sc1)"
    "sc_connectionLines sc1 = sc_connectionLines sc" "sc_elementWidgets sc1 = sc_elementWidgets sc" by blast
  let ?sc = "handleRemoveElement e sc1"
  have n: "notified w w' sc = Inr ?sc"
    using sc1(1) by (simp add: emitted [OF r(5)] scene_slots_append scene_slot_def wired_child(2) [OF w e])
  have ch: "children w1 = children w" using r(4) by (simp add: dropped_def)
  have "shown_elements w' = shown_elements w1 - {e}"
  proof -
    have "(j, x) \<in> set (children w) \<Longrightarrow> j = ?i \<longleftrightarrow> x = e" for j x
      using wired_maps(4) [OF w] wired_child(2) [OF w e] qm_inv_distinct [OF wired_maps(1) [OF w]]
      by (metis map_of_eq_Some_iff option.inject)
    then show ?thesis by (force simp: shown_elements_def r(6) ch qm_remove_def image_iff)
  qed
  moreover have "shown_connections w' = shown_connections w1" by (simp add: shown_connections_def r(7))
  ultimately have "in_view (w', ?sc)"
    using sc1(2) by (auto simp: in_view_def handleRemoveElement_def r(8))
  with r(2,3) n sc1(3,4) show ?thesis
    by (auto simp: scene_removeElement_def after_edit_def handleRemoveElement_def)
qed

lemma scene_removeConnection_in_view:
  assumes w: "wired w" and v: "in_view (w, sc)" and ic: "(i, c) \<in> set (connections w)"
  shows "\<exists>ed. scene_removeConnection c (w, sc) = Inr ed \<and> in_view ed \<and> wired (fst ed) \<and> children (fst ed) = children w"
proof -
  from threadUnsafeDisconnect_wired [OF w ic] obtain p q where b: "conn_between w c p q"
    and u: "threadUnsafeDisconnect i w = (Inr (), unplugged i c p q w)" "wired (unplugged i c p q w)" by blast
  let ?w = "unplugged i c p q w"
  have id: "c_id (conns w c) = i" by (rule wired_connection(1) [OF w ic])
  have line: "c \<in> sc_connectionLines sc" using v ic by (force simp: in_view_def shown_connections_def)
  have ends: "c_producer (conns w c) = Some p" "c_consumer (conns w c) = Some q" using b by (simp_all add: conn_between_def)
  let ?sc1 = "removeLine (ip_owner (ipins w q)) c (removeLine (op_owner (opins w p)) c
      (sc\<lparr>sc_connectionLines := sc_connectionLines sc - {c}\<rparr>))"
  have "signals ?w = signals w @ [connectionRemoved i]"
    by (simp add: unplugged_def emit_def upd_conn_def upd_ipin_def upd_opin_def)
  then have "notified w ?w ?sc1 = Inr ?sc1"
    by (simp add: emitted scene_slot_def wired_connection(4) [OF w ic] handleRemoveConnection_def removeLine_def)
  then have r: "scene_removeConnection c (w, sc) = Inr (?w, ?sc1\<lparr>sc_items := sc_items ?sc1 - {LineItem c}\<rparr>)"
    using line ends u(1) by (simp add: scene_removeConnection_def Let_def id pinConnectionDisconnect_def after_edit_def)
  have "shown_connections ?w = shown_connections w - {c}"
  proof -
    have "(j, x) \<in> set (connections w) \<Longrightarrow> j = i \<longleftrightarrow> x = c" for j x
      using wired_connection(1,4) [OF w ic] wired_connection(1,4) [OF w] by (metis option.inject)
    then show ?thesis by (force simp: shown_connections_def qm_remove_def image_iff)
  qed
  moreover have "shown_elements ?w = shown_elements w" by (simp add: shown_elements_def)
  ultimately have "in_view (?w, ?sc1\<lparr>sc_items := sc_items ?sc1 - {LineItem c}\<rparr>)"
    using v by (auto simp: in_view_def removeLine_def)
  with r u(2) show ?thesis by simp
qed

lemma scene_removeConnection_item:
  "scene_removeConnection c ed = Inr ed' \<Longrightarrow> LineItem c \<notin> sc_items (snd ed')"
  by (auto simp: scene_removeConnection_def map_sum_def Let_def split: sum.splits option.splits if_splits prod.splits)

section \<open>Deleting an element and its connection\<close>

lemma connection_gone:
  assumes w: "wired w" and ic: "(i, c) \<in> set (connections w)" and b: "conn_between w c p q"
    and w1: "wired w1" "fewer w w1" "isolated w1 (op_owner (opins w p))"
  shows "(i, c) \<notin> set (connections w1)"
proof
  assume "(i, c) \<in> set (connections w1)"
  then obtain p' q' where b': "conn_between w1 c p' q'" using wired_connection(3) [OF w1(1)] by blast
  let ?e' = "op_owner (opins w1 p')"
  have "is_child w ?e'" "p' \<in> set (outputPins ?e' w)" "c \<in> set (op_connections (opins w p'))"
    using b' fewer_pins [OF w1(2)] w1(2) by (auto simp: conn_between_def fewer_def)
  then have "c_producer (conns w c) = Some p'" using wired_output(1) [OF w] by (auto simp: out_linked_def)
  with b have "p' = p" by (simp add: conn_between_def)
  moreover have "p \<in> set (outputPins (op_owner (opins w p)) w1)"
    using b fewer_pins [OF w1(2)] by (simp add: conn_between_def)
  ultimately show False using b' w1(3) by (simp add: isolated_def conn_between_def)
qed

text \<open>Both orders of the selected items: the connection first is fine, the element first leaves the scene with a line
  whose connection has no pins.\<close>

lemma delete_connection_first:
  assumes w: "wired w" and v: "in_view (w, sc)" and ic: "(i, c) \<in> set (connections w)" and e: "is_child w e"
  shows "\<exists>ed. deleteItems [LineItem c, ElementItem e] (w, sc) = Inr ed \<and> in_view ed \<and> wired (fst ed)"
proof -
  from scene_removeConnection_in_view [OF w v ic] obtain w1 sc1 where
    1: "scene_removeConnection c (w, sc) = Inr (w1, sc1)" "in_view (w1, sc1)" "wired w1" "children w1 = children w"
    by auto
  have "is_child w1 e" using e 1(4) by (simp add: is_child_def)
  from scene_removeElement_run [OF 1(3,2) this] 1(1) show ?thesis by auto
qed

lemma delete_element_first:
  assumes w: "wired w" and v: "in_view (w, sc)" and ic: "(i, c) \<in> set (connections w)" and b: "conn_between w c p q"
  shows "deleteItems (ElementItem (op_owner (opins w p)) # LineItem c # items) (w, sc) = Inl NullWidget"
proof -
  let ?e = "op_owner (opins w p)"
  have e: "is_child w ?e" using b by (simp add: conn_between_def)
  from removeElement_run [OF w e] obtain w1 w' "is" where r: "wired w1" "fewer w w1" "isolated w1 ?e"
    "removeElement (el_id (elems w ?e)) w = (Inr (), w')" "dropped is w w1" "conns w' = conns w1" by metis
  have "(i, c) \<notin> set (connections w1)" by (rule connection_gone [OF w ic b r(1-3)])
  with r(5) ic have "c_producer (conns w' c) = None" by (auto simp: dropped_def r(6))
  moreover from scene_removeElement_run [OF w v e] r(4) obtain sc' where
    sc': "scene_removeElement ?e (w, sc) = Inr (w', sc')" "sc_connectionLines sc' = sc_connectionLines sc"
    by (auto simp: scene_removeElement_def after_edit_def map_sum_def split: sum.splits)
  moreover have "c \<in> sc_connectionLines sc" using v ic by (force simp: in_view_def shown_connections_def)
  ultimately show ?thesis by (simp add: scene_removeConnection_def)
qed

section \<open>A session of editing\<close>

text \<open>Only new elements are dropped, and only items that are on the scene can be selected.\<close>

inductive edit_step :: "(string \<Rightarrow> ref option) \<Rightarrow> QMetaType \<Rightarrow> 'v editor \<Rightarrow> 'v editor \<Rightarrow> bool"
  for construct :: "string \<Rightarrow> ref option" and qt :: QMetaType where
  drop: "construct name = Some e \<Longrightarrow> addable (fst ed) e \<Longrightarrow> e \<notin> sc_elementWidgets (snd ed) \<Longrightarrow>
    dropEvent construct name ed = Inr ed' \<Longrightarrow> edit_step construct qt ed ed'"
| connect: "is_child (fst ed) e \<Longrightarrow> p \<in> set (outputPins e (fst ed)) \<Longrightarrow>
    is_child (fst ed) e' \<Longrightarrow> q \<in> set (inputPins e' (fst ed)) \<Longrightarrow>
    handleConnectionCreation qt (OutputPinWidget p) (InputPinWidget q) ed = Inr ed' \<Longrightarrow> edit_step construct qt ed ed'"
| delete: "item \<in> sc_items (snd ed) \<Longrightarrow> deleteSelected [item] ed = Inr ed' \<Longrightarrow> edit_step construct qt ed ed'"

text \<open>What is selected can be deleted.\<close>

lemma delete_item_in_view:
  assumes w: "wired w" and v: "in_view (w, sc)" and it: "item \<in> sc_items sc"
  shows "\<exists>ed. deleteSelected [item] (w, sc) = Inr ed \<and> in_view ed \<and> wired (fst ed)"
proof (cases "pl_running w")
  case True
  with w v show ?thesis by (simp add: deleteSelected_def)
next
  case False
  show ?thesis
  proof (cases item)
    case (ElementItem e)
    with it v have "is_child w e" by (auto simp: in_view_def shown_elements_def is_child_def)
    from scene_removeElement_run [OF w v this] False ElementItem show ?thesis by (auto simp: deleteSelected_def)
  next
    case (LineItem c)
    with it v obtain i where "(i, c) \<in> set (connections w)" by (auto simp: in_view_def shown_connections_def)
    from scene_removeConnection_in_view [OF w v this] False LineItem show ?thesis by (auto simp: deleteSelected_def)
  qed
qed

lemma edit_step_in_view:
  assumes "edit_step construct qt ed ed'" "wired (fst ed)" "in_view ed"
  shows "in_view ed' \<and> wired (fst ed')"
  using assms
proof (induction rule: edit_step.induct)
  case (drop name e ed ed')
  then show ?case using dropEvent_in_view [of "fst ed" "snd ed" construct name e] by auto
next
  case (connect ed e p e' q ed')
  then show ?case using handleConnectionCreation_in_view [of "fst ed" "snd ed" e p e' q qt] by auto
next
  case (delete item ed ed')
  then show ?case using delete_item_in_view [of "fst ed" "snd ed" item] by auto
qed

lemma session_in_view:
  assumes "(edit_step construct qt)\<^sup>*\<^sup>* ed ed'" "wired (fst ed)" "in_view ed"
  shows "in_view ed' \<and> wired (fst ed')"
  using assms by (induction rule: rtranclp_induct) (auto intro: edit_step_in_view [THEN conjunct1] edit_step_in_view [THEN conjunct2])

end
