(* ===== verification/Tcp_Produce.thy ===== *)
theory Tcp_Produce
  imports Tcp_Client Plugin_Io
begin

text \<open>
  The client as an element of a pipeline (\<open>TCPClientProducer.cpp\<close>): starting and stopping the connection, its errors,
  and \<open>produce\<close>, which puts the values of a frame on the output pins by their types.  The socket is described by the
  answers of its calls.
\<close>

section \<open>Settings and errors\<close>

datatype SocketError = RemoteHostClosedError | HostNotFoundError | ConnectionRefusedError | OtherSocketError string

record client_settings =
  cs_ipAddress :: string
  cs_port :: int
  cs_autoReconnect :: bool

definition client_settings_new :: client_settings where
  "client_settings_new = \<lparr>cs_ipAddress = ''127.0.0.1'', cs_port = 1337, cs_autoReconnect = False\<rparr>"

definition cs_setPort :: "int \<Rightarrow> client_settings \<Rightarrow> client_settings" where
  "cs_setPort p c = c\<lparr>cs_port := p\<rparr>"

definition cs_setServerIP :: "string \<Rightarrow> client_settings \<Rightarrow> client_settings" where
  "cs_setServerIP ip c = c\<lparr>cs_ipAddress := ip\<rparr>"

definition cs_setAutoReconnect :: "bool \<Rightarrow> client_settings \<Rightarrow> client_settings" where
  "cs_setAutoReconnect ar c = c\<lparr>cs_autoReconnect := ar\<rparr>"

definition socket_message :: "SocketError \<Rightarrow> string" where
  "socket_message e =
     (case e of
        RemoteHostClosedError \<Rightarrow> ''The remote host closed the connection.''
      | HostNotFoundError \<Rightarrow> ''The host was not found. Please check the host name and port settings.''
      | ConnectionRefusedError \<Rightarrow> ''The connection was refused by the peer. Make sure the Parlevision server is '' @
          ''running, and check that the host name and port settings are correct.''
      | OtherSocketError msg \<Rightarrow> ''The following error occurred: '' @ msg @ ''.'')"

text \<open>The error that is set, if any, and whether \<open>onError\<close> is emitted.\<close>

definition displayError :: "client_settings \<Rightarrow> SocketError \<Rightarrow> bool \<Rightarrow> (PlvErrorType \<times> string) option \<times> bool" where
  "displayError c e sig =
     (if \<not> cs_autoReconnect c then (Some (PlvPipelineRuntimeError, socket_message e), sig) else (None, False))"

section \<open>Starting and stopping\<close>

text \<open>\<open>outcome\<close> is what \<open>waitForConnected\<close> ends with.  The error signal of the socket calls \<open>displayError\<close> as well, so
  that the message is set twice.\<close>

definition client_start ::
    "SocketError option \<Rightarrow> client_settings \<Rightarrow> 'v TCPClientProducer \<Rightarrow>
     bool \<times> (PlvErrorType \<times> string) option \<times> client_settings \<times> 'v TCPClientProducer" where
  "client_start outcome s c =
     (let s1 = (if cs_ipAddress s = '''' then s\<lparr>cs_ipAddress := ''127.0.0.1''\<rparr> else s);
          c1 = (if cl_in c \<noteq> [] then c\<lparr>cl_in := [], cl_blockSize := 0\<rparr> else c)
      in case outcome of
           None \<Rightarrow> (True, None, s1, c1)
         | Some e \<Rightarrow> if cs_autoReconnect s1 then (True, None, s1, c1)
                    else (False, fst (displayError s1 e False), s1, c1))"

definition client_stop ::
    "SocketError option \<Rightarrow> client_settings \<Rightarrow> 'v TCPClientProducer \<Rightarrow>
     bool \<times> (PlvErrorType \<times> string) option \<times> 'v TCPClientProducer" where
  "client_stop outcome s c =
     (case outcome of
        None \<Rightarrow> (True, None, c\<lparr>cl_in := []\<rparr>)
      | Some e \<Rightarrow> (False, fst (displayError s e False), c\<lparr>cl_in := [], cl_blockSize := 0\<rparr>))"

text \<open>\<open>unconnected\<close>: the socket is not connected; \<open>reconnects\<close>: the attempt that the call makes then succeeds.\<close>

definition client_readyToProduce :: "bool \<Rightarrow> bool \<Rightarrow> 'v TCPClientProducer \<Rightarrow> bool" where
  "client_readyToProduce unconnected reconnects c =
     (if unconnected \<and> \<not> reconnects then False else m_frameList c \<noteq> [])"

text \<open>A size that was read before the connection ended survives \<open>start\<close> when no byte is left in the socket.\<close>

lemma start_keeps_block_size:
  "cl_in c = [] \<Longrightarrow> cl_blockSize (snd (snd (snd (client_start outcome s c)))) = cl_blockSize c"
  by (auto simp: client_start_def Let_def split: option.split)

lemma start_fails_iff:
  "\<not> fst (client_start outcome s c) \<longleftrightarrow> outcome \<noteq> None \<and> \<not> cs_autoReconnect s"
  by (auto simp: client_start_def Let_def split: option.split)

section \<open>Putting a frame\<close>

record client_pin =
  cp_out :: ref
  cp_outName :: string
  cp_typeId :: int

text \<open>The inner loop: the first pin, in the order of the ids, that has the type and is not taken.\<close>

definition matchingPin :: "client_pin list \<Rightarrow> string list \<Rightarrow> int \<Rightarrow> client_pin option" where
  "matchingPin pins taken t = find (\<lambda>p. cp_outName p \<notin> set taken \<and> cp_typeId p = t) pins"

fun putFrame :: "('v \<Rightarrow> int) \<Rightarrow> client_pin list \<Rightarrow> string list \<Rightarrow> 'v list \<Rightarrow> ('v, 's, unit) proc" where
  "putFrame userType pins taken [] = retP ()"
| "putFrame userType pins taken (v # frame) =
     (case matchingPin pins taken (userType v) of
        None \<Rightarrow> putFrame userType pins taken frame
      | Some p \<Rightarrow> seqP (putP (cp_out p) v) (putFrame userType pins (cp_outName p # taken) frame))"

text \<open>\<open>takeFirst\<close> asserts that the list is not empty.\<close>

definition client_produce :: "('v \<Rightarrow> int) \<Rightarrow> client_pin list \<Rightarrow> ('v, 'v TCPClientProducer, bool) proc" where
  "client_produce userType pins =
     bindP (getP m_frameList) (\<lambda>frames.
       case frames of
         [] \<Rightarrow> throwP AssertFailed
       | frame # rest \<Rightarrow>
           seqP (modifyP (\<lambda>c. c\<lparr>m_frameList := rest\<rparr>))
          (seqP (putFrame userType pins [] frame) (retP True)))"

section \<open>Which pin gets which value\<close>

text \<open>The specification: the values of a type go to the pins of that type in order.\<close>

definition of_type :: "('v \<Rightarrow> int) \<Rightarrow> int \<Rightarrow> 'v list \<Rightarrow> 'v list" where
  "of_type userType t frame = filter (\<lambda>v. userType v = t) frame"

definition free_pins :: "client_pin list \<Rightarrow> string list \<Rightarrow> int \<Rightarrow> client_pin list" where
  "free_pins pins taken t = filter (\<lambda>p. cp_outName p \<notin> set taken \<and> cp_typeId p = t) pins"

lemma matchingPin_free:
  "matchingPin pins taken t = (case free_pins pins taken t of [] \<Rightarrow> None | p # ps \<Rightarrow> Some p)"
  unfolding matchingPin_def free_pins_def by (induction pins) auto

lemma free_pins_taken:
  assumes "distinct (map cp_outName pins)" "free_pins pins taken t = p # ps"
  shows "free_pins pins (cp_outName p # taken) t = ps"
    and "t' \<noteq> t \<Longrightarrow> free_pins pins (cp_outName p # taken) t' = free_pins pins taken t'"
proof -
  have p: "p \<in> set pins" "cp_typeId p = t"
    using assms(2) unfolding free_pins_def by (auto simp: filter_eq_Cons_iff)
  have same: "q \<in> set pins \<Longrightarrow> cp_outName q = cp_outName p \<Longrightarrow> q = p" for q
    using assms(1) p(1) by (auto simp: distinct_map inj_on_def)
  have "free_pins pins (cp_outName p # taken) t = filter (\<lambda>q. q \<noteq> p) (free_pins pins taken t)"
    unfolding free_pins_def filter_filter by (rule filter_cong) (use same in auto)
  also have "\<dots> = filter (\<lambda>q. q \<noteq> p) ps" using assms(2) by simp
  also have "\<dots> = ps"
  proof -
    have "distinct (p # ps)" using assms unfolding free_pins_def by (metis distinct_filter distinct_map)
    then show ?thesis by (auto intro: filter_True)
  qed
  finally show "free_pins pins (cp_outName p # taken) t = ps" .
  show "free_pins pins (cp_outName p # taken) t' = free_pins pins taken t'" if "t' \<noteq> t"
    unfolding free_pins_def by (rule filter_cong) (use same p that in auto)
qed

lemma play_putFrame:
  assumes "distinct (map cp_outName pins)" "distinct (map cp_out pins)"
    and "\<forall>p \<in> set pins. cp_outName p \<notin> set taken \<longrightarrow> rg_out rg (cp_out p) = None"
  shows "\<exists>rg'. play er (putFrame userType pins taken frame s) rg = ((Inr (), s), rg') \<and>
    (\<forall>t k. k < length (free_pins pins taken t) \<longrightarrow>
       rg_out rg' (cp_out (free_pins pins taken t ! k)) =
         (let vs = of_type userType t frame in if k < length vs then Some (vs ! k) else None)) \<and>
    (\<forall>r. r \<notin> cp_out ` {p \<in> set pins. cp_outName p \<notin> set taken} \<longrightarrow> rg_out rg' r = rg_out rg r)"
  using assms(3)
proof (induction frame arbitrary: taken rg)
  case Nil
  have "rg_out rg (cp_out (free_pins pins taken t ! k)) = None" if "k < length (free_pins pins taken t)" for t k
    using nth_mem [OF that] Nil by (auto simp: free_pins_def)
  then show ?case by (simp add: play_simps of_type_def)
next
  case (Cons v frame)
  show ?case
  proof (cases "free_pins pins taken (userType v)")
    case Nil
    then have "matchingPin pins taken (userType v) = None" by (simp add: matchingPin_free)
    with Cons.IH [OF Cons.prems] Nil show ?thesis by (fastforce simp: of_type_def Let_def)
  next
    case (Cons p ps)
    note free = this
    let ?rg = "rg\<lparr>rg_out := (rg_out rg)(cp_out p := Some v)\<rparr>" and ?taken = "cp_outName p # taken"
    have m: "matchingPin pins taken (userType v) = Some p" using free by (simp add: matchingPin_free)
    have p: "p \<in> set pins" "cp_outName p \<notin> set taken" "cp_typeId p = userType v"
      using free unfolding free_pins_def by (auto simp: filter_eq_Cons_iff)
    have none: "rg_out rg (cp_out p) = None" using Cons.prems p by blast
    have other: "cp_out q \<noteq> cp_out p" if "q \<in> set pins" "q \<noteq> p" for q
      using assms(2) that p(1) by (auto simp: distinct_map inj_on_def)
    have out: "cp_out p \<notin> cp_out ` {q \<in> set pins. cp_outName q \<notin> set ?taken}"
      using other by (auto simp: image_iff) metis
    have "\<forall>q \<in> set pins. cp_outName q \<notin> set ?taken \<longrightarrow> rg_out ?rg (cp_out q) = None"
      using Cons.prems other by auto
    then obtain rg' where r: "play er (putFrame userType pins ?taken frame s) ?rg = ((Inr (), s), rg')"
        "\<forall>t k. k < length (free_pins pins ?taken t) \<longrightarrow> rg_out rg' (cp_out (free_pins pins ?taken t ! k)) =
           (let vs = of_type userType t frame in if k < length vs then Some (vs ! k) else None)"
        "\<forall>r. r \<notin> cp_out ` {q \<in> set pins. cp_outName q \<notin> set ?taken} \<longrightarrow> rg_out rg' r = rg_out ?rg r"
      using Cons.IH by blast
    have "play er (putFrame userType pins taken (v # frame) s) rg = ((Inr (), s), rg')"
      using r(1) none by (simp add: m play_simps view_put_def)
    moreover have "rg_out rg' (cp_out (free_pins pins taken t ! k)) =
        (let vs = of_type userType t (v # frame) in if k < length vs then Some (vs ! k) else None)"
      if "k < length (free_pins pins taken t)" for t k
    proof (cases "t = userType v")
      case False
      then show ?thesis
        using r(2) [rule_format, of k t] that free_pins_taken(2) [OF assms(1) free, of t] by (simp add: of_type_def)
    next
      case True
      show ?thesis
      proof (cases k)
        case 0
        have "rg_out rg' (cp_out p) = Some v" using r(3) out by simp
        with 0 True free show ?thesis by (simp add: of_type_def)
      next
        case (Suc j)
        then show ?thesis
          using r(2) [rule_format, of j t] that True free free_pins_taken(1) [OF assms(1) free]
          by (simp add: of_type_def Let_def)
      qed
    qed
    moreover have "rg_out rg' r = rg_out rg r" if "r \<notin> cp_out ` {q \<in> set pins. cp_outName q \<notin> set taken}" for r
    proof -
      have "r \<noteq> cp_out p" "r \<notin> cp_out ` {q \<in> set pins. cp_outName q \<notin> set ?taken}" using that p by auto
      with r(3) show ?thesis by simp
    qed
    ultimately show ?thesis by blast
  qed
qed

end
