(* ===== verification/Image_Colour.thy ===== *)
theory Image_Colour
  imports Image_Filters
begin

text \<open>
  The processors \<open>ImageColorConvert\<close> (\<open>ImageColorConvert.cpp\<close>), with its tables of the channels that a conversion
  needs and gives, and \<open>Mask\<close> (\<open>Mask.cpp\<close>).
\<close>

section \<open>Conversions of colours\<close>

text \<open>The constants of OpenCV that the two tables name; \<open>OtherCode\<close> stands for all other numbers.  Which number a
  constant is belongs to OpenCV: \<open>codes\<close> gives the constant for a number.\<close>

datatype ColourCode =
    CV_GRAY2BGRA | CV_GRAY2BGR | CV_GRAY2BGR565 | CV_GRAY2BGR555 | CV_BayerBG2BGR | CV_BayerGB2BGR |
    CV_BayerRG2BGR | CV_BayerGR2BGR | CV_BGR5652BGRA | CV_BGR5552BGRA | CV_BGR5652RGBA | CV_BGR5552RGBA |
    CV_BGR5652BGR | CV_BGR5552BGR | CV_BGR5652RGB | CV_BGR5552RGB | CV_BGR5652GRAY | CV_BGR5552GRAY |
    CV_BGR2BGRA | CV_RGB2BGRA | CV_BGR2YCrCb | CV_RGB2YCrCb | CV_BGR2XYZ | CV_RGB2XYZ | CV_BGR2HSV |
    CV_RGB2HSV | CV_BGR2Lab | CV_RGB2Lab | CV_BGR2Luv | CV_RGB2Luv | CV_BGR2HLS | CV_RGB2HLS | CV_RGB2BGR |
    CV_BGR2BGR565 | CV_BGR2BGR555 | CV_RGB2BGR565 | CV_RGB2BGR555 | CV_BGR2GRAY | CV_RGB2GRAY | CV_YCrCb2BGR |
    CV_YCrCb2RGB | CV_XYZ2BGR | CV_XYZ2RGB | CV_HSV2BGR | CV_HSV2RGB | CV_Lab2BGR | CV_Lab2RGB | CV_Luv2BGR |
    CV_Luv2RGB | CV_HLS2BGR | CV_HLS2RGB | CV_BGRA2RGBA | CV_BGRA2BGR | CV_RGBA2BGR | CV_BGRA2BGR565 |
    CV_BGRA2BGR555 | CV_RGBA2BGR565 | CV_RGBA2BGR555 | CV_BGRA2GRAY | CV_RGBA2GRAY | OtherCode

definition getInChannels :: "ColourCode \<Rightarrow> int" where
  "getInChannels code =
    (if code \<in> {CV_GRAY2BGRA, CV_GRAY2BGR, CV_GRAY2BGR565, CV_GRAY2BGR555, CV_BayerBG2BGR, CV_BayerGB2BGR,
      CV_BayerRG2BGR, CV_BayerGR2BGR} then 1
     else if code \<in> {CV_BGR5652BGRA, CV_BGR5552BGRA, CV_BGR5652RGBA, CV_BGR5552RGBA, CV_BGR5652BGR, CV_BGR5552BGR,
      CV_BGR5652RGB, CV_BGR5552RGB, CV_BGR5652GRAY, CV_BGR5552GRAY} then 2
     else if code \<in> {CV_BGR2BGRA, CV_RGB2BGRA, CV_BGR2YCrCb, CV_RGB2YCrCb, CV_BGR2XYZ, CV_RGB2XYZ, CV_BGR2HSV, CV_RGB2HSV,
      CV_BGR2Lab, CV_RGB2Lab, CV_BGR2Luv, CV_RGB2Luv, CV_BGR2HLS, CV_RGB2HLS, CV_RGB2BGR, CV_BGR2BGR565,
      CV_BGR2BGR555, CV_RGB2BGR565, CV_RGB2BGR555, CV_BGR2GRAY, CV_RGB2GRAY, CV_YCrCb2BGR, CV_YCrCb2RGB,
      CV_XYZ2BGR, CV_XYZ2RGB, CV_HSV2BGR, CV_HSV2RGB, CV_Lab2BGR, CV_Lab2RGB, CV_Luv2BGR, CV_Luv2RGB,
      CV_HLS2BGR, CV_HLS2RGB} then 3
     else if code \<in> {CV_BGRA2RGBA, CV_BGRA2BGR, CV_RGBA2BGR, CV_BGRA2BGR565, CV_BGRA2BGR555, CV_RGBA2BGR565, CV_RGBA2BGR555,
      CV_BGRA2GRAY, CV_RGBA2GRAY} then 4
     else - 1)"

definition getOutChannels :: "ColourCode \<Rightarrow> int" where
  "getOutChannels code =
    (if code \<in> {CV_BGR2BGRA, CV_RGB2BGRA, CV_BGRA2RGBA, CV_BGR5652BGRA, CV_BGR5552BGRA, CV_BGR5652RGBA, CV_BGR5552RGBA,
      CV_GRAY2BGRA} then 4
     else if code \<in> {CV_BGR2YCrCb, CV_RGB2YCrCb, CV_BGR2XYZ, CV_RGB2XYZ, CV_BGR2HSV, CV_RGB2HSV, CV_BGR2Lab, CV_RGB2Lab,
      CV_BGR2Luv, CV_RGB2Luv, CV_BGR2HLS, CV_RGB2HLS} then 3
     else if code \<in> {CV_BayerBG2BGR, CV_BayerGB2BGR, CV_BayerRG2BGR, CV_BayerGR2BGR, CV_BGRA2BGR, CV_RGBA2BGR, CV_RGB2BGR,
      CV_BGR5652BGR, CV_BGR5552BGR, CV_BGR5652RGB, CV_BGR5552RGB, CV_GRAY2BGR, CV_YCrCb2BGR, CV_YCrCb2RGB,
      CV_XYZ2BGR, CV_XYZ2RGB, CV_HSV2BGR, CV_HSV2RGB, CV_Lab2BGR, CV_Lab2RGB, CV_Luv2BGR, CV_Luv2RGB,
      CV_HLS2BGR, CV_HLS2RGB} then 3
     else if code \<in> {CV_BGR2BGR565, CV_BGR2BGR555, CV_RGB2BGR565, CV_RGB2BGR555, CV_BGRA2BGR565, CV_BGRA2BGR555,
      CV_RGBA2BGR565, CV_RGBA2BGR555, CV_GRAY2BGR565, CV_GRAY2BGR555} then 2
     else if code \<in> {CV_BGR2GRAY, CV_BGRA2GRAY, CV_RGB2GRAY, CV_RGBA2GRAY, CV_BGR5652GRAY, CV_BGR5552GRAY} then 1
     else - 1)"

record ImageColorConvert =
  icc_inChannels :: int
  icc_outChannels :: int
  icc_conversionType :: Enum
  icc_inputPin :: CvPin
  icc_outputPin :: CvPin

text \<open>When nothing valid is selected \<open>getSelectedValue\<close> throws before anything is changed.\<close>

definition setConversionType ::
    "(int \<Rightarrow> ColourCode) \<Rightarrow> Enum \<Rightarrow> ImageColorConvert \<Rightarrow> plv_exn + ImageColorConvert" where
  "setConversionType codes e c =
     map_sum id (\<lambda>v. c\<lparr>icc_inChannels := getInChannels (codes v), icc_outChannels := getOutChannels (codes v),
         icc_inputPin := addSupportedChannels (getInChannels (codes v)) (clearChannels (icc_inputPin c)),
         icc_outputPin := addSupportedChannels (getOutChannels (codes v)) (clearChannels (icc_outputPin c)),
         icc_conversionType := e\<rparr>)
       (getSelectedValue e)"

text \<open>The constructor: the three conversions that can be selected, the first of them at the beginning; \<open>value\<close> is the
  number of a constant.\<close>

definition ImageColorConvert_new ::
    "(ColourCode \<Rightarrow> int) \<Rightarrow> (int \<Rightarrow> ColourCode) \<Rightarrow> int \<Rightarrow> CvPin \<Rightarrow> CvPin \<Rightarrow> plv_exn + ImageColorConvert" where
  "ImageColorConvert_new value codes rgba inputPin outputPin =
     (let e = enum_add ''CV_RGB2BGR'' (value CV_RGB2BGR) (enum_add ''CV_RGB2RGBA'' rgba
            (enum_add ''CV_RGB2GRAY'' (value CV_RGB2GRAY) (enum_new 0)))
      in map_sum id (\<lambda>c. c\<lparr>icc_inputPin := addAllChannels (addAllDepths (icc_inputPin c)),
                            icc_outputPin := addAllChannels (addAllDepths (icc_outputPin c))\<rparr>)
           (setConversionType codes e
             \<lparr>icc_inChannels = 0, icc_outChannels = 0, icc_conversionType = e, icc_inputPin = inputPin,
              icc_outputPin = outputPin\<rparr>))"

definition ImageColorConvert_process ::
    "'d memory \<Rightarrow> (int \<Rightarrow> int \<Rightarrow> 'd cv1) \<Rightarrow> ('d pv, ImageColorConvert, bool) proc" where
  "ImageColorConvert_process mem cvtColor =
     bindP (getP (\<lambda>c. c)) (\<lambda>c.
     bindP (getMat (icc_inputPin c)) (\<lambda>src.
       apply1 mem (setNumChannels (icc_outChannels c))
         (\<lambda>src dst. case getSelectedValue (icc_conversionType c) of
            Inl x \<Rightarrow> Inl x | Inr code \<Rightarrow> cvtColor code (icc_outChannels c) src dst)
         (icc_outputPin c) src))"

section \<open>What the tables say\<close>

lemma channels_of_codes:
  "code \<noteq> OtherCode \<Longrightarrow> 1 \<le> getInChannels code \<and> getInChannels code \<le> 4"
  "code \<noteq> OtherCode \<Longrightarrow> 1 \<le> getOutChannels code \<and> getOutChannels code \<le> 4"
  "getInChannels OtherCode = - 1" "getOutChannels OtherCode = - 1"
  by (cases code; simp add: getInChannels_def getOutChannels_def)+

text \<open>After a conversion is selected exactly the images with its number of channels pass the input pin.\<close>

lemma setConversionType_accepts:
  assumes "setConversionType codes e c = Inr c'" "getSelectedValue e = Inr v"
  shows "accepts (icc_inputPin c') m \<longleftrightarrow>
    mat_isValid m \<and> cm_depth m \<in> cp_depths (icc_inputPin c) \<and> cm_channels m = getInChannels (codes v)"
  using assms by (auto simp: setConversionType_def accepts_def addSupportedChannels_def clearChannels_def)

text \<open>The constructor adds all channels after it has selected the conversion: until one is selected again every image
  passes, whatever the conversion needs.\<close>

lemma new_converter_accepts_all:
  assumes "ImageColorConvert_new value codes rgba inputPin outputPin = Inr c" "mat_isValid m"
    and "cm_depth m \<in> {CV_8U, CV_8S, CV_16U, CV_16S, CV_32S, CV_32F, CV_64F}" "cm_channels m \<in> {1, 2, 3, 4}"
  shows "accepts (icc_inputPin c) m"
  using assms by (auto simp: ImageColorConvert_new_def Let_def accepts_def addAllChannels_def addAllDepths_def
      map_sum_def split: sum.splits)

lemma play_ImageColorConvert:
  assumes sel: "setConversionType codes e c = Inr c'" "getSelectedValue e = Inr v"
    and rig: "rg_in rg (cp_ref (icc_inputPin c')) = read_view False (Data_payload sn (VMat m) # ds)"
      "rg_out rg (cp_ref (icc_outputPin c')) = None"
    and ok: "accepts (icc_inputPin c') m" "0 < cm_rows m" "0 < cm_cols m"
    and cv: "\<And>dst. mat_properties dst = setNumChannels (getOutChannels (codes v)) (mat_properties m) \<Longrightarrow>
      cvtColor v (getOutChannels (codes v)) m dst = Inr (dst\<lparr>cm_data := d\<rparr>)"
  shows "\<exists>rg' out. play er (ImageColorConvert_process mem cvtColor c') rg = ((Inr True, c'), rg') \<and>
    rg_out rg' (cp_ref (icc_outputPin c')) = Some (VMat out) \<and> cm_data out = d \<and>
    mat_properties out = setNumChannels (getOutChannels (codes v)) (mat_properties m)"
proof -
  have c': "icc_outChannels c' = getOutChannels (codes v)" "icc_conversionType c' = e"
    using sel by (auto simp: setConversionType_def)
  let ?ps = "setNumChannels (getOutChannels (codes v)) (mat_properties m)"
  obtain dst where dst: "mat_create mem ?ps = Inr dst"
    using ok(2,3) by (simp add: mat_create_def mat_properties_def setNumChannels_def)
  then have "mat_properties dst = ?ps" by (rule create_properties)
  moreover from cv [OF this] have "play er (ImageColorConvert_process mem cvtColor c') rg =
      ((Inr True, c'), rg\<lparr>rg_in := (rg_in rg)(cp_ref (icc_inputPin c') := read_view True ds),
                        rg_out := (rg_out rg)(cp_ref (icc_outputPin c') := Some (VMat (dst\<lparr>cm_data := d\<rparr>)))\<rparr>)"
    using rig(2) by (simp add: ImageColorConvert_process_def apply1_def play_simps play_getMat [OF rig(1) ok(1)] c' dst
        sel(2) play_putMat)
  ultimately show ?thesis by (auto simp: mat_properties_def)
qed

section \<open>Masks\<close>

text \<open>\<open>maskn\<close> is a header for the memory of the second image.  For a mask of bytes \<open>maskn = (mask == 0)\<close> has the type of
  the memory, so it is written there, where \<open>mask\<close> has its values too; for a mask of floats it gets memory of its own,
  which nobody reads.  \<open>convertTo\<close>, the comparison and the copy of the selected pixels to a black image are parameters.\<close>

definition mask_used :: "('d CvMat \<Rightarrow> 'd CvMat) \<Rightarrow> ('d CvMat \<Rightarrow> 'd CvMat) \<Rightarrow> bool \<Rightarrow> 'd CvMat \<Rightarrow> 'd CvMat" where
  "mask_used to8U is_zero negative maskIn =
     (if cm_depth maskIn = CV_32F \<and> cm_channels maskIn = 1 then to8U maskIn
      else if negative then is_zero maskIn else maskIn)"

definition Mask_process ::
    "'d memory \<Rightarrow> ('d CvMat \<Rightarrow> 'd CvMat) \<Rightarrow> ('d CvMat \<Rightarrow> 'd CvMat) \<Rightarrow> 'd cv2 \<Rightarrow> CvPin \<Rightarrow> CvPin \<Rightarrow> CvPin \<Rightarrow>
     ('d pv, bool, bool) proc" where
  "Mask_process mem to8U is_zero copyTo inputPin1 inputPin2 outputPin =
     bindP (getMat inputPin1) (\<lambda>src.
     bindP (getMat inputPin2) (\<lambda>maskIn.
     bindP (getP (\<lambda>negative. mask_used to8U is_zero negative maskIn)) (\<lambda>mask.
       apply2 mem copyTo outputPin src mask)))"

definition setNegative :: "bool \<Rightarrow> bool \<Rightarrow> bool" where
  "setNegative n old = n"

lemma negative_float_mask: "cm_depth m = CV_32F \<Longrightarrow> cm_channels m = 1 \<Longrightarrow>
    mask_used to8U is_zero True m = mask_used to8U is_zero False m"
  by (simp add: mask_used_def)

end
