(* ===== verification/Image_Detect.thy ===== *)
theory Image_Detect
  imports Image_Filters
begin

text \<open>
  Elements of \<open>plvopencv\<close> that keep an object of OpenCV: \<open>ViolaJonesFaceDetector.cpp\<close> (a cascade and its storage),
  \<open>ForegroundDetector.cpp\<close> (a model of the background) and \<open>VideoProducer.cpp\<close> (an open video).
\<close>

section \<open>Faces\<close>

record 'c ViolaJonesFaceDetector =
  vj_minNeighbours :: int
  vj_scaleFactor :: real
  vj_useCannyPruning :: bool
  vj_minWidth :: int
  vj_minHeight :: int
  vj_haarCascadeFile :: string
  vj_cascade :: "'c option"
  vj_storage :: bool

definition vj_setMinNeighbours :: "int \<Rightarrow> 'c ViolaJonesFaceDetector \<Rightarrow> 'c ViolaJonesFaceDetector" where
  "vj_setMinNeighbours i f = (if i > 0 then f\<lparr>vj_minNeighbours := i\<rparr> else f)"

definition vj_setScaleFactor :: "real \<Rightarrow> 'c ViolaJonesFaceDetector \<Rightarrow> 'c ViolaJonesFaceDetector" where
  "vj_setScaleFactor d f = (if d > 1 then f\<lparr>vj_scaleFactor := d\<rparr> else f)"

definition vj_setUseCannyPruning :: "bool \<Rightarrow> 'c ViolaJonesFaceDetector \<Rightarrow> 'c ViolaJonesFaceDetector" where
  "vj_setUseCannyPruning b f = f\<lparr>vj_useCannyPruning := b\<rparr>"

definition vj_setMinWidth :: "int \<Rightarrow> 'c ViolaJonesFaceDetector \<Rightarrow> 'c ViolaJonesFaceDetector" where
  "vj_setMinWidth val f = (if val \<ge> 0 then f\<lparr>vj_minWidth := val\<rparr> else f)"

definition vj_setMinHeight :: "int \<Rightarrow> 'c ViolaJonesFaceDetector \<Rightarrow> 'c ViolaJonesFaceDetector" where
  "vj_setMinHeight val f = (if val \<ge> 0 then f\<lparr>vj_minHeight := val\<rparr> else f)"

definition vj_setHaarCascadeFile :: "string \<Rightarrow> 'c ViolaJonesFaceDetector \<Rightarrow> 'c ViolaJonesFaceDetector" where
  "vj_setHaarCascadeFile filename f = f\<lparr>vj_haarCascadeFile := filename\<rparr>"

text \<open>\<open>init\<close>: whether storage can be allocated, which files exist and what \<open>cvLoad\<close> makes of them are parameters.  The
  answer comes with the error that was set.\<close>

definition vj_init ::
    "bool \<Rightarrow> (string \<Rightarrow> bool) \<Rightarrow> (string \<Rightarrow> 'c option) \<Rightarrow> 'c ViolaJonesFaceDetector \<Rightarrow>
     (plv_exn + bool) \<times> string option \<times> 'c ViolaJonesFaceDetector" where
  "vj_init allocated exists load f =
     (if vj_storage f then (Inl AssertFailed, None, f)
      else if vj_cascade f \<noteq> None then (Inl AssertFailed, None, f)
      else if \<not> allocated then
        (Inr False, Some ''Failed to allocate temporary storage in OpenCV for Viola Jones Facedetector processor'', f)
      else
        (let f1 = f\<lparr>vj_storage := True\<rparr>; name = vj_haarCascadeFile f in
         if \<not> exists name then
           (Inr False, Some (''Failed to load haar cascade file '' @ name @ ''. File does not exist.''), f1)
         else (case load name of
             None \<Rightarrow> (Inr False, Some (''Failed to load haar cascade file '' @ name), f1)
           | Some c \<Rightarrow> (Inr True, None, f1\<lparr>vj_cascade := Some c\<rparr>))))"

definition vj_deinit :: "'c ViolaJonesFaceDetector \<Rightarrow> bool \<times> 'c ViolaJonesFaceDetector" where
  "vj_deinit f = (True, f\<lparr>vj_cascade := None, vj_storage := False\<rparr>)"

text \<open>\<open>process\<close>: the detection and the drawing of one rectangle are parameters.  The list of the faces is put only when
  there are some.\<close>

definition ViolaJones_process ::
    "'d memory \<Rightarrow> ('c \<Rightarrow> real \<Rightarrow> int \<Rightarrow> bool \<Rightarrow> int \<Rightarrow> int \<Rightarrow> 'd CvMat \<Rightarrow> plv_exn + Rect list) \<Rightarrow> 'd cv1 \<Rightarrow>
     (Rect \<Rightarrow> 'd CvMat \<Rightarrow> 'd CvMat) \<Rightarrow> CvPin \<Rightarrow> ref \<Rightarrow> CvPin \<Rightarrow> ('d pv, 'c ViolaJonesFaceDetector, bool) proc" where
  "ViolaJones_process mem detect copyTo draw inputPin outputPinRectangles outputPinMonitor =
     bindP (getP (\<lambda>f. f)) (\<lambda>f.
       case (vj_cascade f, vj_storage f) of
         (Some cascade, True) \<Rightarrow>
           bindP (getMat inputPin) (\<lambda>src.
           bindP (liftP (mat_create mem (mat_properties src))) (\<lambda>dst.
           bindP (liftP (detect cascade (vj_scaleFactor f) (vj_minNeighbours f) (vj_useCannyPruning f)
                      (vj_minWidth f) (vj_minHeight f) src)) (\<lambda>faces.
           bindP (liftP (copyTo src dst)) (\<lambda>dst.
           seqP (if faces \<noteq> [] then putP outputPinRectangles (VRects (cm_cols src) (cm_rows src) faces) else retP ())
          (seqP (putMat outputPinMonitor (fold draw faces dst)) (retP True))))))
       | _ \<Rightarrow> throwP AssertFailed)"

text \<open>Whatever came before: after \<open>deinit\<close> the next \<open>init\<close> passes its assertions, and when it succeeds \<open>process\<close>
  passes its own.\<close>

lemma init_after_deinit:
  "fst (vj_init allocated exists load (snd (vj_deinit f))) \<noteq> Inl x"
  by (auto simp: vj_init_def vj_deinit_def Let_def split: option.split)

lemma init_gives_cascade:
  "vj_init allocated exists load f = (Inr True, msg, f') \<Longrightarrow> vj_cascade f' \<noteq> None \<and> vj_storage f' \<and> msg = None"
  by (auto simp: vj_init_def Let_def split: if_splits option.splits)

text \<open>After an \<open>init\<close> that failed a second one without \<open>deinit\<close> fails its assertion, unless there was no storage.\<close>

lemma init_again:
  "vj_init True exists load f = (Inr b, msg, f') \<Longrightarrow> fst (vj_init allocated exists' load' f') = Inl AssertFailed"
  by (auto simp: vj_init_def Let_def split: if_splits option.splits)

section \<open>Foreground\<close>

definition FG_ACMMM2003 :: int where "FG_ACMMM2003 = 0"
definition FG_ACMMM2003_SIMPLE :: int where "FG_ACMMM2003_SIMPLE = 1"
definition FG_CVPR1999 :: int where "FG_CVPR1999 = 2"

record 'm ForegroundDetector =
  fg_method :: Enum
  fg_bgModel :: "'m option"

text \<open>The second item has the value of the first.\<close>

definition ForegroundDetector_new :: "Enum \<Rightarrow> 'm ForegroundDetector" where
  "ForegroundDetector_new e =
     \<lparr>fg_method = enum_add ''CVPR 1999'' FG_CVPR1999 (enum_add ''ACM MM2003 simple'' FG_ACMMM2003
        (enum_add ''ACM MM2003'' FG_ACMMM2003 e)), fg_bgModel = None\<rparr>"

definition fg_setMethod :: "Enum \<Rightarrow> 'm ForegroundDetector \<Rightarrow> 'm ForegroundDetector" where
  "fg_setMethod method f = f\<lparr>fg_method := method\<rparr>"

definition fg_stop :: "'m ForegroundDetector \<Rightarrow> bool \<times> 'm ForegroundDetector" where
  "fg_stop f = (True, f\<lparr>fg_bgModel := None\<rparr>)"

definition ForegroundDetector_process ::
    "('d CvMat \<Rightarrow> 'm) \<Rightarrow> ('d CvMat \<Rightarrow> 'm) \<Rightarrow> ('d CvMat \<Rightarrow> 'm \<Rightarrow> 'm) \<Rightarrow> ('m \<Rightarrow> 'd CvMat) \<Rightarrow> ('m \<Rightarrow> 'd CvMat) \<Rightarrow>
     CvPin \<Rightarrow> CvPin \<Rightarrow> CvPin \<Rightarrow> ('d pv, 'm ForegroundDetector, bool) proc" where
  "ForegroundDetector_process fgd gaussian update foreground background inInput outForeground outBackground =
     bindP (getMat inInput) (\<lambda>frame.
     bindP (getP (\<lambda>f. f)) (\<lambda>f.
       case fg_bgModel f of
         None \<Rightarrow>
           bindP (liftP (getSelectedValue (fg_method f))) (\<lambda>v.
           seqP (modifyP (\<lambda>f. f\<lparr>fg_bgModel :=
               (if v = FG_ACMMM2003 \<or> v = FG_ACMMM2003_SIMPLE then Some (fgd frame)
                else if v = FG_CVPR1999 then Some (gaussian frame) else None)\<rparr>))
             (retP True))
       | Some m \<Rightarrow>
           (let m' = update frame m in
            seqP (modifyP (\<lambda>f. f\<lparr>fg_bgModel := Some m'\<rparr>))
           (seqP (putMat outForeground (foreground m'))
           (seqP (putMat outBackground (background m')) (retP True))))))"

text \<open>The model is learned from every frame: after the frames \<open>ms\<close> it is the one made of the first, updated by the
  others, and for each of those the foreground is put.\<close>

fun models :: "('d CvMat \<Rightarrow> 'm \<Rightarrow> 'm) \<Rightarrow> 'm \<Rightarrow> 'd CvMat list \<Rightarrow> 'm list" where
  "models update m [] = []"
| "models update m (i # is) = update i m # models update (update i m) is"

lemma drive_foreground:
  assumes "\<forall>m \<in> set ms. accepts inp m" "fg_bgModel f = Some m0" "cp_ref outF \<noteq> cp_ref outB"
  shows "drive er (ForegroundDetector_process fgd gaussian update foreground background inp outF outB) (cp_ref outF) f
      (map (mat_rig (cp_ref inp)) ms) =
    (Inr (map (\<lambda>m. Some (VMat (foreground m))) (models update m0 ms)),
     f\<lparr>fg_bgModel := Some (last (m0 # models update m0 ms))\<rparr>)"
  using assms(1,2)
proof (induction ms arbitrary: f m0)
  case Nil
  then show ?case by (cases f) simp
next
  case (Cons i ms)
  let ?f = "f\<lparr>fg_bgModel := Some (update i m0)\<rparr>"
  have acc: "accepts inp i" using Cons.prems(1) by simp
  have rest: "drive er (ForegroundDetector_process fgd gaussian update foreground background inp outF outB) (cp_ref outF) ?f
      (map (mat_rig (cp_ref inp)) ms) =
    (Inr (map (\<lambda>m. Some (VMat (foreground m))) (models update (update i m0) ms)),
     ?f\<lparr>fg_bgModel := Some (last (update i m0 # models update (update i m0) ms))\<rparr>)"
    using Cons.IH [of ?f "update i m0"] Cons.prems(1) by simp
  show ?case
    using rest assms(3) Cons.prems(2)
    by (simp add: ForegroundDetector_process_def play_simps play_getMat [OF mat_rig_views(1) acc] Let_def
        play_putMat mat_rig_views)
qed

section \<open>Videos\<close>

text \<open>The video of OpenCV is a state \<open>'c\<close> with its operations: \<open>open\<close>, \<open>grab\<close>, which moves on to the next frame,
  \<open>retrieve\<close>, and the four numbers.\<close>

record ('c, 'd) video_ops =
  vo_open :: "string \<Rightarrow> 'c option"
  vo_grab :: "'c \<Rightarrow> bool \<times> 'c"
  vo_retrieve :: "'c \<Rightarrow> 'd CvMat option"
  vo_frameCount :: "'c \<Rightarrow> int"
  vo_posMillis :: "'c \<Rightarrow> int"
  vo_ratio :: "'c \<Rightarrow> real"
  vo_fps :: "'c \<Rightarrow> int"

datatype 'd video_value = VideoMat "'d CvMat" | VideoInt int | VideoLong int | VideoDouble real

record 'c VideoProducer =
  vp_filename :: string
  vp_directory :: string
  vp_frameCount :: int
  vp_posMillis :: int
  vp_ratio :: real
  vp_fps :: int
  vp_capture :: 'c

definition vp_setFilename :: "string \<Rightarrow> 'c VideoProducer \<Rightarrow> 'c VideoProducer" where
  "vp_setFilename name v = (if length name < 4 then v else v\<lparr>vp_filename := name\<rparr>)"

definition vp_setDirectory :: "(string \<Rightarrow> bool) \<Rightarrow> string \<Rightarrow> 'c VideoProducer \<Rightarrow> 'c VideoProducer" where
  "vp_setDirectory exists dir v =
     (if exists dir then v\<lparr>vp_directory := map (\<lambda>c. if c = CHR 0x5C then CHR ''/'' else c) dir\<rparr> else v)"

definition video_path :: "'c VideoProducer \<Rightarrow> string" where
  "video_path v =
     (let dir = vp_directory v in (if dir \<noteq> [] \<and> last dir = CHR ''/'' then dir else dir @ ''/'') @ vp_filename v)"

definition read_numbers :: "('c, 'd) video_ops \<Rightarrow> 'c VideoProducer \<Rightarrow> 'c VideoProducer" where
  "read_numbers ops v =
     v\<lparr>vp_frameCount := vo_frameCount ops (vp_capture v), vp_posMillis := vo_posMillis ops (vp_capture v),
       vp_ratio := vo_ratio ops (vp_capture v), vp_fps := vo_fps ops (vp_capture v)\<rparr>"

definition vp_init :: "('c, 'd) video_ops \<Rightarrow> 'c VideoProducer \<Rightarrow> (plv_exn + bool) \<times> string option \<times> 'c VideoProducer" where
  "vp_init ops v =
     (case vo_open ops (video_path v) of
        None \<Rightarrow> (Inr False, Some (''Failed to open video '' @ video_path v @ ''.''), v)
      | Some c \<Rightarrow> (Inr True, None, read_numbers ops (v\<lparr>vp_capture := c\<rparr>)))"

text \<open>\<open>readyToProduce\<close> is the call that moves on.\<close>

definition vp_readyToProduce :: "('c, 'd) video_ops \<Rightarrow> 'c VideoProducer \<Rightarrow> bool \<times> 'c VideoProducer" where
  "vp_readyToProduce ops v = (case vo_grab ops (vp_capture v) of (b, c) \<Rightarrow> (b, v\<lparr>vp_capture := c\<rparr>))"

definition vp_produce ::
    "('c, 'd) video_ops \<Rightarrow> 'd memory \<Rightarrow> ref \<Rightarrow> ref \<Rightarrow> ref \<Rightarrow> ref \<Rightarrow> ref \<Rightarrow>
     ('d video_value, 'c VideoProducer, bool) proc" where
  "vp_produce ops mem outputPin outFrameCount outPositionMillis outRatio outFps =
     bindP (getP (\<lambda>v. vo_retrieve ops (vp_capture v))) (\<lambda>r.
       case r of
         None \<Rightarrow> seqP (setErrorP PlvPipelineInitError ''Failed to grab frame'') (retP False)
       | Some frame \<Rightarrow>
           bindP (liftP (mat_create mem (mat_properties frame))) (\<lambda>d.
           seqP (putP outputPin (VideoMat (d\<lparr>cm_data := cm_data frame\<rparr>)))
          (seqP (modifyP (read_numbers ops))
          (bindP (getP (\<lambda>v. v)) (\<lambda>v.
             seqP (putP outFrameCount (VideoInt (vp_frameCount v)))
            (seqP (putP outPositionMillis (VideoLong (vp_posMillis v)))
            (seqP (putP outRatio (VideoDouble (vp_ratio v)))
            (seqP (putP outFps (VideoInt (vp_fps v))) (retP True)))))))))"

text \<open>A video that is a list of frames, of which the first is the current one after the first grab.  A pipeline that asks
  \<open>n\<close> times whether the producer is ready before it runs gets the \<open>n\<close>-th frame; those before it are lost.\<close>

fun ask_ready :: "nat \<Rightarrow> ('c, 'd) video_ops \<Rightarrow> 'c VideoProducer \<Rightarrow> 'c VideoProducer" where
  "ask_ready 0 ops v = v"
| "ask_ready (Suc n) ops v = ask_ready n ops (snd (vp_readyToProduce ops v))"

definition list_video :: "'d CvMat list \<Rightarrow> (nat, 'd) video_ops" where
  "list_video frames =
     \<lparr>vo_open = (\<lambda>_. Some 0), vo_grab = (\<lambda>i. (i < length frames, i + 1)),
      vo_retrieve = (\<lambda>i. if 0 < i \<and> i \<le> length frames then Some (frames ! (i - 1)) else None),
      vo_frameCount = (\<lambda>_. int (length frames)), vo_posMillis = int, vo_ratio = (\<lambda>_. 0), vo_fps = (\<lambda>_. 25)\<rparr>"

lemma ask_ready_capture: "vp_capture (ask_ready n (list_video frames) v) = vp_capture v + n"
  by (induction n arbitrary: v) (auto simp: vp_readyToProduce_def list_video_def)

lemma frames_are_skipped:
  assumes "vp_capture v = 0" "0 < n" "n \<le> length frames" "mat_create mem (mat_properties (frames ! (n - 1))) = Inr d"
    and "distinct [q4, q3, q2, q1, p]" "\<forall>x. rg_out rg x = None"
  shows "\<exists>rg' v'. play er (vp_produce (list_video frames) mem p q1 q2 q3 q4 (ask_ready n (list_video frames) v)) rg =
      ((Inr True, v'), rg') \<and> rg_out rg' p = Some (VideoMat (d\<lparr>cm_data := cm_data (frames ! (n - 1))\<rparr>))"
proof -
  have "vo_retrieve (list_video frames) (vp_capture (ask_ready n (list_video frames) v)) = Some (frames ! (n - 1))"
    using assms(1-3) unfolding ask_ready_capture by (simp add: list_video_def)
  then show ?thesis
    using assms(4-6) by (auto simp: vp_produce_def play_simps view_put_def)
qed

end
