(* ===== verification/Editor_Properties.thy ===== *)
theory Editor_Properties
  imports View_Properties Scene_Sync Tcp_Produce Image_Colour Image_Detect
begin

text \<open>
  The properties of the editor's scene and of the values that the client of the server puts on its pins.
\<close>

section \<open>The scene of the editor\<close>

text \<open>C29. A scene that is given a wired pipeline shows it, and goes on to do so: after any sequence of drops of new
  elements, of connections drawn between pins and of deletions of an item, its items are those of the elements and of the
  connections of the pipeline, which is still wired.\<close>

theorem scene_stays_in_view:
  assumes "wired w" "setPipeline w PipelineScene_new = Inr sc" "(edit_step factory qt)\<^sup>*\<^sup>* (w, sc) ed"
  shows "in_view ed \<and> wired (fst ed)"
proof -
  have "in_view (w, sc)" using setPipeline_in_view [OF assms(1)] assms(2) by auto
  from session_in_view [OF assms(3) _ this] assms(1) show ?thesis by simp
qed

text \<open>The demo pipeline has a connection at 2.  After it is deleted the scene does not show it.\<close>

lemma demo_connection: "(2, 2) \<in> set (connections demo)" "\<not> pl_running demo"
  by (simp_all add: demo_def demo_world_def)

theorem scene_stays_in_view_witness:
  "\<exists>sc ed. setPipeline demo PipelineScene_new = Inr sc \<and> (edit_step (\<lambda>_. None) demo_qt)\<^sup>*\<^sup>* (demo, sc) ed \<and>
     in_view ed \<and> LineItem 2 \<in> sc_items sc \<and> 2 \<notin> snd ` set (connections (fst ed))"
proof -
  obtain sc where sc: "setPipeline demo PipelineScene_new = Inr sc" "in_view (demo, sc)"
    using setPipeline_in_view [OF demo_wired] by blast
  have "2 \<in> shown_connections demo" unfolding shown_connections_def by (rule image_eqI [OF _ demo_connection(1)]) simp
  then have it: "LineItem 2 \<in> sc_items sc" using sc(2) by (simp add: in_view_def)
  from delete_item_in_view [OF demo_wired sc(2) it] obtain ed where
    ed: "deleteSelected [LineItem 2] (demo, sc) = Inr ed" by blast
  then have "(edit_step (\<lambda>_. None) demo_qt)\<^sup>*\<^sup>* (demo, sc) ed"
    using edit_step.delete [OF _ ed] it by (intro r_into_rtranclp) simp
  moreover from scene_stays_in_view [OF demo_wired sc(1) this] have "in_view ed" by simp
  moreover have "2 \<notin> snd ` set (connections (fst ed))"
  proof -
    have "LineItem 2 \<notin> sc_items (snd ed)"
      using ed scene_removeConnection_item [of 2 "(demo, sc)"]
      by (auto simp: deleteSelected_def demo_connection(2) split: sum.splits)
    moreover have "LineItem ` snd ` set (connections (fst ed)) \<subseteq> sc_items (snd ed)"
      using \<open>in_view ed\<close> by (cases ed) (simp add: in_view_def shown_connections_def)
    ultimately show ?thesis by blast
  qed
  ultimately show ?thesis using sc(1) it by blast
qed

text \<open>C37. When an element and a connection that leaves it are both selected, deleting works if the connection comes
  first; if the element comes first the scene reads the pins of a connection that has none any more.\<close>

theorem deleting_element_first_fails:
  assumes "wired w" "in_view (w, sc)" "\<not> pl_running w" "(i, c) \<in> set (connections w)" "conn_between w c p q"
  shows "(\<exists>ed. deleteSelected [LineItem c, ElementItem (op_owner (opins w p))] (w, sc) = Inr ed \<and> in_view ed) \<and>
    deleteSelected [ElementItem (op_owner (opins w p)), LineItem c] (w, sc) = Inl NullWidget"
  using delete_connection_first [OF assms(1,2,4) conn_between_owners(1) [OF assms(5)]] delete_element_first [OF assms(1,2,4,5)]
    assms(3)
  by (auto simp: deleteSelected_def simp del: deleteItems.simps)

theorem deleting_element_first_fails_witness:
  "\<exists>sc e. deleteSelected [ElementItem e, LineItem 2] (demo, sc) = Inl NullWidget"
proof -
  obtain sc where sc: "in_view (demo, sc)" using setPipeline_in_view [OF demo_wired] by blast
  obtain p q where b: "conn_between demo 2 p q" using wired_connection(3) [OF demo_wired demo_connection(1)] by blast
  from deleting_element_first_fails [OF demo_wired sc demo_connection(2) demo_connection(1) b] show ?thesis by blast
qed

section \<open>The client's pins\<close>

text \<open>C35. The client puts the first frame of its list: the values of a type go to the pins of that type, in the order of
  the ids of the pins, one each; the pins that are left over get nothing, and values that are left over are lost.\<close>

theorem client_puts_values_by_type:
  assumes "m_frameList c = frame # rest" "distinct (map cp_outName pins)" "distinct (map cp_out pins)"
    and "\<forall>p \<in> set pins. rg_out rg (cp_out p) = None"
  shows "\<exists>rg'. play er (client_produce userType pins c) rg = ((Inr True, c\<lparr>m_frameList := rest\<rparr>), rg') \<and>
    (\<forall>t k. k < length (free_pins pins [] t) \<longrightarrow>
       rg_out rg' (cp_out (free_pins pins [] t ! k)) =
         (let vs = of_type userType t frame in if k < length vs then Some (vs ! k) else None))"
proof -
  have "\<forall>p \<in> set pins. cp_outName p \<notin> set [] \<longrightarrow> rg_out rg (cp_out p) = None" using assms(4) by simp
  from play_putFrame [OF assms(2,3) this, of er userType frame "c\<lparr>m_frameList := rest\<rparr>"] assms(1) show ?thesis
    by (auto simp: client_produce_def play_simps)
qed

definition two_image_pins :: "client_pin list" where
  "two_image_pins =
     [\<lparr>cp_out = 1, cp_outName = ''int'', cp_typeId = 2\<rparr>, \<lparr>cp_out = 2, cp_outName = ''CvMatData1'', cp_typeId = 300\<rparr>,
      \<lparr>cp_out = 3, cp_outName = ''CvMatData2'', cp_typeId = 300\<rparr>]"

theorem client_puts_values_by_type_witness:
  "\<exists>rg c. play (errors_of demo) (client_produce (\<lambda>v. if v < (10 :: nat) then 2 else 300) two_image_pins
       (TCPClientProducer_new\<lparr>m_frameList := [[20, 5, 30, 40]]\<rparr>)) (frame_rig 0 (\<lambda>_. None)) = ((Inr True, c), rg) \<and>
     rg_out rg 1 = Some 5 \<and> rg_out rg 2 = Some 20 \<and> rg_out rg 3 = Some 30"
proof -
  let ?type = "\<lambda>v :: nat. if v < 10 then 2 else 300 :: int"
  let ?c = "TCPClientProducer_new\<lparr>m_frameList := [[20, 5, 30, 40]]\<rparr> :: nat TCPClientProducer"
  have c: "m_frameList ?c = [20, 5, 30, 40] # []" by simp
  have pins: "distinct (map cp_outName two_image_pins)" "distinct (map cp_out two_image_pins)"
    "\<forall>p \<in> set two_image_pins. rg_out (frame_rig 0 (\<lambda>_. None)) (cp_out p) = None"
    by (simp_all add: two_image_pins_def frame_rig_def)
  from client_puts_values_by_type [OF c pins, of "errors_of demo" ?type] obtain rg c' where
    r: "play (errors_of demo) (client_produce ?type two_image_pins ?c) (frame_rig 0 (\<lambda>_. None)) = ((Inr True, c'), rg)"
    "\<forall>t k. k < length (free_pins two_image_pins [] t) \<longrightarrow>
       rg_out rg (cp_out (free_pins two_image_pins [] t ! k)) =
         (let vs = of_type ?type t [20, 5, 30, 40] in if k < length vs then Some (vs ! k) else None)"
    by blast
  have "rg_out rg 1 = Some 5" using r(2) [rule_format, of 0 2]
    by (simp add: two_image_pins_def free_pins_def of_type_def)
  moreover have "rg_out rg 2 = Some 20" "rg_out rg 3 = Some 30"
    using r(2) [rule_format, of 0 300] r(2) [rule_format, of 1 300]
    by (simp_all add: two_image_pins_def free_pins_def of_type_def)
  ultimately show ?thesis using r(1) by blast
qed

end
