(* ===== verification/Log_Engine.thy ===== *)
theory Log_Engine
  imports "HOL-Library.Word"
begin

text \<open>
  The levels of the logger (\<open>qxtlogger.h\<close>, \<open>qxtlogger.cpp\<close>) and the part of an engine that all engines share
  (\<open>qxtloggerengine.cpp\<close>): whether it logs at all, and the set of the levels that it logs, a mask of bits.
\<close>

unbundle bit_operations_syntax

section \<open>Levels\<close>

datatype LogLevel =
    NoLevels | TraceLevel | DebugLevel | InfoLevel | WarningLevel | ErrorLevel | CriticalLevel | FatalLevel
  | WriteLevel | AllLevels

fun level_bits :: "LogLevel \<Rightarrow> 32 word" where
  "level_bits NoLevels = 0"
| "level_bits TraceLevel = 1"
| "level_bits DebugLevel = 2"
| "level_bits InfoLevel = 4"
| "level_bits WarningLevel = 8"
| "level_bits ErrorLevel = 16"
| "level_bits CriticalLevel = 32"
| "level_bits FatalLevel = 64"
| "level_bits WriteLevel = 128"
| "level_bits AllLevels = 255"

text \<open>The constants for a single level.\<close>

definition single :: "LogLevel \<Rightarrow> bool" where
  "single l \<longleftrightarrow> l \<noteq> NoLevels \<and> l \<noteq> AllLevels"

fun logLevelToString :: "LogLevel \<Rightarrow> string" where
  "logLevelToString TraceLevel = ''TraceLevel''"
| "logLevelToString DebugLevel = ''DebugLevel''"
| "logLevelToString InfoLevel = ''InfoLevel''"
| "logLevelToString WarningLevel = ''WarningLevel''"
| "logLevelToString ErrorLevel = ''ErrorLevel''"
| "logLevelToString CriticalLevel = ''CriticalLevel''"
| "logLevelToString FatalLevel = ''FatalLevel''"
| "logLevelToString WriteLevel = ''WriteLevel''"
| "logLevelToString AllLevels = ''AllLevels''"
| "logLevelToString NoLevels = ''NoLevels''"

text \<open>\<open>QString::toLower\<close> for the letters of the names.\<close>

definition lower_char :: "char \<Rightarrow> char" where
  "lower_char c = (let n = (of_char c :: nat) in if 65 \<le> n \<and> n \<le> 90 then char_of (n + 32) else c)"

definition stringToLogLevel :: "string \<Rightarrow> LogLevel" where
  "stringToLogLevel s =
     (let level = map lower_char s in
      if level = ''alllevels'' then AllLevels
      else if level = ''writelevel'' then WriteLevel
      else if level = ''fatallevel'' then FatalLevel
      else if level = ''criticallevel'' then CriticalLevel
      else if level = ''errorlevel'' then ErrorLevel
      else if level = ''warnlevel'' then WarningLevel
      else if level = ''infolevel'' then InfoLevel
      else if level = ''debuglevel'' then DebugLevel
      else if level = ''tracelevel'' then TraceLevel
      else NoLevels)"

text \<open>All names are read back, but that of \<open>WarningLevel\<close>, for which the function expects another name.\<close>

lemma level_names: "stringToLogLevel (logLevelToString l) = (if l = WarningLevel then NoLevels else l)"
proof -
  have "list_all (\<lambda>l. stringToLogLevel (logLevelToString l) = (if l = WarningLevel then NoLevels else l))
      [NoLevels, TraceLevel, DebugLevel, InfoLevel, WarningLevel, ErrorLevel, CriticalLevel, FatalLevel, WriteLevel,
       AllLevels]"
    by code_simp
  then show ?thesis by (cases l) (simp_all only: list.pred_inject simp_thms)
qed

section \<open>Engines\<close>

record QxtLoggerEngine =
  bm_logLevel :: "32 word"
  b_isLogging :: bool

definition QxtLoggerEngine_new :: QxtLoggerEngine where
  "QxtLoggerEngine_new = \<lparr>bm_logLevel = level_bits AllLevels, b_isLogging = True\<rparr>"

definition isLoggingEnabled :: "QxtLoggerEngine \<Rightarrow> bool" where
  "isLoggingEnabled e = b_isLogging e"

definition setLoggingEnabled :: "bool \<Rightarrow> QxtLoggerEngine \<Rightarrow> QxtLoggerEngine" where
  "setLoggingEnabled enable e = e\<lparr>b_isLogging := enable\<rparr>"

definition enableLogging :: "QxtLoggerEngine \<Rightarrow> QxtLoggerEngine" where
  "enableLogging = setLoggingEnabled True"

definition disableLogging :: "QxtLoggerEngine \<Rightarrow> QxtLoggerEngine" where
  "disableLogging = setLoggingEnabled False"

definition setLogLevelsEnabled :: "32 word \<Rightarrow> bool \<Rightarrow> QxtLoggerEngine \<Rightarrow> QxtLoggerEngine" where
  "setLogLevelsEnabled levels enable e =
     (if enable then e\<lparr>bm_logLevel := bm_logLevel e OR levels\<rparr>
      else e\<lparr>bm_logLevel := bm_logLevel e AND NOT levels\<rparr>)"

definition enableLogLevels :: "32 word \<Rightarrow> QxtLoggerEngine \<Rightarrow> QxtLoggerEngine" where
  "enableLogLevels levels = setLogLevelsEnabled levels True"

definition disableLogLevels :: "32 word \<Rightarrow> QxtLoggerEngine \<Rightarrow> QxtLoggerEngine" where
  "disableLogLevels levels = setLogLevelsEnabled levels False"

definition isLogLevelEnabled :: "LogLevel \<Rightarrow> QxtLoggerEngine \<Rightarrow> bool" where
  "isLogLevelEnabled level e \<longleftrightarrow> bm_logLevel e AND level_bits level \<noteq> 0"

text \<open>One line of \<open>QxtLoggerPrivate::setQxtLoggerEngineMinimumLevel\<close>, and all of them.\<close>

definition level_from :: "LogLevel \<Rightarrow> LogLevel \<Rightarrow> QxtLoggerEngine \<Rightarrow> QxtLoggerEngine" where
  "level_from level l =
     (if level_bits l < level_bits level then disableLogLevels (level_bits l) else enableLogLevels (level_bits l))"

definition setQxtLoggerEngineMinimumLevel :: "LogLevel \<Rightarrow> QxtLoggerEngine \<Rightarrow> QxtLoggerEngine" where
  "setQxtLoggerEngineMinimumLevel level e =
     fold (level_from level)
       [TraceLevel, DebugLevel, InfoLevel, WarningLevel, ErrorLevel, CriticalLevel, FatalLevel, WriteLevel] e"

section \<open>Which levels are enabled\<close>

fun level_index :: "LogLevel \<Rightarrow> nat" where
  "level_index DebugLevel = 1"
| "level_index InfoLevel = 2"
| "level_index WarningLevel = 3"
| "level_index ErrorLevel = 4"
| "level_index CriticalLevel = 5"
| "level_index FatalLevel = 6"
| "level_index WriteLevel = 7"
| "level_index _ = 0"

lemma single_bits: "single l \<Longrightarrow> level_bits l = 2 ^ level_index l"
  by (cases l) (simp_all add: single_def)

lemma single_index: "single l \<Longrightarrow> level_index l < 8"
  by (cases l) (simp_all add: single_def)

lemma and_exp_nonzero: "(w :: 32 word) AND 2 ^ n \<noteq> 0 \<longleftrightarrow> bit w n"
  by (simp add: bit_iff_and_push_bit_not_eq_0 flip: push_bit_of_1)

lemma enabled_bit: "single l \<Longrightarrow> isLogLevelEnabled l e \<longleftrightarrow> bit (bm_logLevel e) (level_index l)"
  by (simp add: isLogLevelEnabled_def single_bits and_exp_nonzero)

lemma level_index_inj: "single l \<Longrightarrow> single l' \<Longrightarrow> level_index l = level_index l' \<Longrightarrow> l = l'"
  by (cases l; cases l') (simp_all add: single_def)

lemma single_bit: "single l \<Longrightarrow> single l' \<Longrightarrow> bit (level_bits l') (level_index l) \<longleftrightarrow> l = l'"
  using level_index_inj [of l l'] single_index [of l] by (auto simp: single_bits bit_exp_iff)

lemma setLogLevelsEnabled_iff:
  assumes "single l"
  shows "isLogLevelEnabled l (setLogLevelsEnabled levels enable e) \<longleftrightarrow>
    (if bit levels (level_index l) then enable else isLogLevelEnabled l e)"
  using assms single_index [OF assms]
  by (auto simp: enabled_bit setLogLevelsEnabled_def bit_simps)

lemma level_from_iff:
  assumes "single l" "single l'"
  shows "isLogLevelEnabled l (level_from level l' e) \<longleftrightarrow>
    (if l = l' then level_bits level \<le> level_bits l else isLogLevelEnabled l e)"
  using assms
  by (auto simp: level_from_def enableLogLevels_def disableLogLevels_def setLogLevelsEnabled_iff single_bit)

text \<open>Setting a minimum enables the levels from it on and disables the others, whatever was enabled before.\<close>

lemma levels_from_iff:
  assumes "single l" "\<forall>l' \<in> set ls. single l'"
  shows "isLogLevelEnabled l (fold (level_from level) ls e) \<longleftrightarrow>
    (if l \<in> set ls then level_bits level \<le> level_bits l else isLogLevelEnabled l e)"
  using assms(2)
proof (induction ls arbitrary: e)
  case (Cons l' ls)
  then have ih: "isLogLevelEnabled l (fold (level_from level) (l' # ls) e) \<longleftrightarrow>
      (if l \<in> set ls then level_bits level \<le> level_bits l else isLogLevelEnabled l (level_from level l' e))"
    by simp
  have "single l'" using Cons.prems by simp
  then show ?case unfolding ih level_from_iff [OF assms(1) \<open>single l'\<close>] by simp
qed simp

lemma minimum_level_iff:
  assumes "single l"
  shows "isLogLevelEnabled l (setQxtLoggerEngineMinimumLevel level e) \<longleftrightarrow> level_bits level \<le> level_bits l"
proof -
  have "l \<in> set [TraceLevel, DebugLevel, InfoLevel, WarningLevel, ErrorLevel, CriticalLevel, FatalLevel, WriteLevel]"
    using assms by (cases l) (simp_all add: single_def)
  then show ?thesis
    unfolding setQxtLoggerEngineMinimumLevel_def by (subst levels_from_iff [OF assms]) (auto simp: single_def)
qed

lemma setLogLevelsEnabled_logging [simp]: "b_isLogging (setLogLevelsEnabled levels enable e) = b_isLogging e"
  by (simp add: setLogLevelsEnabled_def)

lemma minimum_level_keeps_logging [simp]: "b_isLogging (setQxtLoggerEngineMinimumLevel level e) = b_isLogging e"
proof -
  have "b_isLogging (fold (level_from level) ls e) = b_isLogging e" for ls
    by (induction ls arbitrary: e) (simp_all add: level_from_def enableLogLevels_def disableLogLevels_def)
  then show ?thesis unfolding setQxtLoggerEngineMinimumLevel_def .
qed

end
