(* ===== verification/Log_Files.thy ===== *)
theory Log_Files
  imports Log_Engine
begin

text \<open>
  What the engines of the logger write: to the two streams of the process (\<open>qxtbasicstdloggerengine.cpp\<close>), to a file
  (\<open>qxtabstractfileloggerengine.cpp\<close>, \<open>qxtabstractiologgerengine.cpp\<close>, \<open>qxtbasicfileloggerengine.cpp\<close>), to a file that is
  an XML document (\<open>qxtxmlfileloggerengine.cpp\<close>), and to a window (\<open>plvgui/LogWidget.cpp\<close>).  A message is a variant of
  which only its text matters, \<open>None\<close> when it is null.  Strings are ASCII, where \<open>toUtf8\<close> changes nothing; \<open>now\<close> gives
  the time in a format.  Files are unbuffered and their writes do not fail.
\<close>

datatype log_error = DeletedEngine | LogAssert

type_synonym LogVariant = "string option"

section \<open>Lines of a message\<close>

definition log_header :: "string \<Rightarrow> string \<Rightarrow> string" where
  "log_header time level = ''['' @ time @ ''] ['' @ level @ ''] ''"

definition log_padding :: "string \<Rightarrow> string" where
  "log_padding header = replicate (length header) (CHR '' '')"

fun log_lines :: "string \<Rightarrow> nat \<Rightarrow> LogVariant list \<Rightarrow> string" where
  "log_lines padding count [] = []"
| "log_lines padding count (out # msgs) =
     (case out of
        None \<Rightarrow> []
      | Some s \<Rightarrow> (if count \<noteq> 0 then padding else []) @ s @ ''\<newline>'') @
     log_lines padding (count + 1) msgs"

text \<open>Without null messages: the first line follows the header, the others are under it.\<close>

lemma log_lines_pad: "0 < n \<Longrightarrow> log_lines pad n (map Some ls) = concat (map (\<lambda>l. pad @ l @ ''\<newline>'') ls)"
  by (induction ls arbitrary: n) auto

lemma log_lines_text:
  "log_lines pad 0 (map Some (l # ls)) = l @ ''\<newline>'' @ concat (map (\<lambda>l. pad @ l @ ''\<newline>'') ls)"
  by (simp add: log_lines_pad)

section \<open>The streams of the process\<close>

text \<open>A stream is what was written to it; \<open>None\<close> is a null pointer.\<close>

record StdStreams =
  errstream :: "string option"
  outstream :: "string option"

definition StdStreams_new :: StdStreams where
  "StdStreams_new = \<lparr>errstream = Some [], outstream = Some []\<rparr>"

definition required_levels :: "32 word" where
  "required_levels =
     level_bits WarningLevel OR level_bits ErrorLevel OR level_bits CriticalLevel OR level_bits FatalLevel"

text \<open>\<open>debug\<close>: the program is compiled without \<open>QT_NO_DEBUG\<close>.\<close>

definition StdEngine_new :: "bool \<Rightarrow> QxtLoggerEngine" where
  "StdEngine_new debug =
     enableLogging
       (setLogLevelsEnabled (if debug then required_levels else required_levels OR level_bits DebugLevel) True
         QxtLoggerEngine_new)"

text \<open>The destructor: the last assignment of the code is to \<open>errstream\<close> again.\<close>

definition StdStreams_delete :: "StdStreams \<Rightarrow> StdStreams" where
  "StdStreams_delete s =
     (let s1 = (if errstream s \<noteq> None then s\<lparr>errstream := None\<rparr> else s)
      in if outstream s1 \<noteq> None then s1\<lparr>errstream := None\<rparr> else s1)"

definition std_isInitialized :: "StdStreams \<Rightarrow> bool" where
  "std_isInitialized s \<longleftrightarrow> errstream s \<noteq> None \<and> outstream s \<noteq> None"

definition std_setLogLevelEnabled :: "32 word \<Rightarrow> bool \<Rightarrow> QxtLoggerEngine \<Rightarrow> QxtLoggerEngine" where
  "std_setLogLevelEnabled level enable e =
     (let e1 = setLogLevelsEnabled (level OR required_levels) enable e
      in if \<not> enable then setLogLevelsEnabled required_levels True e1 else e1)"

definition std_text :: "string \<Rightarrow> string \<Rightarrow> LogVariant list \<Rightarrow> string" where
  "std_text time level msgs =
     (let header = log_header time level
      in header @ log_lines (log_padding header) 0 msgs @ ''\<newline>'')"

definition writeToStdErr :: "string \<Rightarrow> string \<Rightarrow> LogVariant list \<Rightarrow> StdStreams \<Rightarrow> log_error + StdStreams" where
  "writeToStdErr time level msgs s =
     (if msgs = [] then Inr s
      else
        (case errstream s of
           None \<Rightarrow> Inl LogAssert
         | Some t \<Rightarrow> Inr (s\<lparr>errstream := Some (t @ std_text time level msgs)\<rparr>)))"

definition writeToStdOut :: "string \<Rightarrow> string \<Rightarrow> LogVariant list \<Rightarrow> StdStreams \<Rightarrow> log_error + StdStreams" where
  "writeToStdOut time level msgs s =
     (if msgs = [] then Inr s
      else
        (case outstream s of
           None \<Rightarrow> Inl LogAssert
         | Some t \<Rightarrow> Inr (s\<lparr>outstream := Some (t @ std_text time level msgs)\<rparr>)))"

definition std_writeFormatted :: "string \<Rightarrow> LogLevel \<Rightarrow> LogVariant list \<Rightarrow> StdStreams \<Rightarrow> log_error + StdStreams" where
  "std_writeFormatted time level msgs =
     (case level of
        ErrorLevel \<Rightarrow> writeToStdErr time ''Error'' msgs
      | WarningLevel \<Rightarrow> writeToStdOut time ''Warning'' msgs
      | CriticalLevel \<Rightarrow> writeToStdErr time ''Critical'' msgs
      | FatalLevel \<Rightarrow> writeToStdErr time ''!!FATAL!!'' msgs
      | TraceLevel \<Rightarrow> writeToStdOut time ''Trace'' msgs
      | DebugLevel \<Rightarrow> writeToStdErr time ''DEBUG'' msgs
      | InfoLevel \<Rightarrow> writeToStdOut time ''INFO'' msgs
      | _ \<Rightarrow> writeToStdOut time [] msgs)"

text \<open>What a constructor enables is enabled already, so that the distinction it makes has no effect.\<close>

lemma StdEngine_new_all: "StdEngine_new debug = QxtLoggerEngine_new"
  by (simp add: StdEngine_new_def enableLogging_def setLoggingEnabled_def setLogLevelsEnabled_def
      QxtLoggerEngine_new_def required_levels_def)

lemma std_writes: "std_isInitialized s \<Longrightarrow> \<exists>s'. std_writeFormatted time level msgs s = Inr s' \<and> std_isInitialized s'"
  by (cases level) (auto simp: std_writeFormatted_def writeToStdErr_def writeToStdOut_def std_isInitialized_def)

section \<open>Files\<close>

type_synonym files = "string \<Rightarrow> string option"

record LogDevice =
  dv_file :: string
  dv_pos :: nat

definition dv_contents :: "LogDevice \<Rightarrow> files \<Rightarrow> string" where
  "dv_contents d fs = (case fs (dv_file d) of None \<Rightarrow> [] | Some c \<Rightarrow> c)"

text \<open>Opening for reading and writing makes the file when there is none.  \<open>writable\<close>: whether it can be opened.\<close>

definition dv_open :: "(string \<Rightarrow> bool) \<Rightarrow> string \<Rightarrow> files \<Rightarrow> LogDevice option \<times> files" where
  "dv_open writable name fs =
     (if writable name
      then (Some \<lparr>dv_file = name, dv_pos = 0\<rparr>, if fs name = None then fs(name \<mapsto> []) else fs)
      else (None, fs))"

text \<open>A seek to a negative position fails and changes nothing.\<close>

definition dv_seek :: "int \<Rightarrow> LogDevice \<Rightarrow> LogDevice" where
  "dv_seek p d = (if p < 0 then d else d\<lparr>dv_pos := nat p\<rparr>)"

text \<open>A file opened with \<open>Append\<close> is written at its end, another one at the position.\<close>

definition overwrite :: "nat \<Rightarrow> string \<Rightarrow> string \<Rightarrow> string" where
  "overwrite p s c = take p c @ replicate (p - length c) (CHR 0x00) @ s @ drop (p + length s) c"

definition dv_write :: "bool \<Rightarrow> string \<Rightarrow> LogDevice \<times> files \<Rightarrow> LogDevice \<times> files" where
  "dv_write app s = (\<lambda>(d, fs).
     let c = dv_contents d fs; p = (if app then length c else dv_pos d)
     in (d\<lparr>dv_pos := p + length s\<rparr>, fs(dv_file d \<mapsto> overwrite p s c)))"

definition dv_writes :: "bool \<Rightarrow> string list \<Rightarrow> LogDevice \<times> files \<Rightarrow> LogDevice \<times> files" where
  "dv_writes app ss = fold (dv_write app) ss"

section \<open>Engines with a file\<close>

datatype file_kind = BasicFile string | XmlFile

record LogFile =
  logFile :: string
  lf_kind :: file_kind
  io_device :: "LogDevice option"

definition lf_append :: "LogFile \<Rightarrow> bool" where
  "lf_append f = (case lf_kind f of BasicFile fmt \<Rightarrow> True | XmlFile \<Rightarrow> False)"

text \<open>\<open>QxtAbstractFileLoggerEngine\<close>.\<close>

definition file_kill :: "LogFile \<Rightarrow> LogFile" where
  "file_kill f = f\<lparr>io_device := None\<rparr>"

definition file_isInitialized :: "LogFile \<Rightarrow> bool" where
  "file_isInitialized f \<longleftrightarrow> io_device f \<noteq> None"

definition file_init ::
    "(string \<Rightarrow> bool) \<Rightarrow> QxtLoggerEngine \<times> LogFile \<times> files \<Rightarrow> QxtLoggerEngine \<times> LogFile \<times> files" where
  "file_init writable = (\<lambda>(e, f, fs).
     let f1 = file_kill f in
     if logFile f1 = [] then (e, f1, fs)
     else
       (case dv_open writable (logFile f1) fs of
          (None, fs') \<Rightarrow> (e, file_kill f1, fs')
        | (Some d, fs') \<Rightarrow> (enableLogging e, f1\<lparr>io_device := Some d\<rparr>, fs')))"

text \<open>A constructor: in the constructor of the base class, which calls \<open>setLogFileName\<close>, \<open>initLoggerEngine\<close> is the one of
  the base class, also for an engine that writes XML.\<close>

definition file_new ::
    "(string \<Rightarrow> bool) \<Rightarrow> file_kind \<Rightarrow> string \<Rightarrow> files \<Rightarrow> QxtLoggerEngine \<times> LogFile \<times> files" where
  "file_new writable kind name fs =
     file_init writable (QxtLoggerEngine_new, \<lparr>logFile = name, lf_kind = kind, io_device = None\<rparr>, fs)"

fun file_level_name :: "LogLevel \<Rightarrow> string" where
  "file_level_name ErrorLevel = ''Error''"
| "file_level_name WarningLevel = ''Warning''"
| "file_level_name CriticalLevel = ''Critical''"
| "file_level_name FatalLevel = ''Fatal''"
| "file_level_name TraceLevel = ''Trace''"
| "file_level_name DebugLevel = ''Debug''"
| "file_level_name InfoLevel = ''Info''"
| "file_level_name _ = []"

text \<open>\<open>QxtBasicFileLoggerEngine::writeToFile\<close>.\<close>

fun basic_lines :: "string \<Rightarrow> nat \<Rightarrow> LogVariant list \<Rightarrow> string list" where
  "basic_lines padding count [] = []"
| "basic_lines padding count (out # msgs) =
     (case out of
        None \<Rightarrow> []
      | Some s \<Rightarrow> (if count \<noteq> 0 then [padding] else []) @ [s, ''\<newline>'']) @
     basic_lines padding (count + 1) msgs"

definition basic_writeToFile ::
    "string \<Rightarrow> string \<Rightarrow> LogVariant list \<Rightarrow> LogFile \<times> files \<Rightarrow> log_error + LogFile \<times> files" where
  "basic_writeToFile time level msgs = (\<lambda>(f, fs).
     if msgs = [] then Inr (f, fs)
     else
       (case io_device f of
          None \<Rightarrow> Inl LogAssert
        | Some d \<Rightarrow>
            let header = log_header time level;
                r = dv_writes (lf_append f) (header # basic_lines (log_padding header) 0 msgs) (d, fs)
            in Inr (f\<lparr>io_device := Some (fst r)\<rparr>, snd r)))"

section \<open>XML\<close>

definition quoted :: "string \<Rightarrow> string" where
  "quoted s = CHR 0x22 # s @ [CHR 0x22]"

definition replace_char :: "char \<Rightarrow> string \<Rightarrow> string \<Rightarrow> string" where
  "replace_char c r s = concat (map (\<lambda>x. if x = c then r else [x]) s)"

definition toXmlSafeString :: "string \<Rightarrow> string" where
  "toXmlSafeString raw =
     replace_char (CHR 0x22) ''&quot;''
       (replace_char (CHR 0x27) ''&apos;''
         (replace_char (CHR ''>'') ''&gt;''
           (replace_char (CHR ''<'') ''&lt;''
             (replace_char (CHR ''&'') ''&amp;'' raw))))"

definition xml_declaration :: string where
  "xml_declaration = ''<?xml version='' @ quoted ''1.0'' @ '' encoding='' @ quoted ''UTF-8'' @ ''?>\<newline>''"

definition xml_tab :: string where
  "xml_tab = ''    ''"

definition xml_message :: "LogVariant \<Rightarrow> string list" where
  "xml_message m =
     [xml_tab, xml_tab, ''<message>'', toXmlSafeString (case m of None \<Rightarrow> [] | Some s \<Rightarrow> s), ''</message>\<newline>'']"

definition xml_pieces :: "string \<Rightarrow> string \<Rightarrow> LogVariant list \<Rightarrow> string list" where
  "xml_pieces time level msgs =
     [xml_tab, ''<entry type='' @ [CHR 0x22], level, CHR 0x22 # '' time='' @ [CHR 0x22], time, CHR 0x22 # ''>'', ''\<newline>''] @
     concat (map xml_message msgs) @ [xml_tab, ''</entry>'', ''\<newline>'', ''</log>'']"

definition xml_writeToFile ::
    "string \<Rightarrow> string \<Rightarrow> LogVariant list \<Rightarrow> LogFile \<times> files \<Rightarrow> log_error + LogFile \<times> files" where
  "xml_writeToFile time level msgs = (\<lambda>(f, fs).
     case io_device f of
       None \<Rightarrow> Inl LogAssert
     | Some d \<Rightarrow>
         let d1 = dv_seek (int (length (dv_contents d fs)) - 6) d;
             r = dv_writes (lf_append f) (xml_pieces time level msgs) (d1, fs)
         in Inr (f\<lparr>io_device := Some (fst r)\<rparr>, snd r))"

text \<open>The rest of \<open>QxtXmlFileLoggerEngine::initLoggerEngine\<close>, after that of the base class: whether the file, which got a
  frame when it was empty, is a log.\<close>

definition xml_check :: "LogFile \<times> files \<Rightarrow> log_error + bool \<times> LogFile \<times> files" where
  "xml_check = (\<lambda>(f, fs).
     case io_device f of
       None \<Rightarrow> Inl LogAssert
     | Some d \<Rightarrow>
         let c = dv_contents d fs in
         if c = [] then
           (let r = dv_writes (lf_append f) [xml_declaration, ''<log>\<newline>'', ''</log>''] (d, fs)
            in Inr (True, f\<lparr>io_device := Some (fst r)\<rparr>, snd r))
         else
           (let data = take 64 (drop (dv_pos d) c);
                start = xml_declaration @ ''<log>'';
                f1 = f\<lparr>io_device := Some (d\<lparr>dv_pos := dv_pos d + length data\<rparr>)\<rparr>
            in Inr (take (length start) data = start, f1, fs)))"

definition file_writeFormatted ::
    "(string \<Rightarrow> string) \<Rightarrow> LogLevel \<Rightarrow> LogVariant list \<Rightarrow> LogFile \<times> files \<Rightarrow> log_error + LogFile \<times> files" where
  "file_writeFormatted now level msgs = (\<lambda>(f, fs).
     case lf_kind f of
       BasicFile fmt \<Rightarrow> basic_writeToFile (now fmt) (file_level_name level) msgs (f, fs)
     | XmlFile \<Rightarrow> xml_writeToFile (now ''hh:mm:ss.zzzz'') (file_level_name level) msgs (f, fs))"

section \<open>The window\<close>

text \<open>\<open>LogWidget::writeFormatted\<close>: the paragraphs of the text.  The oldest ones, which the window drops, are kept here.\<close>

definition widget_writeFormatted :: "string \<Rightarrow> LogLevel \<Rightarrow> LogVariant list \<Rightarrow> string list \<Rightarrow> string list" where
  "widget_writeFormatted time level msgs text =
     (if msgs = [] then text
      else text @ [log_header time (logLevelToString level) @
             concat (map (\<lambda>m. case m of None \<Rightarrow> [] | Some s \<Rightarrow> s @ '' '') msgs)])"

end
