(* ===== verification/Log_Xml.thy ===== *)
theory Log_Xml
  imports Log_Files
begin

text \<open>
  The files that \<open>QxtXmlFileLoggerEngine\<close> writes: what is in them after any number of sessions, that the text of the
  messages can be read back, and what an engine writes that was not initialised by the logger.
\<close>

section \<open>Escapes\<close>

text \<open>The five replacements one after the other are one replacement of every character, because none of them makes a
  character that a later one replaces.\<close>

definition xml_entity :: "char \<Rightarrow> string" where
  "xml_entity c =
     (if c = CHR ''&'' then ''&amp;''
      else if c = CHR ''<'' then ''&lt;''
      else if c = CHR ''>'' then ''&gt;''
      else if c = CHR 0x27 then ''&apos;''
      else if c = CHR 0x22 then ''&quot;''
      else [c])"

lemma replace_char_append: "replace_char c r (s @ t) = replace_char c r s @ replace_char c r t"
  by (simp add: replace_char_def)

lemma toXmlSafeString_entities: "toXmlSafeString raw = concat (map xml_entity raw)"
proof (induction raw)
  case Nil
  show ?case by (simp add: toXmlSafeString_def replace_char_def)
next
  case (Cons c raw)
  have "toXmlSafeString ([c] @ raw) = toXmlSafeString [c] @ toXmlSafeString raw"
    by (simp only: toXmlSafeString_def replace_char_append)
  moreover have "toXmlSafeString [c] = xml_entity c"
    by (simp add: toXmlSafeString_def replace_char_def xml_entity_def)
  ultimately show ?case using Cons.IH by simp
qed

lemma toXmlSafeString_safe: "set (toXmlSafeString raw) \<inter> {CHR ''<'', CHR ''>'', CHR 0x27, CHR 0x22} = {}"
  by (auto simp: toXmlSafeString_entities xml_entity_def split: if_splits)

text \<open>The reading of the entities.\<close>

function xml_decode :: "string \<Rightarrow> string" where
  "xml_decode [] = []"
| "xml_decode (c # s) =
     (if c \<noteq> CHR ''&'' then c # xml_decode s
      else if take 4 s = ''amp;'' then CHR ''&'' # xml_decode (drop 4 s)
      else if take 3 s = ''lt;'' then CHR ''<'' # xml_decode (drop 3 s)
      else if take 3 s = ''gt;'' then CHR ''>'' # xml_decode (drop 3 s)
      else if take 5 s = ''apos;'' then CHR 0x27 # xml_decode (drop 5 s)
      else if take 5 s = ''quot;'' then CHR 0x22 # xml_decode (drop 5 s)
      else c # xml_decode s)"
  by pat_completeness auto
termination by (relation "measure length") auto

declare xml_decode.simps [simp del]

lemma xml_decode_entity: "xml_decode (xml_entity c @ s) = c # xml_decode s"
  by (simp add: xml_entity_def xml_decode.simps)

lemma xml_decode_safe: "xml_decode (toXmlSafeString raw) = raw"
proof (induction raw)
  case Nil
  show ?case by (simp add: toXmlSafeString_entities xml_decode.simps)
next
  case (Cons c raw)
  then show ?case by (simp add: toXmlSafeString_entities xml_decode_entity)
qed

section \<open>Writes\<close>

lemma overwrite_overwrite:
  "p \<le> length c \<Longrightarrow> overwrite (p + length s) t (overwrite p s c) = overwrite p (s @ t) c"
  by (simp add: overwrite_def min_def ac_simps)

lemma overwrite_end: "n \<le> length s \<Longrightarrow> length t = n \<Longrightarrow> overwrite (length c) s (c @ t) = c @ s"
  by (simp add: overwrite_def)

lemma dv_writes_result:
  assumes "dv_pos d \<le> length (dv_contents d fs)"
  shows "\<exists>d' fs'. dv_writes False ss (d, fs) = (d', fs') \<and> dv_file d' = dv_file d \<and>
    dv_pos d' = dv_pos d + length (concat ss) \<and>
    dv_contents d' fs' = overwrite (dv_pos d) (concat ss) (dv_contents d fs) \<and>
    dv_pos d' \<le> length (dv_contents d' fs') \<and> (\<forall>n. n \<noteq> dv_file d \<longrightarrow> fs' n = fs n)"
  using assms
proof (induction ss arbitrary: d fs)
  case Nil
  then show ?case by (simp add: dv_writes_def overwrite_def)
next
  case (Cons s ss)
  define d1 where "d1 = d\<lparr>dv_pos := dv_pos d + length s\<rparr>"
  define fs1 where "fs1 = fs(dv_file d \<mapsto> overwrite (dv_pos d) s (dv_contents d fs))"
  have step: "dv_writes False (s # ss) (d, fs) = dv_writes False ss (d1, fs1)"
    by (simp add: dv_writes_def dv_write_def Let_def d1_def fs1_def)
  have c: "dv_contents d1 fs1 = overwrite (dv_pos d) s (dv_contents d fs)"
    by (simp add: dv_contents_def d1_def fs1_def)
  have "dv_pos d1 \<le> length (dv_contents d1 fs1)"
    using Cons.prems unfolding c by (simp add: d1_def overwrite_def)
  from Cons.IH [OF this] obtain d' fs' where w:
    "dv_writes False ss (d1, fs1) = (d', fs')" "dv_file d' = dv_file d" "dv_pos d' = dv_pos d1 + length (concat ss)"
    "dv_contents d' fs' = overwrite (dv_pos d1) (concat ss) (dv_contents d1 fs1)"
    "dv_pos d' \<le> length (dv_contents d' fs')" "\<forall>n. n \<noteq> dv_file d \<longrightarrow> fs' n = fs1 n"
    by (auto simp: d1_def)
  have "dv_contents d' fs' = overwrite (dv_pos d) (concat (s # ss)) (dv_contents d fs)"
    using w(4) unfolding c using Cons.prems by (simp add: d1_def overwrite_overwrite)
  moreover have "dv_pos d' = dv_pos d + length (concat (s # ss))" "\<forall>n. n \<noteq> dv_file d \<longrightarrow> fs' n = fs n"
    using w(3,6) by (simp_all add: d1_def fs1_def)
  ultimately show ?case unfolding step using w(1,2,5) by blast
qed

section \<open>The file\<close>

type_synonym log_entry = "string \<times> string \<times> LogVariant list"

definition xml_entry :: "log_entry \<Rightarrow> string" where
  "xml_entry = (\<lambda>(time, level, msgs).
     xml_tab @ ''<entry type='' @ quoted level @ '' time='' @ quoted time @ ''>\<newline>'' @
     concat (concat (map xml_message msgs)) @ xml_tab @ ''</entry>\<newline>'')"

definition xml_head :: string where
  "xml_head = xml_declaration @ ''<log>\<newline>''"

definition xml_log :: "log_entry list \<Rightarrow> string" where
  "xml_log es = xml_head @ concat (map xml_entry es) @ ''</log>''"

lemma concat_xml_pieces: "concat (xml_pieces time level msgs) = xml_entry (time, level, msgs) @ ''</log>''"
  by (simp add: xml_pieces_def xml_entry_def quoted_def)

fun xml_writes :: "log_entry list \<Rightarrow> LogFile \<times> files \<Rightarrow> log_error + LogFile \<times> files" where
  "xml_writes [] x = Inr x"
| "xml_writes ((time, level, msgs) # es) x =
     (case xml_writeToFile time level msgs x of Inl e \<Rightarrow> Inl e | Inr x' \<Rightarrow> xml_writes es x')"

text \<open>\<open>xml_holds f fs c\<close>: the engine has the file open, and the contents are \<open>c\<close>.\<close>

definition xml_holds :: "LogFile \<Rightarrow> files \<Rightarrow> string \<Rightarrow> bool" where
  "xml_holds f fs c \<longleftrightarrow> lf_kind f = XmlFile \<and>
     (\<exists>d. io_device f = Some d \<and> dv_file d = logFile f \<and> dv_pos d \<le> length c \<and> fs (logFile f) = Some c)"

lemma xml_holds_contents: "xml_holds f fs c \<Longrightarrow> io_device f = Some d \<Longrightarrow> dv_contents d fs = c"
  by (auto simp: xml_holds_def dv_contents_def)

lemma writes_hold:
  assumes "lf_kind f = XmlFile" "dv_file d = logFile f" "fs (logFile f) = Some c" "dv_pos d \<le> length c" "concat ss \<noteq> []"
    and "dv_writes False ss (d, fs) = (d', fs')"
  shows "xml_holds (f\<lparr>io_device := Some d'\<rparr>) fs' (overwrite (dv_pos d) (concat ss) c)"
proof -
  have c: "dv_contents d fs = c" using assms by (simp add: dv_contents_def)
  then have "dv_pos d \<le> length (dv_contents d fs)" using assms by simp
  from dv_writes_result [OF this, of ss] assms(6)
  have r: "dv_file d' = dv_file d" "dv_pos d' \<le> length (dv_contents d' fs')"
      "dv_contents d' fs' = overwrite (dv_pos d) (concat ss) c"
    unfolding c by (metis prod.inject)+
  have "overwrite (dv_pos d) (concat ss) c \<noteq> []"
    using assms(5) by (simp add: overwrite_def)
  with r have "fs' (logFile f) = Some (overwrite (dv_pos d) (concat ss) c)"
    using assms(2) by (simp add: dv_contents_def split: option.splits)
  with r assms(1,2) show ?thesis by (simp add: xml_holds_def)
qed

text \<open>An entry replaces the last six characters, whatever they are.\<close>

lemma xml_write_over:
  assumes "xml_holds f fs (body @ tail)" "length tail = 6"
  shows "\<exists>f' fs'. xml_writeToFile time level msgs (f, fs) = Inr (f', fs') \<and> logFile f' = logFile f \<and>
    xml_holds f' fs' (body @ xml_entry (time, level, msgs) @ ''</log>'')"
proof -
  let ?c = "body @ tail"
  from assms obtain d where d: "io_device f = Some d" "dv_file d = logFile f" "fs (logFile f) = Some ?c" "lf_kind f = XmlFile"
    by (auto simp: xml_holds_def)
  let ?d = "dv_seek (int (length ?c) - 6) d"
  have s: "dv_file ?d = logFile f" "dv_pos ?d = length body" by (simp_all add: dv_seek_def d assms(2))
  obtain d' fs' where w: "dv_writes False (xml_pieces time level msgs) (?d, fs) = (d', fs')" by fastforce
  have "xml_holds (f\<lparr>io_device := Some d'\<rparr>) fs' (overwrite (length body) (concat (xml_pieces time level msgs)) ?c)"
    using writes_hold [OF d(4) s(1) d(3) _ _ w] unfolding s(2) concat_xml_pieces by simp
  also have "overwrite (length body) (concat (xml_pieces time level msgs)) ?c = body @ concat (xml_pieces time level msgs)"
    by (rule overwrite_end [where n = 6]) (simp_all add: concat_xml_pieces assms(2))
  finally show ?thesis
    using w xml_holds_contents [OF assms(1) d(1)]
    by (simp add: xml_writeToFile_def d Let_def lf_append_def concat_xml_pieces assms(2))
qed

lemmas xml_write_holds = xml_write_over [where tail = "''</log>''", simplified]

lemma xml_writes_hold:
  assumes "xml_holds f fs (body @ ''</log>'')"
  shows "\<exists>f' fs'. xml_writes es (f, fs) = Inr (f', fs') \<and> logFile f' = logFile f \<and>
    xml_holds f' fs' (body @ concat (map xml_entry es) @ ''</log>'')"
  using assms
proof (induction es arbitrary: f fs body)
  case (Cons e es)
  obtain time level msgs where e: "e = (time, level, msgs)" by (metis prod_cases3)
  from xml_write_holds [OF Cons.prems, of time level msgs] obtain f1 fs1 where
    1: "xml_writeToFile time level msgs (f, fs) = Inr (f1, fs1)" "logFile f1 = logFile f"
      "xml_holds f1 fs1 ((body @ xml_entry e) @ ''</log>'')" by (auto simp: e)
  from Cons.IH [OF 1(3)] 1 show ?case by (simp add: e)
qed simp

section \<open>Opening\<close>

lemma xml_reopen:
  assumes "lf_kind f = XmlFile" "logFile f = name" "name \<noteq> []" "writable name" "fs name = Some c" "c \<noteq> []"
  shows "\<exists>f1 f2. file_init writable (e, f, fs) = (enableLogging e, f1, fs) \<and>
    xml_check (f1, fs) = Inr (take 44 c = xml_declaration @ ''<log>'', f2, fs) \<and> logFile f2 = name \<and> xml_holds f2 fs c"
proof -
  have l: "length xml_declaration = 39" by code_simp
  let ?f1 = "f\<lparr>io_device := Some \<lparr>dv_file = name, dv_pos = 0\<rparr>\<rparr>"
  let ?f2 = "f\<lparr>io_device := Some \<lparr>dv_file = name, dv_pos = length (take 64 c)\<rparr>\<rparr>"
  have "file_init writable (e, f, fs) = (enableLogging e, ?f1, fs)"
    using assms by (simp add: file_init_def file_kill_def dv_open_def Let_def)
  moreover have "xml_check (?f1, fs) = Inr (take 44 c = xml_declaration @ ''<log>'', ?f2, fs)"
    using assms by (simp add: xml_check_def dv_contents_def Let_def l min_def)
  moreover have "xml_holds ?f2 fs c" using assms by (simp add: xml_holds_def)
  ultimately show ?thesis using assms(2) by fastforce
qed

lemma xml_log_starts: "take 44 (xml_log es) = xml_declaration @ ''<log>''"
proof -
  have "take 44 xml_head = xml_declaration @ ''<log>''" "length xml_head = 45" by code_simp+
  then show ?thesis by (simp add: xml_log_def)
qed

lemma xml_open_new:
  assumes "lf_kind f = XmlFile" "logFile f = name" "name \<noteq> []" "writable name" "fs name \<in> {None, Some []}"
  shows "\<exists>f1 fs1 f2 fs2. file_init writable (e, f, fs) = (enableLogging e, f1, fs1) \<and>
    xml_check (f1, fs1) = Inr (True, f2, fs2) \<and> logFile f2 = name \<and> xml_holds f2 fs2 (xml_log [])"
proof -
  let ?d = "\<lparr>dv_file = name, dv_pos = 0\<rparr>"
  let ?f1 = "f\<lparr>io_device := Some ?d\<rparr>" and ?fs1 = "fs(name \<mapsto> [])"
  let ?ss = "[xml_declaration, ''<log>\<newline>'', ''</log>'']"
  have i: "file_init writable (e, f, fs) = (enableLogging e, ?f1, ?fs1)"
    using assms by (auto simp: file_init_def file_kill_def dv_open_def Let_def fun_upd_idem)
  obtain d' fs' where w: "dv_writes False ?ss (?d, ?fs1) = (d', fs')" by fastforce
  have "xml_holds (?f1\<lparr>io_device := Some d'\<rparr>) fs' (overwrite (dv_pos ?d) (concat ?ss) [])"
    by (rule writes_hold [OF _ _ _ _ _ w]) (use assms in simp_all)
  then have "xml_holds (?f1\<lparr>io_device := Some d'\<rparr>) fs' (xml_log [])"
    by (simp add: overwrite_def xml_log_def xml_head_def)
  moreover have "xml_check (?f1, ?fs1) = Inr (True, ?f1\<lparr>io_device := Some d'\<rparr>, fs')"
    using w assms(1) by (simp add: xml_check_def dv_contents_def lf_append_def)
  ultimately show ?thesis using i assms(2) by fastforce
qed

text \<open>A session: the logger initialises the engine, which then writes.\<close>

definition xml_session ::
    "(string \<Rightarrow> bool) \<Rightarrow> log_entry list \<Rightarrow> QxtLoggerEngine \<times> LogFile \<times> files \<Rightarrow> log_error + bool \<times> LogFile \<times> files" where
  "xml_session writable es x =
     (let (e, f, fs) = file_init writable x in
      case xml_check (f, fs) of
        Inl err \<Rightarrow> Inl err
      | Inr (ok, f', fs') \<Rightarrow> if ok then map_sum id (Pair True) (xml_writes es (f', fs')) else Inr (False, f', fs'))"

lemma xml_session_writes:
  assumes "lf_kind f = XmlFile" "logFile f = name" "name \<noteq> []" "writable name"
    and "fs name = Some (xml_log es0) \<or> fs name \<in> {None, Some []} \<and> es0 = []"
  shows "\<exists>f' fs'. xml_session writable es (e, f, fs) = Inr (True, f', fs') \<and> lf_kind f' = XmlFile \<and>
    logFile f' = name \<and> fs' name = Some (xml_log (es0 @ es))"
proof -
  have "\<exists>f1 fs1 f2 fs2. file_init writable (e, f, fs) = (enableLogging e, f1, fs1) \<and>
    xml_check (f1, fs1) = Inr (True, f2, fs2) \<and> logFile f2 = name \<and> xml_holds f2 fs2 (xml_log es0)"
  proof (cases "fs name = Some (xml_log es0)")
    case True
    have "xml_log es0 \<noteq> []" by (simp add: xml_log_def)
    from xml_reopen [where f = f and fs = fs and writable = writable, OF assms(1,2,3,4) True this] show ?thesis by (simp add: xml_log_starts) blast
  next
    case False
    with assms(5) show ?thesis using xml_open_new [where f = f and fs = fs and writable = writable, OF assms(1,2,3,4)] by blast
  qed
  then obtain f1 fs1 f2 fs2 where o: "file_init writable (e, f, fs) = (enableLogging e, f1, fs1)"
    "xml_check (f1, fs1) = Inr (True, f2, fs2)" "logFile f2 = name" "xml_holds f2 fs2 (xml_log es0)" by blast
  from o(4) have "xml_holds f2 fs2 ((xml_head @ concat (map xml_entry es0)) @ ''</log>'')" by (simp add: xml_log_def)
  from xml_writes_hold [OF this, of es] obtain f3 fs3 where
    w: "xml_writes es (f2, fs2) = Inr (f3, fs3)" "logFile f3 = name" "xml_holds f3 fs3 (xml_log (es0 @ es))"
    using o(3) by (auto simp: xml_log_def)
  from w(3) have "lf_kind f3 = XmlFile" "fs3 name = Some (xml_log (es0 @ es))" using w(2) by (auto simp: xml_holds_def)
  with o w(1,2) show ?thesis by (simp add: xml_session_def)
qed

fun xml_sessions ::
    "(string \<Rightarrow> bool) \<Rightarrow> log_entry list list \<Rightarrow> QxtLoggerEngine \<times> LogFile \<times> files \<Rightarrow> log_error + bool \<times> files" where
  "xml_sessions writable [] (e, f, fs) = Inr (True, fs)"
| "xml_sessions writable (es # ss) (e, f, fs) =
     (case xml_session writable es (e, f, fs) of
        Inl err \<Rightarrow> Inl err
      | Inr (ok, f', fs') \<Rightarrow> if ok then xml_sessions writable ss (e, f', fs') else Inr (False, fs'))"

lemma xml_sessions_write:
  assumes "lf_kind f = XmlFile" "logFile f = name" "name \<noteq> []" "writable name"
    and "fs name = Some (xml_log es0) \<or> fs name \<in> {None, Some []} \<and> es0 = [] \<and> ss \<noteq> []"
  shows "\<exists>fs'. xml_sessions writable ss (e, f, fs) = Inr (True, fs') \<and> fs' name = Some (xml_log (es0 @ concat ss))"
  using assms
proof (induction ss arbitrary: f fs es0)
  case (Cons es ss)
  from Cons.prems(5) have "fs name = Some (xml_log es0) \<or> fs name \<in> {None, Some []} \<and> es0 = []" by blast
  from xml_session_writes [where fs = fs and writable = writable and es = es and e = e, OF Cons.prems(1-4) this] obtain f' fs' where
    1: "xml_session writable es (e, f, fs) = Inr (True, f', fs')" "lf_kind f' = XmlFile" "logFile f' = name"
      "fs' name = Some (xml_log (es0 @ es))" by blast
  from Cons.IH [OF 1(2,3) Cons.prems(3,4), of fs' "es0 @ es"] 1 show ?case by auto
qed auto

text \<open>An engine that only its constructor has opened writes to an empty file without the frame: the file is no log, and the
  next session refuses it.\<close>

lemma xml_first_write:
  assumes "lf_kind f = XmlFile" "io_device f = Some \<lparr>dv_file = logFile f, dv_pos = 0\<rparr>" "fs (logFile f) = Some []"
  shows "\<exists>f' fs'. xml_writeToFile time level msgs (f, fs) = Inr (f', fs') \<and> logFile f' = logFile f \<and>
    xml_holds f' fs' (xml_entry (time, level, msgs) @ ''</log>'')"
proof -
  let ?d = "\<lparr>dv_file = logFile f, dv_pos = 0\<rparr>"
  obtain d' fs' where w: "dv_writes False (xml_pieces time level msgs) (?d, fs) = (d', fs')" by fastforce
  have "xml_holds (f\<lparr>io_device := Some d'\<rparr>) fs' (overwrite (dv_pos ?d) (concat (xml_pieces time level msgs)) [])"
    by (rule writes_hold [OF assms(1) _ assms(3) _ _ w]) (simp_all add: concat_xml_pieces)
  then have "xml_holds (f\<lparr>io_device := Some d'\<rparr>) fs' (xml_entry (time, level, msgs) @ ''</log>'')"
    by (simp add: overwrite_def concat_xml_pieces)
  then show ?thesis
    using w assms by (simp add: xml_writeToFile_def Let_def dv_contents_def dv_seek_def lf_append_def)
qed

lemma xml_writes_without_frame:
  assumes "name \<noteq> []" "writable name" "fs name \<in> {None, Some []}" "es \<noteq> []"
    and "file_new writable XmlFile name fs = (e, f, fs1)"
  shows "\<exists>f' fs'. xml_writes es (f, fs1) = Inr (f', fs') \<and> fs' name = Some (concat (map xml_entry es) @ ''</log>'')"
proof -
  obtain time level msgs es' where es: "es = (time, level, msgs) # es'" using assms(4) by (cases es) auto
  have f: "f = \<lparr>logFile = name, lf_kind = XmlFile, io_device = Some \<lparr>dv_file = name, dv_pos = 0\<rparr>\<rparr>" "fs1 name = Some []"
    using assms by (auto simp: file_new_def file_init_def file_kill_def dv_open_def Let_def split: if_splits)
  obtain f1 fs2 where 1: "xml_writeToFile time level msgs (f, fs1) = Inr (f1, fs2)" "logFile f1 = name"
      "xml_holds f1 fs2 (xml_entry (time, level, msgs) @ ''</log>'')"
    using xml_first_write [of f fs1 time level msgs] f by auto
  from xml_writes_hold [OF 1(3), of es'] obtain f2 fs3 where
    2: "xml_writes es' (f1, fs2) = Inr (f2, fs3)" "logFile f2 = name"
      "xml_holds f2 fs3 (concat (map xml_entry es) @ ''</log>'')" using 1(2) by (auto simp: es)
  then show ?thesis using 1(1) by (auto simp: es xml_holds_def)
qed

lemma entry_is_no_log: "take 44 (xml_entry en @ s) \<noteq> xml_declaration @ ''<log>''"
proof -
  obtain time level msgs where en: "en = (time, level, msgs)" by (metis prod_cases3)
  have "hd (take 44 (xml_entry en @ s)) = CHR '' ''" by (simp add: en xml_entry_def xml_tab_def)
  moreover have "hd (xml_declaration @ ''<log>'') = CHR ''<''" by (simp add: xml_declaration_def)
  ultimately have "hd (take 44 (xml_entry en @ s)) \<noteq> hd (xml_declaration @ ''<log>'')" by simp
  then show ?thesis by fastforce
qed

section \<open>Reading the messages\<close>

text \<open>A reader of the log: the texts between \<open><message>\<close> and the next tag.\<close>

function read_messages :: "string \<Rightarrow> string list" where
  "read_messages [] = []"
| "read_messages (c # s) =
     (if take 9 (c # s) = ''<message>''
      then xml_decode (takeWhile (\<lambda>x. x \<noteq> CHR ''<'') (drop 8 s)) # read_messages (drop 8 s)
      else read_messages s)"
  by pat_completeness auto
termination by (relation "measure length") auto

declare read_messages.simps(2) [simp del]

definition message_text :: "LogVariant \<Rightarrow> string" where
  "message_text m = (case m of None \<Rightarrow> [] | Some s \<Rightarrow> s)"

lemma read_messages_skip: "c \<noteq> CHR ''<'' \<Longrightarrow> read_messages (c # s) = read_messages s"
  by (simp add: read_messages.simps(2))

lemma read_messages_text: "CHR ''<'' \<notin> set t \<Longrightarrow> read_messages (t @ s) = read_messages s"
  by (induction t) (auto simp: read_messages_skip)

lemma read_messages_tag: "c \<noteq> CHR ''m'' \<Longrightarrow> read_messages (CHR ''<'' # c # s) = read_messages (c # s)"
  by (simp add: read_messages.simps(2) [of "CHR ''<''"])

lemma read_messages_start:
  "read_messages (''<message>'' @ s) = xml_decode (takeWhile (\<lambda>x. x \<noteq> CHR ''<'') s) # read_messages s"
  by (simp add: read_messages.simps(2))

lemma read_messages_end: "read_messages (''</message>\<newline>'' @ s) = read_messages s"
  by (simp add: read_messages_tag read_messages_skip)

lemma takeWhile_safe: "takeWhile (\<lambda>x. x \<noteq> CHR ''<'') (toXmlSafeString raw @ CHR ''<'' # s) = toXmlSafeString raw"
  using toXmlSafeString_safe [of raw] by (subst takeWhile_append2) auto

lemma read_messages_message: "read_messages (concat (xml_message m) @ s) = message_text m # read_messages s"
proof -
  let ?t = "toXmlSafeString (message_text m)"
  have "read_messages (concat (xml_message m) @ s) =
      read_messages ((xml_tab @ xml_tab) @ ''<message>'' @ ?t @ ''</message>\<newline>'' @ s)"
    by (simp add: xml_message_def message_text_def)
  also have "\<dots> = read_messages (''<message>'' @ ?t @ ''</message>\<newline>'' @ s)"
    by (rule read_messages_text) (simp add: xml_tab_def)
  also have "\<dots> = xml_decode ?t # read_messages (?t @ ''</message>\<newline>'' @ s)"
    using takeWhile_safe [of "message_text m"] by (subst read_messages_start) simp
  also have "read_messages (?t @ ''</message>\<newline>'' @ s) = read_messages (''</message>\<newline>'' @ s)"
    using toXmlSafeString_safe [of "message_text m"] by (intro read_messages_text) auto
  finally show ?thesis by (simp only: xml_decode_safe read_messages_end)
qed

lemma read_messages_entry:
  assumes "CHR ''<'' \<notin> set time" "CHR ''<'' \<notin> set level"
  shows "read_messages (xml_entry (time, level, msgs) @ s) = map message_text msgs @ read_messages s"
proof -
  have m: "read_messages (concat (concat (map xml_message msgs)) @ s') = map message_text msgs @ read_messages s'" for s'
    by (induction msgs) (simp_all add: read_messages_message)
  let ?r = "concat (concat (map xml_message msgs)) @ xml_tab @ ''</entry>\<newline>'' @ s"
  have "read_messages (xml_entry (time, level, msgs) @ s) = read_messages
      (xml_tab @ CHR ''<'' # CHR ''e'' # (''ntry type='' @ quoted level @ '' time='' @ quoted time @ ''>\<newline>'') @ ?r)"
    by (simp add: xml_entry_def)
  also have "\<dots> = read_messages (CHR ''<'' # CHR ''e'' # (''ntry type='' @ quoted level @ '' time='' @ quoted time @ ''>\<newline>'') @ ?r)"
    by (rule read_messages_text) (simp add: xml_tab_def)
  also have "\<dots> = read_messages ((''entry type='' @ quoted level @ '' time='' @ quoted time @ ''>\<newline>'') @ ?r)"
    by (subst read_messages_tag) simp_all
  also have "\<dots> = read_messages ?r"
    by (rule read_messages_text) (use assms in \<open>simp add: quoted_def\<close>)
  also have "\<dots> = map message_text msgs @ read_messages (xml_tab @ ''</entry>\<newline>'' @ s)" by (rule m)
  also have "read_messages (xml_tab @ ''</entry>\<newline>'' @ s) = read_messages s"
    by (simp add: xml_tab_def read_messages_tag read_messages_skip)
  finally show ?thesis .
qed

lemma read_messages_log:
  assumes "\<forall>(time, level, msgs) \<in> set es. CHR ''<'' \<notin> set time \<and> CHR ''<'' \<notin> set level"
  shows "read_messages (xml_log es) = concat (map (\<lambda>(time, level, msgs). map message_text msgs) es)"
proof -
  have e: "read_messages (concat (map xml_entry es) @ s) = concat (map (\<lambda>(time, level, msgs). map message_text msgs) es) @ read_messages s" for s
    using assms by (induction es) (auto simp: read_messages_entry)
  have "xml_log es = xml_head @ concat (map xml_entry es) @ ''</log>''" by (simp add: xml_log_def)
  moreover have "read_messages (xml_head @ s) = read_messages s" for s
    by (simp add: xml_head_def xml_declaration_def quoted_def read_messages_tag read_messages_skip)
  ultimately show ?thesis by (simp add: e read_messages_tag read_messages_skip)
qed

end
