(* ===== verification/Logger.thy ===== *)
theory Logger
  imports Log_Xml Qt_Containers
begin

text \<open>
  The logger (\<open>qxtlogger.cpp\<close>): a map from names to engines, which it owns, and the calls that set up the engines and log
  messages through them.  The engines are objects in a store; a pointer to an engine that was deleted is found out by the
  exception \<open>DeletedEngine\<close>, a failed assertion by \<open>LogAssert\<close>.  \<open>now\<close> gives the time in a format, \<open>writable\<close> tells which
  files can be opened.
\<close>

datatype logger_class = StdClass StdStreams | FileClass LogFile | WidgetClass "string list"

record log_engine =
  le_flags :: QxtLoggerEngine
  le_class :: logger_class

type_synonym engine_ref = nat

datatype logger_signal =
    loggerEngineAdded string | loggerEngineRemoved string | loggerEngineEnabled string | loggerEngineDisabled string

record qxt_logger =
  lg_engines :: "engine_ref \<Rightarrow> log_engine option"
  map_logEngineMap :: "(string \<times> engine_ref) list"
  lg_files :: files
  lg_signals :: "logger_signal list"
  lg_handler :: bool

type_synonym logger_op = "qxt_logger \<Rightarrow> log_error + qxt_logger"

definition thenL :: "logger_op \<Rightarrow> logger_op \<Rightarrow> logger_op" where
  "thenL f g lg = (case f lg of Inl e \<Rightarrow> Inl e | Inr lg' \<Rightarrow> g lg')"

definition emitL :: "logger_signal \<Rightarrow> logger_op" where
  "emitL s lg = Inr (lg\<lparr>lg_signals := lg_signals lg @ [s]\<rparr>)"

fun forEngines :: "(engine_ref \<Rightarrow> logger_op) \<Rightarrow> engine_ref list \<Rightarrow> logger_op" where
  "forEngines f [] lg = Inr lg"
| "forEngines f (r # rs) lg = thenL (f r) (forEngines f rs) lg"

text \<open>The calls that are given a name do nothing when there is no such engine.\<close>

definition onEngine :: "string \<Rightarrow> (engine_ref \<Rightarrow> logger_op) \<Rightarrow> logger_op" where
  "onEngine name f lg = (case map_of (map_logEngineMap lg) name of None \<Rightarrow> Inr lg | Some r \<Rightarrow> f r lg)"

definition setEngine :: "engine_ref \<Rightarrow> log_engine \<Rightarrow> qxt_logger \<Rightarrow> qxt_logger" where
  "setEngine r e lg = lg\<lparr>lg_engines := (lg_engines lg)(r \<mapsto> e)\<rparr>"

definition modEngine :: "(log_engine \<Rightarrow> log_engine) \<Rightarrow> engine_ref \<Rightarrow> logger_op" where
  "modEngine f r lg = (case lg_engines lg r of None \<Rightarrow> Inl DeletedEngine | Some e \<Rightarrow> Inr (setEngine r (f e) lg))"

definition modFlags :: "(QxtLoggerEngine \<Rightarrow> QxtLoggerEngine) \<Rightarrow> engine_ref \<Rightarrow> logger_op" where
  "modFlags f = modEngine (\<lambda>e. e\<lparr>le_flags := f (le_flags e)\<rparr>)"

definition engineRefs :: "qxt_logger \<Rightarrow> engine_ref list" where
  "engineRefs lg = map snd (map_logEngineMap lg)"

section \<open>The virtual methods\<close>

definition eng_isInitialized :: "log_engine \<Rightarrow> bool" where
  "eng_isInitialized e =
     (case le_class e of StdClass s \<Rightarrow> std_isInitialized s | FileClass f \<Rightarrow> file_isInitialized f | WidgetClass t \<Rightarrow> True)"

definition eng_kill :: "log_engine \<Rightarrow> log_engine" where
  "eng_kill e =
     (case le_class e of
        StdClass s \<Rightarrow> e
      | FileClass f \<Rightarrow> e\<lparr>le_class := FileClass (file_kill f)\<rparr>
      | WidgetClass t \<Rightarrow> e\<lparr>le_flags := disableLogging (le_flags e)\<rparr>)"

definition eng_writeFormatted ::
    "(string \<Rightarrow> string) \<Rightarrow> LogLevel \<Rightarrow> LogVariant list \<Rightarrow> log_engine \<times> files \<Rightarrow> log_error + log_engine \<times> files" where
  "eng_writeFormatted now level msgs = (\<lambda>(e, fs).
     case le_class e of
       StdClass s \<Rightarrow>
         map_sum id (\<lambda>s'. (e\<lparr>le_class := StdClass s'\<rparr>, fs)) (std_writeFormatted (now ''hh:mm:ss.zzz'') level msgs s)
     | FileClass f \<Rightarrow>
         map_sum id (\<lambda>(f', fs'). (e\<lparr>le_class := FileClass f'\<rparr>, fs')) (file_writeFormatted now level msgs (f, fs))
     | WidgetClass t \<Rightarrow> Inr (e\<lparr>le_class := WidgetClass (widget_writeFormatted (now ''hh:mm:ss.zzz'') level msgs t)\<rparr>, fs))"

section \<open>Logging\<close>

text \<open>\<open>QxtLogger::log\<close> invokes the slot of the private object, which is called at once in the thread of the logger; for
  another thread the event loop of that thread calls it later.\<close>

definition log_to :: "(string \<Rightarrow> string) \<Rightarrow> LogLevel \<Rightarrow> LogVariant list \<Rightarrow> engine_ref \<Rightarrow> logger_op" where
  "log_to now level args r lg =
     (case lg_engines lg r of
        None \<Rightarrow> Inl DeletedEngine
      | Some e \<Rightarrow>
          if eng_isInitialized e \<and> isLoggingEnabled (le_flags e) \<and> isLogLevelEnabled level (le_flags e)
          then map_sum id (\<lambda>(e', fs'). (setEngine r e' lg)\<lparr>lg_files := fs'\<rparr>)
                 (eng_writeFormatted now level args (e, lg_files lg))
          else Inr lg)"

definition qxt_log :: "(string \<Rightarrow> string) \<Rightarrow> LogLevel \<Rightarrow> LogVariant list \<Rightarrow> logger_op" where
  "qxt_log now level args lg = forEngines (log_to now level args) (engineRefs lg) lg"

text \<open>The slots that take a list.\<close>

definition info_list :: "(string \<Rightarrow> string) \<Rightarrow> LogVariant list \<Rightarrow> logger_op" where
  "info_list now args = qxt_log now InfoLevel args"

definition trace_list :: "(string \<Rightarrow> string) \<Rightarrow> LogVariant list \<Rightarrow> logger_op" where
  "trace_list now args = qxt_log now TraceLevel args"

definition warning_list :: "(string \<Rightarrow> string) \<Rightarrow> LogVariant list \<Rightarrow> logger_op" where
  "warning_list now args = qxt_log now WarningLevel args"

definition error_list :: "(string \<Rightarrow> string) \<Rightarrow> LogVariant list \<Rightarrow> logger_op" where
  "error_list now args = qxt_log now ErrorLevel args"

definition debug_list :: "(string \<Rightarrow> string) \<Rightarrow> LogVariant list \<Rightarrow> logger_op" where
  "debug_list now args = qxt_log now DebugLevel args"

definition critical_list :: "(string \<Rightarrow> string) \<Rightarrow> LogVariant list \<Rightarrow> logger_op" where
  "critical_list now args = qxt_log now CriticalLevel args"

definition fatal_list :: "(string \<Rightarrow> string) \<Rightarrow> LogVariant list \<Rightarrow> logger_op" where
  "fatal_list now args = qxt_log now FatalLevel args"

definition write_list :: "(string \<Rightarrow> string) \<Rightarrow> LogVariant list \<Rightarrow> logger_op" where
  "write_list now args = qxt_log now WriteLevel args"

text \<open>The slots with ten parameters: all but the first are dropped when they are null.\<close>

definition message_args :: "LogVariant \<Rightarrow> LogVariant list \<Rightarrow> LogVariant list" where
  "message_args message msgs = message # filter (\<lambda>m. m \<noteq> None) msgs"

definition qxt_info :: "(string \<Rightarrow> string) \<Rightarrow> LogVariant \<Rightarrow> LogVariant list \<Rightarrow> logger_op" where
  "qxt_info now message msgs = info_list now (message_args message msgs)"

definition qxt_trace :: "(string \<Rightarrow> string) \<Rightarrow> LogVariant \<Rightarrow> LogVariant list \<Rightarrow> logger_op" where
  "qxt_trace now message msgs = trace_list now (message_args message msgs)"

definition qxt_warning :: "(string \<Rightarrow> string) \<Rightarrow> LogVariant \<Rightarrow> LogVariant list \<Rightarrow> logger_op" where
  "qxt_warning now message msgs = warning_list now (message_args message msgs)"

definition qxt_error :: "(string \<Rightarrow> string) \<Rightarrow> LogVariant \<Rightarrow> LogVariant list \<Rightarrow> logger_op" where
  "qxt_error now message msgs = error_list now (message_args message msgs)"

definition qxt_debug :: "(string \<Rightarrow> string) \<Rightarrow> LogVariant \<Rightarrow> LogVariant list \<Rightarrow> logger_op" where
  "qxt_debug now message msgs = debug_list now (message_args message msgs)"

definition qxt_write :: "(string \<Rightarrow> string) \<Rightarrow> LogVariant \<Rightarrow> LogVariant list \<Rightarrow> logger_op" where
  "qxt_write now message msgs = write_list now (message_args message msgs)"

definition qxt_critical :: "(string \<Rightarrow> string) \<Rightarrow> LogVariant \<Rightarrow> LogVariant list \<Rightarrow> logger_op" where
  "qxt_critical now message msgs = critical_list now (message_args message msgs)"

definition qxt_fatal :: "(string \<Rightarrow> string) \<Rightarrow> LogVariant \<Rightarrow> LogVariant list \<Rightarrow> logger_op" where
  "qxt_fatal now message msgs = fatal_list now (message_args message msgs)"

datatype QtMsgType = QtDebugMsg | QtInfoMsg | QtWarningMsg | QtCriticalMsg | QtFatalMsg

text \<open>The answer tells whether the process is aborted then.\<close>

definition messageHandler :: "(string \<Rightarrow> string) \<Rightarrow> QtMsgType \<Rightarrow> string \<Rightarrow> qxt_logger \<Rightarrow> (log_error + qxt_logger) \<times> bool" where
  "messageHandler now t msg lg =
     (case t of
        QtDebugMsg \<Rightarrow> (qxt_debug now (Some msg) [Some ''qdebug''] lg, False)
      | QtInfoMsg \<Rightarrow> (qxt_info now (Some msg) [Some ''qinfo''] lg, False)
      | QtWarningMsg \<Rightarrow> (qxt_warning now (Some msg) [Some ''qwarning''] lg, False)
      | QtCriticalMsg \<Rightarrow> (qxt_critical now (Some msg) [Some ''qcritical''] lg, False)
      | QtFatalMsg \<Rightarrow> (qxt_fatal now (Some msg) [Some ''qfatal''] lg, True))"

definition installAsMessageHandler :: "qxt_logger \<Rightarrow> qxt_logger" where
  "installAsMessageHandler lg = lg\<lparr>lg_handler := True\<rparr>"

definition removeAsMessageHandler :: "qxt_logger \<Rightarrow> qxt_logger" where
  "removeAsMessageHandler lg = lg\<lparr>lg_handler := False\<rparr>"

section \<open>Setting up the engines\<close>

definition enableLogLevels_all :: "32 word \<Rightarrow> logger_op" where
  "enableLogLevels_all levels lg = forEngines (modFlags (enableLogLevels levels)) (engineRefs lg) lg"

definition enableLogLevels_named :: "string \<Rightarrow> 32 word \<Rightarrow> logger_op" where
  "enableLogLevels_named name levels = onEngine name (modFlags (enableLogLevels levels))"

definition enableAllLogLevels_named :: "string \<Rightarrow> logger_op" where
  "enableAllLogLevels_named name = enableLogLevels_named name (level_bits AllLevels)"

definition enableAllLogLevels :: logger_op where
  "enableAllLogLevels = enableLogLevels_all (level_bits AllLevels)"

definition enableLoggerEngine :: "string \<Rightarrow> logger_op" where
  "enableLoggerEngine name =
     onEngine name (\<lambda>r. thenL (modFlags enableLogging r) (emitL (loggerEngineEnabled name)))"

definition disableLogLevels_all :: "32 word \<Rightarrow> logger_op" where
  "disableLogLevels_all levels lg = forEngines (modFlags (disableLogLevels levels)) (engineRefs lg) lg"

definition disableLoggerEngine :: "string \<Rightarrow> logger_op" where
  "disableLoggerEngine name =
     onEngine name (\<lambda>r. thenL (modFlags disableLogging r) (emitL (loggerEngineDisabled name)))"

definition setMinimumLevel_all :: "LogLevel \<Rightarrow> logger_op" where
  "setMinimumLevel_all level lg = forEngines (modFlags (setQxtLoggerEngineMinimumLevel level)) (engineRefs lg) lg"

definition setMinimumLevel :: "string \<Rightarrow> LogLevel \<Rightarrow> logger_op" where
  "setMinimumLevel name level = onEngine name (modFlags (setQxtLoggerEngineMinimumLevel level))"

definition disableLogLevels_named :: "string \<Rightarrow> 32 word \<Rightarrow> logger_op" where
  "disableLogLevels_named name levels = onEngine name (modFlags (disableLogLevels levels))"

definition disableAllLogLevels_named :: "string \<Rightarrow> logger_op" where
  "disableAllLogLevels_named name = disableLogLevels_named name (level_bits AllLevels)"

definition disableAllLogLevels :: logger_op where
  "disableAllLogLevels = disableLogLevels_all (level_bits AllLevels)"

definition killLoggerEngine :: "string \<Rightarrow> logger_op" where
  "killLoggerEngine name = onEngine name (modEngine eng_kill)"

text \<open>\<open>initLoggerEngine\<close> of an engine.  One that writes XML and finds a file that is no log has the logger write a warning,
  before it closes the file.\<close>

definition storeFile :: "engine_ref \<Rightarrow> log_engine \<Rightarrow> LogFile \<Rightarrow> files \<Rightarrow> qxt_logger \<Rightarrow> qxt_logger" where
  "storeFile r e f fs lg = (setEngine r (e\<lparr>le_class := FileClass f\<rparr>) lg)\<lparr>lg_files := fs\<rparr>"

definition eng_init :: "(string \<Rightarrow> string) \<Rightarrow> (string \<Rightarrow> bool) \<Rightarrow> engine_ref \<Rightarrow> logger_op" where
  "eng_init now writable r lg =
     (case lg_engines lg r of
        None \<Rightarrow> Inl DeletedEngine
      | Some e \<Rightarrow>
          (case le_class e of
             StdClass s \<Rightarrow> Inr lg
           | WidgetClass t \<Rightarrow> modFlags enableLogging r lg
           | FileClass f \<Rightarrow>
               (case file_init writable (le_flags e, f, lg_files lg) of
                  (flags, f1, fs1) \<Rightarrow>
                    let e1 = e\<lparr>le_flags := flags\<rparr> in
                    (case lf_kind f of
                       BasicFile fmt \<Rightarrow> Inr (storeFile r e1 f1 fs1 lg)
                     | XmlFile \<Rightarrow>
                         (case xml_check (f1, fs1) of
                            Inl err \<Rightarrow> Inl err
                          | Inr (ok, f2, fs2) \<Rightarrow>
                              if ok then Inr (storeFile r e1 f2 fs2 lg)
                              else
                                thenL (qxt_warning now (Some (logFile f @ '' is not a valid XML log file.'')) [])
                                      (modEngine eng_kill r)
                                      (storeFile r e1 f2 fs2 lg))))))"

definition initLoggerEngine :: "(string \<Rightarrow> string) \<Rightarrow> (string \<Rightarrow> bool) \<Rightarrow> string \<Rightarrow> logger_op" where
  "initLoggerEngine now writable name = onEngine name (eng_init now writable)"

text \<open>\<open>QxtAbstractFileLoggerEngine::setLogFileName\<close>, called on an engine.\<close>

definition setLogFileName :: "(string \<Rightarrow> string) \<Rightarrow> (string \<Rightarrow> bool) \<Rightarrow> engine_ref \<Rightarrow> string \<Rightarrow> logger_op" where
  "setLogFileName now writable r name =
     thenL (modEngine (\<lambda>e. case le_class e of FileClass f \<Rightarrow> e\<lparr>le_class := FileClass (f\<lparr>logFile := name\<rparr>)\<rparr> | _ \<Rightarrow> e) r)
           (eng_init now writable r)"

section \<open>Adding and removing engines\<close>

definition addLoggerEngine :: "string \<Rightarrow> engine_ref option \<Rightarrow> logger_op" where
  "addLoggerEngine name engine lg =
     (case engine of
        None \<Rightarrow> Inr lg
      | Some r \<Rightarrow>
          if map_of (map_logEngineMap lg) name = None
          then emitL (loggerEngineAdded name) (lg\<lparr>map_logEngineMap := qh_insert name r (map_logEngineMap lg)\<rparr>)
          else Inr lg)"

definition takeLoggerEngine :: "string \<Rightarrow> qxt_logger \<Rightarrow> engine_ref option \<times> qxt_logger" where
  "takeLoggerEngine name lg =
     (case map_of (map_logEngineMap lg) name of
        None \<Rightarrow> (None, lg)
      | Some r \<Rightarrow>
          (Some r, lg\<lparr>map_logEngineMap := qm_remove name (map_logEngineMap lg),
                     lg_signals := lg_signals lg @ [loggerEngineRemoved name]\<rparr>))"

text \<open>\<open>removeLoggerEngine\<close> with a pointer takes the engine out under all of its names, and does not delete it.\<close>

definition removeEngine :: "engine_ref \<Rightarrow> qxt_logger \<Rightarrow> qxt_logger" where
  "removeEngine r lg =
     fold (\<lambda>name lg'. snd (takeLoggerEngine name lg')) (map fst (filter (\<lambda>(k, v). v = r) (map_logEngineMap lg))) lg"

text \<open>\<open>delete\<close> of an engine: the destructor of its class, then that of \<open>QxtLoggerEngine\<close>.\<close>

definition eng_delete :: "log_engine \<Rightarrow> log_engine" where
  "eng_delete e =
     (case le_class e of StdClass s \<Rightarrow> e\<lparr>le_class := StdClass (StdStreams_delete s)\<rparr> | _ \<Rightarrow> eng_kill e)"

definition deleteEngine :: "engine_ref \<Rightarrow> logger_op" where
  "deleteEngine r =
     thenL (modEngine eng_delete r)
           (\<lambda>lg. let lg' = removeEngine r lg in Inr (lg'\<lparr>lg_engines := (lg_engines lg')(r := None)\<rparr>))"

definition removeLoggerEngine :: "string \<Rightarrow> logger_op" where
  "removeLoggerEngine name lg =
     (case takeLoggerEngine name lg of
        (None, lg') \<Rightarrow> Inr lg'
      | (Some r, lg') \<Rightarrow> thenL (modEngine eng_kill r) (deleteEngine r) lg')"

text \<open>\<open>~QxtLoggerPrivate\<close>: the loop runs over a copy of the map.\<close>

definition QxtLogger_delete :: logger_op where
  "QxtLogger_delete lg = forEngines (\<lambda>r. thenL (modEngine eng_kill r) (deleteEngine r)) (engineRefs lg) lg"

text \<open>The construction of an engine, at a reference that is not in use.\<close>

definition newEngine :: "engine_ref \<Rightarrow> log_engine \<Rightarrow> qxt_logger \<Rightarrow> qxt_logger" where
  "newEngine r e lg = setEngine r e lg"

definition newFileEngine ::
    "(string \<Rightarrow> bool) \<Rightarrow> engine_ref \<Rightarrow> file_kind \<Rightarrow> string \<Rightarrow> qxt_logger \<Rightarrow> qxt_logger" where
  "newFileEngine writable r kind name lg =
     (case file_new writable kind name (lg_files lg) of
        (flags, f, fs) \<Rightarrow> (setEngine r \<lparr>le_flags = flags, le_class = FileClass f\<rparr> lg)\<lparr>lg_files := fs\<rparr>)"

definition StdLoggerEngine_new :: "bool \<Rightarrow> log_engine" where
  "StdLoggerEngine_new debug = \<lparr>le_flags = StdEngine_new debug, le_class = StdClass StdStreams_new\<rparr>"

definition QxtLogger_new :: "bool \<Rightarrow> files \<Rightarrow> log_error + qxt_logger" where
  "QxtLogger_new debug fs =
     thenL (addLoggerEngine ''DEFAULT'' (Some 0)) (setMinimumLevel ''DEFAULT'' InfoLevel)
       (newEngine 0 (StdLoggerEngine_new debug)
          \<lparr>lg_engines = (\<lambda>_. None), map_logEngineMap = [], lg_files = fs, lg_signals = [], lg_handler = False\<rparr>)"

text \<open>\<open>LogWidget\<close> adds itself, and takes itself out when it is destroyed.\<close>

definition LogWidget_new :: "engine_ref \<Rightarrow> logger_op" where
  "LogWidget_new r lg =
     thenL (addLoggerEngine ''plvgui'' (Some r)) (setMinimumLevel ''plvgui'' ErrorLevel)
       (newEngine r \<lparr>le_flags = QxtLoggerEngine_new, le_class = WidgetClass []\<rparr> lg)"

text \<open>\<open>Application::initLoggers\<close>.\<close>

definition initLoggers :: "bool \<Rightarrow> engine_ref \<Rightarrow> logger_op" where
  "initLoggers debug r lg =
     thenL (addLoggerEngine ''std'' (Some r))
       (thenL (setMinimumLevel ''std'' ErrorLevel) (\<lambda>lg'. Inr (installAsMessageHandler lg')))
       (newEngine r (StdLoggerEngine_new debug) lg)"

section \<open>Questions\<close>

definition logger_engine :: "string \<Rightarrow> qxt_logger \<Rightarrow> engine_ref option" where
  "logger_engine name lg = map_of (map_logEngineMap lg) name"

definition allLoggerEngines :: "qxt_logger \<Rightarrow> string list" where
  "allLoggerEngines lg = map fst (map_logEngineMap lg)"

definition flagsOf :: "qxt_logger \<Rightarrow> engine_ref \<Rightarrow> log_error + QxtLoggerEngine" where
  "flagsOf lg r = (case lg_engines lg r of None \<Rightarrow> Inl DeletedEngine | Some e \<Rightarrow> Inr (le_flags e))"

fun namesWhere :: "(QxtLoggerEngine \<Rightarrow> bool) \<Rightarrow> (string \<times> engine_ref) list \<Rightarrow> qxt_logger \<Rightarrow> log_error + string list" where
  "namesWhere P [] lg = Inr []"
| "namesWhere P ((name, r) # m) lg =
     (case flagsOf lg r of
        Inl e \<Rightarrow> Inl e
      | Inr fl \<Rightarrow> map_sum id (\<lambda>ns. if P fl then name # ns else ns) (namesWhere P m lg))"

definition allEnabledLoggerEngines :: "qxt_logger \<Rightarrow> log_error + string list" where
  "allEnabledLoggerEngines lg = namesWhere isLoggingEnabled (map_logEngineMap lg) lg"

definition allEnabledLoggerEngines_at :: "LogLevel \<Rightarrow> qxt_logger \<Rightarrow> log_error + string list" where
  "allEnabledLoggerEngines_at level lg =
     namesWhere (\<lambda>e. isLoggingEnabled e \<and> isLogLevelEnabled level e) (map_logEngineMap lg) lg"

definition allDisabledLoggerEngines :: "qxt_logger \<Rightarrow> log_error + string list" where
  "allDisabledLoggerEngines lg = namesWhere (\<lambda>e. \<not> isLoggingEnabled e) (map_logEngineMap lg) lg"

definition isLoggerEngine :: "string \<Rightarrow> qxt_logger \<Rightarrow> bool" where
  "isLoggerEngine name lg \<longleftrightarrow> map_of (map_logEngineMap lg) name \<noteq> None"

definition askEngine :: "string \<Rightarrow> (QxtLoggerEngine \<Rightarrow> bool) \<Rightarrow> qxt_logger \<Rightarrow> log_error + bool" where
  "askEngine name P lg =
     (case map_of (map_logEngineMap lg) name of None \<Rightarrow> Inr False | Some r \<Rightarrow> map_sum id P (flagsOf lg r))"

definition isLogLevelEnabled_named :: "string \<Rightarrow> LogLevel \<Rightarrow> qxt_logger \<Rightarrow> log_error + bool" where
  "isLogLevelEnabled_named name level = askEngine name (isLogLevelEnabled level)"

definition isLoggerEngineEnabled :: "string \<Rightarrow> qxt_logger \<Rightarrow> log_error + bool" where
  "isLoggerEngineEnabled name = askEngine name isLoggingEnabled"

end
