(* ===== verification/Logger_Safety.thy ===== *)
theory Logger_Safety
  imports Logger
begin

text \<open>
  The engines that the logger knows are there: no call of the logger uses an engine that was deleted, as long as its
  clients add and delete engines that are there, and logging always returns.  The destructor of the logger needs more, that
  no engine has two names.
\<close>

section \<open>The shape of the logger\<close>

definition alive :: "qxt_logger \<Rightarrow> engine_ref set" where
  "alive lg = dom (lg_engines lg)"

lemma alive_iff: "r \<in> alive lg \<longleftrightarrow> lg_engines lg r \<noteq> None"
  by (simp add: alive_def dom_def)

definition log_inv :: "qxt_logger \<Rightarrow> bool" where
  "log_inv lg \<longleftrightarrow> qh_inv (map_logEngineMap lg) \<and> set (engineRefs lg) \<subseteq> alive lg"

definition same_shape :: "qxt_logger \<Rightarrow> qxt_logger \<Rightarrow> bool" where
  "same_shape lg lg' \<longleftrightarrow> alive lg' = alive lg \<and> map_logEngineMap lg' = map_logEngineMap lg"

lemma same_shape_refl [simp]: "same_shape lg lg"
  by (simp add: same_shape_def)

lemma same_shape_trans: "same_shape lg lg' \<Longrightarrow> same_shape lg' lg'' \<Longrightarrow> same_shape lg lg''"
  by (simp add: same_shape_def)

lemma same_shape_inv: "same_shape lg lg' \<Longrightarrow> log_inv lg \<Longrightarrow> log_inv lg'"
  by (simp add: same_shape_def log_inv_def engineRefs_def)

lemma same_shape_setEngine: "r \<in> alive lg \<Longrightarrow> same_shape lg (setEngine r e lg)"
  by (auto simp: same_shape_def alive_def setEngine_def)

lemma same_shape_files [simp]: "same_shape lg (lg'\<lparr>lg_files := fs\<rparr>) = same_shape lg lg'"
  by (simp add: same_shape_def alive_def)

lemma same_shape_signals [simp]: "same_shape lg (lg'\<lparr>lg_signals := ss\<rparr>) = same_shape lg lg'"
  by (simp add: same_shape_def alive_def)

lemma same_shape_handler [simp]: "same_shape lg (lg'\<lparr>lg_handler := h\<rparr>) = same_shape lg lg'"
  by (simp add: same_shape_def alive_def)

text \<open>A result that is no use of a deleted engine, and keeps the shape.\<close>

definition keeps :: "qxt_logger \<Rightarrow> log_error + qxt_logger \<Rightarrow> bool" where
  "keeps lg x = (case x of Inl e \<Rightarrow> e \<noteq> DeletedEngine | Inr lg' \<Rightarrow> same_shape lg lg')"

lemma keeps_simps [simp]: "keeps lg (Inl e) \<longleftrightarrow> e \<noteq> DeletedEngine" "keeps lg (Inr lg') = same_shape lg lg'"
  by (simp_all add: keeps_def)

lemma keeps_thenL:
  assumes "keeps lg (f lg)" "\<And>lg'. same_shape lg lg' \<Longrightarrow> keeps lg' (g lg')"
  shows "keeps lg (thenL f g lg)"
proof (cases "f lg")
  case (Inl e)
  with assms(1) show ?thesis by (simp add: thenL_def)
next
  case (Inr lg')
  with assms(1) have s: "same_shape lg lg'" by simp
  from assms(2) [OF s] show ?thesis
    by (cases "g lg'") (auto simp: thenL_def Inr intro: same_shape_trans [OF s])
qed

definition good :: "(engine_ref \<Rightarrow> logger_op) \<Rightarrow> bool" where
  "good f \<longleftrightarrow> (\<forall>r lg. log_inv lg \<longrightarrow> r \<in> alive lg \<longrightarrow> keeps lg (f r lg))"

lemma goodD: "good f \<Longrightarrow> log_inv lg \<Longrightarrow> r \<in> alive lg \<Longrightarrow> keeps lg (f r lg)"
  by (simp add: good_def)

lemma forEngines_keeps:
  assumes "good f" "log_inv lg" "set rs \<subseteq> alive lg"
  shows "keeps lg (forEngines f rs lg)"
  using assms(2,3)
proof (induction rs arbitrary: lg)
  case (Cons r rs)
  show ?case unfolding forEngines.simps
  proof (rule keeps_thenL)
    show "keeps lg (f r lg)" using Cons.prems by (intro goodD [OF assms(1)]) auto
    show "keeps lg' (forEngines f rs lg')" if "same_shape lg lg'" for lg'
      using Cons.IH [of lg'] Cons.prems same_shape_inv [OF that] that by (auto simp: same_shape_def)
  qed
qed simp

lemma all_keeps: "good f \<Longrightarrow> log_inv lg \<Longrightarrow> keeps lg (forEngines f (engineRefs lg) lg)"
  by (rule forEngines_keeps) (simp_all add: log_inv_def)

lemma onEngine_keeps:
  assumes "good f" "log_inv lg"
  shows "keeps lg (onEngine name f lg)"
proof (cases "map_of (map_logEngineMap lg) name")
  case (Some r)
  then have "r \<in> alive lg" using assms(2) by (force simp: log_inv_def engineRefs_def dest: map_of_SomeD)
  with assms Some show ?thesis by (simp add: onEngine_def goodD)
qed (simp add: onEngine_def)

lemma good_modEngine [simp]: "good (modEngine f)"
  by (auto simp: good_def modEngine_def alive_iff same_shape_setEngine)

lemma good_modFlags [simp]: "good (modFlags f)"
  by (simp add: modFlags_def)

lemma keeps_emitL [simp]: "keeps lg (emitL s lg)"
  by (simp add: emitL_def)

lemma good_thenL:
  assumes "good f" "good g"
  shows "good (\<lambda>r. thenL (f r) (g r))"
  unfolding good_def
proof (intro allI impI)
  fix r lg assume lg: "log_inv lg" "r \<in> alive lg"
  show "keeps lg (thenL (f r) (g r) lg)"
  proof (rule keeps_thenL)
    show "keeps lg (f r lg)" using lg by (rule goodD [OF assms(1)])
    show "keeps lg' (g r lg')" if s: "same_shape lg lg'" for lg'
      using lg same_shape_inv [OF s] s by (intro goodD [OF assms(2)]) (simp_all add: same_shape_def)
  qed
qed

lemma good_emitL [simp]: "good (\<lambda>r. emitL s)"
  by (simp add: good_def)

section \<open>Logging\<close>

lemma file_write_open:
  "io_device f \<noteq> None \<Longrightarrow> \<exists>x'. file_writeFormatted now level msgs (f, fs) = Inr x'"
  by (auto simp: file_writeFormatted_def basic_writeToFile_def xml_writeToFile_def Let_def split: file_kind.split)

lemma eng_write_initialized: "eng_isInitialized e \<Longrightarrow> \<exists>x'. eng_writeFormatted now level msgs (e, fs) = Inr x'"
proof (cases "le_class e")
  case (StdClass s)
  assume "eng_isInitialized e"
  with StdClass std_writes [of s "now ''hh:mm:ss.zzz''" level msgs] show ?thesis
    by (auto simp: eng_isInitialized_def eng_writeFormatted_def)
next
  case (FileClass f)
  assume "eng_isInitialized e"
  with FileClass file_write_open [of f now level msgs fs] show ?thesis
    by (auto simp: eng_isInitialized_def eng_writeFormatted_def file_isInitialized_def)
qed (simp add: eng_writeFormatted_def)

lemma log_to_alive:
  assumes "r \<in> alive lg"
  shows "\<exists>lg'. log_to now level args r lg = Inr lg' \<and> same_shape lg lg'"
proof -
  obtain e where e: "lg_engines lg r = Some e" using assms by (auto simp: alive_def)
  show ?thesis
  proof (cases "eng_isInitialized e")
    case True
    obtain e' fs' where "eng_writeFormatted now level args (e, lg_files lg) = Inr (e', fs')"
      using eng_write_initialized [OF True, of now level args "lg_files lg"] by auto
    with e assms show ?thesis by (simp add: log_to_def same_shape_setEngine)
  next
    case False
    with e show ?thesis by (simp add: log_to_def)
  qed
qed

lemma good_log_to [simp]: "good (log_to now level args)"
  unfolding good_def using log_to_alive by (metis keeps_simps(2))

lemma forEngines_log:
  "set rs \<subseteq> alive lg \<Longrightarrow> \<exists>lg'. forEngines (log_to now level args) rs lg = Inr lg' \<and> same_shape lg lg'"
proof (induction rs arbitrary: lg)
  case (Cons r rs)
  then obtain lg1 where 1: "log_to now level args r lg = Inr lg1" "same_shape lg lg1"
    using log_to_alive [of r lg now level args] by auto
  with Cons.prems have "set rs \<subseteq> alive lg1" by (simp add: same_shape_def)
  from Cons.IH [OF this] 1 show ?case by (auto simp: thenL_def intro: same_shape_trans)
qed simp

lemma qxt_log_returns: "log_inv lg \<Longrightarrow> \<exists>lg'. qxt_log now level args lg = Inr lg' \<and> same_shape lg lg'"
  unfolding qxt_log_def by (rule forEngines_log) (simp add: log_inv_def)

lemma qxt_log_keeps: "log_inv lg \<Longrightarrow> keeps lg (qxt_log now level args lg)"
  using qxt_log_returns [of lg now level args] by auto

lemma xml_check_assert: "xml_check x = Inl e \<Longrightarrow> e = LogAssert"
  by (auto simp: xml_check_def Let_def split: prod.splits option.splits if_splits)

lemma same_shape_storeFile: "r \<in> alive lg \<Longrightarrow> same_shape lg (storeFile r e f fs lg)"
  by (simp add: storeFile_def same_shape_setEngine)

lemma refuse_keeps:
  assumes "log_inv lg" "r \<in> alive lg" "lg1 = storeFile r e f fs lg"
  shows "keeps lg (thenL (qxt_warning now m ms) (modEngine eng_kill r) lg1)"
proof -
  have s: "same_shape lg lg1" using assms(2,3) by (simp add: same_shape_storeFile)
  have "keeps lg1 (thenL (qxt_warning now m ms) (modEngine eng_kill r) lg1)"
  proof (rule keeps_thenL)
    show "keeps lg1 (qxt_warning now m ms lg1)"
      unfolding qxt_warning_def warning_list_def by (rule qxt_log_keeps [OF same_shape_inv [OF s assms(1)]])
    show "keeps lg' (modEngine eng_kill r lg')" if "same_shape lg1 lg'" for lg'
      using same_shape_inv [OF that same_shape_inv [OF s assms(1)]] that s assms(2)
      by (intro goodD [OF good_modEngine]) (simp_all add: same_shape_def)
  qed
  with s show ?thesis by (auto simp: keeps_def split: sum.splits intro: same_shape_trans)
qed

lemma good_eng_init [simp]: "good (eng_init now writable)"
  unfolding good_def
proof (intro allI impI)
  fix r lg assume lg: "log_inv lg" "r \<in> alive lg"
  then obtain e where e: "lg_engines lg r = Some e" by (auto simp: alive_def)
  show "keeps lg (eng_init now writable r lg)"
  proof (cases "le_class e")
    case (FileClass f)
    obtain fl f1 fs1 where i: "file_init writable (le_flags e, f, lg_files lg) = (fl, f1, fs1)" by (metis prod_cases3)
    show ?thesis
    proof (cases "lf_kind f")
      case (BasicFile fmt)
      with e FileClass i lg show ?thesis by (simp add: eng_init_def Let_def same_shape_storeFile)
    next
      case XmlFile
      with e FileClass i lg show ?thesis
        using xml_check_assert [of "(f1, fs1)"]
        by (auto simp: eng_init_def Let_def same_shape_storeFile refuse_keeps split: sum.split)
    qed
  next
    case (WidgetClass t)
    with e lg goodD [OF good_modFlags lg] show ?thesis by (simp add: eng_init_def)
  qed (simp add: eng_init_def e)
qed

section \<open>Adding and removing engines\<close>

lemma qm_remove_filter: "qm_remove k m = filter (\<lambda>(k', v). k' \<noteq> k) m"
  by (auto simp: qm_remove_def intro!: filter_cong)

lemma takeLoggerEngine_map: "map_logEngineMap (snd (takeLoggerEngine name lg)) = qm_remove name (map_logEngineMap lg)"
proof (cases "map_of (map_logEngineMap lg) name")
  case None
  then have "\<forall>(k, v) \<in> set (map_logEngineMap lg). k \<noteq> name" by (force simp: map_of_eq_None_iff)
  then have "qm_remove name (map_logEngineMap lg) = map_logEngineMap lg"
    unfolding qm_remove_filter by (intro filter_True) auto
  with None show ?thesis by (simp add: takeLoggerEngine_def)
qed (simp add: takeLoggerEngine_def)

lemma takeLoggerEngine_engines [simp]: "lg_engines (snd (takeLoggerEngine name lg)) = lg_engines lg"
  by (simp add: takeLoggerEngine_def split: option.split)

lemma take_all:
  "lg_engines (fold (\<lambda>name lg'. snd (takeLoggerEngine name lg')) ns lg) = lg_engines lg \<and>
   map_logEngineMap (fold (\<lambda>name lg'. snd (takeLoggerEngine name lg')) ns lg) =
     filter (\<lambda>(k, v). k \<notin> set ns) (map_logEngineMap lg)"
proof (induction ns arbitrary: lg)
  case (Cons n ns)
  show ?case by (simp add: Cons.IH takeLoggerEngine_map qm_remove_filter split_def cong: conj_cong)
qed simp

lemma removeEngine_result:
  assumes "qh_inv (map_logEngineMap lg)"
  shows "lg_engines (removeEngine r lg) = lg_engines lg"
    and "map_logEngineMap (removeEngine r lg) = filter (\<lambda>(k, v). v \<noteq> r) (map_logEngineMap lg)"
proof -
  let ?m = "map_logEngineMap lg"
  show "lg_engines (removeEngine r lg) = lg_engines lg" by (simp add: removeEngine_def take_all)
  have "k \<notin> set (map fst (filter (\<lambda>(k, v). v = r) ?m)) \<longleftrightarrow> v \<noteq> r" if "(k, v) \<in> set ?m" for k v
    using assms that unfolding qh_inv_def by (force dest: eq_key_imp_eq_value)
  then show "map_logEngineMap (removeEngine r lg) = filter (\<lambda>(k, v). v \<noteq> r) ?m"
    unfolding removeEngine_def take_all [THEN conjunct2] by (intro filter_cong) auto
qed

text \<open>Deleting an engine takes it out of the store and of the map, and nothing else.\<close>

definition without :: "engine_ref set \<Rightarrow> qxt_logger \<Rightarrow> qxt_logger \<Rightarrow> bool" where
  "without R lg lg' \<longleftrightarrow> alive lg' = alive lg - R \<and>
     map_logEngineMap lg' = filter (\<lambda>(k, v). v \<notin> R) (map_logEngineMap lg)"

lemma without_inv: "without R lg lg' \<Longrightarrow> log_inv lg \<Longrightarrow> log_inv lg'"
  by (auto simp: without_def log_inv_def engineRefs_def qh_inv_def distinct_map inj_on_def)

lemma deleteEngine_result:
  assumes "qh_inv (map_logEngineMap lg)" "r \<in> alive lg"
  shows "\<exists>lg'. deleteEngine r lg = Inr lg' \<and> without {r} lg lg'"
proof -
  obtain e where e: "lg_engines lg r = Some e" using assms(2) by (auto simp: alive_def)
  let ?lg1 = "setEngine r (eng_delete e) lg"
  have s: "same_shape lg ?lg1" using assms(2) by (rule same_shape_setEngine)
  then have "qh_inv (map_logEngineMap ?lg1)" using assms(1) by (simp add: same_shape_def)
  note removeEngine_result [OF this, of r]
  with s e show ?thesis
    by (auto simp: deleteEngine_def thenL_def modEngine_def Let_def without_def same_shape_def alive_def)
qed

text \<open>\<open>kill\<close> and \<open>delete\<close>, on an engine that may have been deleted.\<close>

abbreviation destroy :: "engine_ref \<Rightarrow> logger_op" where
  "destroy r \<equiv> thenL (modEngine eng_kill r) (deleteEngine r)"

lemma destroy_result:
  assumes "qh_inv (map_logEngineMap lg)"
  shows "if r \<in> alive lg then \<exists>lg'. destroy r lg = Inr lg' \<and> without {r} lg lg' else destroy r lg = Inl DeletedEngine"
proof (cases "lg_engines lg r")
  case (Some e)
  then have a: "r \<in> alive lg" by (simp add: alive_iff)
  have s: "same_shape lg (setEngine r (eng_kill e) lg)" using a by (rule same_shape_setEngine)
  then have "qh_inv (map_logEngineMap (setEngine r (eng_kill e) lg))" "r \<in> alive (setEngine r (eng_kill e) lg)"
    using assms a by (simp_all add: same_shape_def)
  from deleteEngine_result [OF this] s a Some show ?thesis
    by (auto simp: thenL_def modEngine_def without_def same_shape_def)
qed (simp add: alive_iff thenL_def modEngine_def)

lemma destroy_all:
  assumes "qh_inv (map_logEngineMap lg)"
  shows "if distinct rs \<and> set rs \<subseteq> alive lg then \<exists>lg'. forEngines destroy rs lg = Inr lg' \<and> without (set rs) lg lg'
    else forEngines destroy rs lg = Inl DeletedEngine"
  using assms
proof (induction rs arbitrary: lg)
  case Nil
  show ?case by (auto simp: without_def)
next
  case (Cons r rs)
  show ?case
  proof (cases "r \<in> alive lg")
    case True
    with destroy_result [OF Cons.prems, of r] obtain lg1 where 1: "destroy r lg = Inr lg1" "without {r} lg lg1" by auto
    then have "qh_inv (map_logEngineMap lg1)" using Cons.prems
      by (auto simp: without_def qh_inv_def distinct_map inj_on_def)
    note ih = Cons.IH [OF this]
    have c: "distinct (r # rs) \<and> set (r # rs) \<subseteq> alive lg \<longleftrightarrow> distinct rs \<and> set rs \<subseteq> alive lg1"
      using 1(2) True by (auto simp: without_def)
    have f: "forEngines destroy (r # rs) lg = forEngines destroy rs lg1" using 1(1) by (simp add: thenL_def)
    have "without (set (r # rs)) lg lg'" if "without (set rs) lg1 lg'" for lg'
      using that 1(2) by (auto simp: without_def split_def intro!: filter_cong)
    with ih show ?thesis unfolding c f by (auto split: if_splits)
  next
    case False
    with destroy_result [OF Cons.prems, of r] show ?thesis by (simp add: thenL_def)
  qed
qed

lemma logger_delete_result:
  assumes "log_inv lg"
  shows "if distinct (engineRefs lg)
    then \<exists>lg'. QxtLogger_delete lg = Inr lg' \<and> alive lg' = alive lg - set (engineRefs lg) \<and> map_logEngineMap lg' = []
    else QxtLogger_delete lg = Inl DeletedEngine"
proof -
  let ?R = "set (engineRefs lg)"
  have e: "filter (\<lambda>(k, v). v \<notin> ?R) (map_logEngineMap lg) = []"
    by (auto simp: engineRefs_def filter_empty_conv image_iff)
  have "without ?R lg lg' \<Longrightarrow> alive lg' = alive lg - ?R \<and> map_logEngineMap lg' = []" for lg'
    unfolding without_def e by simp
  moreover have "qh_inv (map_logEngineMap lg)" "?R \<subseteq> alive lg" using assms by (simp_all add: log_inv_def)
  ultimately show ?thesis
    using destroy_all [of lg "engineRefs lg"] unfolding QxtLogger_delete_def by (auto split: if_splits)
qed

end
