(* ===== verification/Logger_Calls.thy ===== *)
theory Logger_Calls
  imports Logger_Safety
begin

text \<open>
  The calls that the clients of the logger make, in any order; and what the call that initialises an engine does to a file
  that is no log.
\<close>

section \<open>Calls\<close>

text \<open>A call for all engines has no name.\<close>

datatype logger_call =
    Log LogLevel "LogVariant list"
  | EnableLevels "string option" "32 word"
  | DisableLevels "string option" "32 word"
  | Minimum "string option" LogLevel
  | EnableEngine string
  | DisableEngine string
  | InitEngine string
  | KillEngine string
  | SetFileName engine_ref string
  | NewStdEngine bool engine_ref
  | NewFileEngine engine_ref file_kind string
  | NewWidget engine_ref
  | AddEngine string engine_ref
  | TakeEngine string
  | RemoveEngine string
  | RemovePointer engine_ref
  | DeleteEngine engine_ref

fun logger_do :: "(string \<Rightarrow> string) \<Rightarrow> (string \<Rightarrow> bool) \<Rightarrow> logger_call \<Rightarrow> logger_op" where
  "logger_do now w (Log level args) lg = qxt_log now level args lg"
| "logger_do now w (EnableLevels None ls) lg = enableLogLevels_all ls lg"
| "logger_do now w (EnableLevels (Some n) ls) lg = enableLogLevels_named n ls lg"
| "logger_do now w (DisableLevels None ls) lg = disableLogLevels_all ls lg"
| "logger_do now w (DisableLevels (Some n) ls) lg = disableLogLevels_named n ls lg"
| "logger_do now w (Minimum None level) lg = setMinimumLevel_all level lg"
| "logger_do now w (Minimum (Some n) level) lg = setMinimumLevel n level lg"
| "logger_do now w (EnableEngine n) lg = enableLoggerEngine n lg"
| "logger_do now w (DisableEngine n) lg = disableLoggerEngine n lg"
| "logger_do now w (InitEngine n) lg = initLoggerEngine now w n lg"
| "logger_do now w (KillEngine n) lg = killLoggerEngine n lg"
| "logger_do now w (SetFileName r name) lg = setLogFileName now w r name lg"
| "logger_do now w (NewStdEngine debug r) lg = Inr (newEngine r (StdLoggerEngine_new debug) lg)"
| "logger_do now w (NewFileEngine r kind name) lg = Inr (newFileEngine w r kind name lg)"
| "logger_do now w (NewWidget r) lg = LogWidget_new r lg"
| "logger_do now w (AddEngine n r) lg = addLoggerEngine n (Some r) lg"
| "logger_do now w (TakeEngine n) lg = Inr (snd (takeLoggerEngine n lg))"
| "logger_do now w (RemoveEngine n) lg = removeLoggerEngine n lg"
| "logger_do now w (RemovePointer r) lg = Inr (removeEngine r lg)"
| "logger_do now w (DeleteEngine r) lg = deleteEngine r lg"

text \<open>What a client must see to: new objects are at new places, and the engines it names by a pointer are there.\<close>

fun call_ok :: "logger_call \<Rightarrow> qxt_logger \<Rightarrow> bool" where
  "call_ok (NewStdEngine debug r) lg \<longleftrightarrow> r \<notin> alive lg"
| "call_ok (NewFileEngine r kind name) lg \<longleftrightarrow> r \<notin> alive lg"
| "call_ok (NewWidget r) lg \<longleftrightarrow> r \<notin> alive lg"
| "call_ok (SetFileName r name) lg \<longleftrightarrow> r \<in> alive lg"
| "call_ok (AddEngine n r) lg \<longleftrightarrow> r \<in> alive lg"
| "call_ok (DeleteEngine r) lg \<longleftrightarrow> r \<in> alive lg"
| "call_ok _ lg \<longleftrightarrow> True"

text \<open>\<open>fine x\<close>: no deleted engine was used, and the invariant holds afterwards.\<close>

definition fine :: "log_error + qxt_logger \<Rightarrow> bool" where
  "fine x = (case x of Inl e \<Rightarrow> e \<noteq> DeletedEngine | Inr lg \<Rightarrow> log_inv lg)"

lemma fine_simps [simp]: "fine (Inl e) \<longleftrightarrow> e \<noteq> DeletedEngine" "fine (Inr lg) = log_inv lg"
  by (simp_all add: fine_def)

lemma keeps_fine: "log_inv lg \<Longrightarrow> keeps lg x \<Longrightarrow> fine x"
  by (cases x) (auto intro: same_shape_inv)

lemma fine_new:
  assumes "log_inv lg" "alive lg' = insert r (alive lg)" "map_logEngineMap lg' = map_logEngineMap lg"
  shows "log_inv lg'"
  using assms by (auto simp: log_inv_def engineRefs_def)

lemma alive_setEngine: "alive (setEngine r e lg) = insert r (alive lg)"
  by (simp add: alive_def setEngine_def)

lemma log_inv_setEngine: "log_inv lg \<Longrightarrow> log_inv (setEngine r e lg)"
  by (rule fine_new [OF _ alive_setEngine]) (simp_all add: setEngine_def)

lemma fine_add:
  assumes "log_inv lg" "r \<in> alive lg"
  shows "fine (addLoggerEngine n (Some r) lg)"
proof -
  have q: "snd ` set (qh_insert n r m) \<subseteq> insert r (snd ` set m)" for m :: "(string \<times> engine_ref) list"
    by (induction n r m rule: qh_insert.induct) auto
  let ?lg = "lg\<lparr>map_logEngineMap := qh_insert n r (map_logEngineMap lg), lg_signals := lg_signals lg @ [loggerEngineAdded n]\<rparr>"
  have "log_inv ?lg"
    using assms q [of "map_logEngineMap lg"] by (simp add: log_inv_def engineRefs_def alive_def qh_inv_insert subset_iff) blast
  with assms(1) show ?thesis by (simp add: addLoggerEngine_def emitL_def)
qed

lemma fine_take: "log_inv lg \<Longrightarrow> log_inv (snd (takeLoggerEngine n lg))"
  by (auto simp: log_inv_def takeLoggerEngine_map engineRefs_def alive_def qh_inv_remove)
    (auto simp: qm_remove_filter)

lemma fine_removeEngine: "log_inv lg \<Longrightarrow> log_inv (removeEngine r lg)"
proof -
  assume i: "log_inv lg"
  then have "qh_inv (map_logEngineMap lg)" by (simp add: log_inv_def)
  from removeEngine_result [OF this, of r] i show ?thesis
    by (auto simp: log_inv_def engineRefs_def alive_def qh_inv_def distinct_map inj_on_def)
qed

lemma fine_delete: "log_inv lg \<Longrightarrow> r \<in> alive lg \<Longrightarrow> fine (deleteEngine r lg)"
  using deleteEngine_result [of lg r] without_inv [of "{r}" lg] by (auto simp: log_inv_def)

lemma fine_remove:
  assumes "log_inv lg"
  shows "fine (removeLoggerEngine n lg)"
proof (cases "map_of (map_logEngineMap lg) n")
  case None
  with assms show ?thesis by (simp add: removeLoggerEngine_def takeLoggerEngine_def)
next
  case (Some r)
  then obtain lg1 where t: "takeLoggerEngine n lg = (Some r, lg1)" by (simp add: takeLoggerEngine_def)
  have i: "log_inv lg1" using fine_take [OF assms, of n] by (simp add: t)
  have "lg_engines lg1 = lg_engines lg" using takeLoggerEngine_engines [of n lg] by (simp add: t)
  then have "r \<in> alive lg1" using assms Some by (force simp: log_inv_def engineRefs_def alive_def dest: map_of_SomeD)
  with destroy_result [of lg1 r] i without_inv [of "{r}" lg1] show ?thesis
    by (auto simp: removeLoggerEngine_def t log_inv_def)
qed

lemma fine_thenL: "fine (f lg) \<Longrightarrow> (\<And>lg'. log_inv lg' \<Longrightarrow> fine (g lg')) \<Longrightarrow> fine (thenL f g lg)"
  by (cases "f lg") (auto simp: thenL_def)

lemma setMinimumLevel_fine: "log_inv lg \<Longrightarrow> fine (setMinimumLevel n level lg)"
  unfolding setMinimumLevel_def by (rule keeps_fine, assumption, rule onEngine_keeps) simp_all

lemma setLogFileName_good: "good (\<lambda>r. setLogFileName now w r name)"
  unfolding setLogFileName_def by (rule good_thenL) simp_all

lemma logger_do_fine:
  assumes "log_inv lg" "call_ok call lg"
  shows "fine (logger_do now w call lg)"
proof -
  note all = keeps_fine [OF assms(1) all_keeps [OF _ assms(1)]]
    and named = keeps_fine [OF assms(1) onEngine_keeps [OF _ assms(1)]]
  show ?thesis
  proof (cases "(now, w, call, lg)" rule: logger_do.cases)
    case (14 now w r kind name lg)
    then show ?thesis
      using log_inv_setEngine [OF assms(1)]
      by (auto simp: newFileEngine_def log_inv_def engineRefs_def alive_def split: prod.split)
  next
    case (15 now w r lg)
    have "fine (addLoggerEngine ''plvgui'' (Some r) (newEngine r e lg))" for e
      unfolding newEngine_def using 15 assms(1) by (intro fine_add log_inv_setEngine) (simp_all add: alive_setEngine)
    then show ?thesis using 15 by (simp add: LogWidget_new_def fine_thenL setMinimumLevel_fine)
  qed (use assms in \<open>auto simp: keeps_fine [OF _ qxt_log_keeps] fine_add fine_take fine_remove fine_removeEngine
      fine_delete newEngine_def log_inv_setEngine enableLogLevels_all_def disableLogLevels_all_def
      setMinimumLevel_all_def enableLogLevels_named_def disableLogLevels_named_def setMinimumLevel_fine
      enableLoggerEngine_def disableLoggerEngine_def initLoggerEngine_def killLoggerEngine_def
      keeps_fine [OF _ goodD [OF setLogFileName_good]] good_thenL intro!: all named\<close>)
qed

lemma QxtLogger_new_inv: "QxtLogger_new debug fs = Inr lg \<Longrightarrow> log_inv lg"
proof -
  let ?lg0 = "\<lparr>lg_engines = (\<lambda>_. None), map_logEngineMap = [], lg_files = fs, lg_signals = [], lg_handler = False\<rparr>"
  assume l: "QxtLogger_new debug fs = Inr lg"
  have "log_inv (newEngine 0 (StdLoggerEngine_new debug) ?lg0)"
    unfolding newEngine_def by (rule log_inv_setEngine) (simp add: log_inv_def qh_inv_def engineRefs_def)
  then have "fine (QxtLogger_new debug fs)"
    unfolding QxtLogger_new_def
    by (intro fine_thenL fine_add setMinimumLevel_fine) (simp_all add: newEngine_def alive_setEngine)
  with l show ?thesis by simp
qed

inductive logger_reach :: "(string \<Rightarrow> string) \<Rightarrow> (string \<Rightarrow> bool) \<Rightarrow> qxt_logger \<Rightarrow> bool" for now writable where
  start: "QxtLogger_new debug fs = Inr lg \<Longrightarrow> logger_reach now writable lg"
| call: "logger_reach now writable lg \<Longrightarrow> call_ok call lg \<Longrightarrow> logger_do now writable call lg = Inr lg' \<Longrightarrow>
    logger_reach now writable lg'"

lemma logger_reach_inv: "logger_reach now writable lg \<Longrightarrow> log_inv lg"
proof (induction rule: logger_reach.induct)
  case (call lg c lg')
  from logger_do_fine [OF call.IH call.hyps(2), of now writable] call.hyps(3) show ?case by simp
qed (rule QxtLogger_new_inv)

section \<open>A file that is no log\<close>

text \<open>An engine that writes to the streams leaves the files and the other engines alone.\<close>

definition isStd :: "qxt_logger \<Rightarrow> engine_ref \<Rightarrow> bool" where
  "isStd lg r \<longleftrightarrow> (\<exists>e s. lg_engines lg r = Some e \<and> le_class e = StdClass s)"

lemma log_to_std:
  assumes "isStd lg r"
  shows "\<exists>lg'. log_to now level args r lg = Inr lg' \<and> lg_files lg' = lg_files lg \<and>
    (\<forall>r'. r' \<noteq> r \<longrightarrow> lg_engines lg' r' = lg_engines lg r') \<and> (\<forall>r'. isStd lg r' \<longrightarrow> isStd lg' r')"
proof -
  from assms obtain e s where e: "lg_engines lg r = Some e" "le_class e = StdClass s" by (auto simp: isStd_def)
  show ?thesis
  proof (cases "eng_isInitialized e \<and> isLoggingEnabled (le_flags e) \<and> isLogLevelEnabled level (le_flags e)")
    case True
    with e obtain s' where "std_writeFormatted (now ''hh:mm:ss.zzz'') level args s = Inr s'"
      using std_writes [of s "now ''hh:mm:ss.zzz''" level args] by (auto simp: eng_isInitialized_def)
    with e True show ?thesis
      by (simp add: log_to_def eng_writeFormatted_def setEngine_def isStd_def)
  next
    case False
    with e show ?thesis by (auto simp: log_to_def)
  qed
qed

lemma forEngines_std:
  assumes "\<forall>r' \<in> set rs. isStd lg r' \<and> r' \<noteq> r"
  shows "\<exists>lg'. forEngines (log_to now level args) rs lg = Inr lg' \<and> lg_files lg' = lg_files lg \<and>
    lg_engines lg' r = lg_engines lg r \<and> (\<forall>r'. isStd lg r' \<longrightarrow> isStd lg' r')"
  using assms
proof (induction rs arbitrary: lg)
  case (Cons r1 rs)
  from log_to_std [of lg r1 now level args] Cons.prems obtain lg1 where
    1: "log_to now level args r1 lg = Inr lg1" "lg_files lg1 = lg_files lg" "lg_engines lg1 r = lg_engines lg r"
      "\<forall>r'. isStd lg r' \<longrightarrow> isStd lg1 r'" by auto
  with Cons.prems have "\<forall>r' \<in> set rs. isStd lg1 r' \<and> r' \<noteq> r" by simp
  from Cons.IH [OF this] 1 show ?case by (auto simp: thenL_def)
qed simp

lemma forEngines_append: "forEngines f (xs @ ys) lg = thenL (forEngines f xs) (forEngines f ys) lg"
  by (induction xs arbitrary: lg) (auto simp: thenL_def split: sum.split)

text \<open>The warning that the file is no log is written into that file, over its last six characters.\<close>

lemma xml_init_overwrites:
  assumes map: "map_logEngineMap lg = xs @ (n, r) # ys" "n \<notin> fst ` set xs"
      "\<forall>r' \<in> snd ` set (xs @ ys). isStd lg r' \<and> r' \<noteq> r"
    and e: "lg_engines lg r = Some e" "le_class e = FileClass f" "lf_kind f = XmlFile"
      "isLogLevelEnabled WarningLevel (le_flags e)"
    and f: "logFile f = name" "name \<noteq> []" "writable name"
    and c: "lg_files lg name = Some (body @ tail)" "length tail = 6"
      "take 44 (body @ tail) \<noteq> xml_declaration @ ''<log>''"
  shows "\<exists>lg'. initLoggerEngine now writable n lg = Inr lg' \<and> lg_files lg' name =
    Some (body @ xml_entry (now ''hh:mm:ss.zzzz'', ''Warning'', [Some (name @ '' is not a valid XML log file.'')]) @ ''</log>'')"
proof -
  have nonempty: "body @ tail \<noteq> []" using c(2) by auto
  from xml_reopen [where e = "le_flags e" and writable = writable and fs = "lg_files lg", OF e(3) f c(1) nonempty] c(3)
  obtain f1 f2 where i: "file_init writable (le_flags e, f, lg_files lg) = (enableLogging (le_flags e), f1, lg_files lg)"
      "xml_check (f1, lg_files lg) = Inr (False, f2, lg_files lg)" "logFile f2 = name"
      "xml_holds f2 (lg_files lg) (body @ tail)" by auto
  define e1 where "e1 = e\<lparr>le_flags := enableLogging (le_flags e), le_class := FileClass f2\<rparr>"
  define lg1 where "lg1 = storeFile r (e\<lparr>le_flags := enableLogging (le_flags e)\<rparr>) f2 (lg_files lg) lg"
  let ?args = "[Some (name @ '' is not a valid XML log file.'')]"
  have init: "initLoggerEngine now writable n lg =
      thenL (forEngines (log_to now WarningLevel ?args) (map snd xs @ r # map snd ys)) (modEngine eng_kill r) lg1"
  proof -
    have "map_of (map_logEngineMap lg) n = Some r"
      using map(2) by (simp add: map(1) map_add_Some_iff map_of_eq_None_iff)
    moreover have "engineRefs lg1 = map snd xs @ r # map snd ys"
      by (simp add: engineRefs_def lg1_def storeFile_def setEngine_def map(1))
    ultimately show ?thesis
      using e i f(1)
      by (simp add: initLoggerEngine_def onEngine_def eng_init_def Let_def qxt_warning_def warning_list_def qxt_log_def message_args_def
          thenL_def lg1_def)
  qed
  have lg1: "lg_engines lg1 r = Some e1" "lg_files lg1 = lg_files lg"
    by (simp_all add: lg1_def storeFile_def setEngine_def e1_def)
  have std: "isStd lg1 r'" if "isStd lg r'" "r' \<noteq> r" for r'
    using that by (auto simp: isStd_def lg1_def storeFile_def setEngine_def)
  obtain lg2 where 2: "forEngines (log_to now WarningLevel ?args) (map snd xs) lg1 = Inr lg2"
      "lg_files lg2 = lg_files lg" "lg_engines lg2 r = Some e1" "\<forall>r'. isStd lg1 r' \<longrightarrow> isStd lg2 r'"
    using forEngines_std [of "map snd xs" lg1 r now WarningLevel ?args] map(3) std lg1 by auto
  obtain f3 fs3 where w: "xml_writeToFile (now ''hh:mm:ss.zzzz'') ''Warning'' ?args (f2, lg_files lg) = Inr (f3, fs3)"
      "logFile f3 = name"
      "xml_holds f3 fs3 (body @ xml_entry (now ''hh:mm:ss.zzzz'', ''Warning'', ?args) @ ''</log>'')"
    using xml_write_over [OF i(4) c(2), of "now ''hh:mm:ss.zzzz''" "''Warning''" ?args] i(3) by auto
  let ?lg3 = "(setEngine r (e1\<lparr>le_class := FileClass f3\<rparr>) lg2)\<lparr>lg_files := fs3\<rparr>"
  have on: "eng_isInitialized e1" "isLoggingEnabled (le_flags e1)" "isLogLevelEnabled WarningLevel (le_flags e1)"
    "lf_kind f2 = XmlFile"
    using i(4) e(4) by (auto simp: e1_def eng_isInitialized_def file_isInitialized_def xml_holds_def isLoggingEnabled_def
        enableLogging_def setLoggingEnabled_def isLogLevelEnabled_def)
  have 3: "log_to now WarningLevel ?args r lg2 = Inr ?lg3"
    using 2(2,3) on w(1) by (simp add: log_to_def eng_writeFormatted_def e1_def file_writeFormatted_def)
  have "\<forall>r' \<in> set (map snd ys). isStd ?lg3 r' \<and> r' \<noteq> r"
    using map(3) std 2(4) by (auto simp: isStd_def setEngine_def)
  from forEngines_std [OF this, of now WarningLevel ?args] obtain lg4 where
    4: "forEngines (log_to now WarningLevel ?args) (map snd ys) ?lg3 = Inr lg4" "lg_files lg4 = fs3"
      "lg_engines lg4 r \<noteq> None" by (auto simp: setEngine_def)
  have "fs3 name = Some (body @ xml_entry (now ''hh:mm:ss.zzzz'', ''Warning'', ?args) @ ''</log>'')"
    using w(2,3) by (auto simp: xml_holds_def)
  with 4 show ?thesis
    unfolding init by (auto simp: forEngines_append thenL_def 2(1) 3 modEngine_def setEngine_def)
qed

section \<open>Levels\<close>

lemma setMinimumLevel_levels:
  assumes "log_inv lg" "map_of (map_logEngineMap lg) n = Some r" "single l"
  shows "\<exists>lg'. setMinimumLevel n level lg = Inr lg' \<and>
    isLogLevelEnabled_named n l lg' = Inr (level_bits level \<le> level_bits l)"
proof -
  obtain e where e: "lg_engines lg r = Some e"
    using assms(1,2) by (force simp: log_inv_def engineRefs_def alive_def dest: map_of_SomeD)
  with assms(2,3) show ?thesis
    by (simp add: setMinimumLevel_def onEngine_def modFlags_def modEngine_def setEngine_def isLogLevelEnabled_named_def
        askEngine_def flagsOf_def minimum_level_iff)
qed

end
