(* ===== verification/Log_Stream.thy ===== *)
theory Log_Stream
  imports Log_Files
begin

text \<open>
  The streams of the logger (\<open>qxtlogstream.cpp\<close>): copies of a stream share the level and the values, with a count of the
  copies; when the last one is destroyed, the values are logged.  \<open>st_handles\<close> is the number of the copies that there are.
\<close>

record LogStreamPrivate =
  ls_level :: LogLevel
  ls_refcount :: int
  ls_data :: "LogVariant list"

record log_stream =
  st_private :: "LogStreamPrivate option"
  st_handles :: nat
  st_logged :: "(LogLevel \<times> LogVariant list) list"

definition QxtLogStream_new :: "LogLevel \<Rightarrow> LogVariant list \<Rightarrow> log_stream" where
  "QxtLogStream_new level data =
     \<lparr>st_private = Some \<lparr>ls_level = level, ls_refcount = 1, ls_data = data\<rparr>, st_handles = 1, st_logged = []\<rparr>"

text \<open>\<open>QxtLogger::stream\<close>.\<close>

definition logger_stream :: "LogLevel \<Rightarrow> log_stream" where
  "logger_stream level = QxtLogStream_new level []"

definition stream_copy :: "log_stream \<Rightarrow> log_error + log_stream" where
  "stream_copy s =
     (case st_private s of
        None \<Rightarrow> Inl DeletedEngine
      | Some d \<Rightarrow> Inr (s\<lparr>st_private := Some (d\<lparr>ls_refcount := ls_refcount d + 1\<rparr>), st_handles := st_handles s + 1\<rparr>))"

definition stream_append :: "LogVariant \<Rightarrow> log_stream \<Rightarrow> log_error + log_stream" where
  "stream_append v s =
     (case st_private s of
        None \<Rightarrow> Inl DeletedEngine
      | Some d \<Rightarrow> Inr (s\<lparr>st_private := Some (d\<lparr>ls_data := ls_data d @ [v]\<rparr>)\<rparr>))"

definition stream_destroy :: "log_stream \<Rightarrow> log_error + log_stream" where
  "stream_destroy s =
     (case st_private s of
        None \<Rightarrow> Inl DeletedEngine
      | Some d \<Rightarrow>
          let d' = d\<lparr>ls_refcount := ls_refcount d - 1\<rparr>; s' = s\<lparr>st_private := Some d', st_handles := st_handles s - 1\<rparr>
          in if ls_refcount d' = 0
             then Inr (s'\<lparr>st_private := None, st_logged := st_logged s @ [(ls_level d', ls_data d')]\<rparr>)
             else Inr s')"

datatype stream_call = CopyStream | AppendValue LogVariant | DestroyStream

fun stream_do :: "stream_call \<Rightarrow> log_stream \<Rightarrow> log_error + log_stream" where
  "stream_do CopyStream s = stream_copy s"
| "stream_do (AppendValue v) s = stream_append v s"
| "stream_do DestroyStream s = stream_destroy s"

text \<open>A call needs a copy on which it is made; \<open>None\<close> when there is none.\<close>

fun stream_run :: "stream_call list \<Rightarrow> log_stream \<Rightarrow> (log_error + log_stream) option" where
  "stream_run [] s = Some (Inr s)"
| "stream_run (c # cs) s =
     (if st_handles s = 0 then None
      else (case stream_do c s of Inl e \<Rightarrow> Some (Inl e) | Inr s' \<Rightarrow> stream_run cs s'))"

definition stream_values :: "stream_call list \<Rightarrow> LogVariant list" where
  "stream_values cs = concat (map (\<lambda>c. case c of AppendValue v \<Rightarrow> [v] | _ \<Rightarrow> []) cs)"

text \<open>As long as there is a copy nothing was logged, and the count is right; after the last one everything was, once.\<close>

definition stream_inv :: "LogLevel \<Rightarrow> LogVariant list \<Rightarrow> log_stream \<Rightarrow> bool" where
  "stream_inv level vs s \<longleftrightarrow>
     (if st_handles s = 0 then st_private s = None \<and> st_logged s = [(level, vs)]
      else st_private s = Some \<lparr>ls_level = level, ls_refcount = int (st_handles s), ls_data = vs\<rparr> \<and> st_logged s = [])"

lemma stream_do_inv:
  assumes "stream_inv level vs s" "st_handles s \<noteq> 0"
  shows "\<exists>s'. stream_do c s = Inr s' \<and> stream_inv level (vs @ stream_values [c]) s'"
proof (cases c)
  case DestroyStream
  obtain n where n: "st_handles s = Suc n" using assms(2) not0_implies_Suc by blast
  with assms(1) have "st_private s = Some \<lparr>ls_level = level, ls_refcount = 1 + int n, ls_data = vs\<rparr>" "st_logged s = []"
    by (simp_all add: stream_inv_def)
  with DestroyStream n show ?thesis
    by (cases "n = 0") (simp_all add: stream_inv_def stream_destroy_def stream_values_def)
qed (use assms in \<open>simp_all add: stream_inv_def stream_copy_def stream_append_def stream_values_def\<close>)

lemma stream_run_inv:
  "stream_inv level vs s \<Longrightarrow> stream_run cs s = Some x \<Longrightarrow>
    \<exists>s'. x = Inr s' \<and> stream_inv level (vs @ stream_values cs) s'"
proof (induction cs arbitrary: s vs)
  case Nil
  then show ?case by (auto simp: stream_values_def)
next
  case (Cons c cs)
  then have h: "st_handles s \<noteq> 0" by (auto split: if_splits)
  from stream_do_inv [OF Cons.prems(1) h, of c] obtain s1 where
    "stream_do c s = Inr s1" "stream_inv level (vs @ stream_values [c]) s1" by auto
  with Cons.prems(2) h Cons.IH [of "vs @ stream_values [c]" s1] show ?case by (simp add: stream_values_def)
qed

text \<open>Whatever is done with a stream and its copies: the values are logged in the order in which they came, all in one
  message, when the last copy is gone, and not before.\<close>

lemma stream_logs_once:
  assumes "stream_run cs (logger_stream level) = Some x"
  shows "\<exists>s. x = Inr s \<and> st_logged s = (if st_handles s = 0 then [(level, stream_values cs)] else [])"
proof -
  have "stream_inv level [] (logger_stream level)" by (simp add: stream_inv_def logger_stream_def QxtLogStream_new_def)
  from stream_run_inv [OF this assms] show ?thesis by (auto simp: stream_inv_def)
qed

end
