(* ===== verification/Logger_Properties.thy ===== *)
theory Logger_Properties
  imports Logger_Calls Log_Stream
begin

text \<open>
  The properties of the logger: that it never uses an engine that was deleted, what is in the logs of all sessions, and what
  happens to a file that is no log.
\<close>








section \<open>More\<close>

text \<open>An engine that writes XML, opened by its constructor only, and logging to a new file: the log has no frame, and is
  refused in the next session.\<close>

theorem xml_log_needs_init:
  assumes "name \<noteq> []" "writable name" "fs name \<in> {None, Some []}" "es \<noteq> []"
    and "file_new writable XmlFile name fs = (e, f, fs1)" "lf_kind g = XmlFile" "logFile g = name"
  shows "\<exists>f' fs' g'. xml_writes es (f, fs1) = Inr (f', fs') \<and>
    xml_session writable es' (e', g, fs') = Inr (False, g', fs')"
proof -
  from xml_writes_without_frame [OF assms(1-5)] obtain f' fs' where
    w: "xml_writes es (f, fs1) = Inr (f', fs')" "fs' name = Some (concat (map xml_entry es) @ ''</log>'')" by blast
  have "take 44 (concat (map xml_entry es) @ ''</log>'') \<noteq> xml_declaration @ ''<log>''"
    using assms(4) by (cases es) (simp_all add: entry_is_no_log del: take_append)
  moreover have "concat (map xml_entry es) @ ''</log>'' \<noteq> []" by simp
  ultimately obtain g1 g2 where "file_init writable (e', g, fs') = (enableLogging e', g1, fs')"
      "xml_check (g1, fs') = Inr (False, g2, fs')"
    using xml_reopen [where e = e' and fs = fs' and writable = writable, OF assms(6,7,1,2) w(2)] by auto
  with w(1) show ?thesis by (simp add: xml_session_def)
qed

text \<open>After \<open>setMinimumLevel\<close> exactly the levels from the minimum on are enabled.\<close>

theorem minimum_level_is_minimum:
  assumes "logger_reach now writable lg" "isLoggerEngine n lg" "single l"
  shows "\<exists>lg'. setMinimumLevel n level lg = Inr lg' \<and>
    isLogLevelEnabled_named n l lg' = Inr (level_bits level \<le> level_bits l)"
  using assms(2,3) setMinimumLevel_levels [OF logger_reach_inv [OF assms(1)]] by (auto simp: isLoggerEngine_def)

end
