(* ===== verification/Main_Window.thy ===== *)
theory Main_Window
  imports Pipeline_Life
begin

text \<open>
  The window of the editor (\<open>MainWindow.cpp\<close>) and its document: the pipeline that is open, the file it belongs to, whether
  it has changes, the title and the list of recent files.  The files are a function from names to contents, \<open>we_doc\<close> gives
  the contents that the loader writes for a pipeline; what the loader does and what stopping a pipeline does are parameters.
  Layout, dialogs and the scene are left out.
\<close>

section \<open>State\<close>

record window_actions =
  act_save :: bool
  act_saveAs :: bool
  act_start :: bool
  act_pause :: bool
  act_stop :: bool
  act_close :: bool

record recent_action =
  ra_text :: string
  ra_data :: string
  ra_visible :: bool

record ('v, 'd) MainWindow =
  mw_pipeline :: "'v plv option"
  mw_fileName :: string
  mw_documentChanged :: bool
  mw_title :: string
  mw_actions :: window_actions
  mw_recentFileActs :: "recent_action list"
  mw_messages :: "string list"
  mw_exit :: bool
  mw_recentFiles :: "string list"
  mw_disk :: "string \<Rightarrow> 'd option"

record ('v, 'd) window_env =
  we_serialize :: "string \<Rightarrow> 'v plv \<Rightarrow> plv_exn + unit"
  we_deserialize :: "string \<Rightarrow> ('v plv, unit) plvM"
  we_doc :: "'v plv \<Rightarrow> 'd"
  we_stop :: "'v plv \<Rightarrow> 'v plv"
  we_new :: "'v plv"

type_synonym ('v, 'd) window_op = "('v, 'd) MainWindow \<Rightarrow> plv_exn + ('v, 'd) MainWindow"

definition thenW :: "('v, 'd) window_op \<Rightarrow> ('v, 'd) window_op \<Rightarrow> ('v, 'd) window_op" where
  "thenW f g mw = (case f mw of Inl x \<Rightarrow> Inl x | Inr mw' \<Rightarrow> g mw')"

definition MaxRecentFiles :: nat where
  "MaxRecentFiles = 5"

section \<open>Title and recent files\<close>

text \<open>\<open>QFileInfo::fileName\<close> and \<open>baseName\<close>.\<close>

definition info_fileName :: "string \<Rightarrow> string" where
  "info_fileName path = rev (takeWhile (\<lambda>c. c \<noteq> CHR ''/'') (rev path))"

definition info_baseName :: "string \<Rightarrow> string" where
  "info_baseName path = takeWhile (\<lambda>c. c \<noteq> CHR ''.'') (info_fileName path)"

definition titleOf :: "string \<Rightarrow> bool \<Rightarrow> string" where
  "titleOf fileName changed =
     (if fileName = [] then ''Untitled'' else info_baseName fileName) @ (if changed then ''*'' else [])"

definition updateWindowTitle :: "('v, 'd) MainWindow \<Rightarrow> ('v, 'd) MainWindow" where
  "updateWindowTitle mw = mw\<lparr>mw_title := titleOf (mw_fileName mw) (mw_documentChanged mw)\<rparr>"

fun removeLasts :: "nat \<Rightarrow> string list \<Rightarrow> string list" where
  "removeLasts n files = (if n < length files then removeLasts n (butlast files) else files)"

declare removeLasts.simps [simp del]

definition numRecent :: "string list \<Rightarrow> nat" where
  "numRecent files = min (length files) MaxRecentFiles"

definition recentText :: "nat \<Rightarrow> string \<Rightarrow> string" where
  "recentText i file = ''&'' @ qs_number (int i + 1) @ '' '' @ info_fileName file"

definition updateRecentFileActions :: "('v, 'd) MainWindow \<Rightarrow> ('v, 'd) MainWindow" where
  "updateRecentFileActions mw =
     (let files = mw_recentFiles mw in
      mw\<lparr>mw_recentFileActs := map (\<lambda>i.
          if i < numRecent files
          then \<lparr>ra_text = recentText i (files ! i), ra_data = files ! i, ra_visible = True\<rparr>
          else (mw_recentFileActs mw ! i)\<lparr>ra_visible := False\<rparr>) [0..<MaxRecentFiles]\<rparr>)"

definition setCurrentFile :: "string \<Rightarrow> ('v, 'd) MainWindow \<Rightarrow> ('v, 'd) MainWindow" where
  "setCurrentFile fileName mw =
     (let mw1 = mw\<lparr>mw_fileName := fileName\<rparr> in
      if fileName = [] then mw1
      else
        (let mw2 = updateWindowTitle mw1;
             files = removeLasts MaxRecentFiles (fileName # removeAll fileName (mw_recentFiles mw2))
         in updateRecentFileActions (mw2\<lparr>mw_recentFiles := files\<rparr>)))"

section \<open>Saving\<close>

text \<open>\<open>Pipeline::saveAs\<close> writes the file only when the pipeline is marked as changed and the loader succeeds; what it
  answers is not looked at.\<close>

definition writes :: "('v, 'd) window_env \<Rightarrow> string \<Rightarrow> 'v plv \<Rightarrow> bool" where
  "writes env name w \<longleftrightarrow> pl_changed w \<and>
     we_serialize env name (if pl_filename w \<noteq> name then w\<lparr>pl_filename := name\<rparr> else w) = Inr ()"

definition window_save :: "('v, 'd) window_env \<Rightarrow> ('v, 'd) window_op" where
  "window_save env mw =
     (case mw_pipeline mw of
        None \<Rightarrow> Inr mw
      | Some w \<Rightarrow>
          (case saveAs (we_serialize env) (mw_fileName mw) w of
             (Inr ok, w') \<Rightarrow>
               Inr (updateWindowTitle (mw\<lparr>mw_pipeline := Some w', mw_documentChanged := False,
                 mw_disk := if writes env (mw_fileName mw) w then (mw_disk mw)(mw_fileName mw \<mapsto> we_doc env w)
                            else mw_disk mw\<rparr>))
           | (Inl x, w') \<Rightarrow>
               if isRuntimeError x
               then Inr (mw\<lparr>mw_pipeline := Some w',
                      mw_messages := mw_messages mw @ [''Error: Could not save pipeline: '' @ what x]\<rparr>)
               else Inl x))"

text \<open>\<open>chosen\<close> is the name that the user gives, empty when he cancels.\<close>

definition on_actionSaveAs :: "('v, 'd) window_env \<Rightarrow> string \<Rightarrow> ('v, 'd) window_op" where
  "on_actionSaveAs env chosen mw =
     (if mw_pipeline mw = None \<or> chosen = [] then Inr mw
      else thenW (window_save env) (\<lambda>mw'. Inr (setCurrentFile chosen mw')) (mw\<lparr>mw_fileName := chosen\<rparr>))"

definition on_actionSave :: "('v, 'd) window_env \<Rightarrow> string \<Rightarrow> ('v, 'd) window_op" where
  "on_actionSave env chosen mw =
     (if mw_pipeline mw = None then Inr mw
      else if mw_fileName mw = [] then on_actionSaveAs env chosen mw
      else window_save env mw)"

text \<open>The message box has two standard buttons; \<open>exec\<close> returns the value of the one that was pressed, which is compared to
  \<open>QDialog::Accepted\<close>.\<close>

datatype box_button = SaveButton | DiscardButton

fun button_value :: "box_button \<Rightarrow> int" where
  "button_value SaveButton = 0x800"
| "button_value DiscardButton = 0x800000"

definition Accepted :: int where
  "Accepted = 1"

definition offerToSave :: "('v, 'd) window_env \<Rightarrow> box_button \<Rightarrow> string \<Rightarrow> ('v, 'd) window_op" where
  "offerToSave env button chosen mw =
     (if mw_pipeline mw = None then Inr mw
      else if button_value button = Accepted then on_actionSave env chosen mw
      else Inr mw)"

section \<open>Opening and closing\<close>

definition window_setPipeline :: "'v plv \<Rightarrow> ('v, 'd) window_op" where
  "window_setPipeline w mw =
     (if mw_pipeline mw \<noteq> None then Inl AssertFailed
      else Inr (mw\<lparr>mw_pipeline := Some w,
        mw_actions := \<lparr>act_save = True, act_saveAs = True, act_start = True, act_pause = False, act_stop = False,
          act_close = True\<rparr>,
        mw_documentChanged := False\<rparr>))"

definition actions_off :: window_actions where
  "actions_off = \<lparr>act_save = False, act_saveAs = False, act_start = False, act_pause = False, act_stop = False,
     act_close = False\<rparr>"

definition stopRunning :: "('v, 'd) window_env \<Rightarrow> ('v, 'd) MainWindow \<Rightarrow> ('v, 'd) MainWindow" where
  "stopRunning env mw =
     mw\<lparr>mw_pipeline := map_option (\<lambda>w. if pl_running w then we_stop env w else w) (mw_pipeline mw)\<rparr>"

definition closePipeline :: "('v, 'd) window_env \<Rightarrow> box_button \<Rightarrow> string \<Rightarrow> ('v, 'd) window_op" where
  "closePipeline env button chosen mw =
     (if mw_pipeline mw = None then Inr mw
      else
        thenW (\<lambda>mw1. if mw_documentChanged mw1 then offerToSave env button chosen mw1 else Inr mw1)
          (\<lambda>mw1. Inr (updateWindowTitle (mw1\<lparr>mw_actions := actions_off, mw_documentChanged := False,
             mw_pipeline := None, mw_title := ''ParleVision - no pipeline''\<rparr>)))
          (stopRunning env mw))"

definition loadFile :: "('v, 'd) window_env \<Rightarrow> box_button \<Rightarrow> string \<Rightarrow> string \<Rightarrow> ('v, 'd) window_op" where
  "loadFile env button chosen fileName mw =
     thenW (\<lambda>mw1. if mw_pipeline mw1 \<noteq> None then closePipeline env button chosen mw1 else Inr mw1)
       (\<lambda>mw1.
          case load (we_deserialize env) fileName (we_new env) of
            (Inl x, pl) \<Rightarrow> Inl x
          | (Inr ok, pl) \<Rightarrow> window_setPipeline pl (setCurrentFile fileName mw1)) mw"

definition on_actionNew :: "('v, 'd) window_env \<Rightarrow> box_button \<Rightarrow> string \<Rightarrow> ('v, 'd) window_op" where
  "on_actionNew env button chosen =
     thenW (closePipeline env button chosen)
       (\<lambda>mw1. thenW (window_setPipeline (we_new env))
          (\<lambda>mw2. Inr (updateWindowTitle (mw2\<lparr>mw_documentChanged := False\<rparr>))) (setCurrentFile [] mw1))"

definition openRecentFile :: "('v, 'd) window_env \<Rightarrow> box_button \<Rightarrow> string \<Rightarrow> nat \<Rightarrow> ('v, 'd) window_op" where
  "openRecentFile env button chosen i mw = loadFile env button chosen (ra_data (mw_recentFileActs mw ! i)) mw"

text \<open>\<open>files\<close> are those that were selected in the dialog, which is cancelled when there is none.\<close>

definition on_actionLoad :: "('v, 'd) window_env \<Rightarrow> box_button \<Rightarrow> string \<Rightarrow> string list \<Rightarrow> ('v, 'd) window_op" where
  "on_actionLoad env button chosen files mw =
     (case files of [] \<Rightarrow> Inr mw | fileName # _ \<Rightarrow> loadFile env button chosen fileName mw)"

text \<open>What follows \<open>offerToSave\<close> in the code is the declaration of a function, \<open>void closePipeline()\<close>, and no call.\<close>

definition on_actionExit :: "('v, 'd) window_env \<Rightarrow> box_button \<Rightarrow> string \<Rightarrow> ('v, 'd) window_op" where
  "on_actionExit env button chosen =
     thenW (\<lambda>mw. if mw_documentChanged mw then offerToSave env button chosen mw else Inr mw)
       (\<lambda>mw. Inr (mw\<lparr>mw_exit := True\<rparr>))"

text \<open>Closing the window clears the pipeline; \<open>clear\<close> is \<open>Pipeline::clear\<close>.\<close>

definition closeEvent :: "('v, 'd) window_env \<Rightarrow> box_button \<Rightarrow> string \<Rightarrow> ('v, 'd) window_op" where
  "closeEvent env button chosen =
     thenW (\<lambda>mw. if mw_documentChanged mw then offerToSave env button chosen mw else Inr mw)
       (\<lambda>mw.
          case mw_pipeline (stopRunning env mw) of
            None \<Rightarrow> Inr mw
          | Some w \<Rightarrow>
              (case pipeline_clear w of (Inl x, w') \<Rightarrow> Inl x | (Inr u, w') \<Rightarrow> Inr (mw\<lparr>mw_pipeline := Some w'\<rparr>)))"

section \<open>Signals\<close>

definition documentChanged :: "('v, 'd) MainWindow \<Rightarrow> ('v, 'd) MainWindow" where
  "documentChanged mw =
     (if mw_documentChanged mw then mw
      else updateWindowTitle (mw\<lparr>mw_documentChanged := True, mw_actions := (mw_actions mw)\<lparr>act_save := True\<rparr>\<rparr>))"

definition window_pipelineStarted :: "('v, 'd) MainWindow \<Rightarrow> ('v, 'd) MainWindow" where
  "window_pipelineStarted mw = mw\<lparr>mw_actions := (mw_actions mw)\<lparr>act_start := False, act_stop := True\<rparr>\<rparr>"

definition window_pipelineStopped :: "('v, 'd) MainWindow \<Rightarrow> ('v, 'd) MainWindow" where
  "window_pipelineStopped mw = mw\<lparr>mw_actions := (mw_actions mw)\<lparr>act_start := True, act_stop := False\<rparr>\<rparr>"

datatype window_message = DebugMessage | InfoMessage | WarningMessage | CriticalMessage | FatalMessage

definition window_handleMessage ::
    "('v, 'd) window_env \<Rightarrow> box_button \<Rightarrow> string \<Rightarrow> window_message \<Rightarrow> string \<Rightarrow> ('v, 'd) window_op" where
  "window_handleMessage env button chosen t msg mw =
     (let shown = (\<lambda>s. mw\<lparr>mw_messages := mw_messages mw @ [s]\<rparr>) in
      case t of
        DebugMessage \<Rightarrow> Inr mw
      | InfoMessage \<Rightarrow> Inr mw
      | WarningMessage \<Rightarrow> Inr (shown msg)
      | CriticalMessage \<Rightarrow> Inr (shown (''Error: '' @ msg))
      | FatalMessage \<Rightarrow>
          thenW (offerToSave env button chosen) (\<lambda>mw'. Inr (mw'\<lparr>mw_exit := True\<rparr>))
            (shown (''Fatal Error: '' @ msg @ ''. \<newline> The application will now close'')))"

definition no_action :: recent_action where
  "no_action = \<lparr>ra_text = [], ra_data = [], ra_visible = False\<rparr>"

text \<open>A window, with the settings and the files that there are.\<close>

definition MainWindow_new :: "string \<Rightarrow> string list \<Rightarrow> (string \<Rightarrow> 'd option) \<Rightarrow> ('v, 'd) MainWindow" where
  "MainWindow_new build recent disk =
     updateRecentFileActions
       \<lparr>mw_pipeline = None, mw_fileName = [], mw_documentChanged = False,
        mw_title = ''ParleVision '' @ build @ '' - no pipeline'', mw_actions = actions_off,
        mw_recentFileActs = replicate MaxRecentFiles no_action, mw_messages = [], mw_exit = False,
        mw_recentFiles = recent, mw_disk = disk\<rparr>"

end
