(* ===== verification/Window_Inv.thy ===== *)
theory Window_Inv
  imports Main_Window
begin

text \<open>
  What the window of the editor shows is what it holds: the title has a star exactly when there are changes, and the actions
  for recent files are those files, the last one first, each of them once.
\<close>

section \<open>Events\<close>

datatype 'v window_event =
    NewDocument box_button string
  | LoadDocument box_button string string
  | OpenRecent box_button string nat
  | SaveDocument string
  | SaveDocumentAs string
  | CloseDocument box_button string
  | Edited "'v plv"
  | PipelineRuns "'v plv"
  | PipelineStarted
  | PipelineStopped
  | MessageShown box_button string window_message string

fun window_do :: "('v, 'd) window_env \<Rightarrow> 'v window_event \<Rightarrow> ('v, 'd) window_op" where
  "window_do env (NewDocument b c) mw = on_actionNew env b c mw"
| "window_do env (LoadDocument b c f) mw = on_actionLoad env b c [f] mw"
| "window_do env (OpenRecent b c i) mw = openRecentFile env b c i mw"
| "window_do env (SaveDocument c) mw = on_actionSave env c mw"
| "window_do env (SaveDocumentAs c) mw = on_actionSaveAs env c mw"
| "window_do env (CloseDocument b c) mw = closePipeline env b c mw"
| "window_do env (Edited w) mw = Inr (documentChanged (mw\<lparr>mw_pipeline := Some w\<rparr>))"
| "window_do env (PipelineRuns w) mw = Inr (mw\<lparr>mw_pipeline := Some w\<rparr>)"
| "window_do env PipelineStarted mw = Inr (window_pipelineStarted mw)"
| "window_do env PipelineStopped mw = Inr (window_pipelineStopped mw)"
| "window_do env (MessageShown b c t msg) mw = window_handleMessage env b c t msg mw"

text \<open>A file that is selected has a name, a recent file is chosen from those that are visible, and a pipeline is edited and
  runs when there is one.\<close>

fun event_ok :: "'v window_event \<Rightarrow> ('v, 'd) MainWindow \<Rightarrow> bool" where
  "event_ok (LoadDocument b c f) mw \<longleftrightarrow> f \<noteq> []"
| "event_ok (OpenRecent b c i) mw \<longleftrightarrow> i < MaxRecentFiles \<and> ra_visible (mw_recentFileActs mw ! i)"
| "event_ok (Edited w) mw \<longleftrightarrow> mw_pipeline mw \<noteq> None"
| "event_ok (PipelineRuns w) mw \<longleftrightarrow> mw_pipeline mw \<noteq> None"
| "event_ok _ mw \<longleftrightarrow> True"

inductive window_reach :: "('v, 'd) window_env \<Rightarrow> ('v, 'd) MainWindow \<Rightarrow> bool" for env where
  opened: "distinct recent \<Longrightarrow> length recent \<le> MaxRecentFiles \<Longrightarrow> [] \<notin> set recent \<Longrightarrow>
    window_reach env (MainWindow_new build recent disk)"
| event: "window_reach env mw \<Longrightarrow> event_ok ev mw \<Longrightarrow> window_do env ev mw = Inr mw' \<Longrightarrow> window_reach env mw'"

section \<open>The invariant\<close>

definition recent_ok :: "('v, 'd) MainWindow \<Rightarrow> bool" where
  "recent_ok mw \<longleftrightarrow> distinct (mw_recentFiles mw) \<and> length (mw_recentFiles mw) \<le> MaxRecentFiles \<and>
     [] \<notin> set (mw_recentFiles mw) \<and>
     map ra_data (filter ra_visible (mw_recentFileActs mw)) = mw_recentFiles mw \<and>
     (\<forall>i < MaxRecentFiles. ra_visible (mw_recentFileActs mw ! i) \<longrightarrow>
        ra_data (mw_recentFileActs mw ! i) \<in> set (mw_recentFiles mw))"

definition title_ok :: "('v, 'd) MainWindow \<Rightarrow> bool" where
  "title_ok mw \<longleftrightarrow>
     (case mw_pipeline mw of
        None \<Rightarrow> \<not> mw_documentChanged mw
      | Some w \<Rightarrow> mw_title mw = titleOf (mw_fileName mw) (mw_documentChanged mw))"

definition window_inv :: "('v, 'd) MainWindow \<Rightarrow> bool" where
  "window_inv mw \<longleftrightarrow> title_ok mw \<and> recent_ok mw"

lemma recent_ok_cong:
  "mw_recentFiles mw' = mw_recentFiles mw \<Longrightarrow> mw_recentFileActs mw' = mw_recentFileActs mw \<Longrightarrow>
    recent_ok mw' = recent_ok mw"
  by (simp add: recent_ok_def)

lemma removeLasts_take: "removeLasts n files = take n files"
proof (induction n files rule: removeLasts.induct)
  case (1 n files)
  then show ?case
    by (cases "n < length files") (simp_all add: removeLasts.simps [of n files] take_butlast)
qed

lemma filter_map_upt_prefix:
  "k \<le> n \<Longrightarrow> (\<And>i. P (f i) \<longleftrightarrow> i < k) \<Longrightarrow> filter P (map f [0..<n]) = map f [0..<k]"
proof -
  assume "k \<le> n" "\<And>i. P (f i) \<longleftrightarrow> i < k"
  then have "filter P (map f [0..<n]) = map f (filter (\<lambda>i. i < k) [0..<n])" by (simp add: filter_map comp_def)
  also have "filter (\<lambda>i. i < k) [0..<n] = [0..<k]"
    using \<open>k \<le> n\<close> by (induction n) (auto simp: le_Suc_eq)
  finally show ?thesis .
qed

lemma updateRecentFileActions_ok:
  assumes "distinct (mw_recentFiles mw)" "length (mw_recentFiles mw) \<le> MaxRecentFiles" "[] \<notin> set (mw_recentFiles mw)"
  shows "recent_ok (updateRecentFileActions mw)"
proof -
  let ?files = "mw_recentFiles mw"
  let ?act = "\<lambda>i. if i < numRecent ?files
    then \<lparr>ra_text = recentText i (?files ! i), ra_data = ?files ! i, ra_visible = True\<rparr>
    else (mw_recentFileActs mw ! i)\<lparr>ra_visible := False\<rparr>"
  have n: "numRecent ?files = length ?files" using assms(2) by (simp add: numRecent_def)
  have "filter ra_visible (map ?act [0..<MaxRecentFiles]) = map ?act [0..<length ?files]"
    by (rule filter_map_upt_prefix [OF assms(2)]) (simp add: n)
  then have "map ra_data (filter ra_visible (map ?act [0..<MaxRecentFiles])) = map (\<lambda>i. ?files ! i) [0..<length ?files]"
    by (simp add: n)
  then show ?thesis
    using assms by (simp add: recent_ok_def updateRecentFileActions_def Let_def map_nth n)
qed

lemma setCurrentFile_ok:
  assumes "recent_ok mw"
  shows "recent_ok (setCurrentFile fileName mw)"
proof (cases "fileName = []")
  case True
  with assms show ?thesis by (simp add: setCurrentFile_def recent_ok_def)
next
  case False
  let ?files = "take MaxRecentFiles (fileName # removeAll fileName (mw_recentFiles mw))"
  have "distinct (removeAll fileName (mw_recentFiles mw))"
    using assms by (simp add: recent_ok_def distinct_removeAll)
  then have d: "distinct ?files" by (intro distinct_take) simp
  have e: "[] \<notin> set ?files" using assms False by (auto simp: recent_ok_def dest: in_set_takeD)
  show ?thesis
    using False d e
    by (simp add: setCurrentFile_def Let_def removeLasts_take updateWindowTitle_def)
      (rule updateRecentFileActions_ok, simp_all)
qed

lemma updateRecentFileActions_simps:
  "mw_pipeline (updateRecentFileActions mw) = mw_pipeline mw"
  "mw_documentChanged (updateRecentFileActions mw) = mw_documentChanged mw"
  by (simp_all add: updateRecentFileActions_def Let_def)

lemma setCurrentFile_simps [simp]:
  "mw_pipeline (setCurrentFile f mw) = mw_pipeline mw"
  "mw_documentChanged (setCurrentFile f mw) = mw_documentChanged mw"
  "mw_fileName (setCurrentFile f mw) = f"
  "mw_disk (setCurrentFile f mw) = mw_disk mw"
  by (simp_all add: setCurrentFile_def updateWindowTitle_def updateRecentFileActions_def Let_def)

lemma setCurrentFile_title: "f \<noteq> [] \<Longrightarrow> mw_title (setCurrentFile f mw) = titleOf f (mw_documentChanged mw)"
  by (simp add: setCurrentFile_def updateWindowTitle_def updateRecentFileActions_def Let_def)

lemma updateWindowTitle_simps [simp]:
  "mw_pipeline (updateWindowTitle mw) = mw_pipeline mw" "mw_documentChanged (updateWindowTitle mw) = mw_documentChanged mw"
  "mw_fileName (updateWindowTitle mw) = mw_fileName mw" "mw_disk (updateWindowTitle mw) = mw_disk mw"
  "mw_recentFiles (updateWindowTitle mw) = mw_recentFiles mw"
  "mw_recentFileActs (updateWindowTitle mw) = mw_recentFileActs mw"
  "mw_title (updateWindowTitle mw) = titleOf (mw_fileName mw) (mw_documentChanged mw)"
  by (simp_all add: updateWindowTitle_def)

text \<open>Offering to save never saves.\<close>

lemma offerToSave_nothing: "offerToSave env button chosen mw = Inr mw"
  by (cases button) (simp_all add: offerToSave_def Accepted_def)

lemma window_save_title:
  assumes "window_save env mw = Inr mw'" "mw_pipeline mw \<noteq> None"
  shows "mw_pipeline mw' \<noteq> None" "mw_fileName mw' = mw_fileName mw" "recent_ok mw' = recent_ok mw"
  using assms
  by (auto simp: window_save_def intro!: recent_ok_cong split: prod.splits sum.splits if_splits)

lemma window_save_inv:
  assumes "window_save env mw = Inr mw'" "window_inv mw"
  shows "window_inv mw'"
proof (cases "mw_pipeline mw")
  case None
  with assms show ?thesis by (simp add: window_save_def)
next
  case (Some w)
  have "title_ok mw'"
    using assms Some
    by (auto simp: window_save_def window_inv_def title_ok_def split: prod.splits sum.splits if_splits)
  with window_save_title(3) [OF assms(1)] Some assms(2) show ?thesis by (simp add: window_inv_def)
qed

lemma on_actionSaveAs_inv:
  assumes "on_actionSaveAs env chosen mw = Inr mw'" "window_inv mw"
  shows "window_inv mw'"
proof (cases "mw_pipeline mw = None \<or> chosen = []")
  case True
  with assms show ?thesis by (simp add: on_actionSaveAs_def)
next
  case False
  with assms(1) obtain mw1 where s: "window_save env (mw\<lparr>mw_fileName := chosen\<rparr>) = Inr mw1" "mw' = setCurrentFile chosen mw1"
    by (auto simp: on_actionSaveAs_def thenW_def split: sum.splits)
  have "recent_ok (mw\<lparr>mw_fileName := chosen\<rparr>)" using assms(2) by (simp add: window_inv_def recent_ok_def)
  with window_save_title [OF s(1)] False have "recent_ok mw1" "mw_pipeline mw1 \<noteq> None" by simp_all
  with s(2) False show ?thesis
    by (auto simp: window_inv_def title_ok_def setCurrentFile_title intro: setCurrentFile_ok)
qed

lemma on_actionSave_inv: "on_actionSave env chosen mw = Inr mw' \<Longrightarrow> window_inv mw \<Longrightarrow> window_inv mw'"
  by (auto simp: on_actionSave_def split: if_splits intro: on_actionSaveAs_inv window_save_inv)

lemma closePipeline_result:
  assumes "closePipeline env b c mw = Inr mw'"
  shows "mw_pipeline mw' = None" "mw_disk mw' = mw_disk mw" "recent_ok mw' = recent_ok mw"
    "mw_documentChanged mw' = (mw_pipeline mw = None \<and> mw_documentChanged mw)"
  using assms
  by (auto simp: closePipeline_def thenW_def offerToSave_nothing stopRunning_def intro!: recent_ok_cong split: if_splits)

lemma loadFile_inv:
  assumes "loadFile env b c f mw = Inr mw'" "window_inv mw" "f \<noteq> []"
  shows "window_inv mw'"
proof -
  from assms(1) obtain mw1 where 1: "(if mw_pipeline mw \<noteq> None then closePipeline env b c mw else Inr mw) = Inr mw1"
    and l: "(case load (we_deserialize env) f (we_new env) of (Inl x, pl) \<Rightarrow> Inl x
        | (Inr ok, pl) \<Rightarrow> window_setPipeline pl (setCurrentFile f mw1)) = Inr mw'"
    by (auto simp: loadFile_def thenW_def split: sum.splits)
  have m1: "mw_pipeline mw1 = None" "\<not> mw_documentChanged mw1" "recent_ok mw1"
    using 1 closePipeline_result [of env b c mw mw1] assms(2)
    by (auto simp: window_inv_def title_ok_def split: if_splits)
  from l obtain pl where "window_setPipeline pl (setCurrentFile f mw1) = Inr mw'"
    by (auto split: prod.splits sum.splits)
  with m1 have p: "mw_title mw' = mw_title (setCurrentFile f mw1)" "mw_pipeline mw' = Some pl" "mw_fileName mw' = f"
      "\<not> mw_documentChanged mw'" "recent_ok mw' = recent_ok (setCurrentFile f mw1)"
    by (auto simp: window_setPipeline_def intro!: recent_ok_cong)
  then show ?thesis
    using m1 setCurrentFile_ok [OF m1(3), of f] assms(3) by (simp add: window_inv_def title_ok_def setCurrentFile_title)
qed

lemma on_actionNew_inv:
  assumes "on_actionNew env b c mw = Inr mw'" "window_inv mw"
  shows "window_inv mw'"
proof -
  from assms(1) obtain mw1 where 1: "closePipeline env b c mw = Inr mw1"
    and r: "thenW (window_setPipeline (we_new env)) (\<lambda>mw2. Inr (updateWindowTitle (mw2\<lparr>mw_documentChanged := False\<rparr>)))
      (setCurrentFile [] mw1) = Inr mw'"
    by (auto simp: on_actionNew_def thenW_def split: sum.splits)
  have "recent_ok (setCurrentFile [] mw1)"
    using closePipeline_result(3) [OF 1] assms(2) by (simp add: window_inv_def setCurrentFile_ok)
  with r closePipeline_result(1) [OF 1] show ?thesis
    by (auto simp: thenW_def window_setPipeline_def window_inv_def title_ok_def recent_ok_def)
qed

lemma window_inv_same:
  assumes "window_inv mw" "mw_pipeline mw \<noteq> None" "mw_pipeline mw' \<noteq> None" "mw_title mw' = mw_title mw"
    "mw_fileName mw' = mw_fileName mw" "mw_documentChanged mw' = mw_documentChanged mw"
    "mw_recentFiles mw' = mw_recentFiles mw" "mw_recentFileActs mw' = mw_recentFileActs mw"
  shows "window_inv mw'"
  using assms by (auto simp: window_inv_def title_ok_def recent_ok_def)

lemma documentChanged_inv:
  "window_inv mw \<Longrightarrow> mw_pipeline mw \<noteq> None \<Longrightarrow> window_inv (documentChanged mw)"
  by (auto simp: documentChanged_def window_inv_def title_ok_def recent_ok_def)

lemma window_do_inv:
  assumes "window_do env ev mw = Inr mw'" "window_inv mw" "event_ok ev mw"
  shows "window_inv mw'"
proof (cases ev)
  case (OpenRecent b c i)
  with assms have "ra_data (mw_recentFileActs mw ! i) \<noteq> []" by (fastforce simp: window_inv_def recent_ok_def)
  with assms OpenRecent show ?thesis by (simp add: openRecentFile_def loadFile_inv)
next
  case (CloseDocument b c)
  with assms closePipeline_result [of env b c mw mw'] show ?thesis
    by (auto simp: window_inv_def title_ok_def)
next
  case (Edited w)
  have "window_inv (mw\<lparr>mw_pipeline := Some w\<rparr>)" by (rule window_inv_same [OF assms(2)]) (use assms(3) Edited in auto)
  with assms(1) Edited show ?thesis by (auto intro: documentChanged_inv)
next
  case (PipelineRuns w)
  have "window_inv (mw\<lparr>mw_pipeline := Some w\<rparr>)"
    by (rule window_inv_same [OF assms(2)]) (use assms(3) PipelineRuns in auto)
  with assms(1) PipelineRuns show ?thesis by simp
next
  case (MessageShown b c t msg)
  with assms show ?thesis
    by (auto simp: window_handleMessage_def Let_def thenW_def offerToSave_nothing window_inv_def title_ok_def recent_ok_def
        split: window_message.splits option.splits)
next
  case (NewDocument b c)
  with assms show ?thesis by (simp add: on_actionNew_inv)
next
  case (LoadDocument b c f)
  with assms show ?thesis by (simp add: on_actionLoad_def loadFile_inv)
next
  case (SaveDocument c)
  with assms show ?thesis by (simp add: on_actionSave_inv)
next
  case (SaveDocumentAs c)
  with assms show ?thesis by (simp add: on_actionSaveAs_inv)
next
  case PipelineStarted
  with assms show ?thesis
    by (auto simp: window_pipelineStarted_def window_inv_def title_ok_def recent_ok_def split: option.split)
next
  case PipelineStopped
  with assms show ?thesis
    by (auto simp: window_pipelineStopped_def window_inv_def title_ok_def recent_ok_def split: option.split)
qed

lemma window_reach_inv: "window_reach env mw \<Longrightarrow> window_inv mw"
proof (induction rule: window_reach.induct)
  case (opened recent build disk)
  then have "recent_ok (MainWindow_new build recent disk)"
    unfolding MainWindow_new_def by (intro updateRecentFileActions_ok) simp_all
  moreover have "title_ok (MainWindow_new build recent disk)"
    by (simp add: title_ok_def MainWindow_new_def updateRecentFileActions_simps)
  ultimately show ?case by (simp add: window_inv_def)
next
  case (event mw ev mw')
  then show ?case using window_do_inv [of env ev mw mw'] by blast
qed

section \<open>What is saved\<close>

text \<open>Saving ends without changes, whether the file was written or not.\<close>

lemma window_save_clean:
  assumes "mw_pipeline mw = Some w" "window_save env mw = Inr mw'"
    and "\<And>x. we_serialize env (mw_fileName mw) (if pl_filename w \<noteq> mw_fileName mw then w\<lparr>pl_filename := mw_fileName mw\<rparr> else w) = Inl x
      \<Longrightarrow> isRuntimeError x"
  shows "\<not> mw_documentChanged mw'"
    and "mw_disk mw' = (if writes env (mw_fileName mw) w then (mw_disk mw)(mw_fileName mw \<mapsto> we_doc env w) else mw_disk mw)"
proof -
  have "\<exists>ok w'. saveAs (we_serialize env) (mw_fileName mw) w = (Inr ok, w')"
    using assms(3) by (auto simp: saveAs_def save_def Let_def split: sum.split)
  then obtain ok w' where "saveAs (we_serialize env) (mw_fileName mw) w = (Inr ok, w')" by blast
  with assms(1,2) show "\<not> mw_documentChanged mw'"
    "mw_disk mw' = (if writes env (mw_fileName mw) w then (mw_disk mw)(mw_fileName mw \<mapsto> we_doc env w) else mw_disk mw)"
    by (auto simp: window_save_def)
qed

end
