(* ===== verification/Window_Properties.thy ===== *)
theory Window_Properties
  imports Window_Inv Pipeline_Connect Sample_Pipeline
begin

text \<open>
  The properties of the window of the editor: what its title and its list of recent files show, and which changes are lost.
\<close>

text \<open>C23. Connecting two pins of a pipeline that has no changes marks the document as changed, but not the pipeline.  When it
  is saved then, the star in the title goes and no file is written; and when it is closed instead, the changes are lost even
  if the user answers that he wants to save them.\<close>

theorem saving_loses_connection:
  assumes "mw_pipeline mw = Some w" "mw_fileName mw \<noteq> []" "\<not> pl_changed w"
    and "connectPins qt p q w = (Inr i, w')" "edited = documentChanged (mw\<lparr>mw_pipeline := Some w'\<rparr>)"
  shows "mw_documentChanged edited \<and>
    (\<exists>saved. on_actionSave env chosen edited = Inr saved \<and> \<not> mw_documentChanged saved \<and> mw_disk saved = mw_disk mw) \<and>
    (\<exists>closed. closePipeline env SaveButton chosen edited = Inr closed \<and> mw_pipeline closed = None \<and>
       mw_disk closed = mw_disk mw)"
proof (intro conjI)
  have u: "\<not> pl_changed w'" using connectPins_changed [OF assms(4)] assms(3) by simp
  have e: "mw_pipeline edited = Some w'" "mw_fileName edited = mw_fileName mw" "mw_disk edited = mw_disk mw"
      "mw_documentChanged edited"
    by (cases "mw_documentChanged mw"; simp add: assms(5) documentChanged_def)+
  show "mw_documentChanged edited" by (rule e(4))
  have s: "saveAs (we_serialize env) (mw_fileName mw) w' =
      (Inr True, if pl_filename w' \<noteq> mw_fileName mw then w'\<lparr>pl_filename := mw_fileName mw\<rparr> else w')"
    using u by (simp add: saveAs_def save_def)
  have w: "\<not> writes env (mw_fileName mw) w'" using u by (simp add: writes_def)
  show "\<exists>saved. on_actionSave env chosen edited = Inr saved \<and> \<not> mw_documentChanged saved \<and> mw_disk saved = mw_disk mw"
    using e assms(2) s w by (simp add: on_actionSave_def window_save_def)
  show "\<exists>closed. closePipeline env SaveButton chosen edited = Inr closed \<and> mw_pipeline closed = None \<and>
      mw_disk closed = mw_disk mw"
    using e by (simp add: closePipeline_def thenW_def offerToSave_nothing stopRunning_def)
qed

definition demo_env :: "(nat, string) window_env" where
  "demo_env = \<lparr>we_serialize = (\<lambda>f w. Inr ()), we_deserialize = (\<lambda>f w. (Inr (), w)), we_doc = (\<lambda>w. ''text''),
     we_stop = id, we_new = demo\<rparr>"

theorem saving_loses_connection_witness:
  "\<exists>saved. on_actionSave demo_env [] (documentChanged ((MainWindow_new [] [] (\<lambda>_. None))
      \<lparr>mw_fileName := ''f'', mw_pipeline := Some (snd (connectPins demo_qt 1 3 (snd (pinConnectionDisconnect 2 demo))))\<rparr>)) = Inr saved \<and>
    \<not> mw_documentChanged saved \<and> mw_disk saved ''f'' = None"
proof -
  let ?w = "snd (pinConnectionDisconnect 2 demo)"
  let ?mw = "(MainWindow_new [] [] (\<lambda>_. None))\<lparr>mw_fileName := ''f'', mw_pipeline := Some ?w\<rparr>"
  have "fst (connectPins demo_qt 1 3 ?w) = Inr 2" "\<not> pl_changed ?w" by code_simp+
  then have c: "connectPins demo_qt 1 3 ?w = (Inr 2, snd (connectPins demo_qt 1 3 ?w))" by (simp add: prod_eq_iff)
  have d: "mw_disk ?mw = (\<lambda>_. None)" by (simp add: MainWindow_new_def updateRecentFileActions_def Let_def)
  have m: "?mw\<lparr>mw_pipeline := Some v\<rparr> = (MainWindow_new [] [] (\<lambda>_. None))\<lparr>mw_fileName := ''f'', mw_pipeline := Some v\<rparr>" for v
    by simp
  from saving_loses_connection [where mw = ?mw and w = ?w and env = demo_env and chosen = "[]", OF _ _ \<open>\<not> pl_changed ?w\<close> c refl]
  show ?thesis unfolding d m by auto
qed



section \<open>More\<close>

text \<open>A pipeline that is saved under another name, and has no changes, leaves no file of that name, although the window has
  that name from then on.\<close>

theorem save_as_writes_nothing:
  assumes "mw_pipeline mw = Some w" "chosen \<noteq> []" "\<not> pl_changed w"
  shows "\<exists>mw'. on_actionSaveAs env chosen mw = Inr mw' \<and> mw_fileName mw' = chosen \<and> \<not> mw_documentChanged mw' \<and>
    mw_disk mw' = mw_disk mw"
  using assms
  by (simp add: on_actionSaveAs_def thenW_def window_save_def saveAs_def save_def writes_def)

end
