(* ===== verification/Spec2Isabelle.thy ===== *)
theory Spec2Isabelle
  imports Plv_Enum Sample_Pipeline Blob_Properties Tcp_Properties Loader_Properties Image_Properties Editor_Properties Logger_Properties Window_Properties
begin

text \<open>
  ParleVision is a component framework for image processing: a user plugs processing elements together
  to a pipeline, which feeds every frame of its producers through the graph of processors, one element
  run per frame and element, in worker threads.  This development models its core library
  (\<open>src/src/plvcore\<close>, \<open>src/include/plvcore\<close>) and proves what the parts promise.

  \<^bold>\<open>State.\<close>  The objects of the program live in a store (record \<open>plv\<close> of theory \<open>Plv_Objects\<close>): four
  functions from references to the records of the elements, input pins, output pins and connections,
  and the members of the one \<open>Pipeline\<close>.  A method is a function from the store to a result and a new
  store; the result is \<open>Inl\<close> of an exception or \<open>Inr\<close> of the value.  A failed \<open>assert\<close> and the use of a null
  pointer are exceptions of their own, \<open>AssertFailed\<close> and \<open>NullPointer\<close>.  Signals that the program emits
  are appended to a list.  Qt's containers are association lists: sorted for \<open>QMap\<close>, in any order for
  \<open>QHash\<close>.  Serial numbers are 32 bit words.

  \<^bold>\<open>Theories.\<close>
  \<^item> \<open>Plv_Prelude\<close>: exceptions, the monad, its simplification rules and the rules for loops.
  \<^item> \<open>Qt_Containers\<close>, \<open>Qt_Strings\<close>: maps and numbers of Qt.  The locale \<open>dict\<close> is what the program
    uses of a map, \<open>id_source\<close> a map with a function that finds an unused key; both are interpreted for
    the sorted and the unsorted lists, with the two id searches of the program (\<open>newIdScan\<close>,
    \<open>nextIdProbe\<close>).
  \<^item> \<open>Plv_Enum\<close> (\<open>Enum.cpp\<close>) and \<open>Score_Board\<close> (class \<open>ScoreBoard\<close> of \<open>DataConsumer.h\<close>).
  \<^item> \<open>Plv_Objects\<close>: enumerations, records and the store.
  \<^item> \<open>Pin_Connection\<close> (\<open>PinConnection.cpp\<close>): the queue of a connection as an interpretation of the locale
    \<open>fifo\<close>, \<open>fastforward\<close>, and the notification of the consumer (\<open>newData\<close>).
  \<^item> \<open>Pins\<close> (\<open>IInputPin.cpp\<close>, \<open>IOutputPin.cpp\<close>, the rest of \<open>PinConnection.cpp\<close>): reading, writing and
    connecting.  What Qt's meta type system knows of a type id is the parameter \<open>QMetaType\<close>.
  \<^item> \<open>Pipeline_Element\<close> (\<open>PipelineElement.cpp\<close>): the states of an element.  What a plug-in does in
    \<open>init\<close>, \<open>start\<close>, \<open>stop\<close>, \<open>deinit\<close> is a parameter: a call of \<open>setError\<close> or none, then an exception or an
    answer.
  \<^item> \<open>Data_Pins\<close> (\<open>DataConsumer.cpp\<close>, \<open>DataProducer.cpp\<close>): the pins of an element and what happens to
    them before and after a run.
  \<^item> \<open>Element_Run\<close> (\<open>PipelineElement::run\<close>, \<open>PipelineProcessor.cpp\<close>, \<open>PipelineProducer.cpp\<close>): a run.
    The body of a plug-in is a term of \<open>plugin_code\<close>, a tree of the calls it makes; the theorems
    hold for every such tree.  \<open>Delivery\<close> shows what a run puts on the connections of the element.
  \<^item> \<open>Pipeline_Edit\<close> (the editing methods of \<open>Pipeline.cpp\<close>) with the invariant \<open>wired\<close>: the
    pin tables, the pins and the connections refer to each other.  \<open>Pipeline_Wiring\<close> and
    \<open>Pipeline_Connect\<close> show that every operation keeps it.
  \<^item> \<open>Graph_Order\<close>: the depth first search on an abstract graph, in the locale \<open>pred_graph\<close>, with its
    correctness; \<open>Pipeline_Graph\<close> (\<open>DataConsumer::visit\<close>, \<open>Pipeline::generateGraphOrdering\<close>) refines it.
  \<^item> \<open>Pipeline_Life\<close>: \<open>Pipeline::init\<close>, \<open>deinit\<close>, \<open>start\<close>, \<open>stop\<close>, \<open>finish\<close>, \<open>save\<close>, \<open>load\<close>;
    \<open>Life_Cycle\<close> shows what they do on a wired pipeline.
  \<^item> \<open>Scheduler\<close> (\<open>Pipeline::schedule\<close>, \<open>RunItem\<close>): the heartbeat and the worker threads as the step
    relation \<open>sched_step\<close>, and the invariant \<open>sched_inv\<close> of states, queues and runs; \<open>Run_Frame\<close> and
    \<open>Scheduler_Inv\<close> prove that it is one.
  \<^item> \<open>Sample_Pipeline\<close>: a camera connected to a viewer, in several states, for the examples that
    accompany the theorems below.
  \<^item> \<open>Blob_Matrix\<close> (\<open>matrix.cpp\<close>) and \<open>Munkres\<close> (\<open>munkres.cpp\<close>): the assignment algorithm of the blob tracker
    (\<open>src/src/plvblobtracker\<close>), for costs of any ordered ring where the program has doubles;
    \<open>Munkres_Path\<close> and \<open>Munkres_Correct\<close> show that it terminates with a complete assignment, of least cost
    when no cost is negative.
  \<^item> \<open>Cv_Rect\<close> (\<open>Util.cpp\<close>) and \<open>Blob_Tracking\<close> (\<open>Blob.cpp\<close>, \<open>BlobTrack.cpp\<close>, \<open>BlobTracker.cpp\<close>,
    \<open>BlobDetector.cpp\<close>): rectangles, blobs, tracks and their matching.  \<open>Blob_Sample\<close> has the examples,
    \<open>Blob_Properties\<close> the properties C26 to C28.
  \<^item> \<open>Qt_Stream\<close> (integers of a \<open>QDataStream\<close>) and \<open>Message_Reader\<close>: the locale \<open>message_reader\<close> is the contract of the
    slots that read messages from a socket, with the lemma that the chunks in which bytes arrive make no
    difference.  \<open>Server_Connection\<close> (\<open>ServerConnection.cpp\<close>) and \<open>Tcp_Client\<close> (\<open>TCPClientProducer.cpp\<close> and the message
    of \<open>TCPServerProcessor::process\<close>) interpret it; \<open>Tcp_Processor\<close> is the rest of \<open>TCPServerProcessor.cpp\<close> and
    \<open>Server.cpp\<close>.  \<open>Tcp_Link\<close> composes the two ends to the step relation \<open>link_step\<close>, with the invariant \<open>link_inv\<close>;
    \<open>Tcp_Properties\<close> has the properties C31 to C34.  Qt's format of variants and how much of a write a socket
    accepts are parameters.  \<open>Tcp_Produce\<close> is the client as an element: how it connects, what it does when an error
    comes, and how the values of a frame are put on its pins.
  \<^item> \<open>Qt_Dom\<close> (XML documents as trees), \<open>Element_Factory\<close> (\<open>PipelineElementFactory.cpp\<close>) and \<open>Pipeline_Loader\<close>
    (\<open>PipelineLoader.cpp\<close>): saving and loading.  The meta objects of the elements are a second store next to that of
    the pipeline; the constructors and property methods of plug-ins are parameters.  \<open>Loader_Properties\<close> has the
    properties C38 to C40.
  \<^item> \<open>Plugin_Io\<close>: methods of plug-ins that have a state of their own, as trees of calls (\<open>plugin_io\<close>) and a monad over
    them (\<open>proc\<close>); \<open>play\<close> runs a method against the contents of its pins, \<open>drive\<close> a sequence of frames, and
    \<open>exec_play\<close> shows that the store does what \<open>play\<close> does.  \<open>Plugin_Run\<close> takes this to whole runs of elements in a
    wired pipeline, so that what is proved with \<open>play\<close> of a processor holds in every pipeline (C12).
  \<^item> \<open>Cv_Mat\<close> (\<open>CvMatData.h\<close>, \<open>CvMatData.cpp\<close>, \<open>CvMatDataPin.cpp\<close>): the header of an image, with its contents as a
    type parameter, and the image pins.  \<open>Cv_Stream\<close> (the stream operators of \<open>CvMatData.cpp\<close> and \<open>Types.cpp\<close>)
    takes for the contents the memory of a matrix, which a region of a matrix shares with it.
  \<^item> The processors of \<open>src/src/plvopencv\<close>: \<open>Image_Control\<close> (\<open>Trigger\<close>, \<open>DelayImage\<close>, \<open>Snapshot\<close>, \<open>CropImage\<close>,
    \<open>CropSubImage\<close>, the buffer of \<open>CameraProducer\<close>), \<open>Image_Filters\<close> (\<open>GaussianSmooth\<close>, the edge detectors,
    \<open>ImageCornerHarris\<close>), \<open>Image_Arith\<close> (\<open>DilateErode\<close>, \<open>ImageFlip\<close>, \<open>ImageThreshold\<close>, \<open>Xor\<close>, \<open>Multiply\<close>, \<open>Diff\<close>,
    \<open>Sub\<close>, \<open>Add\<close>, \<open>Split\<close>, \<open>Average\<close>, \<open>RunningAverage\<close>, \<open>BackgroundSubtractor\<close>), \<open>Image_Stitch\<close> (\<open>Stitch\<close>) and
    \<open>Image_Files\<close> (\<open>SaveImageToFile\<close>, \<open>ImageDirectoryProducer\<close>, \<open>ImageProducer\<close>).  A method has its pins and the
    functions of OpenCV that it calls as arguments; the record of a processor holds its members.
  \<^item> \<open>Camera_Thread\<close> (\<open>OpenCVCamera.cpp\<close>): the camera thread and the calls that start, pause and release it, as the step
    relation \<open>cam_step\<close> with the mutex and the wait condition, and its invariant \<open>cam_inv\<close>.
  \<^item> \<open>Image_Properties\<close> has the properties C12, C13, C15 to C18 and C22.
  \<^item> \<open>Image_Colour\<close> (\<open>ImageColorConvert.cpp\<close>, \<open>Mask.cpp\<close>) and \<open>Image_Detect\<close> (\<open>ViolaJonesFaceDetector.cpp\<close>,
    \<open>ForegroundDetector.cpp\<close>, \<open>VideoProducer.cpp\<close>): more processors, the latter with objects of OpenCV that are made in
    one method and used in another.
  \<^item> \<open>Image_Convert\<close> (\<open>ImageConverter.cpp\<close> of \<open>plvgui\<close>): what the viewers show of an image.
  \<^item> \<open>Kinect_Thread\<close> (\<open>mskinectdevice.cpp\<close>, \<open>mskinectproducer.cpp\<close>): the thread of a Kinect as a step relation, and its
    start and stop; \<open>Kinect_Frames\<close> has the images that are made of its frames, the producer that puts them, and
    \<open>KinectThreshold\<close>.  \<open>View_Properties\<close> has the properties C19, C25, C30 and C36.
  \<^item> \<open>Scene_View\<close> (\<open>PipelineScene.cpp\<close>): the scene of the editor, which follows the signals of the pipeline, and the edits
    that a user makes through it; \<open>Scene_Sync\<close> proves that it stays in view of the pipeline.  \<open>Editor_Properties\<close> has the
    properties C29, C35 and C37.
  \<^item> The logger (\<open>src/src/qxtlogger\<close>): \<open>Log_Engine\<close> has its levels, \<open>Log_Files\<close> what the engines write to streams, files and
    the window of \<open>LogWidget.cpp\<close>, \<open>Log_Xml\<close> the contents of the XML logs, \<open>Logger\<close> (\<open>qxtlogger.cpp\<close>) the map of the engines and
    the calls, \<open>Logger_Safety\<close> and \<open>Logger_Calls\<close> their invariant, and \<open>Log_Stream\<close> the streams with shared values.
    \<open>Logger_Properties\<close> has the properties C11, C14 and C21.
  \<^item> \<open>Main_Window\<close> (\<open>MainWindow.cpp\<close>): the document of the editor's window, as operations over the pipeline and the files that
    are saved; \<open>Window_Inv\<close> has the events and the invariant, \<open>Window_Properties\<close> the properties C23 and C24.

  \<^bold>\<open>Fuel.\<close>  The recursion of \<open>visit\<close> is bounded by one more than the number of elements, which C1 shows to
  suffice.  The loop of \<open>Pipeline::stop\<close> that waits for the workers is bounded by an argument and
  interleaved with a parameter that stands for their progress; C7 shows that one round suffices when
  the runs have ended.

  \<^bold>\<open>Concurrency.\<close>  A run of an element is one step.  The runs of different elements share only the queues
  of the connections and the ready queues, which the program protects by mutexes, and the scheduler
  does not start an element that has not ended its last run.

  \<^bold>\<open>Not modelled.\<close>  Locking, timers and statistics (frames per second, processing times), the texts of
  debug messages, Qt's meta objects, the widgets of \<open>plvgui\<close> (layout, painting, mouse, dialogs;
  \<open>InspectorWidget.cpp\<close>), the driver of the Kinect below \<open>mskinectdevice.cpp\<close>, the loading of shared libraries
  (\<open>Application.cpp\<close>), the mutex of the logger, and the pixel operations of OpenCV.
\<close>

section \<open>Ordering the elements\<close>

text \<open>C1. On a wired pipeline \<open>generateGraphOrdering\<close> always returns.  It answers true exactly when the
  graph has no cycle, and then the ordering it built is topological and has every element of the
  pipeline, in whatever order the set of end nodes is visited.\<close>

theorem graph_ordering_decides_cycles:
  assumes "wired w" and "children w \<noteq> []" and "set (qset (endNodes w)) = set (endNodes w)"
  shows "\<exists>ord. generateGraphOrdering qset w = Some (Inr (acyclic_pipeline w), ord) \<and>
    (acyclic_pipeline w \<longrightarrow> topo (sources w) ord \<and> set ord = nodes w)"
  using assms by (rule generateGraphOrdering_correct)

theorem graph_ordering_decides_cycles_witness:
  "\<exists>ord. generateGraphOrdering rev demo_loop = Some (Inr (acyclic_pipeline demo_loop), ord)"
proof -
  have "children demo_loop \<noteq> []" by code_simp
  with graph_ordering_decides_cycles [of demo_loop rev] demo_loop_wired show ?thesis by auto
qed

section \<open>Delivery of data\<close>





section \<open>The scheduler\<close>

text \<open>C4. Starting an idle, wired, acyclic pipeline whose plug-ins succeed and whose required pins are
  connected establishes the invariant of the scheduler.\<close>

theorem start_establishes_invariant:
  assumes "wired w" and "children w \<noteq> []"
    and "\<And>e. is_child w e \<Longrightarrow> getState e w = PLE_UNDEFINED"
    and "\<And>e. is_child w e \<Longrightarrow> snd (hk_init hk e) = Inr True \<and> snd (hk_start hk e) = Inr True"
    and "\<And>e. is_child w e \<Longrightarrow> requiredPinsConnected e w"
    and "acyclic_pipeline w" and "\<And>xs. set (qset xs) = set xs"
    and "runQueue w = []" and "pl_testCount w = 0" and "ready_empty w"
  shows "\<exists>w'. pipeline_start hk qset w = (Inr (), w') \<and> sched_inv w'"
  by (rule start_sched_inv [OF assms])

theorem start_establishes_invariant_witness:
  "\<exists>w'. pipeline_start demo_hooks rev demo = (Inr (), w') \<and> sched_inv w'"
  by (rule start_establishes_invariant [where qset = rev and hk = demo_hooks, OF demo_wired demo_idle(5)
      demo_undefined _ demo_required demo_acyclic _ demo_idle(1-3)]) (simp_all add: demo_hooks_simps)



text \<open>C6. Under the invariant a call of \<open>schedule\<close> that finds no failed run returns: none of the
  assertions of \<open>schedule\<close> and \<open>dispatch\<close> can fail.\<close>

theorem schedule_never_asserts:
  assumes "sched_inv w" and "\<forall>(i, item) \<in> set (runQueue w). ri_result item \<noteq> Some False"
  shows "\<exists>w'. schedule n workers hk rtp w = Some (Inr (), w') \<and> sched_inv w'"
  using assms by (rule schedule_inv)

theorem schedule_never_asserts_witness:
  "\<exists>w'. schedule 1 id demo_hooks (\<lambda>e. True) demo_started = Some (Inr (), w') \<and> sched_inv w'"
  using schedule_never_asserts [OF demo_started_inv(1)] by (simp add: demo_started_inv(2))



section \<open>Editing the pipeline\<close>

text \<open>C8. Removing an element from a wired pipeline succeeds, whatever it is connected to: the element is
  gone and the pipeline is wired.\<close>

theorem removeElement_keeps_wiring:
  assumes "wired w"
  shows "\<exists>w'. removeElement i w = (Inr (), w') \<and> wired w' \<and> children w' = qm_remove i (children w)"
  using assms by (rule removeElement_wired)

theorem removeElement_keeps_wiring_witness:
  "\<exists>w'. removeElement 1 demo = (Inr (), w') \<and> wired w' \<and> children w' = [(0, 0), (2, 2)]"
proof -
  have "qm_remove 1 (children demo) = [(0, 0), (2, 2)]" by code_simp
  with removeElement_keeps_wiring [OF demo_wired, of 1] show ?thesis by simp
qed

text \<open>C9. Connecting two pins of elements of the pipeline keeps the wiring, also when it ends with an
  exception.\<close>

theorem connectPins_keeps_wiring:
  assumes "wired w" and "is_child w e" and "p \<in> set (outputPins e w)"
    and "is_child w e'" and "q \<in> set (inputPins e' w)"
  shows "wired (snd (connectPins qt p q w))"
  using assms by (rule connectPins_wired)

theorem connectPins_keeps_wiring_witness: "wired (snd (connectPins demo_qt 1 2 demo))"
proof -
  have "is_child demo 1" "1 \<in> set (outputPins 1 demo)" "is_child demo 2" "2 \<in> set (inputPins 2 demo)"
    by code_simp+
  with connectPins_keeps_wiring [OF demo_wired] show ?thesis by blast
qed

text \<open>C10. \<open>canConnectPins\<close> answers true exactly when \<open>connectPins\<close> makes the connection, and the id of the
  new connection is then one that no other connection of the pipeline has.\<close>

theorem canConnectPins_iff_connectPins:
  assumes "wired w"
  shows "(fst (fst (canConnectPins qt p q w)) \<longleftrightarrow> (\<exists>i w'. connectPins qt p q w = (Inr i, w'))) \<and>
    (\<forall>i w'. connectPins qt p q w = (Inr i, w') \<longrightarrow> i \<notin> fst ` set (connections w))"
  using connectPins_iff [of qt p q w] connectPins_fresh [OF assms, of qt p q] by blast

theorem canConnectPins_iff_connectPins_witness:
  "\<not> (\<exists>i w'. connectPins demo_qt 1 2 demo = (Inr i, w'))"
proof -
  have "\<not> fst (fst (canConnectPins demo_qt 1 2 demo))" by code_simp
  with canConnectPins_iff_connectPins [OF demo_wired] show ?thesis by blast
qed

text \<open>Adding an element with unconnected pins and an unused id keeps the wiring, and the id it gets is
  not in use.\<close>

theorem addElement_keeps_wiring:
  assumes "wired w" and "addable w e"
  shows "wired (snd (addElement e w)) \<and> fst (addElement e w) \<notin> fst ` set (children w) \<and>
    map_of (children (snd (addElement e w))) (fst (addElement e w)) = Some e"
proof -
  from assms(2) have can: "canAddElement e w" by (simp add: addable_def)
  have "map_of (qm_insert (newElementId e w) e (children w)) (newElementId e w) = Some e"
    by (rule qm.val_ins_same [OF wired_maps(1) [OF assms(1)]])
  with addElement_wired [OF assms] newElementId_fresh [OF assms(1) can] show ?thesis
    by (simp add: addElement_eq [OF can] inserted_simps)
qed

theorem addElement_keeps_wiring_witness:
  "wired (snd (addElement 3 demo)) \<and> fst (addElement 3 demo) \<notin> fst ` set (children demo)"
proof -
  have "addable demo 3" by code_simp
  with addElement_keeps_wiring [OF demo_wired] show ?thesis by blast
qed

text \<open>Clearing a wired pipeline that is not running succeeds and leaves no element and no connection;
  the assertions of the destructor hold after it.\<close>

theorem clear_empties_pipeline:
  assumes "wired w" and "\<not> pl_running w"
  shows "\<exists>w'. pipeline_clear w = (Inr (), w') \<and> isEmpty w' \<and> connections w' = [] \<and>
    producers w' = [] \<and> processors w' = []"
  using pipeline_clear_run [OF assms] by blast

theorem clear_empties_pipeline_witness: "\<exists>w'. pipeline_clear demo = (Inr (), w') \<and> isEmpty w'"
  using clear_empties_pipeline [OF demo_wired] demo_idle(4) by blast

text \<open>The warning of \<open>addElement\<close> about an id in use does not keep the method from replacing the
  element that has the id: it is no longer a child, though its connections stay in the pipeline.\<close>

theorem addElement_replaces_id_in_use:
  assumes "qm_inv (children w)" and "map_of (children w) i = Some e0" and "el_id (elems w e) = i" and "i \<noteq> - 1"
  shows "\<not> canAddElement e w \<and> map_of (children (snd (addElement e w))) i = Some e \<and>
    connections (snd (addElement e w)) = connections w"
  using assms by (simp add: addElement_def canAddElement_def Let_def qm_contains_iff map_of_qm_insert)

theorem addElement_replaces_id_in_use_witness:
  "map_of (children (snd (addElement 7 (demo\<lparr>elems := (elems demo)(7 := elems demo 0)\<rparr>)))) 0 = Some 7"
  using addElement_replaces_id_in_use [of "demo\<lparr>elems := (elems demo)(7 := elems demo 0)\<rparr>" 0 0 7]
  by (simp add: demo_def demo_world_def demo_elem_def)

text \<open>A pipeline that was saved and in which pins are connected afterwards is not saved again: \<open>save\<close>
  returns true and writes nothing.\<close>

theorem new_connection_is_not_saved:
  assumes "\<not> pl_changed w" and "connectPins qt p q w = (Inr i, w')"
  shows "save ser w' = (Inr True, w')"
  using connectPins_changed [OF assms(2)] assms(1) by (simp add: save_def)

theorem new_connection_is_not_saved_witness:
  "save (\<lambda>f w. Inl UnknownException) (snd (connectPins demo_qt 1 3 (snd (pinConnectionDisconnect 2 demo)))) =
     (Inr True, snd (connectPins demo_qt 1 3 (snd (pinConnectionDisconnect 2 demo))))"
proof -
  have "fst (connectPins demo_qt 1 3 (snd (pinConnectionDisconnect 2 demo))) = Inr 2"
    "\<not> pl_changed (snd (pinConnectionDisconnect 2 demo))"
    by code_simp+
  then show ?thesis by (intro new_connection_is_not_saved) (auto simp: prod_eq_iff)
qed

section \<open>Starting and stopping\<close>

text \<open>A pipeline that was started and stopped can be started again.  Each start adds a connection of
  the heartbeat timer to \<open>schedule\<close> that \<open>stop\<close> does not remove: after the second start there are two
  more than before the first.\<close>

theorem restart_adds_slot_connections:
  assumes "wired w" and "children w \<noteq> []"
    and "\<And>e. is_child w e \<Longrightarrow> getState e w = PLE_UNDEFINED"
    and "\<And>e. is_child w e \<Longrightarrow> snd (hk_init hk e) = Inr True \<and> snd (hk_start hk e) = Inr True \<and>
       (\<exists>b. snd (hk_stop hk e) = Inr b) \<and> snd (hk_deinit hk e)"
    and "\<And>e. is_child w e \<Longrightarrow> requiredPinsConnected e w"
    and "acyclic_pipeline w" and "\<And>xs. set (qset xs) = set xs" and "runQueue w = []"
  shows "\<exists>w1 w2 w3. pipeline_start hk qset w = (Inr (), w1) \<and> pl_running w1 \<and>
    pipeline_stop n workers hk w1 = Some (Inr (), w2) \<and> \<not> pl_running w2 \<and>
    pipeline_start hk qset w2 = (Inr (), w3) \<and> pl_running w3 \<and> pl_slots w3 = pl_slots w + 2"
  by (rule start_stop_start [OF assms])

theorem restart_adds_slot_connections_witness:
  "\<exists>w1 w2 w3. pipeline_start demo_hooks id demo = (Inr (), w1) \<and> pl_running w1 \<and>
    pipeline_stop 0 id demo_hooks w1 = Some (Inr (), w2) \<and> \<not> pl_running w2 \<and>
    pipeline_start demo_hooks id w2 = (Inr (), w3) \<and> pl_running w3 \<and> pl_slots w3 = pl_slots demo + 2"
  by (rule restart_adds_slot_connections [where qset = id and hk = demo_hooks, OF demo_wired demo_idle(5)
      demo_undefined _ demo_required demo_acyclic _ demo_idle(1)]) (auto simp: demo_hooks_simps)

text \<open>On a pipeline with a cycle \<open>start\<close> returns without deinitialising what it initialised: the
  elements stay in \<open>PLE_INITIALIZED\<close>, and the next \<open>start\<close> fails an assertion.\<close>

theorem start_with_cycle_leaves_initialized:
  assumes "wired w" and "children w \<noteq> []"
    and "\<And>e. is_child w e \<Longrightarrow> getState e w = PLE_UNDEFINED"
    and "\<And>e. is_child w e \<Longrightarrow> snd (hk_init hk e) = Inr True"
    and "\<And>e. is_child w e \<Longrightarrow> requiredPinsConnected e w"
    and "\<not> acyclic_pipeline w" and "\<And>xs. set (qset xs) = set xs"
  shows "\<exists>w'. pipeline_start hk qset w = (Inr (), w') \<and> pl_running w' = pl_running w \<and> children w' = children w \<and>
    (\<forall>e. is_child w e \<longrightarrow> getState e w' = PLE_INITIALIZED) \<and>
    fst (pipeline_start hk qset w') = Inl AssertFailed"
  by (rule start_cycle [OF assms])

theorem start_with_cycle_leaves_initialized_witness:
  "\<exists>w'. pipeline_start demo_hooks id demo_loop = (Inr (), w') \<and>
    fst (pipeline_start demo_hooks id w') = Inl AssertFailed"
proof -
  have "\<forall>e \<in> snd ` set (children demo_loop). getState e demo_loop = PLE_UNDEFINED \<and> requiredPinsConnected e demo_loop"
    by code_simp
  then have "getState e demo_loop = PLE_UNDEFINED" "requiredPinsConnected e demo_loop" if "is_child demo_loop e" for e
    using that by (auto simp: is_child_def)
  moreover have "children demo_loop \<noteq> []" by (simp add: demo_loop_def)
  ultimately show ?thesis
    using start_with_cycle_leaves_initialized [OF demo_loop_wired _ _ _ _ demo_loop_cyclic, of demo_hooks id]
    by (auto simp: demo_hooks_simps)
qed

text \<open>When the \<open>init\<close> of a plug-in throws without having called \<open>setError\<close>, the element is still in
  \<open>PLE_UNDEFINED\<close> when \<open>Pipeline::init\<close> calls \<open>__deinit\<close> on it, whose assertion fails.\<close>

theorem init_exception_fails_assertion:
  assumes "children w = (i, e) # m" and "getState e w = PLE_UNDEFINED"
    and "hk_init hk e = (None, Inl x)" and "catchable x"
  shows "fst (pipeline_init hk qset w) = Inl AssertFailed"
  using assms by (rule init_throw_asserts)

theorem init_exception_fails_assertion_witness:
  "fst (pipeline_init (demo_hooks\<lparr>hk_init := (\<lambda>e. (None, Inl (RuntimeError ''no camera'')))\<rparr>) id demo) = Inl AssertFailed"
  by (rule init_exception_fails_assertion [of _ 0 0 "[(1, 1), (2, 2)]" _ "RuntimeError ''no camera''"])
    (simp_all add: demo_def demo_world_def getState_def demo_elem_def catchable_def)

text \<open>When the \<open>init\<close> of a plug-in returns false without having called \<open>setError\<close>, \<open>Pipeline::init\<close>
  takes it for a success, with the element in \<open>PLE_ERROR\<close>.\<close>

theorem init_failure_without_error_ignored:
  assumes "children w = [(i, e)]" and "getState e w = PLE_UNDEFINED"
    and "hk_init hk e = (None, Inr False)" and "el_errorType (elems w e) = PlvNoError" and "qset [e] = [e]"
  shows "\<exists>w'. pipeline_init hk qset w = (Inr True, w') \<and> getState e w' = PLE_ERROR"
  using init_false_ignored [where qset = qset, OF assms(1-4)] assms(5) by auto

theorem init_failure_without_error_ignored_witness:
  "\<exists>w'. pipeline_init (demo_hooks\<lparr>hk_init := (\<lambda>e. (None, Inr False))\<rparr>) id (demo\<lparr>children := [(0, 0)]\<rparr>) = (Inr True, w') \<and>
    getState 0 w' = PLE_ERROR"
  by (rule init_failure_without_error_ignored [of _ 0])
    (simp_all add: demo_def demo_world_def getState_def demo_elem_def)

section \<open>Processing\<close>

text \<open>A processor that reads none of its inputs goes unnoticed: its run returns what the plug-in
  returned, its input queues are unchanged, and no one asks \<open>IInputPin::post\<close>, which would throw for every
  connected synchronous pin.\<close>

theorem unread_inputs_go_unnoticed:
  assumes "wired w" and "is_child w e" and "fst (preInput e (setProcessingSerial e s w)) = Inr False"
    and "processor_process e (Return b) s w = (Inr r, w')"
  shows "r = b \<and> (\<forall>c \<in> set (inputConnections e w). c_queue (conns w' c) = c_queue (conns w c)) \<and>
    (\<forall>q \<in> set (inputPins e w). isSyncConnected w q \<longrightarrow> (\<exists>m. ipin_post q w' = Inl (RuntimeError m)))"
  by (rule processor_reads_nothing [OF wired_local [OF assms(1,2)] assms(3,4)])

theorem unread_inputs_go_unnoticed_witness:
  "\<exists>m. ipin_post 1 (snd (processor_process 1 (Return True) 1 demo_frame)) = Inl (RuntimeError m)"
proof -
  have "fst (processor_process 1 (Return True) 1 demo_frame) = Inr True"
    "fst (preInput 1 (setProcessingSerial 1 1 demo_frame)) = Inr False"
    "1 \<in> set (inputPins 1 demo_frame)" "isSyncConnected demo_frame 1" "wired demo_frame" "is_child demo_frame 1"
    by code_simp+
  with unread_inputs_go_unnoticed [of demo_frame 1 1 True True "snd (processor_process 1 (Return True) 1 demo_frame)"]
  show ?thesis by (simp add: prod_eq_iff)
qed

text \<open>C20. The row counter: with \<open>n\<close> synchronous pins, a call of \<open>ScoreBoard::add\<close> answers true exactly when
  the number of calls with its serial so far is a multiple of \<open>n\<close>, whatever other serials came in
  between.\<close>

theorem scoreboard_completes_rows:
  assumes "0 < n"
  shows "fst (sb_add s (snd (add_run ss (setPinCount n sb_new)))) \<longleftrightarrow> int (count_list (ss @ [s]) s) mod n = 0"
proof -
  let ?sb = "setPinCount n sb_new"
  have n: "m_pincount ?sb = n" by (simp add: setPinCount_def)
  have z: "sb_abs ?sb t = 0" for t by (simp add: sb_abs_def sb_value_def setPinCount_def sb_new_def)
  have c: "sb_abs (snd (add_run ss ?sb)) s = int (count_list ss s) mod n"
    using add_run_count [of ?sb ss s] assms n z by simp
  have "int (count_list (ss @ [s]) s) mod n = (int (count_list ss s) + 1) mod n" by (simp add: add.commute)
  also have "\<dots> = (if int (count_list ss s) mod n + 1 = n then 0 else int (count_list ss s) mod n + 1)"
    by (rule mod_add_one_int [OF assms]) simp
  finally show ?thesis
    using c n pos_mod_sign [OF assms, of "int (count_list ss s)"] by (auto simp: sb_add_fst)
qed

theorem scoreboard_completes_rows_witness:
  "fst (sb_add 4 (snd (add_run [4, 5] (setPinCount 2 sb_new))))"
  using scoreboard_completes_rows [of 2 4 "[4, 5]"] by simp

text \<open>A connection is a queue: when the items \<open>ds\<close> were put into a flushed connection, the item got
  after \<open>n\<close> calls of \<open>get\<close> is the one at position \<open>n\<close>.\<close>

theorem connection_first_in_first_out:
  assumes "forM (conn_put c) ds (conn_flush c w) = (Inr (), w')" and "n < length ds"
  shows "fst (conn_get c (((\<lambda>w. snd (conn_get c w)) ^^ n) w')) = Inr (ds ! n)"
proof -
  have "conns w' c = fold conn_push ds (conn_clear (conns w c))"
    using forM_conn_put [OF assms(1)] by (simp add: conn_flush_def)
  moreover from this have "n \<le> length (c_queue (conns w' c))"
    using assms(2) by (simp add: pcq.items_fold_push pcq.items_clear)
  ultimately have "conn_front (conns (((\<lambda>w. snd (conn_get c w)) ^^ n) w') c) = Some (ds ! n)"
    using conn_get_conns [of n w' c] pcq.front_order [OF assms(2)] by simp
  then show ?thesis by (rule conn_get_front)
qed

theorem connection_first_in_first_out_witness:
  "\<exists>w'. fst (conn_get 0 w') = Inr (Data_payload 1 7) \<and>
     forM (conn_put 0) [Data_payload 1 7] (conn_flush 0 demo_started) = (Inr (), w')"
proof -
  have "fst (forM (conn_put 0) [Data_payload 1 7] (conn_flush 0 demo_started)) = Inr ()" by code_simp
  then obtain w' where w': "forM (conn_put 0) [Data_payload 1 7] (conn_flush 0 demo_started) = (Inr (), w')"
    by (metis prod.collapse)
  with connection_first_in_first_out [OF w', of 0] show ?thesis by auto
qed

text \<open>\<open>fastforward\<close> answers whether the connection has an item of the target serial; it removes the items
  before the first such item, and all items when there is none.\<close>

theorem fastforward_finds_serial:
  "conn_fastforward t c w =
     (t \<in> d_serial ` set (c_queue (conns w c)),
      upd_conn c (\<lambda>cn. cn\<lparr>c_queue := dropWhile (\<lambda>d. d_serial d \<noteq> t) (c_queue (conns w c))\<rparr>) w)"
  by (simp add: conn_fastforward_def ff_loop_dropWhile)

text \<open>The serial numbers wrap around: the frame after the one with serial 0 makes the assertion of
  \<open>newData\<close> fail when it reaches a synchronous consumer that has not processed the frame of serial 0.\<close>

theorem newData_fails_after_wrap:
  assumes "el_hasPipeline (elems w e)" and "el_hasSynchronousPin (elems w e)"
    and "ip_synchronous (ipins w q) = CONNECTION_SYNCHRONOUS" and "el_serial (elems w e) = - 1"
  shows "fst (newData e q 0 w) \<noteq> Inl AssertFailed \<and> newData e q 1 w = (Inl AssertFailed, w)"
proof -
  have "\<not> (- 1 :: 32 word) < 1" by simp
  with assms have "newData e q 1 w = (Inl AssertFailed, w)" by (simp add: newData_def)
  moreover have "fst (pipelineDataConsumerReady 0 e v) \<noteq> Inl AssertFailed" for v :: "'a plv"
    by (simp add: pipelineDataConsumerReady_def Let_def split: option.split)
  then have "fst (newData e q 0 w) \<noteq> Inl AssertFailed"
    using assms by (simp add: newData_def Let_def split: prod.split)
  ultimately show ?thesis by blast
qed

theorem newData_fails_after_wrap_witness:
  "newData 1 1 1 (upd_elem 1 (\<lambda>el. el\<lparr>el_serial := - 1\<rparr>) demo_started) =
     (Inl AssertFailed, upd_elem 1 (\<lambda>el. el\<lparr>el_serial := - 1\<rparr>) demo_started)"
  using newData_fails_after_wrap [of "upd_elem 1 (\<lambda>el. el\<lparr>el_serial := - 1\<rparr>) demo_started" 1 1]
  by (simp add: demo_started_def demo_world_def demo_elem_def demo_ipin_def)

section \<open>Identifiers and enumerations\<close>

text \<open>On a pipeline whose ids are not negative, the id for a new element is the least one that is not in
  use.\<close>

theorem new_element_id_is_least:
  assumes "wired w" and "\<forall>i \<in> fst ` set (children w). 0 \<le> i"
  shows "getNewPipelineElementId w \<notin> fst ` set (children w) \<and>
    (\<forall>j. 0 \<le> j \<longrightarrow> j < getNewPipelineElementId w \<longrightarrow> j \<in> fst ` set (children w))"
  unfolding getNewPipelineElementId_def
  using newIdScan_fresh [OF wired_maps(1) [OF assms(1)]] newIdScan_below [OF wired_maps(1) [OF assms(1)] assms(2)]
  by blast

theorem new_element_id_is_least_witness: "getNewPipelineElementId demo \<notin> fst ` set (children demo)"
proof -
  have "\<forall>i \<in> fst ` set (children demo). 0 \<le> i" by (simp add: demo_def demo_world_def)
  with new_element_id_is_least [OF demo_wired] show ?thesis by blast
qed

text \<open>In an enumeration built with \<open>add\<close>, with distinct names, selecting the name of item \<open>i\<close> selects
  index \<open>i\<close>, and the name and value of the selection are those of the item.  Selecting a name that no item
  has changes nothing.\<close>

theorem enum_select_by_name:
  assumes "enum_inv e" and "distinct (map m_name (map snd (m_items e)))" and "i < length (m_items e)"
    and "x \<notin> m_name ` set (map snd (m_items e))"
  shows "m_selectedIndex (setSelected (m_name (map snd (m_items e) ! i)) e) = int i \<and>
    getSelectedItemName (setSelected (m_name (map snd (m_items e) ! i)) e) = Inr (m_name (map snd (m_items e) ! i)) \<and>
    getSelectedValue (setSelected (m_name (map snd (m_items e) ! i)) e) = Inr (m_value (map snd (m_items e) ! i)) \<and>
    setSelected x e = e"
proof -
  have f: "findName (m_name (map snd (m_items e) ! i)) 0 (map snd (m_items e)) = Some (int i)"
    using findName_nth [OF assms(2), of i 0] assms(3) by simp
  have "findName x 0 (map snd (m_items e)) = None" using assms(4) by (simp add: findName_None)
  then have "setSelected x e = e" by (simp add: setSelected_def)
  moreover have "map_of (m_items e) (int i) = Some (map snd (m_items e) ! i)"
    using map_of_items [OF assms(1), of "int i"] assms(3) by simp
  ultimately show ?thesis
    using f by (simp add: setSelected_def getSelectedItemName_def getItemName_def getSelectedValue_def getItemValue_def)
qed

theorem enum_select_by_name_witness:
  "getSelectedValue (setSelected ''blue'' (enum_add ''blue'' 30 (enum_add ''red'' 10 (enum_new 0)))) = Inr 30"
proof -
  let ?e = "enum_add ''blue'' 30 (enum_add ''red'' 10 (enum_new 0))"
  have "enum_inv ?e" by (intro enum_add_inv enum_inv_new)
  moreover have "map snd (m_items ?e) = [\<lparr>m_name = ''red'', m_value = 10\<rparr>, \<lparr>m_name = ''blue'', m_value = 30\<rparr>]"
    by (simp add: enum_add_def enum_new_def)
  moreover have "length (m_items ?e) = 2" by (simp add: enum_add_def enum_new_def)
  ultimately show ?thesis using enum_select_by_name [of ?e 1 "''green''"] by simp
qed

end
